(* ===== verification/Prelude.thy ===== *)
theory Prelude
  imports Main "HOL-Library.Word" "HOL-Library.List_Lexorder" "HOL-Library.Char_ord"
begin

unbundle bit_operations_syntax

text \<open>
  What every component shares: the Go machine types, instants and durations, maps and the update of an
  entry through a pointer, and byte slices with the big-endian accessors of
  \<^verbatim>\<open>encoding/binary\<close>.

  A Go \<^verbatim>\<open>time.Time\<close> is the number of nanoseconds since the zero \<^verbatim>\<open>Time\<close>, so
  \<^verbatim>\<open>IsZero\<close> is \<open>t = 0\<close>, \<^verbatim>\<open>a.After(b)\<close> is \<open>b < a\<close> and \<^verbatim>\<open>a.Add(d)\<close> is
  \<open>a + d\<close>; a \<^verbatim>\<open>time.Duration\<close> is its number of nanoseconds.
\<close>

named_theorems frame_simps \<open>what an update of the state leaves unchanged\<close>
named_theorems byte_simps \<open>reading back what was written to a byte slice\<close>

type_synonym byte = "8 word"
type_synonym u16 = "16 word"
type_synonym u32 = "32 word"
type_synonym u64 = "64 word"
type_synonym time = int
type_synonym duration = int

abbreviation second :: duration where
  "second \<equiv> 1000000000"

section \<open>Maps\<close>

text \<open>
  A Go map is the list of its entries, without a key twice, so that it can be enumerated.
  \<open>upd\<close> is \<^verbatim>\<open>m[k].field = v\<close> on a map of pointers: nothing is inserted.
\<close>

type_synonym ('k, 'v) gomap = "('k \<times> 'v) list"

definition sortedKeys :: "('k::linorder, 'v) gomap \<Rightarrow> 'k list" where
  "sortedKeys m = sort (remdups (map fst m))"

definition map_vals :: "('k \<Rightarrow> 'v \<Rightarrow> 'w) \<Rightarrow> ('k, 'v) gomap \<Rightarrow> ('k, 'w) gomap" where
  "map_vals f m = map (\<lambda>(k, v). (k, f k v)) m"

definition upd :: "('k, 'v) gomap \<Rightarrow> 'k \<Rightarrow> ('v \<Rightarrow> 'v) \<Rightarrow> ('k, 'v) gomap" where
  "upd m k f = map_vals (\<lambda>j v. if j = k then f v else v) m"

lemma set_sortedKeys [simp]: "set (sortedKeys m) = fst ` set m"
  by (simp add: sortedKeys_def)

lemma distinct_sortedKeys [simp]: "distinct (sortedKeys m)"
  by (simp add: sortedKeys_def)

lemma map_of_map_vals [simp]: "map_of (map_vals f m) k = map_option (f k) (map_of m k)"
  by (induction m) (auto simp: map_vals_def)

lemma keys_map_vals [simp]: "map fst (map_vals f m) = map fst m"
  by (simp add: map_vals_def comp_def case_prod_beta)

lemma fst_map_vals [simp]: "fst ` set (map_vals f m) = fst ` set m"
  by (metis keys_map_vals list.set_map)

lemma sortedKeys_map_vals [simp]: "sortedKeys (map_vals f m) = sortedKeys m"
  by (simp add: sortedKeys_def)

lemma map_vals_comp [simp]: "map_vals g (map_vals f m) = map_vals (\<lambda>k v. g k (f k v)) m"
  by (simp add: map_vals_def comp_def case_prod_beta)

lemma map_vals_id [simp]: "map_vals (\<lambda>k v. v) m = m"
  by (simp add: map_vals_def)

lemma map_of_upd [simp]:
  "map_of (upd m k f) j = (if j = k then map_option f (map_of m j) else map_of m j)"
  by (simp add: upd_def option.map_ident)

lemma keys_upd [simp]: "map fst (upd m k f) = map fst m"
  by (simp add: upd_def)

lemma upd_Nil [simp]: "upd [] k f = []"
  by (simp add: upd_def map_vals_def)

lemma upd_id [simp]: "upd m k (\<lambda>x. x) = m"
  by (simp add: upd_def)

section \<open>Loops over a list\<close>

lemma fold_inv:
  assumes "P s" and "\<And>x s. x \<in> set xs \<Longrightarrow> P s \<Longrightarrow> P (f x s)"
  shows "P (fold f xs s)"
  using assms by (induction xs arbitrary: s) auto

lemma fold_const:
  assumes "\<And>x s. x \<in> set xs \<Longrightarrow> g (f x s) = g s"
  shows "g (fold f xs s) = g s"
  using assms by (induction xs arbitrary: s) auto

text \<open>
  A loop that gives each key its own postcondition: the body establishes \<open>Q\<close> at its key, keeps
  \<open>Q\<close> at the keys visited before, and keeps what the body needs of the state.
\<close>

lemma fold_each:
  assumes "I s" and "\<And>x s. x \<in> set xs \<Longrightarrow> I s \<Longrightarrow> I (f x s)"
    and "\<And>x s. x \<in> set xs \<Longrightarrow> I s \<Longrightarrow> Q x (f x s)"
    and "\<And>x y s. x \<in> set xs \<Longrightarrow> y \<in> set xs \<Longrightarrow> I s \<Longrightarrow> Q y s \<Longrightarrow> Q y (f x s)"
  shows "I (fold f xs s) \<and> (\<forall>x \<in> set xs. Q x (fold f xs s))"
  using assms
proof (induction xs rule: rev_induct)
  case Nil
  then show ?case by simp
next
  case (snoc x xs)
  have IH: "I (fold f xs s) \<and> (\<forall>x \<in> set xs. Q x (fold f xs s))"
    using snoc.prems by (intro snoc.IH) auto
  then have "I (f x (fold f xs s))" "Q x (f x (fold f xs s))"
    using snoc.prems(2,3) by auto
  moreover have "\<forall>y \<in> set xs. Q y (f x (fold f xs s))"
    using IH snoc.prems(4) by auto
  ultimately show ?case by auto
qed

section \<open>Early returns\<close>

text \<open>The first error of a loop over a list, as the early returns leave it.\<close>

fun first_error :: "('a \<Rightarrow> 'e option) \<Rightarrow> 'a list \<Rightarrow> 'e option" where
  "first_error f [] = None"
| "first_error f (x # xs) = (case f x of Some e \<Rightarrow> Some e | None \<Rightarrow> first_error f xs)"

text \<open>\<^verbatim>\<open>if err := a; err != nil { return err }; b\<close>\<close>

definition or_else :: "'e option \<Rightarrow> 'e option \<Rightarrow> 'e option" where
  "or_else a b = (case a of Some e \<Rightarrow> Some e | None \<Rightarrow> b)"

lemma first_error_None [simp]: "first_error f xs = None \<longleftrightarrow> (\<forall>x \<in> set xs. f x = None)"
  by (induction xs) (auto split: option.splits)

lemma or_else_None [simp]: "or_else a b = None \<longleftrightarrow> a = None \<and> b = None"
  by (simp add: or_else_def split: option.splits)

section \<open>Sorted lists\<close>

text \<open>\<^verbatim>\<open>slices.Sort\<close> then \<^verbatim>\<open>slices.Compact\<close>.\<close>

definition sort_compact :: "'a::linorder list \<Rightarrow> 'a list" where
  "sort_compact xs = remdups_adj (sort xs)"

lemma set_sort_compact [simp]: "set (sort_compact xs) = set xs"
  by (simp add: sort_compact_def)

lemma sort_compact_idem [simp]: "sort_compact (sort_compact xs) = sort_compact xs"
  by (simp add: sort_compact_def sorted_sort_id distinct_adj_altdef [symmetric])

section \<open>Byte slices\<close>

text \<open>A Go string is a sequence of octets.\<close>

definition byte_of_char :: "char \<Rightarrow> byte" where
  "byte_of_char c = of_nat (of_char c)"

definition char_of_byte :: "byte \<Rightarrow> char" where
  "char_of_byte b = char_of (unat b)"

lemma char_of_byte_of_char [simp]: "char_of_byte (byte_of_char c) = c"
proof -
  have "of_char c < (256 :: nat)"
    by (rule nat_of_char_less_256)
  then show ?thesis
    by (simp add: char_of_byte_def byte_of_char_def unat_of_nat take_bit_nat_eq_self)
qed

text \<open>\<^verbatim>\<open>copy(p[off:], bs)\<close> inside the slice, and the slice \<^verbatim>\<open>p[lo:hi]\<close>.\<close>

definition blit :: "byte list \<Rightarrow> nat \<Rightarrow> byte list \<Rightarrow> byte list" where
  "blit p off bs = take off p @ bs @ drop (off + length bs) p"

definition slice :: "byte list \<Rightarrow> nat \<Rightarrow> nat \<Rightarrow> byte list" where
  "slice p lo hi = take (hi - lo) (drop lo p)"

definition be16 :: "u16 \<Rightarrow> byte list" where
  "be16 v = [ucast (drop_bit 8 v), ucast v]"

definition be32 :: "u32 \<Rightarrow> byte list" where
  "be32 v = [ucast (drop_bit 24 v), ucast (drop_bit 16 v), ucast (drop_bit 8 v), ucast v]"

fun u16_of :: "byte list \<Rightarrow> u16" where
  "u16_of [a, b] = (push_bit 8 (ucast a) OR ucast b)"
| "u16_of _ = 0"

fun u32_of :: "byte list \<Rightarrow> u32" where
  "u32_of [a, b, c, d] =
     (push_bit 24 (ucast a) OR push_bit 16 (ucast b) OR push_bit 8 (ucast c) OR ucast d)"
| "u32_of _ = 0"

lemma length_be16 [simp]: "length (be16 v) = 2"
  by (simp add: be16_def)

lemma length_be32 [simp]: "length (be32 v) = 4"
  by (simp add: be32_def)

lemma u16_of_be16 [simp]: "u16_of (be16 v) = v"
  unfolding be16_def u16_of.simps
  by (rule bit_word_eqI) (auto simp: bit_simps)

lemma u32_of_be32 [simp]: "u32_of (be32 v) = v"
  unfolding be32_def u32_of.simps
proof (rule bit_word_eqI)
  fix n
  assume "n < LENGTH(32)"
  then consider "n < 8" | "8 \<le> n" "n < 16" | "16 \<le> n" "n < 24" | "24 \<le> n" "n < 32"
    by fastforce
  then show "bit (push_bit 24 (ucast (ucast (drop_bit 24 v) :: byte)) OR
      push_bit 16 (ucast (ucast (drop_bit 16 v) :: byte)) OR
      push_bit 8 (ucast (ucast (drop_bit 8 v) :: byte)) OR ucast (ucast v :: byte) :: u32) n = bit v n"
    by cases (auto simp: bit_simps)
qed

lemma length_blit [byte_simps]:
  "off + length bs \<le> length p \<Longrightarrow> length (blit p off bs) = length p"
  by (simp add: blit_def)

lemma slice_blit_same [byte_simps]:
  "off + length bs \<le> length p \<Longrightarrow> hi = off + length bs \<Longrightarrow> slice (blit p off bs) off hi = bs"
  by (simp add: blit_def slice_def)

lemma slice_blit_below [byte_simps]:
  "off + length bs \<le> length p \<Longrightarrow> hi \<le> off \<Longrightarrow> slice (blit p off bs) lo hi = slice p lo hi"
  by (cases "lo \<le> hi") (simp_all add: blit_def slice_def min_def take_drop)

lemma slice_blit_above [byte_simps]:
  "off + length bs \<le> length p \<Longrightarrow> off + length bs \<le> lo \<Longrightarrow>
   slice (blit p off bs) lo hi = slice p lo hi"
  by (simp add: blit_def slice_def)

lemma nth_blit_below [byte_simps]:
  "off + length bs \<le> length p \<Longrightarrow> i < off \<Longrightarrow> blit p off bs ! i = p ! i"
  by (simp add: blit_def nth_append)

lemma nth_blit_above [byte_simps]:
  "off + length bs \<le> length p \<Longrightarrow> off + length bs \<le> i \<Longrightarrow> blit p off bs ! i = p ! i"
  by (auto simp: blit_def nth_append not_less)

lemma nth_blit_in [byte_simps]:
  "off + length bs \<le> length p \<Longrightarrow> off \<le> i \<Longrightarrow> i < off + length bs \<Longrightarrow>
   blit p off bs ! i = bs ! (i - off)"
  by (simp add: blit_def nth_append not_less less_diff_conv2)

end
