(* ===== verification/Net.thy ===== *)
theory Net
  imports Prelude
begin

text \<open>
  The value types of \<^verbatim>\<open>src/common/net\<close>: hardware addresses
  (\<^verbatim>\<open>netaddr/mac.go\<close>), VLAN identifiers (\<^verbatim>\<open>vlan/vlan.go\<close>), Ethernet frames
  (\<^verbatim>\<open>ethernet/ethernet.go\<close>) and bridge identifiers with their order
  (\<^verbatim>\<open>bpdu/bpdu.go\<close>).
\<close>

section \<open>Hardware addresses\<close>

text \<open>\<^verbatim>\<open>type MAC [6]byte\<close>.\<close>

datatype mac = MAC byte byte byte byte byte byte

fun mac_bytes :: "mac \<Rightarrow> byte list" where
  "mac_bytes (MAC a b c d e f) = [a, b, c, d, e, f]"

text \<open>\<^verbatim>\<open>var m MAC; copy(m[:], bs)\<close> for six octets.\<close>

fun mac_of :: "byte list \<Rightarrow> mac" where
  "mac_of [a, b, c, d, e, f] = MAC a b c d e f"
| "mac_of _ = MAC 0 0 0 0 0 0"

definition mac_IsGroup :: "mac \<Rightarrow> bool" where
  "mac_IsGroup m = (hd (mac_bytes m) AND 1 \<noteq> 0)"

text \<open>\<^verbatim>\<open>Local(n)\<close>: a locally administered address with \<open>n\<close> in the last three octets.\<close>

definition mac_Local :: "u32 \<Rightarrow> mac" where
  "mac_Local n = MAC 2 0 0 (ucast (drop_bit 16 n)) (ucast (drop_bit 8 n)) (ucast n)"

lemma length_mac_bytes [simp]: "length (mac_bytes m) = 6"
  by (cases m) simp

lemma mac_of_bytes [simp]: "mac_of (mac_bytes m) = m"
  by (cases m) simp

lemma mac_bytes_inj [simp]: "mac_bytes m = mac_bytes n \<longleftrightarrow> m = n"
  by (metis mac_of_bytes)

text \<open>\<^verbatim>\<open>bytes.Compare\<close> orders addresses octet by octet.\<close>

instantiation mac :: linorder
begin

definition less_eq_mac :: "mac \<Rightarrow> mac \<Rightarrow> bool" where
  "m \<le> n \<longleftrightarrow> mac_bytes m \<le> mac_bytes n"

definition less_mac :: "mac \<Rightarrow> mac \<Rightarrow> bool" where
  "m < n \<longleftrightarrow> mac_bytes m < mac_bytes n"

instance
proof
  fix x y z :: mac
  show "(x < y) = (x \<le> y \<and> \<not> y \<le> x)"
    by (auto simp: less_eq_mac_def less_mac_def not_le)
  show "x \<le> x" and "x \<le> y \<Longrightarrow> y \<le> z \<Longrightarrow> x \<le> z"
    by (auto simp: less_eq_mac_def)
  show "x \<le> y \<Longrightarrow> y \<le> x \<Longrightarrow> x = y"
    by (metis antisym less_eq_mac_def mac_bytes_inj)
  show "x \<le> y \<or> y \<le> x"
    by (auto simp: less_eq_mac_def)
qed

end

section \<open>VLAN identifiers\<close>

type_synonym vlan_id = u16

definition vlan_Valid :: "vlan_id \<Rightarrow> bool" where
  "vlan_Valid v \<longleftrightarrow> 1 \<le> v \<and> v \<le> 4094"

record vlan_tag =
  tag_TPID :: u16
  tag_PCP :: byte
  tag_DEI :: bool
  tag_VID :: vlan_id

section \<open>Ethernet frames\<close>

record frame =
  f_Dst :: mac
  f_Src :: mac
  f_Tags :: "vlan_tag list"
  f_EtherType :: u16
  f_Payload :: "byte list"

section \<open>Bridge identifiers\<close>

datatype bridge_id = BridgeID (bid_Priority: u16) (bid_Address: mac)

definition bridge_id_Less :: "bridge_id \<Rightarrow> bridge_id \<Rightarrow> bool" where
  "bridge_id_Less b other =
     (if bid_Priority b \<noteq> bid_Priority other then bid_Priority b < bid_Priority other
      else bid_Address b < bid_Address other)"

abbreviation zero_bid :: bridge_id where
  "zero_bid \<equiv> BridgeID 0 (MAC 0 0 0 0 0 0)"

instantiation bridge_id :: linorder
begin

definition less_bridge_id :: "bridge_id \<Rightarrow> bridge_id \<Rightarrow> bool" where
  "a < b \<longleftrightarrow> bridge_id_Less a b"

definition less_eq_bridge_id :: "bridge_id \<Rightarrow> bridge_id \<Rightarrow> bool" where
  "a \<le> b \<longleftrightarrow> a = b \<or> bridge_id_Less (a :: bridge_id) b"

instance
proof
  fix a b c :: bridge_id
  show "(a < b) = (a \<le> b \<and> \<not> b \<le> a)"
    by (cases a; cases b) (auto simp: less_bridge_id_def less_eq_bridge_id_def bridge_id_Less_def)
  show "a \<le> a"
    by (simp add: less_eq_bridge_id_def)
  show "a \<le> b \<Longrightarrow> b \<le> c \<Longrightarrow> a \<le> c"
    by (cases a; cases b; cases c)
      (auto simp: less_eq_bridge_id_def bridge_id_Less_def split: if_splits)
  show "a \<le> b \<Longrightarrow> b \<le> a \<Longrightarrow> a = b"
    by (cases a; cases b) (auto simp: less_eq_bridge_id_def bridge_id_Less_def split: if_splits)
  show "a \<le> b \<or> b \<le> a"
    by (cases a; cases b) (auto simp: less_eq_bridge_id_def bridge_id_Less_def)
qed

end

lemma bridge_id_Less_less [simp]: "bridge_id_Less a b \<longleftrightarrow> a < b"
  by (simp add: less_bridge_id_def)

end
