(* ===== verification/Ports.thy ===== *)
theory Ports
  imports Net
begin

text \<open>
  The port table of \<^verbatim>\<open>src/common/sim/port\<close>: ports, their LAG membership, the builder that
  validates them, and the receive and transmit verdicts the switch layers ask it for.
\<close>

section \<open>Ports\<close>

text \<open>
  The string-typed enumerations, with the empty string and with the values outside the declared
  domain that \<^verbatim>\<open>Validate\<close> refuses.
\<close>

datatype kind = KindEmpty | Physical | LAG | OtherKind | KindUnknown string
datatype link_state = LSEmpty | LSUnknown | Up | Down | LSOther string
datatype port_reason = NoReason | ReasonPortDown | ReasonMTUExceeded

record port =
  pt_Name :: string
  pt_IfIndex :: u32
  pt_Kind :: kind
  pt_AdminStatus :: link_state
  pt_OperStatus :: link_state
  pt_MTU :: int
  pt_LagParent :: string

definition zero_port :: port where
  "zero_port = \<lparr>pt_Name = '''', pt_IfIndex = 0, pt_Kind = KindEmpty, pt_AdminStatus = LSEmpty,
     pt_OperStatus = LSEmpty, pt_MTU = 0, pt_LagParent = ''''\<rparr>"

definition port_Normalize :: "port \<Rightarrow> port" where
  "port_Normalize p =
     (let cp = (if pt_Kind p = KindEmpty then p\<lparr>pt_Kind := Physical\<rparr> else p);
          cp = (if pt_AdminStatus cp = LSEmpty then cp\<lparr>pt_AdminStatus := LSUnknown\<rparr> else cp)
      in if pt_OperStatus cp = LSEmpty then cp\<lparr>pt_OperStatus := LSUnknown\<rparr> else cp)"

definition port_Forwards :: "port \<Rightarrow> bool" where
  "port_Forwards p \<longleftrightarrow> pt_AdminStatus p = Up \<and> pt_OperStatus p = Up"

section \<open>The table\<close>

record port_table =
  tb_ports :: "port list"
  tb_byName :: "string \<rightharpoonup> port"

abbreviation empty_table :: port_table where
  "empty_table \<equiv> \<lparr>tb_ports = [], tb_byName = Map.empty\<rparr>"

text \<open>\<^verbatim>\<open>byName[p.Name] = p\<close> for each port in turn: the last one of a name stays.\<close>

definition index_ports :: "port list \<Rightarrow> (string \<rightharpoonup> port)" where
  "index_ports ps = fold (\<lambda>p m. m(pt_Name p \<mapsto> p)) ps Map.empty"

definition Table_Port :: "port_table \<Rightarrow> string \<Rightarrow> port option" where
  "Table_Port t name = tb_byName t name"

definition Members :: "port_table \<Rightarrow> string \<Rightarrow> port list" where
  "Members t lagName =
     (case tb_byName t lagName of
        None \<Rightarrow> []
      | Some lag \<Rightarrow>
          if pt_Kind lag \<noteq> LAG then []
          else filter (\<lambda>p. pt_LagParent p = lagName) (tb_ports t))"

definition Resolve :: "port_table \<Rightarrow> string \<Rightarrow> port option" where
  "Resolve t name =
     (case Table_Port t name of
        None \<Rightarrow> None
      | Some p \<Rightarrow> if pt_LagParent p = '''' then Some p else Table_Port t (pt_LagParent p))"

record receive_result =
  rr_Ingress :: string
  rr_Physical :: port
  rr_Resolved :: port
  rr_Decisive :: string
  rr_Reason :: port_reason

definition Table_Receive :: "port_table \<Rightarrow> string \<Rightarrow> receive_result" where
  "Table_Receive t name =
     (let result = \<lparr>rr_Ingress = name, rr_Physical = zero_port, rr_Resolved = zero_port,
                    rr_Decisive = '''', rr_Reason = NoReason\<rparr> in
      case Table_Port t name of
        None \<Rightarrow> result\<lparr>rr_Decisive := name, rr_Reason := ReasonPortDown\<rparr>
      | Some p \<Rightarrow>
          let result = result\<lparr>rr_Physical := p, rr_Resolved := p\<rparr> in
          if pt_LagParent p = '''' then
            (if \<not> port_Forwards p
             then result\<lparr>rr_Decisive := pt_Name p, rr_Reason := ReasonPortDown\<rparr> else result)
          else if \<not> port_Forwards p then
            result\<lparr>rr_Decisive := pt_Name p, rr_Reason := ReasonPortDown\<rparr>
          else
            (case Table_Port t (pt_LagParent p) of
               None \<Rightarrow> result\<lparr>rr_Resolved := zero_port, rr_Decisive := pt_LagParent p,
                              rr_Reason := ReasonPortDown\<rparr>
             | Some parent \<Rightarrow>
                 let result = result\<lparr>rr_Resolved := parent\<rparr> in
                 if \<not> port_Forwards parent
                 then result\<lparr>rr_Decisive := pt_Name parent, rr_Reason := ReasonPortDown\<rparr>
                 else result))"

definition ConsultedPorts :: "receive_result \<Rightarrow> port list" where
  "ConsultedPorts r =
     (if pt_Name (rr_Physical r) = '''' then []
      else if rr_Decisive r = pt_Name (rr_Physical r) then [rr_Physical r]
      else if pt_Name (rr_Resolved r) = '''' \<or> pt_Name (rr_Resolved r) = pt_Name (rr_Physical r)
      then [rr_Physical r]
      else [rr_Physical r, rr_Resolved r])"

definition Table_Transmit :: "port_table \<Rightarrow> string \<Rightarrow> int \<Rightarrow> port_reason" where
  "Table_Transmit t name payloadLen =
     (case Table_Port t name of
        None \<Rightarrow> ReasonPortDown
      | Some p \<Rightarrow>
          if \<not> port_Forwards p then ReasonPortDown
          else if pt_Kind p = LAG \<and> \<not> list_ex port_Forwards (Members t (pt_Name p))
          then ReasonPortDown
          else if pt_MTU p > 0 \<and> payloadLen > pt_MTU p then ReasonMTUExceeded
          else NoReason)"

definition Table_Normalize :: "port_table \<Rightarrow> port_table" where
  "Table_Normalize t =
     (if tb_ports t = [] then empty_table
      else let ps = map port_Normalize (tb_ports t)
           in \<lparr>tb_ports = sort_key pt_Name ps, tb_byName = index_ports ps\<rparr>)"

datatype port_error =
    EmptyName
  | DuplicateName string
  | UnknownKind string
  | InvalidAdminStatus string
  | InvalidOperStatus string
  | NegativeMTU string
  | LagHasParent string
  | LagParentMissing string string
  | LagParentNotLag string string
  | PortNotInTable string

text \<open>The first loop of \<^verbatim>\<open>Validate\<close>; \<open>seen\<close> is the set of names so far.\<close>

fun validate_ports :: "string list \<Rightarrow> port list \<Rightarrow> port_error option" where
  "validate_ports seen [] = None"
| "validate_ports seen (p # ps) =
     (if pt_Name p = '''' then Some EmptyName
      else if pt_Name p \<in> set seen then Some (DuplicateName (pt_Name p))
      else if (case pt_Kind p of KindUnknown _ \<Rightarrow> True | _ \<Rightarrow> False) then Some (UnknownKind (pt_Name p))
      else if (case pt_AdminStatus p of LSOther _ \<Rightarrow> True | _ \<Rightarrow> False)
      then Some (InvalidAdminStatus (pt_Name p))
      else if (case pt_OperStatus p of LSOther _ \<Rightarrow> True | _ \<Rightarrow> False)
      then Some (InvalidOperStatus (pt_Name p))
      else if pt_MTU p < 0 then Some (NegativeMTU (pt_Name p))
      else validate_ports (pt_Name p # seen) ps)"

fun validate_parents :: "(string \<rightharpoonup> port) \<Rightarrow> port list \<Rightarrow> port_error option" where
  "validate_parents byName [] = None"
| "validate_parents byName (p # ps) =
     (if pt_Kind p = LAG \<and> pt_LagParent p \<noteq> '''' then Some (LagHasParent (pt_Name p))
      else if pt_LagParent p \<noteq> '''' then
        (case byName (pt_LagParent p) of
           None \<Rightarrow> Some (LagParentMissing (pt_Name p) (pt_LagParent p))
         | Some parent \<Rightarrow>
             if pt_Kind parent \<noteq> LAG then Some (LagParentNotLag (pt_Name p) (pt_LagParent p))
             else validate_parents byName ps)
      else validate_parents byName ps)"

definition Table_Validate :: "port_table \<Rightarrow> port_error option" where
  "Table_Validate t =
     (case validate_ports [] (tb_ports t) of
        Some e \<Rightarrow> Some e
      | None \<Rightarrow> validate_parents (tb_byName t) (tb_ports t))"

text \<open>Setting the status of the first port of the name in the cloned slice.\<close>

fun set_oper_status :: "string \<Rightarrow> link_state \<Rightarrow> port list \<Rightarrow> port list" where
  "set_oper_status name st [] = []"
| "set_oper_status name st (p # ps) =
     (if pt_Name p = name then p\<lparr>pt_OperStatus := st\<rparr> # ps else p # set_oper_status name st ps)"

definition WithOperStatus :: "port_table \<Rightarrow> string \<Rightarrow> link_state \<Rightarrow> port_error + port_table" where
  "WithOperStatus t name state =
     (if tb_byName t name = None then Inl (PortNotInTable name)
      else
        case (case state of LSEmpty \<Rightarrow> Some LSUnknown | LSOther _ \<Rightarrow> None | s \<Rightarrow> Some s) of
          None \<Rightarrow> Inl (InvalidOperStatus name)
        | Some st \<Rightarrow>
            let ps = set_oper_status name st (tb_ports t); byName = index_ports (tb_ports t) in
            Inr \<lparr>tb_ports = ps,
                 tb_byName = (case find (\<lambda>p. pt_Name p = name) ps of
                                None \<Rightarrow> byName
                              | Some p \<Rightarrow> byName(name \<mapsto> p))\<rparr>)"

section \<open>The builder\<close>

record builder =
  bd_ports :: "port list"
  bd_seen :: "string list"
  bd_err :: "port_error option"

definition NewBuilder :: builder where
  "NewBuilder = \<lparr>bd_ports = [], bd_seen = [], bd_err = None\<rparr>"

definition builder_Add :: "port \<Rightarrow> builder \<Rightarrow> builder" where
  "builder_Add p b =
     (if bd_err b \<noteq> None then b
      else if pt_Name p = '''' then b\<lparr>bd_err := Some EmptyName\<rparr>
      else if pt_Name p \<in> set (bd_seen b) then b\<lparr>bd_err := Some (DuplicateName (pt_Name p))\<rparr>
      else b\<lparr>bd_seen := pt_Name p # bd_seen b, bd_ports := bd_ports b @ [p]\<rparr>)"

definition builder_Build :: "builder \<Rightarrow> port_error + port_table" where
  "builder_Build b =
     (case bd_err b of
        Some e \<Rightarrow> Inl e
      | None \<Rightarrow>
          let t = \<lparr>tb_ports = bd_ports b, tb_byName = index_ports (bd_ports b)\<rparr> in
          case Table_Validate t of
            Some e \<Rightarrow> Inl e
          | None \<Rightarrow> Inr (Table_Normalize t))"

end
