(* ===== verification/Effects.thy ===== *)
theory Effects
  imports Ports
begin

text \<open>
  What a layer of the switch asks of the others (\<^verbatim>\<open>src/common/sim/layer/layer.go\<close>): frames to
  emit, learned addresses to flush, and the link aggregation groups whose membership changed.
\<close>

record flush_target =
  ft_Port :: string
  ft_FIDs :: "vlan_id list"

record emission =
  em_Port :: string
  em_VID :: vlan_id
  em_Frame :: frame

record effects =
  fx_Emissions :: "emission list"
  fx_Flush :: "flush_target list"
  fx_Changed :: "string list"

abbreviation no_effects :: effects where
  "no_effects \<equiv> \<lparr>fx_Emissions = [], fx_Flush = [], fx_Changed = []\<rparr>"

section \<open>What a flush list stands for\<close>

text \<open>
  The set of pairs of a port and a filtering identifier whose entries are to go; an empty list of
  identifiers stands for all of them.
\<close>

definition target_covers :: "flush_target \<Rightarrow> string \<Rightarrow> vlan_id \<Rightarrow> bool" where
  "target_covers ft port fid \<longleftrightarrow> ft_Port ft = port \<and> (ft_FIDs ft = [] \<or> fid \<in> set (ft_FIDs ft))"

definition covers :: "flush_target list \<Rightarrow> string \<Rightarrow> vlan_id \<Rightarrow> bool" where
  "covers fl port fid \<longleftrightarrow> list_ex (\<lambda>ft. target_covers ft port fid) fl"

lemma covers_Nil [simp]: "\<not> covers [] port fid"
  by (simp add: covers_def)

lemma covers_append [simp]: "covers (xs @ ys) port fid \<longleftrightarrow> covers xs port fid \<or> covers ys port fid"
  by (simp add: covers_def)

lemma covers_Cons [simp]: "covers (ft # fl) port fid \<longleftrightarrow> target_covers ft port fid \<or> covers fl port fid"
  by (simp add: covers_def)

end
