(* ===== verification/Bytes.thy ===== *)
theory Bytes
  imports Prelude "HOL-Library.Monad_Syntax"
begin

text \<open>
  What the packet codecs share: indexing and slicing with their panics, when a decoder answers, and
  payloads as concatenations of the blocks written to them.
\<close>

section \<open>Reading\<close>

text \<open>Indexing and slicing as Go does them: out of range is a panic, \<open>None\<close>.\<close>

definition idx :: "byte list \<Rightarrow> nat \<Rightarrow> byte option" where
  "idx p i = (if i < length p then Some (p ! i) else None)"

definition sub :: "byte list \<Rightarrow> nat \<Rightarrow> nat \<Rightarrow> byte list option" where
  "sub p lo hi = (if lo \<le> hi \<and> hi \<le> length p then Some (slice p lo hi) else None)"

lemma idx_Some [byte_simps]: "i < length p \<Longrightarrow> idx p i = Some (p ! i)"
  by (simp add: idx_def)

lemma sub_Some [byte_simps]: "lo \<le> hi \<Longrightarrow> hi \<le> length p \<Longrightarrow> sub p lo hi = Some (slice p lo hi)"
  by (simp add: sub_def)

section \<open>Writing back what was read\<close>

lemma be16_of: "be16 (u16_of [a, b]) = [a, b]"
  unfolding be16_def u16_of.simps
  by (simp, intro conjI; rule bit_word_eqI) (auto simp: bit_simps dest: bit_imp_le_length)

lemma be32_of: "be32 (u32_of [a, b, c, d]) = [a, b, c, d]"
  unfolding be32_def u32_of.simps
  by (simp, intro conjI; rule bit_word_eqI) (auto simp: bit_simps dest: bit_imp_le_length)

lemma be32_of_list: "length bs = 4 \<Longrightarrow> be32 (u32_of bs) = bs"
  using be32_of by (auto simp: length_Suc_conv numeral_eq_Suc)

lemma byte_of_char_of_byte [simp]: "byte_of_char (char_of_byte b) = b"
proof -
  have "unat b < 2 ^ LENGTH(8)"
    by (rule unsigned_less)
  then show ?thesis
    by (simp add: byte_of_char_def char_of_byte_def)
qed

section \<open>Answers\<close>

text \<open>A block answers when its slices and indices are inside the payload.\<close>

lemma answer_Some: "Some x \<noteq> None"
  by simp

lemma answer_bind: "x \<noteq> None \<Longrightarrow> (\<And>a. x = Some a \<Longrightarrow> f a \<noteq> None) \<Longrightarrow> Option.bind x f \<noteq> None"
  by (cases x) simp_all

lemma answer_if: "(c \<Longrightarrow> x \<noteq> None) \<Longrightarrow> (\<not> c \<Longrightarrow> y \<noteq> None) \<Longrightarrow> (if c then x else y) \<noteq> None"
  by simp

lemma answer_idx: "i < length p \<Longrightarrow> idx p i \<noteq> None"
  by (simp add: idx_def)

lemma answer_sub: "lo \<le> hi \<Longrightarrow> hi \<le> length p \<Longrightarrow> sub p lo hi \<noteq> None"
  by (simp add: sub_def)

lemmas answers = answer_Some answer_bind answer_if answer_idx answer_sub

section \<open>Blocks\<close>

text \<open>Adjacent writes are one write.\<close>

lemma blit_blit: "off' = off + length xs \<Longrightarrow> off' + length ys \<le> length p \<Longrightarrow>
    blit (blit p off xs) off' ys = blit p off (xs @ ys)"
  by (simp add: blit_def ac_simps)

lemma blit_all: "length bs = length p \<Longrightarrow> blit p 0 bs = bs"
  by (simp add: blit_def)

lemma slice_slice: "lo \<le> lo' \<Longrightarrow> hi' \<le> hi \<Longrightarrow> slice (slice p lo hi) (lo' - lo) (hi' - lo) = slice p lo' hi'"
  by (cases "lo' \<le> hi'") (simp_all add: slice_def drop_take min_def)

lemma slice_append:
  "hi = length xs \<Longrightarrow> slice (xs @ ys) 0 hi = xs"
  "length xs \<le> lo \<Longrightarrow> slice (xs @ ys) lo hi = slice ys (lo - length xs) (hi - length xs)"
  "hi = length xs \<Longrightarrow> slice xs 0 hi = xs"
  by (simp_all add: slice_def)

lemma slice_drop: "off \<le> lo \<Longrightarrow> slice p lo hi = slice (drop off p) (lo - off) (hi - off)"
  by (simp add: slice_def)

lemma slice_Cons: "0 < lo \<Longrightarrow> slice (x # xs) lo hi = slice xs (lo - 1) (hi - 1)"
  by (cases lo) (simp_all add: slice_def)

text \<open>A payload of a fixed size of which the front is written.\<close>

definition padded :: "byte list \<Rightarrow> nat \<Rightarrow> byte list" where
  "padded bs n = bs @ replicate (n - length bs) 0"

lemma padded_Nil: "replicate n 0 = padded [] n"
  by (simp add: padded_def)

lemma padded_full: "length bs = n \<Longrightarrow> padded bs n = bs"
  by (simp add: padded_def)

lemma blit_padded:
  "length bs \<le> off \<Longrightarrow> off + length ys \<le> n \<Longrightarrow>
   blit (padded bs n) off ys = padded (bs @ replicate (off - length bs) 0 @ ys) n"
  by (simp add: blit_def padded_def min_def)

lemma blit_padded_inside:
  "off + length ys \<le> length bs \<Longrightarrow> blit (padded bs n) off ys = padded (blit bs off ys) n"
  by (simp add: blit_def padded_def)

end
