(* ===== verification/Bpdu.thy ===== *)
theory Bpdu
  imports Net Bytes "HOL-Library.Signed_Division"
begin

text \<open>
  The BPDU codec of \<^verbatim>\<open>src/common/net/bpdu\<close>: the record, its flag accessors, and the two wire
  forms, IEEE (\<^verbatim>\<open>Encode\<close>, \<^verbatim>\<open>Decode\<close>) and Cisco SSTP
  (\<^verbatim>\<open>EncodeSSTP\<close>, \<^verbatim>\<open>DecodeSSTP\<close>).

  An error the Go code returns is a value \<open>Inl e\<close>; a run-time panic (an index or a slice bound
  out of range) is \<open>None\<close>, so that "the decoder never panics" is a statement.
\<close>

section \<open>The record and its flags\<close>

text \<open>Go's string-typed enumeration; \<open>RoleNone\<close> is its zero value, the empty string.\<close>

datatype role = RoleNone | RoleRoot | RoleDesignated | RoleAlternate | RoleBackup | RoleDisabled

datatype bpdu_type = TypeRapid | TypeConfiguration | TypeTopologyChangeNotification

record config_id =
  cid_Selector :: byte
  cid_Name :: string
  cid_Revision :: u16
  cid_Digest :: "byte list"

record msti_record =
  r_MSTID :: u16
  r_Flags :: byte
  r_RegionalRootID :: bridge_id
  r_InternalRootPathCost :: u32
  r_BridgePriority :: byte
  r_PortPriority :: byte
  r_RemainingHops :: byte

record bpdu =
  b_Version :: byte
  b_Type :: bpdu_type
  b_Flags :: byte
  b_RootID :: bridge_id
  b_RootPathCost :: u32
  b_BridgeID :: bridge_id
  b_PortID :: u16
  b_MessageAge :: duration
  b_MaxAge :: duration
  b_HelloTime :: duration
  b_ForwardDelay :: duration
  b_ConfigID :: "config_id option"
  b_RegionalRootID :: bridge_id
  b_InternalRootPathCost :: u32
  b_RemainingHops :: byte
  b_MSTIs :: "msti_record list"

text \<open>The composite literal \<^verbatim>\<open>BPDU{}\<close>.\<close>

definition zero_bpdu :: bpdu where
  "zero_bpdu = \<lparr>b_Version = 0, b_Type = TypeRapid, b_Flags = 0, b_RootID = zero_bid,
     b_RootPathCost = 0, b_BridgeID = zero_bid, b_PortID = 0, b_MessageAge = 0, b_MaxAge = 0,
     b_HelloTime = 0, b_ForwardDelay = 0, b_ConfigID = None, b_RegionalRootID = zero_bid,
     b_InternalRootPathCost = 0, b_RemainingHops = 0, b_MSTIs = []\<rparr>"

abbreviation flagTopologyChange :: byte where "flagTopologyChange \<equiv> 1"
abbreviation flagProposal :: byte where "flagProposal \<equiv> 2"
abbreviation flagPortRoleMask :: byte where "flagPortRoleMask \<equiv> 12"
abbreviation flagLearning :: byte where "flagLearning \<equiv> 16"
abbreviation flagForwarding :: byte where "flagForwarding \<equiv> 32"
abbreviation flagAgreement :: byte where "flagAgreement \<equiv> 64"
abbreviation flagTopologyChangeAck :: byte where "flagTopologyChangeAck \<equiv> 128"

definition bpdu_Role :: "bpdu \<Rightarrow> role" where
  "bpdu_Role b =
     (if b_Type b = TypeConfiguration then RoleDesignated
      else let bits = drop_bit 2 (b_Flags b AND flagPortRoleMask) in
        if bits = 1 then RoleAlternate
        else if bits = 2 then RoleRoot
        else if bits = 3 then RoleDesignated
        else RoleDisabled)"

definition SetRole :: "role \<Rightarrow> bpdu \<Rightarrow> bpdu" where
  "SetRole r b =
     (let cleared = b_Flags b AND NOT flagPortRoleMask in
      b\<lparr>b_Flags := (case r of
          RoleAlternate \<Rightarrow> cleared OR push_bit 2 1
        | RoleBackup \<Rightarrow> cleared OR push_bit 2 1
        | RoleRoot \<Rightarrow> cleared OR push_bit 2 2
        | RoleDesignated \<Rightarrow> cleared OR push_bit 2 3
        | RoleDisabled \<Rightarrow> cleared
        | RoleNone \<Rightarrow> cleared)\<rparr>)"

text \<open>The shared body of the five boolean setters: set the bit or clear it.\<close>

definition set_flag :: "byte \<Rightarrow> bool \<Rightarrow> bpdu \<Rightarrow> bpdu" where
  "set_flag m v b = b\<lparr>b_Flags := (if v then b_Flags b OR m else b_Flags b AND NOT m)\<rparr>"

definition Proposal :: "bpdu \<Rightarrow> bool" where
  "Proposal b = (if b_Type b = TypeConfiguration then False else b_Flags b AND flagProposal \<noteq> 0)"

definition SetProposal :: "bool \<Rightarrow> bpdu \<Rightarrow> bpdu" where
  "SetProposal = set_flag flagProposal"

definition Agreement :: "bpdu \<Rightarrow> bool" where
  "Agreement b = (if b_Type b = TypeConfiguration then False else b_Flags b AND flagAgreement \<noteq> 0)"

definition SetAgreement :: "bool \<Rightarrow> bpdu \<Rightarrow> bpdu" where
  "SetAgreement = set_flag flagAgreement"

definition Learning :: "bpdu \<Rightarrow> bool" where
  "Learning b = (b_Flags b AND flagLearning \<noteq> 0)"

definition SetLearning :: "bool \<Rightarrow> bpdu \<Rightarrow> bpdu" where
  "SetLearning = set_flag flagLearning"

definition Forwarding :: "bpdu \<Rightarrow> bool" where
  "Forwarding b = (b_Flags b AND flagForwarding \<noteq> 0)"

definition SetForwarding :: "bool \<Rightarrow> bpdu \<Rightarrow> bpdu" where
  "SetForwarding = set_flag flagForwarding"

definition TopologyChange :: "bpdu \<Rightarrow> bool" where
  "TopologyChange b = (b_Flags b AND flagTopologyChange \<noteq> 0)"

definition SetTopologyChange :: "bool \<Rightarrow> bpdu \<Rightarrow> bpdu" where
  "SetTopologyChange = set_flag flagTopologyChange"

definition TopologyChangeAck :: "bpdu \<Rightarrow> bool" where
  "TopologyChangeAck b = (b_Flags b AND flagTopologyChangeAck \<noteq> 0)"

definition SetTopologyChangeAck :: "bool \<Rightarrow> bpdu \<Rightarrow> bpdu" where
  "SetTopologyChangeAck = set_flag flagTopologyChangeAck"

section \<open>Durations on the wire\<close>

text \<open>A Go \<^verbatim>\<open>int64\<close> product wraps, and its division truncates towards zero.\<close>

definition int64 :: "int \<Rightarrow> int" where
  "int64 x = sint (word_of_int x :: u64)"

definition encodeDuration :: "duration \<Rightarrow> u16" where
  "encodeDuration d = (if d \<le> 0 then 0 else word_of_int (int64 (d * 256) sdiv second))"

definition decodeDuration :: "u16 \<Rightarrow> duration" where
  "decodeDuration units = (uint units * second) sdiv 256"

section \<open>Encoding\<close>

definition stpGroupAddress :: mac where
  "stpGroupAddress = MAC 0x01 0x80 0xc2 0x00 0x00 0x00"

definition sstpGroupAddress :: mac where
  "sstpGroupAddress = MAC 0x01 0x00 0x0c 0xcc 0xcc 0xcd"

abbreviation minDataLength :: nat where "minDataLength \<equiv> 46"
abbreviation mstBodyLength :: nat where "mstBodyLength \<equiv> 102"
abbreviation mstiRecordLength :: nat where "mstiRecordLength \<equiv> 16"
abbreviation minMSTPayloadLength :: nat where "minMSTPayloadLength \<equiv> 105"
abbreviation MaxMSTIRecords :: nat where "MaxMSTIRecords \<equiv> 64"
abbreviation sstpConfigurationPayloadLength :: nat where "sstpConfigurationPayloadLength \<equiv> 50"
abbreviation sstpTCNLength :: nat where "sstpTCNLength \<equiv> 12"

text \<open>\<^verbatim>\<open>putBody(payload[base:], b)\<close>: \<open>base\<close> is where the slice handed to it starts.\<close>

definition putBody :: "nat \<Rightarrow> bpdu \<Rightarrow> byte list \<Rightarrow> byte list" where
  "putBody base b payload =
     (let p = blit payload (base + 8) (be16 (bid_Priority (b_RootID b)));
          p = blit p (base + 10) (mac_bytes (bid_Address (b_RootID b)));
          p = blit p (base + 16) (be32 (b_RootPathCost b));
          p = blit p (base + 20) (be16 (bid_Priority (b_BridgeID b)));
          p = blit p (base + 22) (mac_bytes (bid_Address (b_BridgeID b)));
          p = blit p (base + 28) (be16 (b_PortID b));
          p = blit p (base + 30) (be16 (encodeDuration (b_MessageAge b)));
          p = blit p (base + 32) (be16 (encodeDuration (b_MaxAge b)));
          p = blit p (base + 34) (be16 (encodeDuration (b_HelloTime b)))
      in blit p (base + 36) (be16 (encodeDuration (b_ForwardDelay b))))"

text \<open>One MSTI record of \<^verbatim>\<open>putMSTBody\<close>, the octets from \<open>off\<close> on.\<close>

definition putMSTIRecord :: "nat \<Rightarrow> msti_record \<Rightarrow> byte list \<Rightarrow> byte list" where
  "putMSTIRecord off rec payload =
     (let p = blit payload off [r_Flags rec];
          priority = (bid_Priority (r_RegionalRootID rec) AND 0xF000) OR (r_MSTID rec AND 0x0FFF);
          p = blit p (off + 1) (be16 priority);
          p = blit p (off + 3) (mac_bytes (bid_Address (r_RegionalRootID rec)));
          p = blit p (off + 9) (be32 (r_InternalRootPathCost rec));
          p = blit p (off + 13) [r_BridgePriority rec AND 0xF0];
          p = blit p (off + 14) [r_PortPriority rec AND 0xF0]
      in blit p (off + 15) [r_RemainingHops rec])"

fun putMSTIRecords :: "nat \<Rightarrow> msti_record list \<Rightarrow> byte list \<Rightarrow> byte list" where
  "putMSTIRecords off [] payload = payload"
| "putMSTIRecords off (rec # recs) payload =
     putMSTIRecords (off + mstiRecordLength) recs (putMSTIRecord off rec payload)"

text \<open>\<^verbatim>\<open>copy(payload[42:74], name)\<close> copies at most 32 octets.\<close>

definition name_bytes :: "string \<Rightarrow> byte list" where
  "name_bytes s = map byte_of_char (take 32 s)"

definition putMSTBody :: "config_id \<Rightarrow> bpdu \<Rightarrow> byte list \<Rightarrow> byte list" where
  "putMSTBody cid b payload =
     (let n = length (b_MSTIs b);
          p = blit payload 39 (be16 (of_nat (64 + mstiRecordLength * n)));
          p = blit p 41 [cid_Selector cid];
          p = blit p 42 (name_bytes (cid_Name cid));
          p = blit p 74 (be16 (cid_Revision cid));
          p = blit p 76 (take 16 (cid_Digest cid));
          p = blit p 92 (be32 (b_InternalRootPathCost b));
          p = blit p 96 (be16 (bid_Priority (b_BridgeID b)));
          p = blit p 98 (mac_bytes (bid_Address (b_BridgeID b)));
          p = blit p 104 [b_RemainingHops b]
      in putMSTIRecords minMSTPayloadLength (b_MSTIs b) p)"

datatype encode_error = TooManyMSTIRecords nat | SSTPHasNoMSTForm

abbreviation etherframe :: "mac \<Rightarrow> mac \<Rightarrow> nat \<Rightarrow> byte list \<Rightarrow> frame" where
  "etherframe dst src len payload \<equiv>
     \<lparr>f_Dst = dst, f_Src = src, f_Tags = [], f_EtherType = of_nat len, f_Payload = payload\<rparr>"

definition encodeMST :: "config_id \<Rightarrow> bpdu \<Rightarrow> mac \<Rightarrow> encode_error + frame" where
  "encodeMST cid b src =
     (if length (b_MSTIs b) > MaxMSTIRecords then Inl (TooManyMSTIRecords (length (b_MSTIs b)))
      else
        let contentLen = 3 + mstBodyLength + mstiRecordLength * length (b_MSTIs b);
            p = replicate contentLen 0;
            p = blit p 0 [0x42, 0x42, 0x03];
            p = blit p 3 (be16 0);
            p = blit p 5 [3];
            p = blit p 6 [0x02];
            p = blit p 7 [b_Flags b AND NOT flagTopologyChangeAck];
            p = putBody 0 b p;
            p = blit p 38 [0];
            p = blit p 20 (be16 (bid_Priority (b_RegionalRootID b)));
            p = blit p 22 (mac_bytes (bid_Address (b_RegionalRootID b)));
            p = putMSTBody cid b p
        in Inr (etherframe stpGroupAddress src contentLen p))"

definition Encode :: "bpdu \<Rightarrow> mac \<Rightarrow> encode_error + frame" where
  "Encode b src =
     (case b_ConfigID b of
        Some cid \<Rightarrow> encodeMST cid b src
      | None \<Rightarrow>
          (let p = replicate minDataLength 0;
               p = blit p 0 [0x42, 0x42, 0x03];
               p = blit p 3 (be16 0)
           in case b_Type b of
             TypeConfiguration \<Rightarrow>
               (let version = (if b_Version b > 1 then 0 else b_Version b);
                    p = blit p 5 [version];
                    p = blit p 6 [0x00];
                    p = blit p 7 [b_Flags b AND (flagTopologyChange OR flagTopologyChangeAck)];
                    p = putBody 0 b p
                in Inr (etherframe stpGroupAddress src 38 p))
           | TypeTopologyChangeNotification \<Rightarrow>
               (let p = blit p 5 [0];
                    p = blit p 6 [0x80]
                in Inr (etherframe stpGroupAddress src 7 p))
           | TypeRapid \<Rightarrow>
               (let version = (if b_Version b < 2 then 2 else b_Version b);
                    p = blit p 5 [version];
                    p = blit p 6 [0x02];
                    p = blit p 7 [b_Flags b AND NOT flagTopologyChangeAck];
                    p = putBody 0 b p;
                    p = blit p 38 [0]
                in Inr (etherframe stpGroupAddress src 39 p))))"

definition EncodeSSTP :: "bpdu \<Rightarrow> vlan_id \<Rightarrow> mac \<Rightarrow> encode_error + frame" where
  "EncodeSSTP b vid src =
     (if b_ConfigID b \<noteq> None then Inl SSTPHasNoMSTForm
      else if b_Type b = TypeTopologyChangeNotification then
        (let p = replicate minDataLength 0;
             p = blit p 0 [0xAA, 0xAA, 0x03];
             p = blit p 3 [0x00, 0x00, 0x0C];
             p = blit p 6 (be16 0x010B);
             p = blit p 8 (be16 0);
             p = blit p 10 [0];
             p = blit p 11 [0x80]
         in Inr (etherframe sstpGroupAddress src sstpTCNLength p))
      else
        (let p = replicate sstpConfigurationPayloadLength 0;
             p = blit p 0 [0xAA, 0xAA, 0x03];
             p = blit p 3 [0x00, 0x00, 0x0C];
             p = blit p 6 (be16 0x010B);
             p = blit p 8 (be16 0);
             p = (if b_Type b = TypeConfiguration then
                    (let p = blit p 10 [0];
                         p = blit p 11 [0x00]
                     in blit p 12 [b_Flags b AND (flagTopologyChange OR flagTopologyChangeAck)])
                  else
                    (let version = (if b_Version b < 2 then 2 else b_Version b);
                         p = blit p 10 [version];
                         p = blit p 11 [0x02]
                     in blit p 12 [b_Flags b AND NOT flagTopologyChangeAck]));
             p = putBody 5 b p;
             p = blit p 43 [0];
             p = blit p 44 (be16 0);
             p = blit p 46 (be16 2);
             p = blit p 48 (be16 vid)
         in Inr (etherframe sstpGroupAddress src sstpConfigurationPayloadLength p)))"

section \<open>Decoding\<close>

text \<open>Every refusal wraps \<^verbatim>\<open>ErrUnsupported\<close>; the constructors keep what its message names.\<close>

datatype decode_error =
    TooShort nat nat
  | BadDSAP byte | BadSSAP byte | BadControl byte
  | BadProtocolID u16
  | BadVersion byte
  | MSTTooShort nat nat
  | BadType byte byte
  | BadLLC | BadOUI | BadPID u16
  | BadTLVType u16 | BadTLVLength u16

definition readBody :: "nat \<Rightarrow> byte list \<Rightarrow> bpdu option" where
  "readBody base p = do {
     rootPrio \<leftarrow> sub p (base + 8) (base + 10);
     rootAddr \<leftarrow> sub p (base + 10) (base + 16);
     cost \<leftarrow> sub p (base + 16) (base + 20);
     bridgePrio \<leftarrow> sub p (base + 20) (base + 22);
     bridgeAddr \<leftarrow> sub p (base + 22) (base + 28);
     portID \<leftarrow> sub p (base + 28) (base + 30);
     msgAge \<leftarrow> sub p (base + 30) (base + 32);
     maxAge \<leftarrow> sub p (base + 32) (base + 34);
     hello \<leftarrow> sub p (base + 34) (base + 36);
     fwd \<leftarrow> sub p (base + 36) (base + 38);
     Some (zero_bpdu\<lparr>
       b_RootID := BridgeID (u16_of rootPrio) (mac_of rootAddr),
       b_RootPathCost := u32_of cost,
       b_BridgeID := BridgeID (u16_of bridgePrio) (mac_of bridgeAddr),
       b_PortID := u16_of portID,
       b_MessageAge := decodeDuration (u16_of msgAge),
       b_MaxAge := decodeDuration (u16_of maxAge),
       b_HelloTime := decodeDuration (u16_of hello),
       b_ForwardDelay := decodeDuration (u16_of fwd)\<rparr>)
   }"

definition readMSTIRecord :: "byte list \<Rightarrow> nat \<Rightarrow> msti_record option" where
  "readMSTIRecord p off = do {
     prio \<leftarrow> sub p (off + 1) (off + 3);
     addr \<leftarrow> sub p (off + 3) (off + 9);
     flags \<leftarrow> idx p off;
     cost \<leftarrow> sub p (off + 9) (off + 13);
     bridgePrio \<leftarrow> idx p (off + 13);
     portPrio \<leftarrow> idx p (off + 14);
     hops \<leftarrow> idx p (off + 15);
     Some \<lparr>r_MSTID = u16_of prio AND 0x0FFF, r_Flags = flags,
       r_RegionalRootID = BridgeID (u16_of prio) (mac_of addr),
       r_InternalRootPathCost = u32_of cost,
       r_BridgePriority = bridgePrio AND 0xF0,
       r_PortPriority = portPrio AND 0xF0,
       r_RemainingHops = hops\<rparr>
   }"

fun readMSTIRecords :: "byte list \<Rightarrow> nat \<Rightarrow> nat \<Rightarrow> msti_record list option" where
  "readMSTIRecords p off 0 = Some []"
| "readMSTIRecords p off (Suc n) = do {
     rec \<leftarrow> readMSTIRecord p off;
     recs \<leftarrow> readMSTIRecords p (off + mstiRecordLength) n;
     Some (rec # recs)
   }"

text \<open>\<^verbatim>\<open>bytes.TrimRight(bs, "\x00")\<close>.\<close>

definition trim_nul :: "byte list \<Rightarrow> byte list" where
  "trim_nul bs = rev (dropWhile (\<lambda>c. c = 0) (rev bs))"

definition readMSTBody :: "byte list \<Rightarrow> bpdu \<Rightarrow> (decode_error + bpdu) option" where
  "readMSTBody p b = do {
     v3 \<leftarrow> sub p 39 41;
     let n = (unat (u16_of v3) - 64) div mstiRecordLength;
     let want = minMSTPayloadLength + mstiRecordLength * n;
     if length p < want then Some (Inl (MSTTooShort (length p) want))
     else do {
       digest \<leftarrow> sub p 76 92;
       bridgeAddr \<leftarrow> sub p 98 104;
       sel \<leftarrow> idx p 41;
       name \<leftarrow> sub p 42 74;
       rev \<leftarrow> sub p 74 76;
       cost \<leftarrow> sub p 92 96;
       bridgePrio \<leftarrow> sub p 96 98;
       hops \<leftarrow> idx p 104;
       recs \<leftarrow> readMSTIRecords p minMSTPayloadLength n;
       Some (Inr (b\<lparr>
         b_RegionalRootID := b_BridgeID b,
         b_ConfigID := Some \<lparr>cid_Selector = sel, cid_Name = map char_of_byte (trim_nul name),
           cid_Revision = u16_of rev, cid_Digest = digest\<rparr>,
         b_InternalRootPathCost := u32_of cost,
         b_BridgeID := BridgeID (u16_of bridgePrio) (mac_of bridgeAddr),
         b_RemainingHops := hops,
         b_MSTIs := recs\<rparr>))
     }
   }"

text \<open>The type 2 branch of \<^verbatim>\<open>Decode\<close>, after the header checks.\<close>

definition decodeRST :: "byte list \<Rightarrow> byte \<Rightarrow> (decode_error + bpdu) option" where
  "decodeRST p version =
     (if version < 2 then Some (Inl (BadVersion version))
      else
        let minPayloadLength = (if version \<ge> 3 then 38 else 39) in
        if length p < minPayloadLength then Some (Inl (TooShort (length p) minPayloadLength))
        else do {
          body \<leftarrow> readBody 0 p;
          flags \<leftarrow> idx p 7;
          let b = body\<lparr>b_Version := version, b_Type := TypeRapid,
                       b_Flags := flags AND NOT flagTopologyChangeAck\<rparr>;
          let bpduOctets = length p - 3;
          if version \<ge> 3 \<and> bpduOctets \<ge> mstBodyLength then do {
            v1 \<leftarrow> idx p 38;
            if v1 = 0 then do {
              v3b \<leftarrow> sub p 39 41;
              let v3Len = unat (u16_of v3b);
              if v3Len \<ge> 64 \<and> (v3Len - 64) mod mstiRecordLength = 0 \<and>
                 (v3Len - 64) div mstiRecordLength \<le> MaxMSTIRecords
              then
                let n = (v3Len - 64) div mstiRecordLength;
                    wantOctets = mstBodyLength + mstiRecordLength * n in
                if bpduOctets = mstBodyLength \<and> n \<noteq> 0 then Some (Inr b)
                else if bpduOctets < wantOctets
                then Some (Inl (MSTTooShort (length p) (3 + wantOctets)))
                else readMSTBody p b
              else Some (Inr b)
            } else Some (Inr b)
          } else Some (Inr b)
        })"

definition Decode :: "frame \<Rightarrow> (decode_error + bpdu) option" where
  "Decode f =
     (let p = f_Payload f in
      if length p < 7 then Some (Inl (TooShort (length p) 7))
      else do {
        dsap \<leftarrow> idx p 0;
        ssap \<leftarrow> idx p 1;
        control \<leftarrow> idx p 2;
        proto \<leftarrow> sub p 3 5;
        version \<leftarrow> idx p 5;
        bpduType \<leftarrow> idx p 6;
        if dsap \<noteq> 0x42 then Some (Inl (BadDSAP dsap))
        else if ssap \<noteq> 0x42 then Some (Inl (BadSSAP ssap))
        else if control \<noteq> 0x03 then Some (Inl (BadControl control))
        else if u16_of proto \<noteq> 0 then Some (Inl (BadProtocolID (u16_of proto)))
        else if bpduType = 0x00 then
          (if length p < 38 then Some (Inl (TooShort (length p) 38))
           else do {
             body \<leftarrow> readBody 0 p;
             flags \<leftarrow> idx p 7;
             Some (Inr (body\<lparr>b_Version := version, b_Type := TypeConfiguration,
               b_Flags := flags AND (flagTopologyChange OR flagTopologyChangeAck)\<rparr>))
           })
        else if bpduType = 0x80 then
          Some (Inr (zero_bpdu\<lparr>b_Version := version, b_Type := TypeTopologyChangeNotification\<rparr>))
        else if bpduType = 0x02 then decodeRST p version
        else Some (Inl (BadType version bpduType))
      })"

definition DecodeSSTP :: "frame \<Rightarrow> (decode_error + bpdu \<times> vlan_id) option" where
  "DecodeSSTP f =
     (let p = f_Payload f in
      if length p < sstpTCNLength then Some (Inl (TooShort (length p) sstpTCNLength))
      else do {
        p0 \<leftarrow> idx p 0; p1 \<leftarrow> idx p 1; p2 \<leftarrow> idx p 2;
        p3 \<leftarrow> idx p 3; p4 \<leftarrow> idx p 4; p5 \<leftarrow> idx p 5;
        pid \<leftarrow> sub p 6 8;
        proto \<leftarrow> sub p 8 10;
        version \<leftarrow> idx p 10;
        wireType \<leftarrow> idx p 11;
        if p0 \<noteq> 0xAA \<or> p1 \<noteq> 0xAA \<or> p2 \<noteq> 0x03 then Some (Inl BadLLC)
        else if p3 \<noteq> 0x00 \<or> p4 \<noteq> 0x00 \<or> p5 \<noteq> 0x0C then Some (Inl BadOUI)
        else if u16_of pid \<noteq> 0x010B then Some (Inl (BadPID (u16_of pid)))
        else if u16_of proto \<noteq> 0 then Some (Inl (BadProtocolID (u16_of proto)))
        else if wireType = 0x80 then
          Some (Inr (zero_bpdu\<lparr>b_Version := version, b_Type := TypeTopologyChangeNotification\<rparr>, 0))
        else if wireType \<noteq> 0x00 \<and> wireType \<noteq> 0x02 then Some (Inl (BadType version wireType))
        else if length p < sstpConfigurationPayloadLength then
          Some (Inl (TooShort (length p) sstpConfigurationPayloadLength))
        else if wireType = 0x02 \<and> version < 2 then Some (Inl (BadVersion version))
        else do {
          tlvType \<leftarrow> sub p 44 46;
          if u16_of tlvType \<noteq> 0 then Some (Inl (BadTLVType (u16_of tlvType)))
          else do {
            tlvLength \<leftarrow> sub p 46 48;
            if u16_of tlvLength \<noteq> 2 then Some (Inl (BadTLVLength (u16_of tlvLength)))
            else do {
              body \<leftarrow> readBody 5 p;
              flags \<leftarrow> idx p 12;
              let b = (if wireType = 0x00 then
                         body\<lparr>b_Version := version, b_Type := TypeConfiguration,
                              b_Flags := flags AND (flagTopologyChange OR flagTopologyChangeAck)\<rparr>
                       else
                         body\<lparr>b_Version := version, b_Type := TypeRapid,
                              b_Flags := flags AND NOT flagTopologyChangeAck\<rparr>);
              vid \<leftarrow> sub p 48 50;
              Some (Inr (b, u16_of vid))
            }
          }
        }
      })"

end
