(* ===== verification/Stp_Config.thy ===== *)
theory Stp_Config
  imports Effects Bpdu
begin

text \<open>
  The spanning tree configuration of \<^verbatim>\<open>src/common/sim/layer/stp\<close>: \<^verbatim>\<open>config.go\<close>, the MST
  region of \<^verbatim>\<open>mst.go\<close> and the per-VLAN trees of \<^verbatim>\<open>pvst.go\<close>, with their defaults,
  normalisation and validation.

  \<open>sortedKeys\<close> is how the code walks a configuration map.
\<close>

section \<open>Data\<close>

datatype p2p_mode = P2PEmpty | P2PAuto | P2PForceTrue | P2PForceFalse | P2POther string

record stp_port =
  a_Priority :: byte
  a_PriorityPresent :: bool
  a_PathCost :: u32
  a_AdminEdge :: bool
  a_AutoEdge :: bool
  a_PointToPoint :: p2p_mode
  a_BPDUGuard :: bool
  a_RestrictedRole :: bool
  a_RestrictedTCN :: bool
  a_LoopGuard :: bool

definition zero_stp_port :: stp_port where
  "zero_stp_port = \<lparr>a_Priority = 0, a_PriorityPresent = False, a_PathCost = 0, a_AdminEdge = False,
     a_AutoEdge = False, a_PointToPoint = P2PEmpty, a_BPDUGuard = False, a_RestrictedRole = False,
     a_RestrictedTCN = False, a_LoopGuard = False\<rparr>"

record instance_port =
  ip_Priority :: byte
  ip_PriorityPresent :: bool
  ip_PathCost :: u32

record mst_instance =
  in_Priority :: u16
  in_PriorityPresent :: bool
  in_VLANs :: "vlan_id list"
  in_Ports :: "(string, instance_port) gomap"

record mst =
  m_Name :: string
  m_Revision :: u16
  m_MaxHops :: byte
  m_Instances :: "(u16, mst_instance) gomap"

record vlan_tree =
  vt_Priority :: u16
  vt_PriorityPresent :: bool
  vt_Ports :: "(string, instance_port) gomap"

definition zero_vlan_tree :: vlan_tree where
  "zero_vlan_tree = \<lparr>vt_Priority = 0, vt_PriorityPresent = False, vt_Ports = []\<rparr>"

record pvst =
  pv_Trees :: "(vlan_id, vlan_tree) gomap"

record stp_config =
  c_Priority :: u16
  c_PriorityPresent :: bool
  c_Address :: mac
  c_HelloTime :: duration
  c_MaxAge :: duration
  c_ForwardDelay :: duration
  c_TxHoldCount :: byte
  c_Ports :: "(string, stp_port) gomap"
  c_MST :: "mst option"
  c_PVST :: "pvst option"

section \<open>Defaults\<close>

abbreviation DefaultBridgePriority :: u16 where "DefaultBridgePriority \<equiv> 32768"
abbreviation DefaultHelloTime :: duration where "DefaultHelloTime \<equiv> 2 * second"
abbreviation DefaultMaxAge :: duration where "DefaultMaxAge \<equiv> 20 * second"
abbreviation DefaultForwardDelay :: duration where "DefaultForwardDelay \<equiv> 15 * second"
abbreviation DefaultPortPriority :: byte where "DefaultPortPriority \<equiv> 128"
abbreviation MaxPathCost :: u32 where "MaxPathCost \<equiv> 200000000"
abbreviation DefaultTxHoldCount :: byte where "DefaultTxHoldCount \<equiv> 6"
abbreviation migrateTime :: duration where "migrateTime \<equiv> 3 * second"
abbreviation defaultMaxHops :: byte where "defaultMaxHops \<equiv> 20"

definition effectivePriority :: "u16 \<Rightarrow> bool \<Rightarrow> u16" where
  "effectivePriority p present = (if p = 0 \<and> \<not> present then DefaultBridgePriority else p)"

definition effectiveHelloTime :: "duration \<Rightarrow> duration" where
  "effectiveHelloTime d = (if d = 0 then DefaultHelloTime else d)"

definition effectiveMaxAge :: "duration \<Rightarrow> duration" where
  "effectiveMaxAge d = (if d = 0 then DefaultMaxAge else d)"

definition effectiveForwardDelay :: "duration \<Rightarrow> duration" where
  "effectiveForwardDelay d = (if d = 0 then DefaultForwardDelay else d)"

definition effectiveTxHoldCount :: "byte \<Rightarrow> byte" where
  "effectiveTxHoldCount c = (if c = 0 then DefaultTxHoldCount else c)"

definition effectivePortPriority :: "byte \<Rightarrow> bool \<Rightarrow> byte" where
  "effectivePortPriority p present = (if p = 0 \<and> \<not> present then DefaultPortPriority else p)"

definition effectivePointToPoint :: "p2p_mode \<Rightarrow> p2p_mode" where
  "effectivePointToPoint m = (if m = P2PEmpty then P2PAuto else m)"

definition effectiveMaxHops :: "byte \<Rightarrow> byte" where
  "effectiveMaxHops h = (if h = 0 then defaultMaxHops else h)"

definition effectiveInstancePriority :: "u16 \<Rightarrow> bool \<Rightarrow> u16" where
  "effectiveInstancePriority p present = (if p = 0 \<and> \<not> present then DefaultBridgePriority else p)"

definition defaultPathCost :: "u64 \<Rightarrow> u32" where
  "defaultPathCost speedBPS =
     (if speedBPS \<ge> 100000000000 then 200
      else if speedBPS \<ge> 10000000000 then 2000
      else if speedBPS \<ge> 1000000000 then 20000
      else if speedBPS \<ge> 100000000 then 200000
      else if speedBPS \<ge> 10000000 then 2000000
      else 20000)"

section \<open>Normalisation\<close>

definition mst_Normalize :: "mst \<Rightarrow> mst" where
  "mst_Normalize m =
     m\<lparr>m_MaxHops := effectiveMaxHops (m_MaxHops m),
       m_Instances := map_vals (\<lambda>_ inst.
         inst\<lparr>in_Priority := effectiveInstancePriority (in_Priority inst) (in_PriorityPresent inst),
              in_PriorityPresent := True,
              in_VLANs := sort (in_VLANs inst)\<rparr>) (m_Instances m)\<rparr>"

definition pvst_Normalize :: "u16 \<Rightarrow> pvst \<Rightarrow> pvst" where
  "pvst_Normalize bridgePriority p =
     (let trees = pv_Trees p;
          trees = (if map_of trees 1 = None then trees @ [(1, zero_vlan_tree)] else trees)
      in p\<lparr>pv_Trees := map_vals (\<lambda>_ tree.
             if vt_PriorityPresent tree then tree else tree\<lparr>vt_Priority := bridgePriority\<rparr>) trees\<rparr>)"

text \<open>A tree port that names no priority takes the bridge port's, or the default.\<close>

definition inherit_port :: "(string, stp_port) gomap \<Rightarrow> string \<Rightarrow> instance_port \<Rightarrow> instance_port" where
  "inherit_port ports name ip =
     (if ip_PriorityPresent ip then ip
      else ip\<lparr>ip_Priority := (case map_of ports name of
                                Some bp \<Rightarrow> a_Priority bp
                              | None \<Rightarrow> DefaultPortPriority)\<rparr>)"

definition config_Normalize :: "stp_config \<Rightarrow> stp_config" where
  "config_Normalize c =
     (let prio = effectivePriority (c_Priority c) (c_PriorityPresent c);
          ports = map_vals (\<lambda>_ p.
            p\<lparr>a_Priority := effectivePortPriority (a_Priority p) (a_PriorityPresent p),
              a_PriorityPresent := True,
              a_PointToPoint := effectivePointToPoint (a_PointToPoint p)\<rparr>) (c_Ports c)
      in c\<lparr>c_Priority := prio, c_PriorityPresent := True,
           c_HelloTime := effectiveHelloTime (c_HelloTime c),
           c_MaxAge := effectiveMaxAge (c_MaxAge c),
           c_ForwardDelay := effectiveForwardDelay (c_ForwardDelay c),
           c_TxHoldCount := effectiveTxHoldCount (c_TxHoldCount c),
           c_Ports := ports,
           c_MST := map_option (\<lambda>m.
             let n = mst_Normalize m
             in n\<lparr>m_Instances := map_vals (\<lambda>_ inst.
                    inst\<lparr>in_Ports := map_vals (inherit_port ports) (in_Ports inst)\<rparr>)
                    (m_Instances n)\<rparr>) (c_MST c),
           c_PVST := map_option (\<lambda>p.
             let n = pvst_Normalize prio p
             in n\<lparr>pv_Trees := map_vals (\<lambda>_ tree.
                    tree\<lparr>vt_Ports := map_vals (inherit_port ports) (vt_Ports tree)\<rparr>)
                    (pv_Trees n)\<rparr>) (c_PVST c)\<rparr>)"

section \<open>Validation\<close>

datatype config_error =
    MSTAndPVST | BadPriority u16 | GroupAddress | TimerOutOfRange string duration
  | MaxAgeBelowHello duration | MaxAgeAboveForwardDelay duration
  | TxHoldCountTooLarge byte | TooManyPorts nat
  | PortAbsent string | PortIsLagMember string | PathCostTooLarge string
  | UnknownP2PMode string | LoopGuardRestrictedRole string | LoopGuardAdminEdge string
  | RegionNameTooLong nat | RegionNameHasNUL | MaxHopsOutOfRange byte | TooManyInstances nat
  | MSTIDOutOfRange u16 | InstancePriority u16 | InstanceVLANInvalid u16 vlan_id
  | VLANClaimedTwice vlan_id u16 | TreePortAbsent u16 string | TreePortNotSTP u16 string
  | TreePortCostTooLarge u16 string | VIDOutOfRange vlan_id | TreePriority vlan_id

definition ValidateTimers :: "stp_config \<Rightarrow> config_error option" where
  "ValidateTimers c =
     (let helloTime = effectiveHelloTime (c_HelloTime c);
          maxAge = effectiveMaxAge (c_MaxAge c);
          forwardDelay = effectiveForwardDelay (c_ForwardDelay c) in
      case first_error
             (\<lambda>(name, value, low, hi). if value < low \<or> value > hi then Some (TimerOutOfRange name value)
                                       else None)
             [(''hello_time'', helloTime, second, 10 * second),
              (''max_age'', maxAge, 6 * second, 40 * second),
              (''forward_delay'', forwardDelay, 4 * second, 30 * second)] of
        Some e \<Rightarrow> Some e
      | None \<Rightarrow>
          if maxAge < 2 * (helloTime + second) then Some (MaxAgeBelowHello maxAge)
          else if maxAge > 2 * (forwardDelay - second) then Some (MaxAgeAboveForwardDelay maxAge)
          else None)"

text \<open>The loop over one tree's ports, shared by \<^verbatim>\<open>MST.Validate\<close> and \<^verbatim>\<open>PVST.Validate\<close>.\<close>

definition validate_tree_ports ::
    "port_table \<Rightarrow> (string, stp_port) gomap \<Rightarrow> u16 \<Rightarrow> (string, instance_port) gomap \<Rightarrow>
     config_error option" where
  "validate_tree_ports tbl stpPorts k treePorts =
     first_error (\<lambda>name.
       if Table_Port tbl name = None then Some (TreePortAbsent k name)
       else if map_of stpPorts name = None then Some (TreePortNotSTP k name)
       else case map_of treePorts name of
              None \<Rightarrow> None
            | Some ip \<Rightarrow> if ip_PathCost ip > MaxPathCost then Some (TreePortCostTooLarge k name) else None)
       (sortedKeys treePorts)"

text \<open>The loop over an instance's VLANs; \<open>claimed\<close> maps a VLAN to the instance that claimed it.\<close>

fun claim_vlans ::
    "u16 \<Rightarrow> vlan_id list \<Rightarrow> (vlan_id \<rightharpoonup> u16) \<Rightarrow> config_error + (vlan_id \<rightharpoonup> u16)" where
  "claim_vlans k [] claimed = Inr claimed"
| "claim_vlans k (vid # vids) claimed =
     (if \<not> vlan_Valid vid then Inl (InstanceVLANInvalid k vid)
      else if claimed vid \<noteq> None then Inl (VLANClaimedTwice vid k)
      else claim_vlans k vids (claimed(vid \<mapsto> k)))"

fun validate_instances ::
    "port_table \<Rightarrow> (string, stp_port) gomap \<Rightarrow> (u16, mst_instance) gomap \<Rightarrow> u16 list \<Rightarrow>
     (vlan_id \<rightharpoonup> u16) \<Rightarrow> config_error option" where
  "validate_instances tbl stpPorts insts [] claimed = None"
| "validate_instances tbl stpPorts insts (k # ks) claimed =
     (if k < 1 \<or> k > 4094 then Some (MSTIDOutOfRange k)
      else case map_of insts k of
        None \<Rightarrow> None
      | Some inst \<Rightarrow>
          if effectiveInstancePriority (in_Priority inst) (in_PriorityPresent inst) mod 4096 \<noteq> 0
          then Some (InstancePriority k)
          else case claim_vlans k (in_VLANs inst) claimed of
            Inl e \<Rightarrow> Some e
          | Inr claimed' \<Rightarrow>
              (case validate_tree_ports tbl stpPorts k (in_Ports inst) of
                 Some e \<Rightarrow> Some e
               | None \<Rightarrow> validate_instances tbl stpPorts insts ks claimed'))"

definition mst_Validate ::
    "port_table \<Rightarrow> (string, stp_port) gomap \<Rightarrow> mst \<Rightarrow> config_error option" where
  "mst_Validate tbl stpPorts m =
     (if length (m_Name m) > 32 then Some (RegionNameTooLong (length (m_Name m)))
      else if char_of_byte 0 \<in> set (m_Name m) then Some RegionNameHasNUL
      else let maxHops = effectiveMaxHops (m_MaxHops m) in
        if maxHops < 6 \<or> maxHops > 40 then Some (MaxHopsOutOfRange maxHops)
        else if length (m_Instances m) > MaxMSTIRecords
        then Some (TooManyInstances (length (m_Instances m)))
        else validate_instances tbl stpPorts (m_Instances m) (sortedKeys (m_Instances m)) Map.empty)"

definition pvst_Validate ::
    "port_table \<Rightarrow> (string, stp_port) gomap \<Rightarrow> pvst \<Rightarrow> config_error option" where
  "pvst_Validate tbl stpPorts p =
     first_error (\<lambda>vid.
       if vid < 1 \<or> vid > 4094 then Some (VIDOutOfRange vid)
       else case map_of (pv_Trees p) vid of
         None \<Rightarrow> None
       | Some tree \<Rightarrow>
           if effectiveInstancePriority (vt_Priority tree) (vt_PriorityPresent tree) mod 4096 \<noteq> 0
           then Some (TreePriority vid)
           else validate_tree_ports tbl stpPorts vid (vt_Ports tree))
       (sortedKeys (pv_Trees p))"

definition validate_port :: "port_table \<Rightarrow> (string, stp_port) gomap \<Rightarrow> string \<Rightarrow> config_error option" where
  "validate_port tbl ports name =
     (case Table_Port tbl name of
        None \<Rightarrow> Some (PortAbsent name)
      | Some p \<Rightarrow>
          if pt_LagParent p \<noteq> '''' then Some (PortIsLagMember name)
          else case map_of ports name of
            None \<Rightarrow> None
          | Some cfgPort \<Rightarrow>
              if a_PathCost cfgPort > MaxPathCost then Some (PathCostTooLarge name)
              else if (case a_PointToPoint cfgPort of P2POther _ \<Rightarrow> True | _ \<Rightarrow> False)
              then Some (UnknownP2PMode name)
              else if a_LoopGuard cfgPort \<and> a_RestrictedRole cfgPort
              then Some (LoopGuardRestrictedRole name)
              else if a_LoopGuard cfgPort \<and> a_AdminEdge cfgPort then Some (LoopGuardAdminEdge name)
              else None)"

definition config_Validate :: "port_table \<Rightarrow> stp_config \<Rightarrow> config_error option" where
  "config_Validate tbl c =
     (if c_MST c \<noteq> None \<and> c_PVST c \<noteq> None then Some MSTAndPVST
      else if c_Priority c mod 4096 \<noteq> 0 then Some (BadPriority (c_Priority c))
      else if mac_IsGroup (c_Address c) then Some GroupAddress
      else case ValidateTimers c of
        Some e \<Rightarrow> Some e
      | None \<Rightarrow>
          if c_TxHoldCount c > 10 then Some (TxHoldCountTooLarge (c_TxHoldCount c))
          else if length (c_Ports c) > 255 then Some (TooManyPorts (length (c_Ports c)))
          else case first_error (validate_port tbl (c_Ports c)) (sortedKeys (c_Ports c)) of
            Some e \<Rightarrow> Some e
          | None \<Rightarrow>
              (case (case c_MST c of None \<Rightarrow> None | Some m \<Rightarrow> mst_Validate tbl (c_Ports c) m) of
                 Some e \<Rightarrow> Some e
               | None \<Rightarrow>
                   (case c_PVST c of None \<Rightarrow> None | Some p \<Rightarrow> pvst_Validate tbl (c_Ports c) p)))"

section \<open>The MST configuration identifier\<close>

definition mstDigestKey :: "byte list" where
  "mstDigestKey = [0x13, 0xAC, 0x06, 0xA6, 0x2E, 0x47, 0xFD, 0x51,
                   0xF9, 0x5D, 0x2B, 0xA2, 0x43, 0xCD, 0x03, 0x46]"

text \<open>The VID-to-MSTID table, 4096 entries.\<close>

definition mst_table :: "mst \<Rightarrow> u16 list" where
  "mst_table m =
     fold (\<lambda>k table.
         fold (\<lambda>vid table. if unat vid < length table then table[unat vid := k] else table)
           (case map_of (m_Instances m) k of Some inst \<Rightarrow> in_VLANs inst | None \<Rightarrow> []) table)
       (sortedKeys (m_Instances m)) (replicate 4096 0)"

text \<open>\<open>hmac_md5\<close> is \<^verbatim>\<open>hmac.New(md5.New, key)\<close> of the standard library, key first.\<close>

definition mst_ConfigID :: "(byte list \<Rightarrow> byte list \<Rightarrow> byte list) \<Rightarrow> mst \<Rightarrow> config_id" where
  "mst_ConfigID hmac_md5 m =
     \<lparr>cid_Selector = 0, cid_Name = m_Name m, cid_Revision = m_Revision m,
      cid_Digest = hmac_md5 mstDigestKey (concat (map be16 (mst_table m)))\<rparr>"

end
