(* ===== verification/Stp_Vector.thy ===== *)
theory Stp_Vector
  imports Stp_Config "HOL-Library.Product_Lexorder"
begin

text \<open>
  The priority vectors of \<^verbatim>\<open>stp/vector.go\<close> and their comparison, which is a linear order:
  the library's \<^theory_text>\<open>linorder\<close> locale is interpreted on \<open>compareVectors\<close>.
\<close>

section \<open>Costs\<close>

definition saturatingAdd :: "u32 \<Rightarrow> u32 \<Rightarrow> u32" where
  "saturatingAdd a b = (if 0xFFFFFFFF - a < b then 0xFFFFFFFF else a + b)"

lemma saturatingAdd_min: "unat (saturatingAdd a b) = min (2 ^ 32 - 1) (unat a + unat b)"
proof -
  have a: "unat a \<le> 0xFFFFFFFF" and b: "unat b \<le> 0xFFFFFFFF"
    using unsigned_less [of a, where ?'a = nat] unsigned_less [of b, where ?'a = nat] by simp_all
  have "a \<le> 0xFFFFFFFF"
    using a by (simp add: word_le_nat_alt)
  then have m: "unat (0xFFFFFFFF - a) = 0xFFFFFFFF - unat a"
    by (simp add: unat_sub)
  show ?thesis
  proof (cases "0xFFFFFFFF - a < b")
    case True
    with m have "0xFFFFFFFF < unat a + unat b"
      by (simp add: word_less_nat_alt)
    with True show ?thesis by (simp add: saturatingAdd_def)
  next
    case False
    with m a have "unat a + unat b \<le> 0xFFFFFFFF"
      by (simp add: word_less_nat_alt)
    with False show ?thesis by (simp add: saturatingAdd_def unat_word_ariths)
  qed
qed

lemma saturatingAdd_ge: "a \<le> saturatingAdd a b"
  using saturatingAdd_min [of a b] unsigned_less [of a, where ?'a = nat]
  by (simp add: word_le_nat_alt)

section \<open>Vectors\<close>

record priority_vector =
  v_rootID :: bridge_id
  v_externalRootPathCost :: u32
  v_regionalRootID :: bridge_id
  v_internalRootPathCost :: u32
  v_bridgeID :: bridge_id
  v_portID :: u16

definition zero_vector :: priority_vector where
  "zero_vector = \<lparr>v_rootID = zero_bid, v_externalRootPathCost = 0, v_regionalRootID = zero_bid,
     v_internalRootPathCost = 0, v_bridgeID = zero_bid, v_portID = 0\<rparr>"

text \<open>\<^verbatim>\<open>cmp.Compare\<close>.\<close>

definition cmp_Compare :: "'a::linorder \<Rightarrow> 'a \<Rightarrow> int" where
  "cmp_Compare a b = (if a < b then -1 else if b < a then 1 else 0)"

definition compareVectors :: "priority_vector \<Rightarrow> priority_vector \<Rightarrow> int" where
  "compareVectors a b =
     (if bridge_id_Less (v_rootID a) (v_rootID b) then -1
      else if bridge_id_Less (v_rootID b) (v_rootID a) then 1
      else if v_externalRootPathCost a \<noteq> v_externalRootPathCost b
      then cmp_Compare (v_externalRootPathCost a) (v_externalRootPathCost b)
      else if bridge_id_Less (v_regionalRootID a) (v_regionalRootID b) then -1
      else if bridge_id_Less (v_regionalRootID b) (v_regionalRootID a) then 1
      else if v_internalRootPathCost a \<noteq> v_internalRootPathCost b
      then cmp_Compare (v_internalRootPathCost a) (v_internalRootPathCost b)
      else if bridge_id_Less (v_bridgeID a) (v_bridgeID b) then -1
      else if bridge_id_Less (v_bridgeID b) (v_bridgeID a) then 1
      else cmp_Compare (v_portID a) (v_portID b))"

text \<open>
  The abstract order: the vector read as the tuple of its components, most significant first,
  compared lexicographically.
\<close>

definition vec_key ::
    "priority_vector \<Rightarrow> bridge_id \<times> u32 \<times> bridge_id \<times> u32 \<times> bridge_id \<times> u16" where
  "vec_key v = (v_rootID v, v_externalRootPathCost v, v_regionalRootID v,
     v_internalRootPathCost v, v_bridgeID v, v_portID v)"

lemma vec_key_inj [simp]: "vec_key a = vec_key b \<longleftrightarrow> a = b"
  by (cases a; cases b) (simp add: vec_key_def)

lemma cmp_Compare_simps [simp]:
  "cmp_Compare a b < 0 \<longleftrightarrow> a < b" "cmp_Compare a b \<le> 0 \<longleftrightarrow> a \<le> b"
  "cmp_Compare a b = 0 \<longleftrightarrow> a = b" "cmp_Compare a b > 0 \<longleftrightarrow> b < a" "cmp_Compare a b \<ge> 0 \<longleftrightarrow> b \<le> a"
  by (auto simp: cmp_Compare_def)

lemma cmp_Compare_swap: "cmp_Compare b a = - cmp_Compare a b"
  by (auto simp: cmp_Compare_def)

lemma cmp_Compare_pair:
  "cmp_Compare (a, x) (b, y) = (if a < b then -1 else if b < a then 1 else cmp_Compare x y)"
  by (auto simp: cmp_Compare_def less_prod_def')

lemma cmp_Compare_step:
  "(if a \<noteq> b then cmp_Compare a b else c) = (if a < b then -1 else if b < a then 1 else c)"
  by (auto simp: cmp_Compare_def)

lemma compareVectors_key: "compareVectors a b = cmp_Compare (vec_key a) (vec_key b)"
  unfolding compareVectors_def vec_key_def cmp_Compare_pair cmp_Compare_step bridge_id_Less_less ..

lemma compareVectors_zero_iff: "compareVectors a b = 0 \<longleftrightarrow> a = b"
  by (simp add: compareVectors_key)

lemma compareVectors_swap: "compareVectors b a = - compareVectors a b"
  unfolding compareVectors_key by (rule cmp_Compare_swap)

lemma compareVectors_refl [simp]: "compareVectors a a = 0"
  by (simp add: compareVectors_zero_iff)

definition vec_less :: "priority_vector \<Rightarrow> priority_vector \<Rightarrow> bool" where
  "vec_less a b \<longleftrightarrow> compareVectors a b < 0"

definition vec_le :: "priority_vector \<Rightarrow> priority_vector \<Rightarrow> bool" where
  "vec_le a b \<longleftrightarrow> compareVectors a b \<le> 0"

interpretation vec: linorder vec_le vec_less
proof
  fix x y z
  show "vec_less x y = (vec_le x y \<and> \<not> vec_le y x)"
    by (simp add: vec_less_def vec_le_def compareVectors_key less_le_not_le)
  show "vec_le x x"
    by (simp add: vec_le_def)
  show "vec_le x y \<Longrightarrow> vec_le y x \<Longrightarrow> x = y"
    by (simp add: vec_le_def compareVectors_key)
  show "vec_le x y \<or> vec_le y x"
    by (auto simp: vec_le_def compareVectors_key)
  show "vec_le x y \<Longrightarrow> vec_le y z \<Longrightarrow> vec_le x z"
    by (simp add: vec_le_def compareVectors_key)
qed

end
