(* ===== verification/Stp_State.thy ===== *)
theory Stp_State
  imports Stp_Vector
begin

text \<open>
  The state of the spanning tree layer: \<^verbatim>\<open>portState\<close>, \<^verbatim>\<open>linkRecord\<close> and
  \<^verbatim>\<open>portTx\<close> of \<^verbatim>\<open>stp/portstate.go\<close>, \<^verbatim>\<open>tree\<close> of \<^verbatim>\<open>stp/tree.go\<close> and
  \<^verbatim>\<open>Layer\<close> of \<^verbatim>\<open>stp/layer.go\<close>.

  A map of pointers is the list of its entries; a write through such a pointer is \<open>upd\<close>, a read is an accessor
  (\<open>tree_at\<close>, \<open>port_at\<close>, \<open>link_at\<close>, \<open>tx_at\<close>) that answers the zero value where Go would
  dereference nil. The key sets are fixed at construction (\<open>wf_layer\<close> states them), so that case
  does not arise in a layer the constructor built. The two out-parameters every call threads,
  \<^verbatim>\<open>flushes *[]FlushTarget\<close> and \<^verbatim>\<open>emissions *[]Emission\<close>, are two fields of the state that
  a call starts empty.

  A tree is named by the identifier it is stored under, a port by that and its name: \<open>i\<close> and
  \<open>n\<close> below are \<^verbatim>\<open>t.id\<close> and \<^verbatim>\<open>p.name\<close> of the pointers \<^verbatim>\<open>t\<close> and \<^verbatim>\<open>p\<close>
  (\<open>wf_layer\<close>: a record holds the key it is stored under).
\<close>

section \<open>Records\<close>

datatype state = StateNone | StateDiscarding | StateLearning | StateForwarding

record link_record =
  k_up :: bool
  k_pointToPoint :: bool
  k_edge :: bool
  k_sendRSTP :: bool
  k_adminEdge :: bool
  k_linkPathCost :: u32
  k_external :: bool
  k_bpduGuardDisabled :: bool
  k_pvstBoundary :: bool
  k_mdelayWhile :: time
  k_edgeDelayWhile :: time
  k_rxBPDUs :: u64
  k_badBPDUs :: u64

definition zero_link :: link_record where
  "zero_link = \<lparr>k_up = False, k_pointToPoint = False, k_edge = False, k_sendRSTP = False,
     k_adminEdge = False, k_linkPathCost = 0, k_external = False, k_bpduGuardDisabled = False,
     k_pvstBoundary = False, k_mdelayWhile = 0, k_edgeDelayWhile = 0, k_rxBPDUs = 0,
     k_badBPDUs = 0\<rparr>"

record port_state =
  p_name :: string
  p_cfg :: stp_port
  p_portID :: u16
  p_pathCost :: u32
  p_pathCostFixed :: bool
  p_rcvRegionalRootID :: bridge_id
  p_rcvInternalRootPathCost :: u32
  p_rcvRemainingHops :: byte
  p_role :: role
  p_state :: state
  p_loopInconsistent :: bool
  p_pvidInconsistent :: bool
  p_proposing :: bool
  p_agreed :: bool
  p_synced :: bool
  p_designatedVec :: priority_vector
  p_designatedVecSet :: bool
  p_tcWhile :: time
  p_tcActive :: bool
  p_tcAck :: bool
  p_fwdDelayTimer :: time
  p_boundarySyncState :: state
  p_rootDeadline :: time
  p_pendingRootDeadline :: bool
  p_leftBackupAt :: time
  p_rcvInfoValid :: bool
  p_rcvRootID :: bridge_id
  p_rcvRootPathCost :: u32
  p_rcvBridgeID :: bridge_id
  p_rcvPortID :: u16
  p_rcvMessageAge :: duration
  p_rcvMaxAge :: duration
  p_rcvHelloTime :: duration
  p_rcvForwardDelay :: duration
  p_rcvTime :: time
  p_forwardTransitions :: u64
  p_txBPDUs :: u64

definition zero_pstate :: port_state where
  "zero_pstate = \<lparr>p_name = '''', p_cfg = zero_stp_port, p_portID = 0, p_pathCost = 0,
     p_pathCostFixed = False, p_rcvRegionalRootID = zero_bid, p_rcvInternalRootPathCost = 0,
     p_rcvRemainingHops = 0, p_role = RoleNone, p_state = StateNone, p_loopInconsistent = False,
     p_pvidInconsistent = False, p_proposing = False, p_agreed = False, p_synced = False,
     p_designatedVec = zero_vector, p_designatedVecSet = False, p_tcWhile = 0, p_tcActive = False,
     p_tcAck = False, p_fwdDelayTimer = 0, p_boundarySyncState = StateNone, p_rootDeadline = 0,
     p_pendingRootDeadline = False, p_leftBackupAt = 0, p_rcvInfoValid = False,
     p_rcvRootID = zero_bid, p_rcvRootPathCost = 0, p_rcvBridgeID = zero_bid, p_rcvPortID = 0,
     p_rcvMessageAge = 0, p_rcvMaxAge = 0, p_rcvHelloTime = 0, p_rcvForwardDelay = 0,
     p_rcvTime = 0, p_forwardTransitions = 0, p_txBPDUs = 0\<rparr>"

type_synonym tree_id = u16

abbreviation cistID :: tree_id where "cistID \<equiv> 0"

record tree =
  t_id :: tree_id
  t_vid :: vlan_id
  t_bridgeID :: bridge_id
  t_rootID :: bridge_id
  t_rootPathCost :: u32
  t_rootPort :: string
  t_regionalRootID :: bridge_id
  t_internalRootPathCost :: u32
  t_topologyChangeCount :: u64
  t_lastTopologyChange :: time
  t_ports :: "(string, port_state) gomap"

definition zero_tree :: tree where
  "zero_tree = \<lparr>t_id = 0, t_vid = 0, t_bridgeID = zero_bid, t_rootID = zero_bid,
     t_rootPathCost = 0, t_rootPort = '''', t_regionalRootID = zero_bid,
     t_internalRootPathCost = 0, t_topologyChangeCount = 0, t_lastTopologyChange = 0,
     t_ports = []\<rparr>"

record port_tx =
  x_newInfo :: bool
  x_newInfoMsti :: bool
  x_count :: nat
  x_tick :: time
  x_helloWhen :: time

definition zero_tx :: port_tx where
  "zero_tx = \<lparr>x_newInfo = False, x_newInfoMsti = False, x_count = 0, x_tick = 0, x_helloWhen = 0\<rparr>"

type_synonym tx_key = "tree_id \<times> string"

record stp_layer =
  l_cfg :: stp_config
  l_priority :: u16
  l_address :: mac
  l_bridgeID :: bridge_id
  l_helloTime :: duration
  l_maxAge :: duration
  l_forwardDelay :: duration
  l_txHoldCount :: byte
  l_portNames :: "string list"
  l_trees :: "(tree_id, tree) gomap"
  l_vidToTree :: "vlan_id \<rightharpoonup> tree_id"
  l_treeVLANs :: "tree_id \<rightharpoonup> vlan_id list"
  l_treeOrder :: "tree_id list"
  l_portTx :: "(tx_key, port_tx) gomap"
  l_links :: "(string, link_record) gomap"
  l_mst :: "mst option"
  l_pvst :: "pvst option"
  l_configID :: "config_id option"
  l_flushes :: "flush_target list"
  l_emissions :: "emission list"

section \<open>Reading through a pointer\<close>

definition tree_at :: "stp_layer \<Rightarrow> tree_id \<Rightarrow> tree" where
  "tree_at l i = (case map_of (l_trees l) i of Some t \<Rightarrow> t | None \<Rightarrow> zero_tree)"

abbreviation port_of :: "stp_layer \<Rightarrow> tree_id \<Rightarrow> string \<Rightarrow> port_state option" where
  "port_of l i name \<equiv> map_of (t_ports (tree_at l i)) name"

abbreviation has_port :: "stp_layer \<Rightarrow> tree_id \<Rightarrow> string \<Rightarrow> bool" where
  "has_port l i name \<equiv> port_of l i name \<noteq> None"

definition port_at :: "stp_layer \<Rightarrow> tree_id \<Rightarrow> string \<Rightarrow> port_state" where
  "port_at l i name = (case port_of l i name of Some p \<Rightarrow> p | None \<Rightarrow> zero_pstate)"

definition link_at :: "stp_layer \<Rightarrow> string \<Rightarrow> link_record" where
  "link_at l name = (case map_of (l_links l) name of Some k \<Rightarrow> k | None \<Rightarrow> zero_link)"

definition txKeyFor :: "stp_layer \<Rightarrow> tree_id \<Rightarrow> string \<Rightarrow> tx_key" where
  "txKeyFor l i name = (if l_pvst l = None then (cistID, name) else (i, name))"

definition tx_at :: "stp_layer \<Rightarrow> tree_id \<Rightarrow> string \<Rightarrow> port_tx" where
  "tx_at l i name = (case map_of (l_portTx l) (txKeyFor l i name) of Some x \<Rightarrow> x | None \<Rightarrow> zero_tx)"

section \<open>Writing through a pointer\<close>

definition upd_tree :: "tree_id \<Rightarrow> (tree \<Rightarrow> tree) \<Rightarrow> stp_layer \<Rightarrow> stp_layer" where
  "upd_tree i f l = l\<lparr>l_trees := upd (l_trees l) i f\<rparr>"

definition upd_port :: "tree_id \<Rightarrow> string \<Rightarrow> (port_state \<Rightarrow> port_state) \<Rightarrow> stp_layer \<Rightarrow> stp_layer" where
  "upd_port i name f = upd_tree i (\<lambda>t. t\<lparr>t_ports := upd (t_ports t) name f\<rparr>)"

definition upd_link :: "string \<Rightarrow> (link_record \<Rightarrow> link_record) \<Rightarrow> stp_layer \<Rightarrow> stp_layer" where
  "upd_link name f l = l\<lparr>l_links := upd (l_links l) name f\<rparr>"

definition upd_tx :: "tree_id \<Rightarrow> string \<Rightarrow> (port_tx \<Rightarrow> port_tx) \<Rightarrow> stp_layer \<Rightarrow> stp_layer" where
  "upd_tx i name f l = l\<lparr>l_portTx := upd (l_portTx l) (txKeyFor l i name) f\<rparr>"

section \<open>Frame lemmas\<close>

lemma zero_tree_ports [simp]: "t_ports zero_tree = []"
  by (simp add: zero_tree_def)

lemma tree_at_upd_tree [frame_simps]:
  "tree_at (upd_tree i f l) j = (if j = i \<and> map_of (l_trees l) i \<noteq> None then f (tree_at l j) else tree_at l j)"
  by (auto simp: tree_at_def upd_tree_def split: option.splits)

lemma tree_at_upd_port [frame_simps]:
  "tree_at (upd_port i name f l) j =
     (tree_at l j)\<lparr>t_ports := (if j = i then upd (t_ports (tree_at l j)) name f
                              else t_ports (tree_at l j))\<rparr>"
  by (auto simp: tree_at_def upd_port_def upd_tree_def zero_tree_def split: option.splits)

lemma port_at_upd_port [frame_simps]:
  "port_at (upd_port i name f l) j m =
     (if j = i \<and> m = name \<and> has_port l i name then f (port_at l j m) else port_at l j m)"
  by (auto simp: port_at_def tree_at_upd_port split: option.splits)

lemma upd_tree_fields [frame_simps]:
  "l_cfg (upd_tree i f l) = l_cfg l" "l_priority (upd_tree i f l) = l_priority l"
  "l_address (upd_tree i f l) = l_address l" "l_bridgeID (upd_tree i f l) = l_bridgeID l"
  "l_helloTime (upd_tree i f l) = l_helloTime l" "l_maxAge (upd_tree i f l) = l_maxAge l"
  "l_forwardDelay (upd_tree i f l) = l_forwardDelay l"
  "l_txHoldCount (upd_tree i f l) = l_txHoldCount l"
  "l_portNames (upd_tree i f l) = l_portNames l" "l_vidToTree (upd_tree i f l) = l_vidToTree l"
  "l_treeVLANs (upd_tree i f l) = l_treeVLANs l" "l_treeOrder (upd_tree i f l) = l_treeOrder l"
  "l_portTx (upd_tree i f l) = l_portTx l" "l_links (upd_tree i f l) = l_links l"
  "l_mst (upd_tree i f l) = l_mst l" "l_pvst (upd_tree i f l) = l_pvst l"
  "l_configID (upd_tree i f l) = l_configID l" "l_flushes (upd_tree i f l) = l_flushes l"
  "l_emissions (upd_tree i f l) = l_emissions l"
  by (simp_all add: upd_tree_def)

lemma upd_port_fields [frame_simps]:
  "l_cfg (upd_port i n f l) = l_cfg l" "l_priority (upd_port i n f l) = l_priority l"
  "l_address (upd_port i n f l) = l_address l" "l_bridgeID (upd_port i n f l) = l_bridgeID l"
  "l_helloTime (upd_port i n f l) = l_helloTime l" "l_maxAge (upd_port i n f l) = l_maxAge l"
  "l_forwardDelay (upd_port i n f l) = l_forwardDelay l"
  "l_txHoldCount (upd_port i n f l) = l_txHoldCount l"
  "l_portNames (upd_port i n f l) = l_portNames l" "l_vidToTree (upd_port i n f l) = l_vidToTree l"
  "l_treeVLANs (upd_port i n f l) = l_treeVLANs l" "l_treeOrder (upd_port i n f l) = l_treeOrder l"
  "l_portTx (upd_port i n f l) = l_portTx l" "l_links (upd_port i n f l) = l_links l"
  "l_mst (upd_port i n f l) = l_mst l" "l_pvst (upd_port i n f l) = l_pvst l"
  "l_configID (upd_port i n f l) = l_configID l" "l_flushes (upd_port i n f l) = l_flushes l"
  "l_emissions (upd_port i n f l) = l_emissions l"
  by (simp_all add: upd_port_def upd_tree_fields)

lemma upd_link_fields [frame_simps]:
  "l_cfg (upd_link n f l) = l_cfg l" "l_priority (upd_link n f l) = l_priority l"
  "l_address (upd_link n f l) = l_address l" "l_bridgeID (upd_link n f l) = l_bridgeID l"
  "l_helloTime (upd_link n f l) = l_helloTime l" "l_maxAge (upd_link n f l) = l_maxAge l"
  "l_forwardDelay (upd_link n f l) = l_forwardDelay l"
  "l_txHoldCount (upd_link n f l) = l_txHoldCount l"
  "l_portNames (upd_link n f l) = l_portNames l" "l_vidToTree (upd_link n f l) = l_vidToTree l"
  "l_treeVLANs (upd_link n f l) = l_treeVLANs l" "l_treeOrder (upd_link n f l) = l_treeOrder l"
  "l_portTx (upd_link n f l) = l_portTx l" "l_trees (upd_link n f l) = l_trees l"
  "l_mst (upd_link n f l) = l_mst l" "l_pvst (upd_link n f l) = l_pvst l"
  "l_configID (upd_link n f l) = l_configID l" "l_flushes (upd_link n f l) = l_flushes l"
  "l_emissions (upd_link n f l) = l_emissions l" "l_links (upd_link n f l) = upd (l_links l) n f"
  by (simp_all add: upd_link_def)

lemma upd_tx_fields [frame_simps]:
  "l_cfg (upd_tx i n f l) = l_cfg l" "l_priority (upd_tx i n f l) = l_priority l"
  "l_address (upd_tx i n f l) = l_address l" "l_bridgeID (upd_tx i n f l) = l_bridgeID l"
  "l_helloTime (upd_tx i n f l) = l_helloTime l" "l_maxAge (upd_tx i n f l) = l_maxAge l"
  "l_forwardDelay (upd_tx i n f l) = l_forwardDelay l"
  "l_txHoldCount (upd_tx i n f l) = l_txHoldCount l"
  "l_portNames (upd_tx i n f l) = l_portNames l" "l_vidToTree (upd_tx i n f l) = l_vidToTree l"
  "l_treeVLANs (upd_tx i n f l) = l_treeVLANs l" "l_treeOrder (upd_tx i n f l) = l_treeOrder l"
  "l_links (upd_tx i n f l) = l_links l" "l_trees (upd_tx i n f l) = l_trees l"
  "l_mst (upd_tx i n f l) = l_mst l" "l_pvst (upd_tx i n f l) = l_pvst l"
  "l_configID (upd_tx i n f l) = l_configID l" "l_flushes (upd_tx i n f l) = l_flushes l"
  "l_emissions (upd_tx i n f l) = l_emissions l"
  "l_portTx (upd_tx i n f l) = upd (l_portTx l) (txKeyFor l i n) f"
  by (simp_all add: upd_tx_def)

lemma tree_at_other [frame_simps]:
  "tree_at (upd_link n f l) j = tree_at l j" "tree_at (upd_tx i n g l) j = tree_at l j"
  "tree_at (l\<lparr>l_flushes := fl\<rparr>) j = tree_at l j" "tree_at (l\<lparr>l_emissions := em\<rparr>) j = tree_at l j"
  by (simp_all add: tree_at_def upd_link_def upd_tx_def)

lemma port_at_other [frame_simps]:
  "port_at (upd_link n f l) j m = port_at l j m" "port_at (upd_tx i n g l) j m = port_at l j m"
  "port_at (l\<lparr>l_flushes := fl\<rparr>) j m = port_at l j m"
  "port_at (l\<lparr>l_emissions := em\<rparr>) j m = port_at l j m"
  by (simp_all add: port_at_def tree_at_other)

lemma link_at_upd_link [frame_simps]:
  "link_at (upd_link n f l) m = (if m = n \<and> map_of (l_links l) n \<noteq> None then f (link_at l m) else link_at l m)"
  by (auto simp: link_at_def upd_link_def split: option.splits)

lemma link_at_other [frame_simps]:
  "link_at (upd_tree i h l) m = link_at l m" "link_at (upd_port i n g l) m = link_at l m"
  "link_at (upd_tx i n k l) m = link_at l m"
  "link_at (l\<lparr>l_flushes := fl\<rparr>) m = link_at l m" "link_at (l\<lparr>l_emissions := em\<rparr>) m = link_at l m"
  by (simp_all add: link_at_def frame_simps)

lemma txKeyFor_frame [frame_simps]:
  "txKeyFor (upd_tree i h l) j m = txKeyFor l j m" "txKeyFor (upd_port i n g l) j m = txKeyFor l j m"
  "txKeyFor (upd_link n f l) j m = txKeyFor l j m" "txKeyFor (upd_tx i n k l) j m = txKeyFor l j m"
  "txKeyFor (l\<lparr>l_flushes := fl\<rparr>) j m = txKeyFor l j m"
  "txKeyFor (l\<lparr>l_emissions := em\<rparr>) j m = txKeyFor l j m"
  by (simp_all add: txKeyFor_def frame_simps)

lemma tx_at_upd_tx [frame_simps]:
  "tx_at (upd_tx i n f l) j m =
     (if txKeyFor l j m = txKeyFor l i n \<and> map_of (l_portTx l) (txKeyFor l i n) \<noteq> None
      then f (tx_at l j m) else tx_at l j m)"
  by (auto simp: tx_at_def frame_simps split: option.splits)

lemma tx_at_other [frame_simps]:
  "tx_at (upd_tree i h l) j m = tx_at l j m" "tx_at (upd_port i n g l) j m = tx_at l j m"
  "tx_at (upd_link n f l) j m = tx_at l j m"
  "tx_at (l\<lparr>l_flushes := fl\<rparr>) j m = tx_at l j m" "tx_at (l\<lparr>l_emissions := em\<rparr>) j m = tx_at l j m"
  by (simp_all add: tx_at_def frame_simps)

section \<open>The part of the state that never changes\<close>

text \<open>
  \<open>shape\<close> erases what the protocol computes and keeps what construction fixed: the
  configuration, the key sets of the maps, the identifiers of trees and ports. Every operation
  leaves it unchanged, so that a fact about it carries over any call.
\<close>

definition erase_port :: "port_state \<Rightarrow> port_state" where
  "erase_port p = zero_pstate\<lparr>p_name := p_name p, p_cfg := p_cfg p, p_portID := p_portID p,
     p_pathCostFixed := p_pathCostFixed p\<rparr>"

definition erase_tree :: "tree \<Rightarrow> tree" where
  "erase_tree t = zero_tree\<lparr>t_id := t_id t, t_vid := t_vid t, t_bridgeID := t_bridgeID t,
     t_ports := map_vals (\<lambda>_. erase_port) (t_ports t)\<rparr>"

definition shape :: "stp_layer \<Rightarrow> stp_layer" where
  "shape l = l\<lparr>l_trees := map_vals (\<lambda>_. erase_tree) (l_trees l),
     l_portTx := map_vals (\<lambda>_ _. zero_tx) (l_portTx l),
     l_links := map_vals (\<lambda>_ _. zero_link) (l_links l), l_flushes := [], l_emissions := []\<rparr>"

lemma erase_port_eq [simp]:
  "erase_port p = erase_port q \<longleftrightarrow> p_name p = p_name q \<and> p_cfg p = p_cfg q \<and>
     p_portID p = p_portID q \<and> p_pathCostFixed p = p_pathCostFixed q"
  by (auto simp: erase_port_def zero_pstate_def)

lemma erase_tree_eq:
  "erase_tree t = erase_tree u \<longleftrightarrow> t_id t = t_id u \<and> t_vid t = t_vid u \<and>
     t_bridgeID t = t_bridgeID u \<and>
     map_vals (\<lambda>_. erase_port) (t_ports t) = map_vals (\<lambda>_. erase_port) (t_ports u)"
  by (auto simp: erase_tree_def zero_tree_def)

lemma shape_upd_tree [simp]:
  "(\<And>t. erase_tree (f t) = erase_tree t) \<Longrightarrow> shape (upd_tree i f l) = shape l"
  by (simp add: shape_def upd_tree_def upd_def if_distrib cong: if_cong)

lemma erase_tree_upd [simp]:
  "(\<And>p. erase_port (f p) = erase_port p) \<Longrightarrow>
   erase_tree (t\<lparr>t_ports := upd (t_ports t) n f\<rparr>) = erase_tree t"
  by (simp add: erase_tree_def upd_def if_distrib del: erase_port_eq cong: if_cong)

lemma shape_upd_port [simp]:
  assumes "\<And>p. erase_port (f p) = erase_port p"
  shows "shape (upd_port i n f l) = shape l"
  unfolding upd_port_def by (rule shape_upd_tree) (rule erase_tree_upd [OF assms])

lemma shape_upd_link [simp]: "shape (upd_link n f l) = shape l"
  by (simp add: shape_def upd_link_def upd_def)

lemma shape_upd_tx [simp]: "shape (upd_tx i n f l) = shape l"
  by (simp add: shape_def upd_tx_def upd_def)

lemma shape_outputs [simp]:
  "shape (l\<lparr>l_flushes := fl\<rparr>) = shape l" "shape (l\<lparr>l_emissions := em\<rparr>) = shape l"
  by (simp_all add: shape_def)

lemma shape_fold: "(\<And>x l. shape (f x l) = shape l) \<Longrightarrow> shape (fold f xs l) = shape l"
  by (rule fold_const [where g = shape])

lemma shape_fields:
  assumes "shape l' = shape l"
  shows "l_cfg l' = l_cfg l" "l_priority l' = l_priority l" "l_address l' = l_address l"
    "l_bridgeID l' = l_bridgeID l" "l_helloTime l' = l_helloTime l" "l_maxAge l' = l_maxAge l"
    "l_forwardDelay l' = l_forwardDelay l" "l_txHoldCount l' = l_txHoldCount l"
    "l_portNames l' = l_portNames l" "l_vidToTree l' = l_vidToTree l"
    "l_treeVLANs l' = l_treeVLANs l" "l_treeOrder l' = l_treeOrder l" "l_mst l' = l_mst l"
    "l_pvst l' = l_pvst l" "l_configID l' = l_configID l"
  using arg_cong [OF assms, of l_cfg] arg_cong [OF assms, of l_priority]
    arg_cong [OF assms, of l_address] arg_cong [OF assms, of l_bridgeID]
    arg_cong [OF assms, of l_helloTime] arg_cong [OF assms, of l_maxAge]
    arg_cong [OF assms, of l_forwardDelay] arg_cong [OF assms, of l_txHoldCount]
    arg_cong [OF assms, of l_portNames] arg_cong [OF assms, of l_vidToTree]
    arg_cong [OF assms, of l_treeVLANs] arg_cong [OF assms, of l_treeOrder]
    arg_cong [OF assms, of l_mst] arg_cong [OF assms, of l_pvst]
    arg_cong [OF assms, of l_configID]
  by (simp_all add: shape_def)

lemma shape_keys:
  assumes "shape l' = shape l"
  shows "map fst (l_trees l') = map fst (l_trees l)"
    "map fst (l_portTx l') = map fst (l_portTx l)" "map fst (l_links l') = map fst (l_links l)"
  using arg_cong [OF assms, of "\<lambda>l. map fst (l_trees l)"]
    arg_cong [OF assms, of "\<lambda>l. map fst (l_portTx l)"]
    arg_cong [OF assms, of "\<lambda>l. map fst (l_links l)"]
  by (simp_all add: shape_def)

lemma tree_at_shape: "tree_at (shape l) i = erase_tree (tree_at l i)"
  by (simp add: tree_at_def shape_def erase_tree_def zero_tree_def split: option.splits)
    (simp add: map_vals_def)

lemma port_at_shape: "port_at (shape l) i n = erase_port (port_at l i n)"
  by (simp add: port_at_def tree_at_shape erase_tree_def erase_port_def zero_pstate_def
      split: option.splits)

lemma shape_tree:
  assumes "shape l' = shape l"
  shows "t_id (tree_at l' i) = t_id (tree_at l i)" "t_vid (tree_at l' i) = t_vid (tree_at l i)"
    "t_bridgeID (tree_at l' i) = t_bridgeID (tree_at l i)"
    "map fst (t_ports (tree_at l' i)) = map fst (t_ports (tree_at l i))"
proof -
  have eq: "erase_tree (tree_at l' i) = erase_tree (tree_at l i)"
    using arg_cong [OF assms, of "\<lambda>l. tree_at l i"] by (simp add: tree_at_shape)
  then show "t_id (tree_at l' i) = t_id (tree_at l i)" "t_vid (tree_at l' i) = t_vid (tree_at l i)"
    "t_bridgeID (tree_at l' i) = t_bridgeID (tree_at l i)"
    by (auto simp: erase_tree_eq)
  from eq have "map fst (map_vals (\<lambda>_. erase_port) (t_ports (tree_at l' i))) =
      map fst (map_vals (\<lambda>_. erase_port) (t_ports (tree_at l i)))"
    unfolding erase_tree_eq by simp
  then show "map fst (t_ports (tree_at l' i)) = map fst (t_ports (tree_at l i))"
    by (simp only: keys_map_vals)
qed

lemma shape_port:
  assumes "shape l' = shape l"
  shows "p_name (port_at l' i n) = p_name (port_at l i n)"
    "p_cfg (port_at l' i n) = p_cfg (port_at l i n)"
    "p_portID (port_at l' i n) = p_portID (port_at l i n)"
  using arg_cong [OF assms, of "\<lambda>l. port_at l i n"] by (auto simp: port_at_shape)

lemma map_of_keys_eq: "map fst m = map fst m' \<Longrightarrow> map_of m k = None \<longleftrightarrow> map_of m' k = None"
  by (metis list.set_map map_of_eq_None_iff)

lemma shape_has_port:
  assumes "shape l' = shape l"
  shows "has_port l' i n \<longleftrightarrow> has_port l i n"
  using map_of_keys_eq [OF shape_tree(4) [OF assms]] by simp

lemmas shape_simps = shape_fields shape_keys shape_tree shape_port shape_has_port

section \<open>What construction guarantees\<close>

text \<open>
  The key sets agree, every key is the name the record holds, and the timers are at least one
  second. \<open>New\<close> establishes it and, being a fact about the shape, every operation keeps it.
\<close>

definition wf_tree :: "string list \<Rightarrow> tree_id \<Rightarrow> tree \<Rightarrow> bool" where
  "wf_tree names i t \<longleftrightarrow> t_id t = i \<and> map fst (t_ports t) = names \<and>
     list_all (\<lambda>(n, p). p_name p = n) (t_ports t)"

definition wf_layer :: "stp_layer \<Rightarrow> bool" where
  "wf_layer l \<longleftrightarrow>
     distinct (l_portNames l) \<and> '''' \<notin> set (l_portNames l) \<and>
     map fst (l_trees l) = l_treeOrder l \<and> distinct (l_treeOrder l) \<and>
     l_treeOrder l \<noteq> [] \<and> hd (l_treeOrder l) = cistID \<and>
     list_all (\<lambda>(i, t). wf_tree (l_portNames l) i t) (l_trees l) \<and>
     map fst (l_links l) = l_portNames l \<and>
     (\<forall>i \<in> set (l_treeOrder l). \<forall>n \<in> set (l_portNames l). txKeyFor l i n \<in> fst ` set (l_portTx l)) \<and>
     second \<le> l_helloTime l \<and> 6 * second \<le> l_maxAge l \<and> 4 * second \<le> l_forwardDelay l \<and>
     0 < l_txHoldCount l \<and> (l_mst l = None \<or> l_pvst l = None) \<and>
     (l_mst l = None \<longleftrightarrow> l_configID l = None)"

lemma wf_tree_erase: "wf_tree names i (erase_tree t) \<longleftrightarrow> wf_tree names i t"
  by (simp add: wf_tree_def erase_tree_def erase_port_def map_vals_def list_all_iff
      case_prod_beta comp_def)

lemma wf_layer_erase: "wf_layer (shape l) \<longleftrightarrow> wf_layer l"
proof -
  have k: "map fst (l_trees (shape l)) = map fst (l_trees l)"
    "map fst (l_links (shape l)) = map fst (l_links l)"
    "fst ` set (l_portTx (shape l)) = fst ` set (l_portTx l)"
    by (simp_all add: shape_def)
  have t: "list_all (\<lambda>(i, t). wf_tree names i t) (l_trees (shape l)) =
      list_all (\<lambda>(i, t). wf_tree names i t) (l_trees l)" for names
    by (simp add: shape_def map_vals_def list_all_iff case_prod_beta wf_tree_erase)
  show ?thesis
    unfolding wf_layer_def k t by (simp add: shape_def txKeyFor_def)
qed

lemma wf_shape: "shape l' = shape l \<Longrightarrow> wf_layer l' \<longleftrightarrow> wf_layer l"
  by (metis wf_layer_erase)

lemma wf_tree_at:
  assumes "wf_layer l" "i \<in> set (l_treeOrder l)"
  shows "map_of (l_trees l) i = Some (tree_at l i)" "wf_tree (l_portNames l) i (tree_at l i)"
    "t_id (tree_at l i) = i"
proof -
  have d: "distinct (map fst (l_trees l))" and "i \<in> fst ` set (l_trees l)"
    using assms by (auto simp: wf_layer_def simp flip: set_map)
  then obtain t where t: "(i, t) \<in> set (l_trees l)"
    by auto
  then have "map_of (l_trees l) i = Some t"
    using d by simp
  then show "map_of (l_trees l) i = Some (tree_at l i)"
    by (simp add: tree_at_def)
  moreover have "wf_tree (l_portNames l) i t"
    using assms(1) t by (auto simp: wf_layer_def list_all_iff)
  ultimately show "wf_tree (l_portNames l) i (tree_at l i)"
    using \<open>map_of (l_trees l) i = Some t\<close> by simp
  then show "t_id (tree_at l i) = i"
    by (simp add: wf_tree_def)
qed

lemma wf_cist: "wf_layer l \<Longrightarrow> cistID \<in> set (l_treeOrder l)"
  by (metis hd_in_set wf_layer_def)

lemma wf_has_port:
  assumes "wf_layer l" "i \<in> set (l_treeOrder l)"
  shows "has_port l i n \<longleftrightarrow> n \<in> set (l_portNames l)"
  using wf_tree_at(2) [OF assms]
  by (metis list.set_map map_of_eq_None_iff wf_tree_def)

lemma wf_p_name:
  assumes "wf_layer l" "i \<in> set (l_treeOrder l)" "n \<in> set (l_portNames l)"
  shows "p_name (port_at l i n) = n"
proof -
  obtain p where p: "map_of (t_ports (tree_at l i)) n = Some p"
    using wf_has_port [OF assms(1,2)] assms(3) by blast
  then have "p_name p = n"
    using wf_tree_at(2) [OF assms(1,2)] by (auto simp: wf_tree_def list_all_iff dest!: map_of_SomeD)
  with p show ?thesis
    by (simp add: port_at_def)
qed

lemma wf_link: "wf_layer l \<Longrightarrow> map_of (l_links l) n \<noteq> None \<longleftrightarrow> n \<in> set (l_portNames l)"
  by (metis wf_layer_def list.set_map map_of_eq_None_iff)

lemma wf_tx:
  "wf_layer l \<Longrightarrow> i \<in> set (l_treeOrder l) \<Longrightarrow> n \<in> set (l_portNames l) \<Longrightarrow>
   map_of (l_portTx l) (txKeyFor l i n) \<noteq> None"
  by (metis wf_layer_def map_of_eq_None_iff)

end
