(* ===== verification/Stp_Timers.thy ===== *)
theory Stp_Timers
  imports Stp_State
begin

text \<open>
  The helpers of \<^verbatim>\<open>stp/portstate.go\<close>, \<^verbatim>\<open>stp/tree.go\<close> and \<^verbatim>\<open>stp/info.go\<close> the
  rest of the layer is written with: the timers in force, the deadlines of a port that was Root
  or Backup, the transmit requests, and the vectors of \<^verbatim>\<open>stp/vector.go\<close>.
\<close>

section \<open>Trees and timers\<close>

definition treeFor :: "stp_layer \<Rightarrow> vlan_id \<Rightarrow> tree_id option" where
  "treeFor l vid =
     (case l_vidToTree l vid of
        Some i \<Rightarrow> Some i
      | None \<Rightarrow> if l_pvst l \<noteq> None then None else Some cistID)"

text \<open>\<^verbatim>\<open>times\<close>: max age, hello, forward delay. Its recursive call runs on the CIST.\<close>

definition tree_times :: "stp_layer \<Rightarrow> tree_id \<Rightarrow> duration \<times> duration \<times> duration" where
  "tree_times l i =
     (let t = tree_at l i; rp = port_at l i (t_rootPort t) in
      if t_rootPort t \<noteq> '''' \<and> has_port l i (t_rootPort t) \<and> p_rcvInfoValid rp
      then (p_rcvMaxAge rp, l_helloTime l, p_rcvForwardDelay rp)
      else (l_maxAge l, l_helloTime l, l_forwardDelay l))"

definition times :: "stp_layer \<Rightarrow> tree_id \<Rightarrow> duration \<times> duration \<times> duration" where
  "times l i =
     (if l_pvst l = None \<and> i \<noteq> cistID then tree_times l cistID else tree_times l i)"

abbreviation maxAge_of :: "stp_layer \<Rightarrow> tree_id \<Rightarrow> duration" where
  "maxAge_of l i \<equiv> fst (times l i)"

abbreviation hello_of :: "stp_layer \<Rightarrow> tree_id \<Rightarrow> duration" where
  "hello_of l i \<equiv> fst (snd (times l i))"

abbreviation fwdDelay_of :: "stp_layer \<Rightarrow> tree_id \<Rightarrow> duration" where
  "fwdDelay_of l i \<equiv> snd (snd (times l i))"

definition activeAt :: "time \<Rightarrow> time \<Rightarrow> bool" where
  "activeAt when now \<longleftrightarrow> when \<noteq> 0 \<and> now < when"

definition edgeDelay :: "stp_layer \<Rightarrow> tree_id \<Rightarrow> link_record \<Rightarrow> duration" where
  "edgeDelay l i link = (if k_pointToPoint link then migrateTime else maxAge_of l i)"

section \<open>Deadlines of a former Root or Backup port\<close>

definition recentDeadline :: "time \<Rightarrow> duration \<Rightarrow> time \<Rightarrow> time" where
  "recentDeadline start delay now =
     (if start = 0 then 0
      else let deadline = start + delay in if \<not> now < deadline then 0 else deadline)"

definition recentRootDeadline :: "port_state \<Rightarrow> time \<Rightarrow> time" where
  "recentRootDeadline p now = (if now < p_rootDeadline p then p_rootDeadline p else 0)"

definition clearRecentRoot :: "port_state \<Rightarrow> port_state" where
  "clearRecentRoot p = p\<lparr>p_rootDeadline := 0, p_pendingRootDeadline := False\<rparr>"

definition recentBackupDeadline :: "stp_layer \<Rightarrow> tree_id \<Rightarrow> port_state \<Rightarrow> time \<Rightarrow> time" where
  "recentBackupDeadline l i p now = recentDeadline (p_leftBackupAt p) (2 * hello_of l i) now"

definition recordRoleChange :: "role \<Rightarrow> time \<Rightarrow> port_state \<Rightarrow> port_state" where
  "recordRoleChange oldRole now p =
     (let p = (if oldRole = RoleRoot \<and> p_role p = RoleDesignated
               then p\<lparr>p_rootDeadline := 0, p_pendingRootDeadline := True\<rparr> else p)
      in if oldRole = RoleBackup \<and> p_role p \<noteq> RoleBackup then p\<lparr>p_leftBackupAt := now\<rparr> else p)"

text \<open>The deferred end of every call: a departure that is still pending gets its deadline.\<close>

definition finish_port :: "time \<Rightarrow> tree_id \<Rightarrow> string \<Rightarrow> stp_layer \<Rightarrow> stp_layer" where
  "finish_port now i name l =
     (if p_pendingRootDeadline (port_at l i name) then
        upd_port i name (\<lambda>p.
          let p = clearRecentRoot p in
          if p_role p = RoleDesignated then p\<lparr>p_rootDeadline := now + fwdDelay_of l i\<rparr> else p) l
      else l)"

definition finishRecentRootDeadlines :: "time \<Rightarrow> stp_layer \<Rightarrow> stp_layer" where
  "finishRecentRootDeadlines now l =
     fold (\<lambda>i l. fold (finish_port now i) (map fst (t_ports (tree_at l i))) l) (l_treeOrder l) l"

definition loopGuardWatches :: "port_state \<Rightarrow> link_record \<Rightarrow> bool" where
  "loopGuardWatches p link \<longleftrightarrow>
     a_LoopGuard (p_cfg p) \<and> k_up link \<and> \<not> k_edge link \<and> k_pointToPoint link"

section \<open>Transmit requests\<close>

definition resetTransmit :: "string \<Rightarrow> stp_layer \<Rightarrow> stp_layer" where
  "resetTransmit name l =
     fold (\<lambda>i. upd_tx i name (\<lambda>x.
       x\<lparr>x_newInfo := True, x_newInfoMsti := True, x_count := 0, x_tick := 0, x_helloWhen := 0\<rparr>))
       (l_treeOrder l) l"

definition requestNewInfo :: "tree_id \<Rightarrow> string \<Rightarrow> stp_layer \<Rightarrow> stp_layer" where
  "requestNewInfo i name l =
     upd_tx i name (\<lambda>x.
       if l_pvst l = None \<and> i \<noteq> cistID then x\<lparr>x_newInfoMsti := True\<rparr>
       else x\<lparr>x_newInfo := True\<rparr>) l"

section \<open>Vectors\<close>

definition candidateVector :: "tree \<Rightarrow> port_state \<Rightarrow> bool \<Rightarrow> priority_vector" where
  "candidateVector t p external =
     (let cand = zero_vector\<lparr>v_rootID := p_rcvRootID p, v_bridgeID := p_rcvBridgeID p,
                             v_portID := p_rcvPortID p\<rparr> in
      if t_id t = cistID \<and> external then
        cand\<lparr>v_externalRootPathCost := saturatingAdd (p_rcvRootPathCost p) (p_pathCost p),
             v_regionalRootID := t_bridgeID t\<rparr>
      else if t_id t = cistID then
        cand\<lparr>v_externalRootPathCost := p_rcvRootPathCost p,
             v_regionalRootID := p_rcvRegionalRootID p,
             v_internalRootPathCost := saturatingAdd (p_rcvInternalRootPathCost p) (p_pathCost p)\<rparr>
      else
        cand\<lparr>v_regionalRootID := p_rcvRootID p,
             v_internalRootPathCost := saturatingAdd (p_rcvRootPathCost p) (p_pathCost p)\<rparr>)"

definition rawVector :: "tree \<Rightarrow> port_state \<Rightarrow> bool \<Rightarrow> priority_vector" where
  "rawVector t p external =
     (if t_id t = cistID \<and> external then
        zero_vector\<lparr>v_rootID := p_rcvRootID p, v_externalRootPathCost := p_rcvRootPathCost p,
          v_regionalRootID := p_rcvRootID p, v_bridgeID := p_rcvBridgeID p,
          v_portID := p_rcvPortID p\<rparr>
      else if t_id t = cistID then
        zero_vector\<lparr>v_rootID := p_rcvRootID p, v_externalRootPathCost := p_rcvRootPathCost p,
          v_regionalRootID := p_rcvRegionalRootID p,
          v_internalRootPathCost := p_rcvInternalRootPathCost p,
          v_bridgeID := p_rcvBridgeID p, v_portID := p_rcvPortID p\<rparr>
      else
        zero_vector\<lparr>v_rootID := p_rcvRootID p, v_regionalRootID := p_rcvRootID p,
          v_internalRootPathCost := p_rcvRootPathCost p, v_bridgeID := p_rcvBridgeID p,
          v_portID := p_rcvPortID p\<rparr>)"

definition designatedVector :: "tree \<Rightarrow> port_state \<Rightarrow> bool \<Rightarrow> priority_vector" where
  "designatedVector t p external =
     (if t_id t = cistID \<and> external then
        zero_vector\<lparr>v_rootID := t_rootID t, v_externalRootPathCost := t_rootPathCost t,
          v_regionalRootID := t_rootID t, v_bridgeID := t_bridgeID t, v_portID := p_portID p\<rparr>
      else if t_id t = cistID then
        zero_vector\<lparr>v_rootID := t_rootID t, v_externalRootPathCost := t_rootPathCost t,
          v_regionalRootID := t_regionalRootID t,
          v_internalRootPathCost := t_internalRootPathCost t,
          v_bridgeID := t_bridgeID t, v_portID := p_portID p\<rparr>
      else
        zero_vector\<lparr>v_rootID := t_rootID t, v_regionalRootID := t_rootID t,
          v_internalRootPathCost := t_rootPathCost t, v_bridgeID := t_bridgeID t,
          v_portID := p_portID p\<rparr>)"

definition receivedVector :: "tree \<Rightarrow> bpdu \<Rightarrow> bool \<Rightarrow> priority_vector" where
  "receivedVector t b internal =
     (let incoming = zero_vector\<lparr>v_rootID := b_RootID b, v_bridgeID := b_BridgeID b,
                                 v_portID := b_PortID b\<rparr> in
      if t_id t = cistID \<and> internal then
        incoming\<lparr>v_externalRootPathCost := b_RootPathCost b,
          v_regionalRootID := b_RegionalRootID b,
          v_internalRootPathCost := b_InternalRootPathCost b\<rparr>
      else if t_id t = cistID then
        incoming\<lparr>v_externalRootPathCost := b_RootPathCost b, v_regionalRootID := b_RootID b\<rparr>
      else
        incoming\<lparr>v_regionalRootID := b_RootID b, v_internalRootPathCost := b_RootPathCost b\<rparr>)"

section \<open>Frame lemmas\<close>

lemma shape_finish_port [simp]: "shape (finish_port now i name l) = shape l"
  by (simp add: finish_port_def clearRecentRoot_def Let_def)

lemma shape_finish [simp]: "shape (finishRecentRootDeadlines now l) = shape l"
  by (simp add: finishRecentRootDeadlines_def shape_fold)

lemma shape_resetTransmit [simp]: "shape (resetTransmit name l) = shape l"
  by (simp add: resetTransmit_def shape_fold)

lemma shape_requestNewInfo [simp]: "shape (requestNewInfo i name l) = shape l"
  by (simp add: requestNewInfo_def)

lemma requestNewInfo_frame [frame_simps]:
  "tree_at (requestNewInfo i n l) j = tree_at l j" "port_at (requestNewInfo i n l) j m = port_at l j m"
  "link_at (requestNewInfo i n l) m = link_at l m" "l_trees (requestNewInfo i n l) = l_trees l"
  "l_links (requestNewInfo i n l) = l_links l" "l_flushes (requestNewInfo i n l) = l_flushes l"
  "l_emissions (requestNewInfo i n l) = l_emissions l"
  by (simp_all add: requestNewInfo_def frame_simps)

lemma resetTransmit_frame [frame_simps]:
  "l_trees (resetTransmit n l) = l_trees l" "l_links (resetTransmit n l) = l_links l"
  "l_flushes (resetTransmit n l) = l_flushes l" "l_emissions (resetTransmit n l) = l_emissions l"
  by (simp_all add: resetTransmit_def fold_const [where g = l_trees] fold_const [where g = l_links]
      fold_const [where g = l_flushes] fold_const [where g = l_emissions] frame_simps)

lemma recordRoleChange_frame [simp]:
  "p_name (recordRoleChange r now p) = p_name p" "p_cfg (recordRoleChange r now p) = p_cfg p"
  "p_portID (recordRoleChange r now p) = p_portID p"
  "p_pathCostFixed (recordRoleChange r now p) = p_pathCostFixed p"
  "p_role (recordRoleChange r now p) = p_role p" "p_state (recordRoleChange r now p) = p_state p"
  by (simp_all add: recordRoleChange_def Let_def)

lemma clearRecentRoot_frame [simp]:
  "p_name (clearRecentRoot p) = p_name p" "p_cfg (clearRecentRoot p) = p_cfg p"
  "p_portID (clearRecentRoot p) = p_portID p"
  "p_pathCostFixed (clearRecentRoot p) = p_pathCostFixed p"
  "p_role (clearRecentRoot p) = p_role p" "p_state (clearRecentRoot p) = p_state p"
  by (simp_all add: clearRecentRoot_def)

lemma hello_of_local:
  "hello_of l i = l_helloTime l"
  by (simp add: times_def tree_times_def Let_def)

end
