(* ===== verification/Stp_Topology.thy ===== *)
theory Stp_Topology
  imports Stp_Timers
begin

text \<open>
  Topology changes, \<^verbatim>\<open>stp/topology.go\<close>: the per-port timer, its propagation to the other
  active ports of the tree, and the flush targets a call collects.
\<close>

section \<open>Flush targets\<close>

text \<open>\<^verbatim>\<open>slices.Compact\<close> after \<^verbatim>\<open>slices.Sort\<close> is \<open>remdups_adj\<close> after \<open>sort\<close>.\<close>

fun mergeFlushTarget :: "string \<Rightarrow> vlan_id list \<Rightarrow> flush_target list \<Rightarrow> flush_target list" where
  "mergeFlushTarget port fids [] = [\<lparr>ft_Port = port, ft_FIDs = fids\<rparr>]"
| "mergeFlushTarget port fids (target # rest) =
     (if ft_Port target \<noteq> port then target # mergeFlushTarget port fids rest
      else if ft_FIDs target = [] then target # rest
      else if fids = [] then target\<lparr>ft_FIDs := []\<rparr> # rest
      else target\<lparr>ft_FIDs := remdups_adj (sort (ft_FIDs target @ fids))\<rparr> # rest)"

definition add_flush :: "string \<Rightarrow> vlan_id list \<Rightarrow> stp_layer \<Rightarrow> stp_layer" where
  "add_flush name fids l = l\<lparr>l_flushes := mergeFlushTarget name fids (l_flushes l)\<rparr>"

text \<open>\<^verbatim>\<open>l.treeVLANs[t.id]\<close>, nil for a tree with no entry.\<close>

definition tree_fids :: "stp_layer \<Rightarrow> tree_id \<Rightarrow> vlan_id list" where
  "tree_fids l i = (case l_treeVLANs l i of Some vids \<Rightarrow> vids | None \<Rightarrow> [])"

section \<open>The topology change machine\<close>

definition tcWhileDuration :: "stp_layer \<Rightarrow> tree_id \<Rightarrow> string \<Rightarrow> duration" where
  "tcWhileDuration l i name =
     (if k_sendRSTP (link_at l name) then l_helloTime l + second
      else maxAge_of l i + fwdDelay_of l i)"

text \<open>The body of the loop of \<^verbatim>\<open>propagateTopologyChange\<close>.\<close>

definition propagate_port :: "tree_id \<Rightarrow> string \<Rightarrow> time \<Rightarrow> string \<Rightarrow> stp_layer \<Rightarrow> stp_layer" where
  "propagate_port i originPort now name l =
     (if name = originPort \<or> \<not> has_port l i name \<or> \<not> p_tcActive (port_at l i name) \<or>
         k_edge (link_at l name)
      then l
      else
        let started = (\<not> activeAt (p_tcWhile (port_at l i name)) now);
            l1 = (if started
                  then upd_port i name (\<lambda>p. p\<lparr>p_tcWhile := now + tcWhileDuration l i name\<rparr>) l
                  else l);
            l2 = (if k_sendRSTP (link_at l name) \<and> started then requestNewInfo i name l1 else l1)
        in add_flush name (tree_fids l i) l2)"

definition propagateTopologyChange :: "tree_id \<Rightarrow> string \<Rightarrow> time \<Rightarrow> stp_layer \<Rightarrow> stp_layer" where
  "propagateTopologyChange i originPort now l =
     fold (propagate_port i originPort now) (l_portNames l) l"

definition initiateTopologyChange :: "tree_id \<Rightarrow> string \<Rightarrow> time \<Rightarrow> stp_layer \<Rightarrow> stp_layer" where
  "initiateTopologyChange i name now l =
     (let l1 = upd_port i name (\<lambda>p. p\<lparr>p_tcActive := True\<rparr>) l;
          l2 = (if \<not> activeAt (p_tcWhile (port_at l i name)) now then
                  (let la = upd_tree i (\<lambda>t. t\<lparr>t_topologyChangeCount := t_topologyChangeCount t + 1,
                                              t_lastTopologyChange := now\<rparr>) l1;
                       lb = upd_port i name (\<lambda>p. p\<lparr>p_tcWhile := now + tcWhileDuration la i name\<rparr>) la
                   in if k_sendRSTP (link_at lb name) then requestNewInfo i name lb else lb)
                else l1)
      in propagateTopologyChange i name now l2)"

definition detectTopologyChange :: "tree_id \<Rightarrow> string \<Rightarrow> time \<Rightarrow> stp_layer \<Rightarrow> stp_layer" where
  "detectTopologyChange i name now l =
     (if p_tcActive (port_at l i name) then l
      else requestNewInfo i name (initiateTopologyChange i name now l))"

definition deactivatePort :: "tree_id \<Rightarrow> string \<Rightarrow> stp_layer \<Rightarrow> stp_layer" where
  "deactivatePort i name l =
     (let wasActive = p_tcActive (port_at l i name);
          l1 = upd_port i name (\<lambda>p. p\<lparr>p_tcActive := False, p_tcAck := False, p_tcWhile := 0\<rparr>) l
      in if wasActive then add_flush name (tree_fids l i) l1 else l1)"

section \<open>What the topology change machine leaves alone\<close>

text \<open>
  \<open>core\<close> erases the topology change timers and counters, the transmit requests and the outputs;
  everything that decides roles and states remains. The machine above only moves within it.
\<close>

definition core_port :: "port_state \<Rightarrow> port_state" where
  "core_port p = p\<lparr>p_tcWhile := 0, p_tcActive := False, p_tcAck := False, p_txBPDUs := 0\<rparr>"

definition core_tree :: "tree \<Rightarrow> tree" where
  "core_tree t = t\<lparr>t_topologyChangeCount := 0, t_lastTopologyChange := 0,
     t_ports := map_vals (\<lambda>_. core_port) (t_ports t)\<rparr>"

definition core :: "stp_layer \<Rightarrow> stp_layer" where
  "core l = l\<lparr>l_trees := map_vals (\<lambda>_. core_tree) (l_trees l),
     l_portTx := map_vals (\<lambda>_ _. zero_tx) (l_portTx l), l_flushes := [], l_emissions := []\<rparr>"

lemma core_upd_tree:
  "(\<And>t. core_tree (f t) = core_tree t) \<Longrightarrow> core (upd_tree i f l) = core l"
  by (simp add: core_def upd_tree_def upd_def if_distrib cong: if_cong)

lemma core_upd_port:
  assumes "\<And>p. core_port (f p) = core_port p"
  shows "core (upd_port i n f l) = core l"
  unfolding upd_port_def
  by (rule core_upd_tree) (simp add: core_tree_def upd_def if_distrib assms cong: if_cong)

lemma core_upd_tx [simp]: "core (upd_tx i n f l) = core l"
  by (simp add: core_def upd_tx_def upd_def)

lemma core_requestNewInfo [simp]: "core (requestNewInfo i n l) = core l"
  by (simp add: requestNewInfo_def)

lemma core_outputs [simp]:
  "core (l\<lparr>l_flushes := fl\<rparr>) = core l" "core (l\<lparr>l_emissions := em\<rparr>) = core l"
  by (simp_all add: core_def)

lemma core_add_flush [simp]: "core (add_flush n v l) = core l"
  by (simp add: add_flush_def)

lemma core_fold: "(\<And>x l. core (f x l) = core l) \<Longrightarrow> core (fold f xs l) = core l"
  by (rule fold_const [where g = core])

lemma core_tcWhile [simp]: "core (upd_port i n (\<lambda>p. p\<lparr>p_tcWhile := w\<rparr>) l) = core l"
  by (rule core_upd_port) (simp add: core_port_def)

lemma core_propagate_port [simp]: "core (propagate_port i o' now n l) = core l"
  by (simp add: propagate_port_def Let_def)

lemma core_propagate [simp]: "core (propagateTopologyChange i o' now l) = core l"
  by (simp add: propagateTopologyChange_def core_fold)

lemma core_initiate [simp]: "core (initiateTopologyChange i n now l) = core l"
proof -
  have a: "core (upd_port i n (\<lambda>p. p\<lparr>p_tcActive := True\<rparr>) l) = core l" for l
    by (rule core_upd_port) (simp add: core_port_def)
  have c: "core (upd_tree i (\<lambda>t. t\<lparr>t_topologyChangeCount := t_topologyChangeCount t + 1,
                                  t_lastTopologyChange := now\<rparr>) l) = core l" for l
    by (rule core_upd_tree) (simp add: core_tree_def)
  show ?thesis
    by (simp add: initiateTopologyChange_def Let_def a c)
qed

lemma core_detect [simp]: "core (detectTopologyChange i n now l) = core l"
  by (simp add: detectTopologyChange_def)

lemma core_deactivate [simp]: "core (deactivatePort i n l) = core l"
proof -
  have "core (upd_port i n (\<lambda>p. p\<lparr>p_tcActive := False, p_tcAck := False, p_tcWhile := 0\<rparr>) l) = core l"
    by (rule core_upd_port) (simp add: core_port_def)
  then show ?thesis
    by (simp add: deactivatePort_def Let_def)
qed

lemma core_shape: "core l' = core l \<Longrightarrow> shape l' = shape l"
proof -
  have p: "erase_port (core_port p) = erase_port p" for p
    by (simp add: core_port_def)
  have t: "erase_tree (core_tree t) = erase_tree t" for t
    by (simp add: erase_tree_def core_tree_def p)
  have "shape (core l) = shape l" for l
    by (simp add: shape_def core_def t)
  then show "core l' = core l \<Longrightarrow> shape l' = shape l"
    by metis
qed

lemma tree_at_core: "tree_at (core l) i = core_tree (tree_at l i)"
  by (simp add: tree_at_def core_def core_tree_def zero_tree_def split: option.splits)
    (simp add: map_vals_def)

lemma port_at_core: "port_at (core l) i n = core_port (port_at l i n)"
  by (simp add: port_at_def tree_at_core core_tree_def core_port_def zero_pstate_def
      split: option.splits)

lemma core_ports:
  assumes "core l' = core l"
  shows "p_role (port_at l' i n) = p_role (port_at l i n)"
    "p_state (port_at l' i n) = p_state (port_at l i n)"
    "p_agreed (port_at l' i n) = p_agreed (port_at l i n)"
    "p_loopInconsistent (port_at l' i n) = p_loopInconsistent (port_at l i n)"
    "p_pvidInconsistent (port_at l' i n) = p_pvidInconsistent (port_at l i n)"
    "p_fwdDelayTimer (port_at l' i n) = p_fwdDelayTimer (port_at l i n)"
    "p_rcvInfoValid (port_at l' i n) = p_rcvInfoValid (port_at l i n)"
    "p_boundarySyncState (port_at l' i n) = p_boundarySyncState (port_at l i n)"
    "p_forwardTransitions (port_at l' i n) = p_forwardTransitions (port_at l i n)"
proof -
  have eq: "core_port (port_at l' i n) = core_port (port_at l i n)"
    using arg_cong [OF assms, of "\<lambda>l. port_at l i n"] by (simp add: port_at_core)
  show "p_role (port_at l' i n) = p_role (port_at l i n)"
    "p_state (port_at l' i n) = p_state (port_at l i n)"
    "p_agreed (port_at l' i n) = p_agreed (port_at l i n)"
    "p_loopInconsistent (port_at l' i n) = p_loopInconsistent (port_at l i n)"
    "p_pvidInconsistent (port_at l' i n) = p_pvidInconsistent (port_at l i n)"
    "p_fwdDelayTimer (port_at l' i n) = p_fwdDelayTimer (port_at l i n)"
    "p_rcvInfoValid (port_at l' i n) = p_rcvInfoValid (port_at l i n)"
    "p_boundarySyncState (port_at l' i n) = p_boundarySyncState (port_at l i n)"
    "p_forwardTransitions (port_at l' i n) = p_forwardTransitions (port_at l i n)"
    using arg_cong [OF eq, of p_role] arg_cong [OF eq, of p_state] arg_cong [OF eq, of p_agreed]
      arg_cong [OF eq, of p_loopInconsistent] arg_cong [OF eq, of p_pvidInconsistent]
      arg_cong [OF eq, of p_fwdDelayTimer] arg_cong [OF eq, of p_rcvInfoValid]
      arg_cong [OF eq, of p_boundarySyncState] arg_cong [OF eq, of p_forwardTransitions]
    by (simp_all add: core_port_def)
qed

lemma core_trees:
  assumes "core l' = core l"
  shows "t_rootPort (tree_at l' i) = t_rootPort (tree_at l i)"
    "t_rootID (tree_at l' i) = t_rootID (tree_at l i)"
    "t_rootPathCost (tree_at l' i) = t_rootPathCost (tree_at l i)"
proof -
  have eq: "core_tree (tree_at l' i) = core_tree (tree_at l i)"
    using arg_cong [OF assms, of "\<lambda>l. tree_at l i"] by (simp add: tree_at_core)
  show "t_rootPort (tree_at l' i) = t_rootPort (tree_at l i)"
    "t_rootID (tree_at l' i) = t_rootID (tree_at l i)"
    "t_rootPathCost (tree_at l' i) = t_rootPathCost (tree_at l i)"
    using arg_cong [OF eq, of t_rootPort] arg_cong [OF eq, of t_rootID]
      arg_cong [OF eq, of t_rootPathCost]
    by (simp_all add: core_tree_def)
qed

lemma core_links:
  assumes "core l' = core l"
  shows "l_links l' = l_links l" "link_at l' n = link_at l n"
  using arg_cong [OF assms, of l_links] by (simp_all add: core_def link_at_def)

lemmas core_simps = core_ports core_trees core_links

section \<open>Shape\<close>

lemma shape_topology [simp]:
  "shape (add_flush n v l) = shape l"
  "shape (propagateTopologyChange i o' now l) = shape l"
  "shape (initiateTopologyChange i n now l) = shape l"
  "shape (detectTopologyChange i n now l) = shape l"
  "shape (deactivatePort i n l) = shape l"
  by (rule core_shape, simp)+

end
