(* ===== verification/Stp_Roles.thy ===== *)
theory Stp_Roles
  imports Stp_Topology
begin

text \<open>
  The election of the root, the assignment of roles and the port state machine,
  \<^verbatim>\<open>stp/roles.go\<close>.
\<close>

section \<open>Helpers\<close>

definition boundary :: "stp_layer \<Rightarrow> string \<Rightarrow> bool" where
  "boundary l name =
     (case map_of (l_links l) name of None \<Rightarrow> False | Some link \<Rightarrow> k_external link)"

text \<open>The guard \<^verbatim>\<open>l.mst != nil && t.id != cistID && l.boundary(name)\<close> of the boundary rule.\<close>

definition boundary_rule :: "stp_layer \<Rightarrow> tree_id \<Rightarrow> string \<Rightarrow> bool" where
  "boundary_rule l i name \<longleftrightarrow> l_mst l \<noteq> None \<and> i \<noteq> cistID \<and> boundary l name"

text \<open>The range over \<^verbatim>\<open>t.ports\<close>: whether every Designated port but one is synced.\<close>

definition isSynced :: "stp_layer \<Rightarrow> tree_id \<Rightarrow> string \<Rightarrow> bool" where
  "isSynced l i rootPort =
     list_all (\<lambda>(name, p). name = rootPort \<or>
         \<not> (p_role p = RoleDesignated \<and> \<not> k_edge (link_at l name) \<and> \<not> p_synced p))
       (t_ports (tree_at l i))"

definition arm_port :: "tree_id \<Rightarrow> time \<Rightarrow> string \<Rightarrow> stp_layer \<Rightarrow> stp_layer" where
  "arm_port i now name l =
     (if \<not> k_up (link_at l name) then l
      else upd_tx i name (\<lambda>x. if x_helloWhen x = 0 then x\<lparr>x_helloWhen := now + l_helloTime l\<rparr> else x) l)"

definition armHelloTimers :: "time \<Rightarrow> stp_layer \<Rightarrow> stp_layer" where
  "armHelloTimers now l =
     fold (\<lambda>i l. if l_pvst l = None \<and> i \<noteq> cistID then l
                 else fold (arm_port i now) (l_portNames l) l) (l_treeOrder l) l"

section \<open>Root election\<close>

text \<open>
  The three guards of the loop of \<^verbatim>\<open>electRoot\<close>: the port has information, no guard holds it,
  and the information is fresh.
\<close>

definition loop_inconsistent :: "stp_layer \<Rightarrow> tree_id \<Rightarrow> string \<Rightarrow> bool" where
  "loop_inconsistent l i name \<longleftrightarrow>
     p_loopInconsistent (port_at l i name) \<or>
     (l_pvst l = None \<and> has_port l cistID name \<and> p_loopInconsistent (port_at l cistID name))"

definition info_fresh :: "time \<Rightarrow> port_state \<Rightarrow> bool" where
  "info_fresh now p \<longleftrightarrow> p_rcvInfoValid p \<and> now < p_rcvTime p + 3 * p_rcvHelloTime p"

definition eligible :: "stp_layer \<Rightarrow> tree_id \<Rightarrow> time \<Rightarrow> string \<Rightarrow> bool" where
  "eligible l i now name \<longleftrightarrow>
     (let p = port_at l i name; link = link_at l name in
      has_port l i name \<and> map_of (l_links l) name \<noteq> None \<and> k_up link \<and> p_rcvInfoValid p \<and>
      has_port l cistID name \<and> \<not> k_bpduGuardDisabled link \<and> \<not> a_RestrictedRole (p_cfg p) \<and>
      \<not> loop_inconsistent l i name \<and> \<not> p_pvidInconsistent p \<and> info_fresh now p)"

type_synonym best = "priority_vector \<times> string \<times> u16"

definition ownVector :: "tree \<Rightarrow> priority_vector" where
  "ownVector t = zero_vector\<lparr>v_rootID := t_bridgeID t, v_regionalRootID := t_bridgeID t,
                             v_bridgeID := t_bridgeID t\<rparr>"

definition elect_step :: "stp_layer \<Rightarrow> tree_id \<Rightarrow> time \<Rightarrow> string \<Rightarrow> best \<Rightarrow> best" where
  "elect_step l i now name s =
     (if \<not> eligible l i now name then s
      else
        let p = port_at l i name;
            cand = candidateVector (tree_at l i) p (k_external (link_at l name));
            (bestVector, bestPort, bestRcvPortID) = s
        in if bestPort = '''' then
             (if compareVectors cand bestVector < 0 then (cand, name, p_portID p) else s)
           else let diff = compareVectors cand bestVector in
             if diff < 0 \<or> (diff = 0 \<and> p_portID p < bestRcvPortID) then (cand, name, p_portID p)
             else s)"

definition elect_scan :: "stp_layer \<Rightarrow> tree_id \<Rightarrow> time \<Rightarrow> best" where
  "elect_scan l i now =
     fold (elect_step l i now) (l_portNames l) (ownVector (tree_at l i), '''', 0)"

definition electRoot :: "tree_id \<Rightarrow> time \<Rightarrow> stp_layer \<Rightarrow> stp_layer" where
  "electRoot i now l =
     (let (bestVector, bestPort, _) = elect_scan l i now in
      upd_tree i (\<lambda>t.
        if bestPort = '''' then
          (let t = t\<lparr>t_rootID := t_bridgeID t, t_rootPathCost := 0, t_rootPort := ''''\<rparr>
           in if i = cistID then t\<lparr>t_regionalRootID := t_bridgeID t, t_internalRootPathCost := 0\<rparr>
              else t)
        else
          (let t = t\<lparr>t_rootPort := bestPort\<rparr>
           in if i = cistID then
                t\<lparr>t_rootID := v_rootID bestVector,
                  t_rootPathCost := v_externalRootPathCost bestVector,
                  t_regionalRootID := v_regionalRootID bestVector,
                  t_internalRootPathCost := v_internalRootPathCost bestVector\<rparr>
              else
                t\<lparr>t_rootID := v_regionalRootID bestVector,
                  t_rootPathCost := v_internalRootPathCost bestVector\<rparr>)) l)"

section \<open>Roles\<close>

definition designatedOrBlocked :: "stp_layer \<Rightarrow> tree_id \<Rightarrow> string \<Rightarrow> time \<Rightarrow> role" where
  "designatedOrBlocked l i name now =
     (let p = port_at l i name; t = tree_at l i; ext = k_external (link_at l name) in
      if info_fresh now p \<and> compareVectors (rawVector t p ext) (designatedVector t p ext) < 0
      then (if p_rcvBridgeID p = t_bridgeID t then RoleBackup else RoleAlternate)
      else RoleDesignated)"

definition trackDesignatedVector :: "tree_id \<Rightarrow> string \<Rightarrow> role \<Rightarrow> bool \<Rightarrow> stp_layer \<Rightarrow> stp_layer" where
  "trackDesignatedVector i name oldRole external l =
     (if p_role (port_at l i name) \<noteq> RoleDesignated then l
      else
        let vec = designatedVector (tree_at l i) (port_at l i name) external in
        upd_port i name (\<lambda>p.
          let p = (if oldRole \<noteq> RoleDesignated then p\<lparr>p_synced := (p_state p = StateDiscarding)\<rparr>
                   else if \<not> p_designatedVecSet p \<or> vec = p_designatedVec p then p
                   else let p = (if compareVectors vec (p_designatedVec p) > 0
                                 then p\<lparr>p_agreed := False\<rparr> else p)
                        in p\<lparr>p_synced := (p_agreed p \<or> p_state p = StateDiscarding)\<rparr>)
          in p\<lparr>p_designatedVec := vec, p_designatedVecSet := True\<rparr>) l)"

text \<open>The role the two branches of \<^verbatim>\<open>assignRoles\<close> choose for a port.\<close>

definition chosen_role :: "stp_layer \<Rightarrow> tree_id \<Rightarrow> time \<Rightarrow> string \<Rightarrow> role" where
  "chosen_role l i now name =
     (let p = port_at l i name; cistP = port_at l cistID name; link = link_at l name in
      if boundary_rule l i name then p_role cistP
      else if \<not> k_up link \<or> k_bpduGuardDisabled link then RoleDisabled
      else if p_loopInconsistent p \<or> (l_pvst l = None \<and> p_loopInconsistent cistP) then RoleAlternate
      else if p_pvidInconsistent p then RoleAlternate
      else if name = t_rootPort (tree_at l i) then RoleRoot
      else designatedOrBlocked l i name now)"

definition take_role :: "role \<Rightarrow> time \<Rightarrow> port_state \<Rightarrow> port_state" where
  "take_role r now p =
     (let oldRole = p_role p; p = recordRoleChange oldRole now (p\<lparr>p_role := r\<rparr>)
      in if p_role p \<noteq> oldRole then p\<lparr>p_agreed := False\<rparr> else p)"

definition assign_role :: "tree_id \<Rightarrow> time \<Rightarrow> string \<Rightarrow> stp_layer \<Rightarrow> stp_layer" where
  "assign_role i now name l =
     (if \<not> has_port l i name then l
      else
        let link = link_at l name;
            oldRole = p_role (port_at l i name);
            l1 = upd_port i name (take_role (chosen_role l i now name) now) l;
            l2 = trackDesignatedVector i name oldRole (k_external link) l1
        in if \<not> boundary_rule l i name \<and> i = cistID \<and>
              p_role (port_at l2 i name) = RoleDesignated \<and> oldRole \<noteq> RoleDesignated \<and>
              p_proposing (port_at l2 i name)
           then upd_link name (\<lambda>k. k\<lparr>k_edgeDelayWhile := now + edgeDelay l2 i link\<rparr>) l2
           else l2)"

definition assignRoles :: "tree_id \<Rightarrow> time \<Rightarrow> stp_layer \<Rightarrow> stp_layer" where
  "assignRoles i now l = fold (assign_role i now) (l_portNames l) l"

section \<open>Port states\<close>

abbreviation blocked_role :: "role \<Rightarrow> bool" where
  "blocked_role r \<equiv> r = RoleDisabled \<or> r = RoleAlternate \<or> r = RoleBackup"

abbreviation active_role :: "role \<Rightarrow> bool" where
  "active_role r \<equiv> r = RoleRoot \<or> r = RoleDesignated"

text \<open>First loop of \<^verbatim>\<open>updatePortStates\<close>: the synced flag and the deadlines.\<close>

definition settle_port :: "tree_id \<Rightarrow> time \<Rightarrow> string \<Rightarrow> stp_layer \<Rightarrow> stp_layer" where
  "settle_port i now name l =
     upd_port i name (\<lambda>p.
       let p = (if p_leftBackupAt p \<noteq> 0 \<and> recentBackupDeadline l i p now = 0
                then p\<lparr>p_leftBackupAt := 0\<rparr> else p);
           p = (if blocked_role (p_role p) \<or> boundary_rule l i name then clearRecentRoot p else p)
       in if p_role p = RoleDesignated \<and>
             (p_state p = StateDiscarding \<or> p_agreed p \<or> k_edge (link_at l name))
          then clearRecentRoot (p\<lparr>p_synced := True\<rparr>) else p) l"

text \<open>Second loop: a Root port that does not forward yet cuts the ports that were Root recently.\<close>

definition reroot_pending :: "stp_layer \<Rightarrow> tree_id \<Rightarrow> bool" where
  "reroot_pending l i \<longleftrightarrow>
     (let name = t_rootPort (tree_at l i); root = port_at l i name in
      has_port l i name \<and> p_role root = RoleRoot \<and> p_state root \<noteq> StateForwarding \<and>
      \<not> boundary_rule l i (p_name root))"

definition cut_port :: "tree_id \<Rightarrow> time \<Rightarrow> duration \<Rightarrow> string \<Rightarrow> stp_layer \<Rightarrow> stp_layer" where
  "cut_port i now fwdDelay name l =
     (let p = port_at l i name; link = link_at l name in
      if \<not> has_port l i name \<or> p_role p \<noteq> RoleDesignated \<or> k_edge link \<or> p_state p = StateDiscarding \<or>
         boundary_rule l i name \<or> (\<not> p_pendingRootDeadline p \<and> recentRootDeadline p now = 0)
      then l
      else
        let proposing = (k_pointToPoint link \<and> k_sendRSTP link);
            l1 = upd_port i name (\<lambda>p. (clearRecentRoot
                   (p\<lparr>p_state := StateDiscarding, p_fwdDelayTimer := now + fwdDelay,
                      p_agreed := False, p_synced := True\<rparr>))\<lparr>p_proposing := proposing\<rparr>) l;
            l2 = (if proposing then requestNewInfo i name l1 else l1)
        in if i = cistID \<and> proposing
           then upd_link name (\<lambda>k. k\<lparr>k_edgeDelayWhile := now + edgeDelay l2 i link\<rparr>) l2
           else l2)"

text \<open>Third loop. The shared tail: a transition into forwarding counts and is detected.\<close>

definition note_forwarding :: "tree_id \<Rightarrow> time \<Rightarrow> state \<Rightarrow> string \<Rightarrow> stp_layer \<Rightarrow> stp_layer" where
  "note_forwarding i now oldState name l =
     (if oldState \<noteq> StateForwarding \<and> p_state (port_at l i name) = StateForwarding then
        (let l1 = upd_port i name (\<lambda>p. p\<lparr>p_forwardTransitions := p_forwardTransitions p + 1\<rparr>) l
         in if \<not> k_edge (link_at l name) \<and> active_role (p_role (port_at l i name))
            then detectTopologyChange i name now l1 else l1)
      else l)"

text \<open>An MSTI port on a boundary link follows the CIST's port, held back while a sync cuts it.\<close>

definition follow_cist :: "time \<Rightarrow> duration \<Rightarrow> link_record \<Rightarrow> port_state \<Rightarrow> port_state \<Rightarrow> port_state" where
  "follow_cist now fwdDelay link cistP p =
     (let p = (if p_role p \<noteq> RoleDesignated \<or> p_agreed p \<or> k_edge link \<or>
                  p_boundarySyncState p = StateForwarding
               then p\<lparr>p_boundarySyncState := StateNone\<rparr> else p);
          p = p\<lparr>p_state := p_state cistP\<rparr>
      in if p_boundarySyncState p \<noteq> StateNone then
           (let p = (if p_boundarySyncState p = StateDiscarding \<or> p_state cistP = StateForwarding
                     then p\<lparr>p_state := p_boundarySyncState p\<rparr> else p)
            in if p_fwdDelayTimer p = 0 \<or> now + fwdDelay < p_fwdDelayTimer p
               then p\<lparr>p_fwdDelayTimer := now + fwdDelay\<rparr> else p)
         else p\<lparr>p_fwdDelayTimer := 0\<rparr>)"

definition drive_boundary :: "tree_id \<Rightarrow> time \<Rightarrow> duration \<Rightarrow> string \<Rightarrow> stp_layer \<Rightarrow> stp_layer" where
  "drive_boundary i now fwdDelay name l =
     (let oldState = p_state (port_at l i name); link = link_at l name;
          l1 = upd_port i name (follow_cist now fwdDelay link (port_at l cistID name)) l;
          l2 = note_forwarding i now oldState name l1
      in if k_edge link \<or> \<not> active_role (p_role (port_at l i name))
         then deactivatePort i name l2 else l2)"

text \<open>
  Any other port runs its own ladder; \<open>arm\<close> starts the forward delay of a Discarding port
  unless it already runs within bounds.
\<close>

definition arm_forward :: "time \<Rightarrow> duration \<Rightarrow> port_state \<Rightarrow> port_state" where
  "arm_forward now fwdDelay p =
     (if p_state p = StateDiscarding \<and> (p_fwdDelayTimer p = 0 \<or> now + fwdDelay < p_fwdDelayTimer p)
      then p\<lparr>p_fwdDelayTimer := now + fwdDelay\<rparr> else p)"

definition own_ladder :: "time \<Rightarrow> duration \<Rightarrow> link_record \<Rightarrow> bool \<Rightarrow> port_state \<Rightarrow> port_state" where
  "own_ladder now fwdDelay link recentBackup p =
     (let p = p\<lparr>p_boundarySyncState := StateNone\<rparr> in
      case p_role p of
        RoleRoot \<Rightarrow>
          if k_pointToPoint link \<and> \<not> recentBackup \<and> k_sendRSTP link
          then p\<lparr>p_state := StateForwarding, p_fwdDelayTimer := 0\<rparr>
          else arm_forward now fwdDelay p
      | RoleDesignated \<Rightarrow>
          if k_edge link then p\<lparr>p_state := StateForwarding, p_fwdDelayTimer := 0\<rparr>
          else if k_pointToPoint link \<and> p_agreed p
          then p\<lparr>p_state := StateForwarding, p_fwdDelayTimer := 0\<rparr>
          else arm_forward now fwdDelay p
      | RoleNone \<Rightarrow> p
      | _ \<Rightarrow> p\<lparr>p_state := StateDiscarding, p_fwdDelayTimer := 0\<rparr>)"

definition drive_own :: "tree_id \<Rightarrow> time \<Rightarrow> duration \<Rightarrow> string \<Rightarrow> stp_layer \<Rightarrow> stp_layer" where
  "drive_own i now fwdDelay name l =
     (let p = port_at l i name; oldState = p_state p; link = link_at l name;
          recentBackup = (recentBackupDeadline l i p now \<noteq> 0);
          l1 = upd_port i name (own_ladder now fwdDelay link recentBackup) l;
          l2 = (if blocked_role (p_role p) \<or> (p_role p = RoleDesignated \<and> k_edge link)
                then deactivatePort i name l1 else l1)
      in note_forwarding i now oldState name l2)"

definition drive_port :: "tree_id \<Rightarrow> time \<Rightarrow> duration \<Rightarrow> string \<Rightarrow> stp_layer \<Rightarrow> stp_layer" where
  "drive_port i now fwdDelay name l =
     (if \<not> has_port l i name then l
      else if boundary_rule l i name then drive_boundary i now fwdDelay name l
      else drive_own i now fwdDelay name l)"

definition updatePortStates :: "tree_id \<Rightarrow> time \<Rightarrow> stp_layer \<Rightarrow> stp_layer" where
  "updatePortStates i now l =
     (let fwdDelay = fwdDelay_of l i;
          l1 = fold (settle_port i now) (l_portNames l) l;
          l2 = (if reroot_pending l1 i then fold (cut_port i now fwdDelay) (l_portNames l1) l1 else l1)
      in fold (drive_port i now fwdDelay) (l_portNames l2) l2)"

section \<open>Recomputation\<close>

definition request_port :: "tree_id \<Rightarrow> string \<Rightarrow> stp_layer \<Rightarrow> stp_layer" where
  "request_port i name l =
     (let p = port_at l i name; link = link_at l name in
      if k_up link \<and> p_role p = RoleDesignated \<and> k_pointToPoint link \<and>
         p_state p = StateDiscarding \<and> \<not> p_agreed p
      then requestNewInfo i name l else l)"

definition recompute :: "time \<Rightarrow> tree_id \<Rightarrow> stp_layer \<Rightarrow> stp_layer" where
  "recompute now i l =
     (let old = tree_at l i;
          l1 = electRoot i now l;
          l2 = assignRoles i now l1;
          l3 = updatePortStates i now l2;
          t = tree_at l3 i
      in if t_rootID t \<noteq> t_rootID old \<or> t_rootPathCost t \<noteq> t_rootPathCost old \<or>
            t_rootPort t \<noteq> t_rootPort old
         then fold (request_port i) (l_portNames l3) l3 else l3)"

definition recomputeAll :: "time \<Rightarrow> stp_layer \<Rightarrow> stp_layer" where
  "recomputeAll now l = fold (recompute now) (l_treeOrder l) l"

section \<open>Shape\<close>

lemma shape_electRoot [simp]: "shape (electRoot i now l) = shape l"
  by (simp add: electRoot_def case_prod_beta Let_def erase_tree_eq)

lemma take_role_frame [simp]:
  "p_name (take_role r now p) = p_name p" "p_cfg (take_role r now p) = p_cfg p"
  "p_portID (take_role r now p) = p_portID p"
  "p_pathCostFixed (take_role r now p) = p_pathCostFixed p"
  "p_role (take_role r now p) = r" "p_state (take_role r now p) = p_state p"
  by (simp_all add: take_role_def Let_def)

lemma shape_track [simp]: "shape (trackDesignatedVector i n r e l) = shape l"
  by (simp add: trackDesignatedVector_def Let_def)

lemma shape_assign_role [simp]: "shape (assign_role i now n l) = shape l"
  by (simp add: assign_role_def Let_def)

lemma shape_assignRoles [simp]: "shape (assignRoles i now l) = shape l"
  by (simp add: assignRoles_def shape_fold)

lemma shape_settle_port [simp]: "shape (settle_port i now n l) = shape l"
  by (simp add: settle_port_def Let_def)

lemma shape_cut_port [simp]: "shape (cut_port i now d n l) = shape l"
  by (simp add: cut_port_def Let_def)

lemma shape_note_forwarding [simp]: "shape (note_forwarding i now s n l) = shape l"
  by (simp add: note_forwarding_def Let_def)

lemma arm_forward_frame [simp]:
  "p_name (arm_forward now d p) = p_name p" "p_cfg (arm_forward now d p) = p_cfg p"
  "p_portID (arm_forward now d p) = p_portID p"
  "p_pathCostFixed (arm_forward now d p) = p_pathCostFixed p"
  "p_role (arm_forward now d p) = p_role p" "p_state (arm_forward now d p) = p_state p"
  by (simp_all add: arm_forward_def)

lemma own_ladder_frame [simp]:
  "p_name (own_ladder now d k b p) = p_name p" "p_cfg (own_ladder now d k b p) = p_cfg p"
  "p_portID (own_ladder now d k b p) = p_portID p"
  "p_pathCostFixed (own_ladder now d k b p) = p_pathCostFixed p"
  "p_role (own_ladder now d k b p) = p_role p"
  by (cases "p_role p"; simp add: own_ladder_def Let_def)+

lemma follow_cist_frame [simp]:
  "p_name (follow_cist now d k c p) = p_name p" "p_cfg (follow_cist now d k c p) = p_cfg p"
  "p_portID (follow_cist now d k c p) = p_portID p"
  "p_pathCostFixed (follow_cist now d k c p) = p_pathCostFixed p"
  "p_role (follow_cist now d k c p) = p_role p"
  by (simp_all add: follow_cist_def Let_def)

lemma shape_drive_own [simp]: "shape (drive_own i now d n l) = shape l"
  by (simp add: drive_own_def Let_def)

lemma shape_drive_boundary [simp]: "shape (drive_boundary i now d n l) = shape l"
  by (simp add: drive_boundary_def Let_def)

lemma shape_drive_port [simp]: "shape (drive_port i now d n l) = shape l"
  by (simp add: drive_port_def)

lemma shape_updatePortStates [simp]: "shape (updatePortStates i now l) = shape l"
  by (simp add: updatePortStates_def Let_def shape_fold)

lemma shape_request_port [simp]: "shape (request_port i n l) = shape l"
  by (simp add: request_port_def Let_def)

lemma shape_recompute [simp]: "shape (recompute now i l) = shape l"
  by (simp add: recompute_def Let_def shape_fold)

lemma shape_recomputeAll [simp]: "shape (recomputeAll now l) = shape l"
  by (simp add: recomputeAll_def shape_fold)

lemma shape_armHelloTimers [simp]: "shape (armHelloTimers now l) = shape l"
proof -
  have "shape (arm_port i now n l) = shape l" for i n l
    by (simp add: arm_port_def)
  then show ?thesis
    by (simp add: armHelloTimers_def shape_fold)
qed

end
