(* ===== verification/Stp_Transmit.thy ===== *)
theory Stp_Transmit
  imports Stp_Roles
begin

text \<open>
  The transmit pass, \<^verbatim>\<open>stp/transmit.go\<close>: the transmit budget and its timers, the
  construction of a BPDU from the port's final state, and the frames it becomes.
\<close>

section \<open>Timers of the transmit budget\<close>

text \<open>
  The loop of \<^verbatim>\<open>settleHelloTimers\<close> as it is written, not returning being \<open>None\<close>, and the
  total function the model runs: they agree for the positive hello times a validated
  configuration has (\<open>hello_loop_settles\<close>).
\<close>

partial_function (option) hello_loop :: "duration \<Rightarrow> time \<Rightarrow> time \<Rightarrow> time option" where
  "hello_loop d now w = (if w \<noteq> 0 \<and> w < now then hello_loop d now (w + d) else Some w)"

function settle_hello :: "duration \<Rightarrow> time \<Rightarrow> time \<Rightarrow> time" where
  "settle_hello d now w = (if 0 < d \<and> w \<noteq> 0 \<and> w < now then settle_hello d now (w + d) else w)"
  by pat_completeness auto
termination
  by (relation "measure (\<lambda>(d, now, w). nat (now - w))") auto

declare settle_hello.simps [simp del]

definition settle_tx :: "tree_id \<Rightarrow> time \<Rightarrow> string \<Rightarrow> stp_layer \<Rightarrow> stp_layer" where
  "settle_tx i now name l =
     upd_tx i name (\<lambda>x. x\<lparr>x_helloWhen := settle_hello (l_helloTime l) now (x_helloWhen x)\<rparr>) l"

definition settleHelloTimers :: "time \<Rightarrow> stp_layer \<Rightarrow> stp_layer" where
  "settleHelloTimers now l =
     fold (\<lambda>i l. if l_pvst l = None \<and> i \<noteq> cistID then l
                 else fold (settle_tx i now) (l_portNames l) l) (l_treeOrder l) l"

fun drain :: "time \<Rightarrow> nat \<Rightarrow> time \<Rightarrow> nat \<times> time" where
  "drain now 0 tick = (0, tick)"
| "drain now (Suc c) tick = (if \<not> now < tick then drain now c (tick + second) else (Suc c, tick))"

definition advanceTransmitCount :: "time \<Rightarrow> port_tx \<Rightarrow> port_tx" where
  "advanceTransmitCount now x =
     (let (c, tick) = drain now (x_count x) (x_tick x)
      in x\<lparr>x_count := c, x_tick := (if c = 0 then 0 else tick)\<rparr>)"

section \<open>Requests\<close>

text \<open>A port whose hello is due has something to say: Designated, or Root in a topology change.\<close>

definition hello_port :: "port_state \<Rightarrow> time \<Rightarrow> bool" where
  "hello_port p at \<longleftrightarrow>
     p_role p = RoleDesignated \<or> (p_role p = RoleRoot \<and> activeAt (p_tcWhile p) at)"

definition setHelloRequests :: "tree_id \<Rightarrow> time \<Rightarrow> string \<Rightarrow> stp_layer \<Rightarrow> stp_layer" where
  "setHelloRequests i now name l =
     (let x = tx_at l i name in
      if x_helloWhen x = 0 \<or> now < x_helloWhen x then l
      else
        let l1 = (if (i = cistID \<or> l_pvst l \<noteq> None) \<and> hello_port (port_at l i name) now
                  then upd_tx i name (\<lambda>x. x\<lparr>x_newInfo := True\<rparr>) l else l);
            l2 = (if l_pvst l = None \<and> i = cistID \<and>
                     list_ex (\<lambda>j. j \<noteq> cistID \<and> hello_port (port_at l j name) now) (l_treeOrder l)
                  then upd_tx i name (\<lambda>x. x\<lparr>x_newInfoMsti := True\<rparr>) l1 else l1)
        in upd_tx i name (\<lambda>x. x\<lparr>x_helloWhen := now + l_helloTime l\<rparr>) l2)"

definition mstiMasterPort :: "stp_layer \<Rightarrow> string \<Rightarrow> bool" where
  "mstiMasterPort l name =
     (if l_mst l = None \<or> \<not> k_external (link_at l name) then False
      else p_role (port_at l cistID name) = RoleRoot)"

definition transmitRequested :: "stp_layer \<Rightarrow> string \<Rightarrow> port_tx \<Rightarrow> bool" where
  "transmitRequested l name x =
     (if x_newInfo x then True
      else if \<not> x_newInfoMsti x \<or> \<not> k_sendRSTP (link_at l name) then False
      else if l_pvst l \<noteq> None \<or> \<not> mstiMasterPort l name then True
      else False)"

section \<open>Building a BPDU\<close>

definition instanceRemainingHops :: "stp_layer \<Rightarrow> tree_id \<Rightarrow> byte" where
  "instanceRemainingHops l i =
     (let maxHops = (case l_mst l of Some m \<Rightarrow> effectiveMaxHops (m_MaxHops m) | None \<Rightarrow> 0);
          t = tree_at l i;
          isRegionalRoot = (if i = cistID then t_regionalRootID t = t_bridgeID t
                            else t_rootID t = t_bridgeID t);
          rp = port_at l i (t_rootPort t)
      in if isRegionalRoot then maxHops
         else if \<not> has_port l i (t_rootPort t) \<or> p_rcvRemainingHops rp = 0 then maxHops
         else p_rcvRemainingHops rp - 1)"

text \<open>
  The proposal, agreement, learning, forwarding and topology change bits of one port, which the
  CIST's flags and an MSTI record share.
\<close>

definition proposes :: "link_record \<Rightarrow> port_state \<Rightarrow> bool" where
  "proposes link p \<longleftrightarrow> k_pointToPoint link \<and> k_sendRSTP link \<and> p_role p = RoleDesignated \<and>
     p_state p = StateDiscarding \<and> \<not> p_agreed p"

definition agrees :: "stp_layer \<Rightarrow> tree_id \<Rightarrow> string \<Rightarrow> bool" where
  "agrees l i name \<longleftrightarrow>
     (let link = link_at l name; r = p_role (port_at l i name) in
      k_pointToPoint link \<and> k_sendRSTP link \<and> (r = RoleRoot \<or> r = RoleAlternate) \<and>
      isSynced l i name)"

definition port_flags :: "stp_layer \<Rightarrow> tree_id \<Rightarrow> string \<Rightarrow> time \<Rightarrow> bpdu \<Rightarrow> bpdu" where
  "port_flags l i name now b =
     (let p = port_at l i name; link = link_at l name;
          b = SetRole (p_role p) b;
          b = SetProposal (proposes link p) b;
          b = SetAgreement (agrees l i name) b;
          b = SetLearning (p_state p = StateLearning \<or> p_state p = StateForwarding) b;
          b = SetForwarding (p_state p = StateForwarding) b
      in if activeAt (p_tcWhile p) now then SetTopologyChange True b else b)"

definition tree_record :: "stp_layer \<Rightarrow> time \<Rightarrow> string \<Rightarrow> tree_id \<Rightarrow> msti_record" where
  "tree_record l now name i =
     (let mt = tree_at l i in
      \<lparr>r_MSTID = i,
       r_Flags = b_Flags (port_flags l i name now zero_bpdu),
       r_RegionalRootID = t_rootID mt,
       r_InternalRootPathCost = t_rootPathCost mt,
       r_BridgePriority = ucast (drop_bit 8 (bid_Priority (t_bridgeID mt))),
       r_PortPriority = ucast (drop_bit 8 (p_portID (port_at l i name))),
       r_RemainingHops = instanceRemainingHops l i\<rparr>)"

definition gatherMSTIRecords :: "stp_layer \<Rightarrow> time \<Rightarrow> string \<Rightarrow> msti_record list" where
  "gatherMSTIRecords l now name =
     map (tree_record l now name)
       (filter (\<lambda>i. i \<noteq> cistID \<and> has_port l i name) (l_treeOrder l))"

text \<open>
  \<^verbatim>\<open>makeBPDU\<close> answers the BPDU and leaves the acknowledgment cleared: an RSTP port drops it
  before the flags are set, a legacy one puts it into its Configuration BPDU.
\<close>

definition made_bpdu :: "stp_layer \<Rightarrow> tree_id \<Rightarrow> string \<Rightarrow> time \<Rightarrow> bpdu" where
  "made_bpdu l i name now =
     (let t = tree_at l i; p = port_at l i name; link = link_at l name;
          rp = port_at l i (t_rootPort t);
          msgAge = (if t_rootPort t \<noteq> '''' \<and> has_port l i (t_rootPort t) \<and> p_rcvInfoValid rp
                    then p_rcvMessageAge rp + second else 0);
          b = zero_bpdu\<lparr>b_RootID := t_rootID t, b_RootPathCost := t_rootPathCost t,
                b_BridgeID := t_bridgeID t, b_PortID := p_portID p, b_MessageAge := msgAge,
                b_MaxAge := maxAge_of l i, b_HelloTime := hello_of l i,
                b_ForwardDelay := fwdDelay_of l i\<rparr>;
          b = (if \<not> k_sendRSTP link then b\<lparr>b_Version := 0, b_Type := TypeConfiguration\<rparr>
               else b\<lparr>b_Version := 2, b_Type := TypeRapid\<rparr>);
          b = port_flags l i name now b;
          b = (if p_tcAck p \<and> \<not> k_sendRSTP link then SetTopologyChangeAck True b else b)
      in if l_mst l \<noteq> None \<and> k_sendRSTP link then
           b\<lparr>b_ConfigID := l_configID l, b_RegionalRootID := t_regionalRootID t,
             b_InternalRootPathCost := t_internalRootPathCost t,
             b_RemainingHops := instanceRemainingHops l i,
             b_MSTIs := gatherMSTIRecords l now name\<rparr>
         else b)"

definition makeBPDU :: "tree_id \<Rightarrow> string \<Rightarrow> time \<Rightarrow> stp_layer \<Rightarrow> bpdu \<times> stp_layer" where
  "makeBPDU i name now l =
     (made_bpdu l i name now, upd_port i name (\<lambda>p. p\<lparr>p_tcAck := False\<rparr>) l)"

definition transmitBPDU :: "tree_id \<Rightarrow> string \<Rightarrow> time \<Rightarrow> stp_layer \<Rightarrow> bpdu option \<times> stp_layer" where
  "transmitBPDU i name now l =
     (if k_sendRSTP (link_at l name) then apfst Some (makeBPDU i name now l)
      else case p_role (port_at l i name) of
        RoleRoot \<Rightarrow> (Some (zero_bpdu\<lparr>b_Version := 0, b_Type := TypeTopologyChangeNotification\<rparr>), l)
      | RoleDesignated \<Rightarrow> apfst Some (makeBPDU i name now l)
      | _ \<Rightarrow> (None, l))"

section \<open>The transmit pass\<close>

text \<open>A \<^verbatim>\<open>taggedFrame\<close> is the pair of its VLAN and its frame.\<close>

definition frames :: "stp_layer \<Rightarrow> tree_id \<Rightarrow> string \<Rightarrow> bpdu \<Rightarrow> encode_error + (vlan_id \<times> frame) list" where
  "frames l i name b =
     (if l_pvst l = None then
        (case Encode b (l_address l) of Inl e \<Rightarrow> Inl e | Inr f \<Rightarrow> Inr [(0, f)])
      else
        let t = tree_at l i;
            sstp = (if i \<noteq> cistID \<or> k_sendRSTP (link_at l name)
                    then (case EncodeSSTP b (t_vid t) (l_address l) of
                            Inl e \<Rightarrow> Inl e | Inr f \<Rightarrow> Inr [(t_vid t, f)])
                    else Inr [])
        in case sstp of
             Inl e \<Rightarrow> Inl e
           | Inr built \<Rightarrow>
               if i \<noteq> cistID then Inr built
               else (case Encode b (l_address l) of
                       Inl e \<Rightarrow> Inl e | Inr f \<Rightarrow> Inr (built @ [(0, f)])))"

definition emit :: "string \<Rightarrow> (vlan_id \<times> frame) list \<Rightarrow> stp_layer \<Rightarrow> stp_layer" where
  "emit name built l =
     l\<lparr>l_emissions := l_emissions l @
         map (\<lambda>(vid, f). \<lparr>em_Port = name, em_VID = vid, em_Frame = f\<rparr>) built\<rparr>"

text \<open>What sending charges to the budget.\<close>

definition charge :: "duration \<Rightarrow> time \<Rightarrow> bpdu_type \<Rightarrow> port_tx \<Rightarrow> port_tx" where
  "charge helloTime now ty x =
     x\<lparr>x_tick := (if x_count x = 0 then now + second else x_tick x),
       x_count := x_count x + 1,
       x_helloWhen := now + helloTime,
       x_newInfo := False,
       x_newInfoMsti := (if ty = TypeRapid then False else x_newInfoMsti x)\<rparr>"

definition send_port :: "tree_id \<Rightarrow> time \<Rightarrow> string \<Rightarrow> stp_layer \<Rightarrow> stp_layer" where
  "send_port i now name l =
     (case transmitBPDU i name now l of
        (None, l1) \<Rightarrow> l1
      | (Some msg, l1) \<Rightarrow>
          (case frames l1 i name msg of
             Inl _ \<Rightarrow> l1
           | Inr built \<Rightarrow>
               if built = [] then l1
               else upd_tx i name (charge (l_helloTime l) now (b_Type msg))
                      (upd_port i name (\<lambda>p. p\<lparr>p_txBPDUs := p_txBPDUs p + 1\<rparr>)
                        (emit name built l1))))"

definition transmit_port :: "tree_id \<Rightarrow> time \<Rightarrow> string \<Rightarrow> stp_layer \<Rightarrow> stp_layer" where
  "transmit_port i now name l =
     (let link = link_at l name in
      if \<not> k_up link \<or> k_bpduGuardDisabled link then
        upd_tx i name (\<lambda>x. x\<lparr>x_count := 0, x_tick := 0, x_helloWhen := 0\<rparr>) l
      else
        let l1 = upd_tx i name (advanceTransmitCount now) l;
            l2 = setHelloRequests i now name l1;
            x = tx_at l2 i name
        in if \<not> transmitRequested l2 name x \<or> x_count x \<ge> unat (l_txHoldCount l2) then l2
           else send_port i now name l2)"

definition transmit :: "time \<Rightarrow> stp_layer \<Rightarrow> stp_layer" where
  "transmit now l =
     fold (\<lambda>i l. if l_pvst l = None \<and> i \<noteq> cistID then l
                 else fold (transmit_port i now) (l_portNames l) l) (l_treeOrder l) l"

section \<open>Shape and core\<close>

lemma core_tcAck: "core (upd_port i n (\<lambda>p. p\<lparr>p_tcAck := a\<rparr>) l) = core l"
  by (rule core_upd_port) (simp add: core_port_def)

lemma core_txBPDUs: "core (upd_port i n (\<lambda>p. p\<lparr>p_txBPDUs := p_txBPDUs p + 1\<rparr>) l) = core l"
  by (rule core_upd_port) (simp add: core_port_def)

lemma core_settleHelloTimers [simp]: "core (settleHelloTimers now l) = core l"
  by (simp add: settleHelloTimers_def settle_tx_def core_fold)

lemma core_transmitBPDU: "core (snd (transmitBPDU i n now l)) = core l"
  by (simp add: transmitBPDU_def makeBPDU_def core_tcAck split: role.splits)

lemma core_emit [simp]: "core (emit n b l) = core l"
  by (simp add: emit_def)

lemma core_send_port [simp]: "core (send_port i now n l) = core l"
  using core_transmitBPDU [of i n now l]
  by (auto simp: send_port_def core_txBPDUs split: prod.splits option.splits sum.splits)

lemma core_transmit_port [simp]: "core (transmit_port i now n l) = core l"
  by (simp add: transmit_port_def setHelloRequests_def Let_def)

lemma core_transmit [simp]: "core (transmit now l) = core l"
  by (simp add: transmit_def core_fold)

lemma shape_transmit [simp]: "shape (transmit now l) = shape l" "shape (settleHelloTimers now l) = shape l"
  by (rule core_shape, simp)+

end
