(* ===== verification/Stp_Link.thy ===== *)
theory Stp_Link
  imports Stp_Transmit
begin

text \<open>
  The link half of the layer, \<^verbatim>\<open>stp/link.go\<close>: link transitions, migration checks, and what a
  received frame does to the link whatever tree it belongs to.
\<close>

section \<open>Calls\<close>

text \<open>
  Every entry point settles the hello timers first, collects flushes and emissions of its own, and
  finishes the pending Root deadlines when it returns, on every path (a \<^verbatim>\<open>defer\<close>).
\<close>

definition api :: "time \<Rightarrow> (stp_layer \<Rightarrow> stp_layer) \<Rightarrow> stp_layer \<Rightarrow> effects \<times> stp_layer" where
  "api now body l =
     (let l1 = settleHelloTimers now (l\<lparr>l_flushes := [], l_emissions := []\<rparr>);
          l2 = body l1
      in (\<lparr>fx_Emissions = l_emissions l2, fx_Flush = l_flushes l2, fx_Changed = []\<rparr>,
          finishRecentRootDeadlines now l2))"

text \<open>\<^verbatim>\<open>flushes = append(flushes, FlushTarget{Port: port})\<close>.\<close>

definition append_flush :: "string \<Rightarrow> stp_layer \<Rightarrow> stp_layer" where
  "append_flush port l = l\<lparr>l_flushes := l_flushes l @ [\<lparr>ft_Port = port, ft_FIDs = []\<rparr>]\<rparr>"

section \<open>Migration check\<close>

definition mcheck_link :: "time \<Rightarrow> string \<Rightarrow> stp_layer \<Rightarrow> stp_layer" where
  "mcheck_link now port l =
     (let l1 = upd_link port (\<lambda>k. k\<lparr>k_sendRSTP := True, k_mdelayWhile := now + migrateTime\<rparr>) l;
          p = port_at l1 cistID port; link = link_at l1 port
      in if has_port l1 cistID port \<and> p_proposing p \<and> p_state p = StateDiscarding \<and>
            a_AutoEdge (p_cfg p) \<and> \<not> k_edge link \<and> k_edgeDelayWhile link < now
         then upd_link port (\<lambda>k. k\<lparr>k_edgeDelayWhile := now\<rparr>) l1 else l1)"

definition mcheck_body :: "time \<Rightarrow> string \<Rightarrow> stp_layer \<Rightarrow> stp_layer" where
  "mcheck_body now port l =
     (if map_of (l_links l) port = None \<or> \<not> k_up (link_at l port) then l
      else
        let l1 = recomputeAll now (mcheck_link now port l);
            l2 = (if has_port l1 cistID port \<and> p_role (port_at l1 cistID port) = RoleDesignated \<and>
                     k_up (link_at l1 port)
                  then requestNewInfo cistID port l1 else l1)
        in transmit now l2)"

definition Mcheck :: "time \<Rightarrow> string \<Rightarrow> stp_layer \<Rightarrow> effects \<times> stp_layer" where
  "Mcheck now port = api now (mcheck_body now port)"

section \<open>Link transitions\<close>

definition down_port :: "time \<Rightarrow> string \<Rightarrow> tree_id \<Rightarrow> stp_layer \<Rightarrow> stp_layer" where
  "down_port now port i =
     upd_port i port (\<lambda>p.
       (recordRoleChange (p_role p) now (p\<lparr>p_role := RoleDisabled\<rparr>))
         \<lparr>p_state := StateDiscarding, p_rcvInfoValid := False, p_agreed := False, p_tcAck := False,
          p_proposing := False, p_fwdDelayTimer := 0, p_pvidInconsistent := False,
          p_loopInconsistent := False\<rparr>)"

definition deactivate_on :: "string \<Rightarrow> tree_id \<Rightarrow> stp_layer \<Rightarrow> stp_layer" where
  "deactivate_on port i l = (if has_port l i port then deactivatePort i port l else l)"

definition link_down :: "time \<Rightarrow> string \<Rightarrow> stp_layer \<Rightarrow> stp_layer" where
  "link_down now port l =
     (if \<not> k_up (link_at l port) then l
      else
        let l1 = upd_link port (\<lambda>k. k\<lparr>k_up := False, k_bpduGuardDisabled := False,
                   k_pvstBoundary := False, k_edgeDelayWhile := 0, k_mdelayWhile := 0\<rparr>) l;
            l2 = resetTransmit port l1;
            l3 = fold (down_port now port) (l_treeOrder l2) l2;
            l4 = append_flush port l3;
            l5 = fold (deactivate_on port) (l_treeOrder l4) l4
        in recomputeAll now l5)"

text \<open>A speed change on a link that keeps its handshake.\<close>

definition reprice_port :: "u32 \<Rightarrow> string \<Rightarrow> tree_id \<Rightarrow> stp_layer \<Rightarrow> stp_layer" where
  "reprice_port linkCost port i =
     upd_port i port (\<lambda>p. if \<not> p_pathCostFixed p then p\<lparr>p_pathCost := linkCost\<rparr> else p)"

text \<open>The loop over the trees of a port that (re)starts its handshake.\<close>

definition restart_port :: "time \<Rightarrow> u32 \<Rightarrow> string \<Rightarrow> tree_id \<Rightarrow> stp_layer \<Rightarrow> stp_layer" where
  "restart_port now linkCost port i l =
     (if \<not> has_port l i port then l
      else
        let link = link_at l port;
            proposing = (k_pointToPoint link \<and> \<not> k_edge link \<and> k_sendRSTP link);
            l1 = deactivatePort i port l;
            l2 = upd_port i port (\<lambda>p.
                   let p = p\<lparr>p_fwdDelayTimer := 0\<rparr>;
                       p = (if \<not> p_pathCostFixed p then p\<lparr>p_pathCost := linkCost\<rparr> else p)
                   in (recordRoleChange (p_role p) now (p\<lparr>p_role := RoleDesignated\<rparr>))
                        \<lparr>p_agreed := False, p_designatedVecSet := False, p_proposing := proposing\<rparr>) l1;
            l3 = (if i = cistID \<and> proposing
                  then upd_link port (\<lambda>k. k\<lparr>k_edgeDelayWhile := now + edgeDelay l2 cistID link\<rparr>) l2
                  else l2)
        in if k_edge link then
             upd_port i port (\<lambda>p. p\<lparr>p_state := StateForwarding,
                                    p_forwardTransitions := p_forwardTransitions p + 1\<rparr>) l3
           else
             (let l4 = upd_port i port (\<lambda>p. p\<lparr>p_state := StateDiscarding\<rparr>) l3
              in if \<not> k_pointToPoint link
                 then upd_port i port (\<lambda>p. p\<lparr>p_fwdDelayTimer := now + fwdDelay_of l4 i\<rparr>) l4
                 else l4))"

definition link_p2p :: "port_state \<Rightarrow> bool \<Rightarrow> bool" where
  "link_p2p p pointToPoint =
     (case a_PointToPoint (p_cfg p) of
        P2PForceTrue \<Rightarrow> True | P2PForceFalse \<Rightarrow> False | _ \<Rightarrow> pointToPoint)"

definition link_cost :: "port_state \<Rightarrow> u64 \<Rightarrow> u32" where
  "link_cost p speedBPS =
     (if a_PathCost (p_cfg p) = 0 then defaultPathCost speedBPS else a_PathCost (p_cfg p))"

definition link_up :: "time \<Rightarrow> string \<Rightarrow> bool \<Rightarrow> u32 \<Rightarrow> stp_layer \<Rightarrow> stp_layer" where
  "link_up now port p2p linkCost l =
     (let link = link_at l port in
      if k_up link \<and> k_pointToPoint link = p2p then
        (if k_linkPathCost link \<noteq> linkCost then
           (let l1 = upd_link port (\<lambda>k. k\<lparr>k_linkPathCost := linkCost\<rparr>) l;
                l2 = fold (reprice_port linkCost port) (l_treeOrder l1) l1
            in recomputeAll now l2)
         else l)
      else
        let l1 = (if k_up link then
                    fold (\<lambda>i. upd_tx i port (\<lambda>x. x\<lparr>x_newInfo := True, x_newInfoMsti := True\<rparr>))
                      (l_treeOrder l) l
                  else l);
            l2 = upd_link port (\<lambda>k. k\<lparr>k_linkPathCost := linkCost, k_up := True,
                   k_pointToPoint := p2p, k_sendRSTP := True, k_mdelayWhile := now + migrateTime,
                   k_edge := k_adminEdge k, k_edgeDelayWhile := 0\<rparr>) l1;
            l3 = fold (restart_port now linkCost port) (l_treeOrder l2) l2
        in recomputeAll now (armHelloTimers now l3))"

definition linkChange_body :: "time \<Rightarrow> string \<Rightarrow> bool \<Rightarrow> bool \<Rightarrow> u64 \<Rightarrow> stp_layer \<Rightarrow> stp_layer" where
  "linkChange_body now port up pointToPoint speedBPS l =
     (if \<not> has_port l cistID port then l
      else
        let p = port_at l cistID port;
            l1 = armHelloTimers now l;
            l2 = (if \<not> up then link_down now port l1
                  else link_up now port (link_p2p p pointToPoint) (link_cost p speedBPS) l1)
        in transmit now l2)"

definition LinkChange ::
    "time \<Rightarrow> string \<Rightarrow> bool \<Rightarrow> bool \<Rightarrow> u64 \<Rightarrow> stp_layer \<Rightarrow> effects \<times> stp_layer" where
  "LinkChange now port up pointToPoint speedBPS =
     api now (linkChange_body now port up pointToPoint speedBPS)"

section \<open>The link half of a receive\<close>

definition guard_port :: "string \<Rightarrow> tree_id \<Rightarrow> stp_layer \<Rightarrow> stp_layer" where
  "guard_port port i =
     upd_port i port (\<lambda>p. p\<lparr>p_rcvInfoValid := False, p_agreed := False, p_tcAck := False,
       p_proposing := False, p_fwdDelayTimer := 0\<rparr>)"

definition bpdu_guard :: "time \<Rightarrow> string \<Rightarrow> stp_layer \<Rightarrow> stp_layer" where
  "bpdu_guard now port l =
     (let l1 = upd_link port (\<lambda>k. k\<lparr>k_bpduGuardDisabled := True\<rparr>) l;
          l2 = resetTransmit port l1;
          l3 = fold (guard_port port) (l_treeOrder l2) l2
      in recomputeAll now (append_flush port l3))"

definition migrate :: "time \<Rightarrow> bpdu \<Rightarrow> link_record \<Rightarrow> link_record" where
  "migrate now b k =
     (if (b_Type b = TypeConfiguration \<or> b_Type b = TypeTopologyChangeNotification) \<and>
         k_sendRSTP k \<and> \<not> now < k_mdelayWhile k
      then k\<lparr>k_sendRSTP := False, k_mdelayWhile := now + migrateTime\<rparr>
      else if b_Type b = TypeRapid \<and> \<not> k_sendRSTP k \<and> \<not> now < k_mdelayWhile k
      then k\<lparr>k_sendRSTP := True, k_mdelayWhile := now + migrateTime\<rparr>
      else k)"

definition lose_edge :: "string \<Rightarrow> tree_id \<Rightarrow> stp_layer \<Rightarrow> stp_layer" where
  "lose_edge port i l =
     (if \<not> has_port l i port then l
      else
        let link = link_at l port in
        upd_port i port (\<lambda>p. p\<lparr>p_state := StateDiscarding, p_agreed := False,
            p_fwdDelayTimer := 0, p_proposing := (k_pointToPoint link \<and> k_sendRSTP link)\<rparr>)
          (deactivatePort i port l))"

definition receiveLink :: "time \<Rightarrow> string \<Rightarrow> bpdu \<Rightarrow> stp_layer \<Rightarrow> bool \<times> stp_layer" where
  "receiveLink now port b l =
     (let p = port_at l cistID port; link = link_at l port in
      if a_BPDUGuard (p_cfg p) \<and> \<not> k_bpduGuardDisabled link then (True, bpdu_guard now port l)
      else if k_bpduGuardDisabled link then (True, l)
      else
        let l1 = upd_link port (migrate now b) l;
            wasAutoEdge = (k_edge (link_at l1 port) \<and> \<not> k_adminEdge (link_at l1 port));
            l2 = upd_link port (\<lambda>k. k\<lparr>k_edge := k_adminEdge k\<rparr>) l1;
            l3 = upd_link port (\<lambda>k. k\<lparr>k_edgeDelayWhile := now + edgeDelay l2 cistID k\<rparr>) l2
        in (False, if wasAutoEdge then fold (lose_edge port) (l_treeOrder l3) l3 else l3))"

section \<open>Shape\<close>

lemma shape_append_flush [simp]: "shape (append_flush n l) = shape l"
  by (simp add: append_flush_def)

lemma shape_mcheck_body [simp]: "shape (mcheck_body now port l) = shape l"
  by (simp add: mcheck_body_def mcheck_link_def Let_def)

lemma shape_link_down [simp]: "shape (link_down now port l) = shape l"
proof -
  have "shape (down_port now port i l) = shape l" for i l
    by (simp add: down_port_def)
  moreover have "shape (deactivate_on port i l) = shape l" for i l
    by (simp add: deactivate_on_def)
  ultimately show ?thesis
    by (simp add: link_down_def Let_def shape_fold)
qed

lemma shape_restart_port [simp]: "shape (restart_port now c port i l) = shape l"
  by (simp add: restart_port_def Let_def)

lemma shape_link_up [simp]: "shape (link_up now port p2p c l) = shape l"
proof -
  have "shape (reprice_port c port i l) = shape l" for i l
    by (simp add: reprice_port_def)
  then show ?thesis
    by (simp add: link_up_def Let_def shape_fold)
qed

lemma shape_linkChange_body [simp]: "shape (linkChange_body now port up p2p s l) = shape l"
  by (simp add: linkChange_body_def Let_def)

lemma shape_bpdu_guard [simp]: "shape (bpdu_guard now port l) = shape l"
proof -
  have "shape (guard_port port i l) = shape l" for i l
    by (simp add: guard_port_def)
  then show ?thesis
    by (simp add: bpdu_guard_def Let_def shape_fold)
qed

lemma shape_receiveLink [simp]: "shape (snd (receiveLink now port b l)) = shape l"
proof -
  have "shape (lose_edge port i l) = shape l" for i l
    by (simp add: lose_edge_def Let_def)
  then show ?thesis
    by (simp add: receiveLink_def Let_def shape_fold)
qed

lemma shape_api:
  assumes "\<And>l. shape (body l) = shape l"
  shows "shape (snd (api now body l)) = shape l"
  by (simp add: api_def Let_def assms)

end
