(* ===== verification/Stp_Receive.thy ===== *)
theory Stp_Receive
  imports Stp_Link
begin

text \<open>
  Receiving, \<^verbatim>\<open>stp/receive.go\<close>: how a BPDU is judged and stored, the agreement and topology
  change flags it carries, the MSTI records of an internal one, and the proposal handshake.
\<close>

section \<open>Synchronisation\<close>

text \<open>The MSTIs of a boundary port mirror the CIST's cut.\<close>

definition mirror_sync :: "string \<Rightarrow> bool \<Rightarrow> tree_id \<Rightarrow> stp_layer \<Rightarrow> stp_layer" where
  "mirror_sync name fresh i l =
     (if i = cistID \<or> \<not> has_port l i name then l
      else
        let otherP = port_at l cistID name;
            l1 = upd_port i name (\<lambda>p. p\<lparr>p_agreed := p_agreed otherP,
                                        p_proposing := p_proposing otherP\<rparr>) l;
            l2 = (if p_proposing otherP \<and> fresh then requestNewInfo i name l1 else l1)
        in upd_port i name (\<lambda>p. if p_state p \<noteq> p_state otherP
                                then p\<lparr>p_state := p_state otherP, p_fwdDelayTimer := 0\<rparr> else p) l2)"

definition sync_port :: "tree_id \<Rightarrow> string \<Rightarrow> time \<Rightarrow> string \<Rightarrow> stp_layer \<Rightarrow> stp_layer" where
  "sync_port i rootPort now name l =
     (let p = port_at l i name; link = link_at l name in
      if name = rootPort \<or> \<not> has_port l i name \<or> p_role p \<noteq> RoleDesignated \<or> k_edge link \<or>
         (p_synced p \<and> p_state p \<noteq> StateDiscarding)
      then l
      else
        let fresh = (\<not> p_proposing p \<or> p_state p \<noteq> StateDiscarding);
            proposing = (k_pointToPoint link \<and> k_sendRSTP link);
            l1 = upd_port i name (\<lambda>p. p\<lparr>p_agreed := False\<rparr>) l;
            l2 = (if boundary_rule l i name \<and> \<not> p_synced p
                  then upd_port i name (\<lambda>p. p\<lparr>p_boundarySyncState := StateDiscarding,
                         p_fwdDelayTimer := now + fwdDelay_of l i\<rparr>) l1
                  else l1);
            l3 = upd_port i name (\<lambda>p. p\<lparr>p_synced := True, p_proposing := proposing\<rparr>) l2;
            l4 = (if proposing \<and> fresh then requestNewInfo i name l3 else l3);
            l5 = (if i = cistID \<and> proposing \<and> fresh
                  then upd_link name (\<lambda>k. k\<lparr>k_edgeDelayWhile := now + edgeDelay l4 cistID link\<rparr>) l4
                  else l4);
            l6 = upd_port i name (\<lambda>p. p\<lparr>p_state := StateDiscarding\<rparr>) l5
        in if i = cistID \<and> l_mst l \<noteq> None \<and> boundary l name
           then fold (mirror_sync name fresh) (l_treeOrder l6) l6 else l6)"

definition syncTree :: "tree_id \<Rightarrow> string \<Rightarrow> time \<Rightarrow> stp_layer \<Rightarrow> stp_layer" where
  "syncTree i rootPort now l = fold (sync_port i rootPort now) (l_portNames l) l"

definition handleProposal :: "tree_id \<Rightarrow> string \<Rightarrow> time \<Rightarrow> stp_layer \<Rightarrow> stp_layer" where
  "handleProposal i name now l = syncTree i name now l"

section \<open>Agreements\<close>

definition agreement_of :: "priority_vector \<Rightarrow> priority_vector \<Rightarrow> role \<Rightarrow> bool" where
  "agreement_of incoming portVec r =
     (case r of
        RoleDesignated \<Rightarrow> compareVectors incoming portVec \<le> 0
      | RoleRoot \<Rightarrow> compareVectors incoming portVec \<ge> 0
      | RoleAlternate \<Rightarrow> compareVectors incoming portVec \<ge> 0
      | RoleBackup \<Rightarrow> compareVectors incoming portVec \<ge> 0
      | _ \<Rightarrow> False)"

definition recordAgreement ::
    "tree_id \<Rightarrow> string \<Rightarrow> priority_vector \<Rightarrow> role \<Rightarrow> bool \<Rightarrow> stp_layer \<Rightarrow> stp_layer" where
  "recordAgreement i name incoming r agreement l =
     (let link = link_at l name in
      if \<not> k_pointToPoint link \<or> \<not> k_sendRSTP link \<or> \<not> agreement
      then upd_port i name (\<lambda>p. p\<lparr>p_agreed := False\<rparr>) l
      else
        let portVec = designatedVector (tree_at l i) (port_at l i name) (k_external link);
            agreed = agreement_of incoming portVec r
        in upd_port i name (\<lambda>p. let p = p\<lparr>p_agreed := agreed\<rparr> in
             if agreed then p\<lparr>p_proposing := False\<rparr> else p) l)"

definition cistPortVector :: "stp_layer \<Rightarrow> string \<Rightarrow> priority_vector" where
  "cistPortVector l name =
     (let cist = tree_at l cistID; p = port_at l cistID name; ext = k_external (link_at l name) in
      if p_rcvInfoValid p then rawVector cist p ext
      else if p_role p = RoleDesignated then designatedVector cist p ext
      else rawVector cist p ext)"

section \<open>MSTI records\<close>

definition rcv_hello :: "bpdu \<Rightarrow> duration" where
  "rcv_hello b = (if b_HelloTime b < second then second else b_HelloTime b)"

definition cist_consistent :: "bpdu \<Rightarrow> priority_vector \<Rightarrow> bool" where
  "cist_consistent b held \<longleftrightarrow>
     b_RootID b = v_rootID held \<and> b_RootPathCost b = v_externalRootPathCost held \<and>
     b_RegionalRootID b = v_regionalRootID held"

text \<open>The sender's bridge and port identifier on the instance, and the vector of the record.\<close>

definition rec_bridge :: "bpdu \<Rightarrow> msti_record \<Rightarrow> bridge_id" where
  "rec_bridge b rec =
     BridgeID (push_bit 8 (ucast (r_BridgePriority rec)) OR r_MSTID rec) (bid_Address (b_BridgeID b))"

definition rec_portID :: "bpdu \<Rightarrow> msti_record \<Rightarrow> u16" where
  "rec_portID b rec =
     (push_bit 8 (ucast (r_PortPriority rec AND 0xF0)) OR (b_PortID b AND 0x0FFF))"

definition rec_vector :: "bpdu \<Rightarrow> msti_record \<Rightarrow> priority_vector" where
  "rec_vector b rec =
     zero_vector\<lparr>v_rootID := r_RegionalRootID rec, v_regionalRootID := r_RegionalRootID rec,
       v_internalRootPathCost := r_InternalRootPathCost rec, v_bridgeID := rec_bridge b rec,
       v_portID := rec_portID b rec\<rparr>"

definition rec_flags :: "msti_record \<Rightarrow> bpdu" where
  "rec_flags rec = zero_bpdu\<lparr>b_Flags := r_Flags rec\<rparr>"

text \<open>One record: the accumulator is the list of instances whose proposal was stored.\<close>

definition receive_record ::
    "time \<Rightarrow> string \<Rightarrow> bpdu \<Rightarrow> priority_vector \<Rightarrow> msti_record \<Rightarrow> tree_id list \<times> stp_layer \<Rightarrow>
     tree_id list \<times> stp_layer" where
  "receive_record now port b held rec = (\<lambda>(proposals, l).
     let i = r_MSTID rec; flags = rec_flags rec in
     if map_of (l_trees l) i = None \<or> \<not> has_port l i port then (proposals, l)
     else
       let mp = port_at l i port;
           l1 = (if TopologyChange flags \<and> \<not> a_RestrictedTCN (p_cfg mp) \<and> p_tcActive mp
                 then propagateTopologyChange i port now l else l);
           incoming = rec_vector b rec;
           sameSource = (p_rcvInfoValid mp \<and> p_rcvBridgeID mp = rec_bridge b rec \<and>
                         p_rcvPortID mp = rec_portID b rec);
           isSuperior = (\<not> p_rcvInfoValid mp \<or>
             compareVectors incoming (rawVector (tree_at l i) mp (k_external (link_at l port))) < 0);
           agree = (if cist_consistent b held
                    then recordAgreement i port incoming (bpdu_Role flags) (Agreement flags)
                    else upd_port i port (\<lambda>p. p\<lparr>p_agreed := False\<rparr>))
       in if \<not> sameSource \<and> \<not> isSuperior then (proposals, agree l1)
          else if r_RemainingHops rec \<le> 1 then (proposals, l1)
          else
            let l2 = upd_port i port (\<lambda>p. p\<lparr>p_rcvInfoValid := True,
                       p_rcvRootID := r_RegionalRootID rec,
                       p_rcvRootPathCost := r_InternalRootPathCost rec,
                       p_rcvBridgeID := rec_bridge b rec, p_rcvPortID := rec_portID b rec,
                       p_rcvRemainingHops := r_RemainingHops rec,
                       p_rcvHelloTime := rcv_hello b, p_rcvTime := now\<rparr>) l1
            in (if Proposal flags \<and> bpdu_Role flags = RoleDesignated
                then proposals @ [i] else proposals, agree l2))"

definition receiveMSTIs ::
    "time \<Rightarrow> string \<Rightarrow> bpdu \<Rightarrow> priority_vector \<Rightarrow> stp_layer \<Rightarrow> tree_id list \<times> stp_layer" where
  "receiveMSTIs now port b held l = fold (receive_record now port b held) (b_MSTIs b) ([], l)"

section \<open>One BPDU on one tree\<close>

definition recordReceivedBPDU :: "bpdu \<Rightarrow> bool \<Rightarrow> time \<Rightarrow> port_state \<Rightarrow> port_state" where
  "recordReceivedBPDU b internal now p =
     (let p = p\<lparr>p_rcvInfoValid := True, p_rcvRootID := b_RootID b,
                p_rcvRootPathCost := b_RootPathCost b, p_rcvBridgeID := b_BridgeID b,
                p_rcvPortID := b_PortID b, p_rcvMessageAge := b_MessageAge b,
                p_rcvMaxAge := b_MaxAge b, p_rcvHelloTime := rcv_hello b,
                p_rcvForwardDelay := b_ForwardDelay b, p_rcvTime := now\<rparr>
      in if internal then
           p\<lparr>p_rcvRegionalRootID := b_RegionalRootID b,
             p_rcvInternalRootPathCost := b_InternalRootPathCost b,
             p_rcvRemainingHops := b_RemainingHops b\<rparr>
         else
           p\<lparr>p_rcvRegionalRootID := zero_bid, p_rcvInternalRootPathCost := 0,
             p_rcvRemainingHops := 0\<rparr>)"

text \<open>The MSTI ports of an external link: \<open>f\<close> on each of them, the loop three places share.\<close>

definition on_mstis :: "(tree_id \<Rightarrow> stp_layer \<Rightarrow> stp_layer) \<Rightarrow> string \<Rightarrow> stp_layer \<Rightarrow> stp_layer" where
  "on_mstis f name l =
     fold (\<lambda>i l. if i = cistID \<or> \<not> has_port l i name then l else f i l) (l_treeOrder l) l"

definition mirror_agreement :: "tree_id \<Rightarrow> string \<Rightarrow> stp_layer \<Rightarrow> stp_layer" where
  "mirror_agreement i name l =
     (if l_mst l \<noteq> None \<and> k_external (link_at l name) then
        (let agreed = p_agreed (port_at l i name) in
         on_mstis (\<lambda>j. upd_port j name (\<lambda>p. let p = p\<lparr>p_agreed := agreed\<rparr> in
           if agreed then p\<lparr>p_proposing := False\<rparr> else p)) name l)
      else l)"

definition propagateReceivedTC :: "tree_id \<Rightarrow> string \<Rightarrow> bpdu \<Rightarrow> time \<Rightarrow> stp_layer \<Rightarrow> stp_layer" where
  "propagateReceivedTC i name b now l =
     (let l1 = (if b_Type b = TypeConfiguration \<and> TopologyChangeAck b \<and>
                   p_role (port_at l i name) = RoleRoot
                then upd_port i name (\<lambda>p. p\<lparr>p_tcWhile := 0\<rparr>) l else l);
          p = port_at l1 i name
      in if TopologyChange b \<and> \<not> a_RestrictedTCN (p_cfg p) \<and> p_tcActive p then
           (let l2 = propagateTopologyChange i name now l1
            in if l_mst l \<noteq> None \<and> k_external (link_at l name)
               then on_mstis (\<lambda>j l. if p_tcActive (port_at l j name)
                                    then propagateTopologyChange j name now l else l) name l2
               else l2)
         else l1)"

definition answer_tree ::
    "string \<Rightarrow> time \<Rightarrow> tree_id \<Rightarrow> tree_id list \<times> stp_layer \<Rightarrow> tree_id list \<times> stp_layer" where
  "answer_tree name now j = (\<lambda>(answered, l).
     if has_port l j name \<and>
        (p_role (port_at l j name) = RoleRoot \<or> p_role (port_at l j name) = RoleAlternate)
     then (answered @ [j], handleProposal j name now l) else (answered, l))"

definition answerProposals ::
    "tree_id \<Rightarrow> string \<Rightarrow> bpdu \<Rightarrow> tree_id list \<Rightarrow> time \<Rightarrow> stp_layer \<Rightarrow> tree_id list \<times> stp_layer" where
  "answerProposals i name b mstiProposals now l =
     (let r = p_role (port_at l i name);
          s1 = (if Proposal b \<and> bpdu_Role b = RoleDesignated \<and> (r = RoleRoot \<or> r = RoleAlternate) then
                  (let l1 = handleProposal i name now l
                   in if l_mst l \<noteq> None \<and> k_external (link_at l name)
                      then fold (answer_tree name now) (filter (\<lambda>j. j \<noteq> cistID) (l_treeOrder l1)) ([i], l1)
                      else ([i], l1))
                else ([], l))
      in fold (answer_tree name now) mstiProposals s1)"

definition is_internal :: "stp_layer \<Rightarrow> bpdu \<Rightarrow> bool" where
  "is_internal l b \<longleftrightarrow> l_mst l \<noteq> None \<and> b_ConfigID b \<noteq> None \<and> b_ConfigID b = l_configID l"

text \<open>A BPDU that has reached its bound, in hops or in message age, is not stored.\<close>

definition too_old :: "bpdu \<Rightarrow> bool \<Rightarrow> bool" where
  "too_old b internal =
     (if internal then b_RemainingHops b \<le> 1 else b_MessageAge b + second > b_MaxAge b)"

definition to_store :: "stp_layer \<Rightarrow> tree_id \<Rightarrow> string \<Rightarrow> bpdu \<Rightarrow> bool" where
  "to_store l i name b =
     (let t = tree_at l i; p = port_at l i name;
          incoming = receivedVector t b (is_internal l b);
          sameSource = (p_rcvInfoValid p \<and> b_BridgeID b = p_rcvBridgeID p \<and> b_PortID b = p_rcvPortID p);
          isSuperior = (if \<not> p_rcvInfoValid p then True
                        else compareVectors incoming (rawVector t p (k_external (link_at l name))) < 0)
      in sameSource \<or> isSuperior)"

text \<open>
  First segment of \<^verbatim>\<open>applyBPDU\<close>: store what is to be stored and judge the agreement, with the
  received max age and forward delay put back afterwards.
\<close>

definition store_segment :: "tree_id \<Rightarrow> string \<Rightarrow> time \<Rightarrow> bpdu \<Rightarrow> stp_layer \<Rightarrow> stp_layer" where
  "store_segment i name now b l =
     (let internal = is_internal l b;
          stored = to_store l i name b;
          incoming = receivedVector (tree_at l i) b internal;
          p = port_at l i name;
          l1 = (if stored then
                  upd_port i name (recordReceivedBPDU b internal now)
                    (if i = cistID then upd_link name (\<lambda>k. k\<lparr>k_external := \<not> internal\<rparr>) l else l)
                else l);
          l2 = recordAgreement i name incoming (bpdu_Role b) (Agreement b) l1
      in if stored then
           upd_port i name (\<lambda>q. q\<lparr>p_rcvMaxAge := p_rcvMaxAge p,
             p_rcvForwardDelay := p_rcvForwardDelay p\<rparr>) l2
         else l2)"

text \<open>
  Second segment, of an internal BPDU: the CIST's roles are selected before the MSTI records are
  judged, then its root is put back for the topology change calls.
\<close>

definition internal_segment ::
    "tree_id \<Rightarrow> string \<Rightarrow> time \<Rightarrow> bpdu \<Rightarrow> bool \<Rightarrow> stp_layer \<Rightarrow> tree_id list \<times> stp_layer" where
  "internal_segment i name now b stored l =
     (if \<not> is_internal l b then ([], l)
      else
        let old = tree_at l i;
            select = (i = cistID \<and> stored);
            l1 = (if select then assignRoles i now (electRoot i now l) else l);
            p = port_at l1 i name;
            held = (if p_role p = RoleDesignated
                    then designatedVector (tree_at l1 i) p (k_external (link_at l1 name))
                    else cistPortVector l1 name);
            l2 = (if select then
                    upd_tree i (\<lambda>t. t\<lparr>t_rootID := t_rootID old,
                      t_rootPathCost := t_rootPathCost old, t_rootPort := t_rootPort old\<rparr>) l1
                  else l1)
        in receiveMSTIs now name b held l2)"

text \<open>Last segment: answer the proposals, and object to inferior information.\<close>

definition answer_segment ::
    "tree_id \<Rightarrow> string \<Rightarrow> time \<Rightarrow> bpdu \<Rightarrow> priority_vector \<Rightarrow> tree_id list \<Rightarrow> stp_layer \<Rightarrow> stp_layer" where
  "answer_segment i name now b incoming mstiProposals l =
     (let (answered, l1) = answerProposals i name b mstiProposals now l;
          l2 = fold (\<lambda>j. requestNewInfo j name) answered l1
      in if answered = [] \<and> p_role (port_at l2 i name) = RoleDesignated \<and> \<not> Agreement b \<and>
            compareVectors incoming
              (designatedVector (tree_at l2 i) (port_at l2 i name) (k_external (link_at l2 name))) > 0
         then requestNewInfo i name l2 else l2)"

definition applyBPDU :: "tree_id \<Rightarrow> string \<Rightarrow> time \<Rightarrow> bpdu \<Rightarrow> stp_layer \<Rightarrow> stp_layer" where
  "applyBPDU i name now b l =
     (let internal = is_internal l b in
      if too_old b internal then recomputeAll now l
      else
        let stored = to_store l i name b;
            incoming = receivedVector (tree_at l i) b internal;
            l1 = store_segment i name now b l;
            (mstiProposals, l2) = internal_segment i name now b stored l1;
            l3 = mirror_agreement i name l2;
            l4 = propagateReceivedTC i name b now l3;
            l5 = (if stored then
                    upd_port i name (\<lambda>p. p\<lparr>p_rcvMaxAge := b_MaxAge b,
                      p_rcvForwardDelay := b_ForwardDelay b\<rparr>) l4
                  else l4);
            l6 = recomputeAll now l5
        in answer_segment i name now b incoming mstiProposals l6)"

section \<open>Receiving an IEEE-addressed BPDU\<close>

definition receive_tcn :: "time \<Rightarrow> string \<Rightarrow> stp_layer \<Rightarrow> stp_layer" where
  "receive_tcn now port l =
     (let p = port_at l cistID port in
      if \<not> p_tcActive p then l
      else
        let l1 = (if p_role p = RoleDesignated
                  then upd_port cistID port (\<lambda>p. p\<lparr>p_tcAck := True\<rparr>) l else l)
        in if a_RestrictedTCN (p_cfg p) then l1
           else
             let l2 = initiateTopologyChange cistID port now l1
             in if l_mst l \<noteq> None
                then on_mstis (\<lambda>j l. if p_tcActive (port_at l j port)
                                     then initiateTopologyChange j port now l else l) port l2
                else l2)"

definition receive_inner :: "time \<Rightarrow> string \<Rightarrow> bpdu \<Rightarrow> stp_layer \<Rightarrow> stp_layer" where
  "receive_inner now port b l =
     (let l1 = (if l_pvst l \<noteq> None \<and> b_ConfigID b \<noteq> None
                then upd_link port (\<lambda>k. k\<lparr>k_pvstBoundary := True\<rparr>) l else l);
          (finished, l2) = receiveLink now port b l1
      in if finished then l2
         else
           let l3 = upd_port cistID port (\<lambda>p. p\<lparr>p_loopInconsistent := False\<rparr>) l2
           in if b_Type b = TypeTopologyChangeNotification
              then recomputeAll now (receive_tcn now port l3)
              else applyBPDU cistID port now b l3)"

definition receive_body :: "time \<Rightarrow> string \<Rightarrow> bpdu \<Rightarrow> stp_layer \<Rightarrow> stp_layer" where
  "receive_body now port b l =
     (if \<not> has_port l cistID port \<or> map_of (l_links l) port = None \<or> \<not> k_up (link_at l port) then l
      else
        let l1 = upd_link port (\<lambda>k. k\<lparr>k_rxBPDUs := k_rxBPDUs k + 1\<rparr>) l;
            l2 = armHelloTimers now l1
        in transmit now (receive_inner now port b l2))"

definition Receive :: "time \<Rightarrow> string \<Rightarrow> bpdu \<Rightarrow> stp_layer \<Rightarrow> effects \<times> stp_layer" where
  "Receive now port b = api now (receive_body now port b)"

section \<open>Receiving an SSTP BPDU\<close>

record sstp_arrival =
  sa_ArrivalVID :: vlan_id
  sa_TLVVID :: vlan_id
  sa_Admitted :: bool

datatype sstp_outcome =
  SSTPApplied | SSTPGuarded | SSTPBoundary | SSTPNotAdmitted | SSTPUntrackedVLAN
| SSTPPVIDInconsistent | SSTPPortDown

definition sstp_tcn :: "tree_id \<Rightarrow> time \<Rightarrow> string \<Rightarrow> stp_layer \<Rightarrow> stp_layer" where
  "sstp_tcn i now port l =
     (let l0 = upd_port i port (\<lambda>p. p\<lparr>p_loopInconsistent := False\<rparr>) l; p = port_at l0 i port in
      if \<not> p_tcActive p then l0
      else
        let l1 = (if p_role p = RoleDesignated
                  then upd_port i port (\<lambda>p. p\<lparr>p_tcAck := True\<rparr>) l0 else l0)
        in if a_RestrictedTCN (p_cfg p) then l1 else initiateTopologyChange i port now l1)"

definition sstp_inner ::
    "time \<Rightarrow> string \<Rightarrow> sstp_arrival \<Rightarrow> bpdu \<Rightarrow> stp_layer \<Rightarrow> sstp_outcome \<times> stp_layer" where
  "sstp_inner now port arrival b l =
     (let (finished, l1) = receiveLink now port b l;
          l2 = (if l_pvst l1 = None
                then upd_link port (\<lambda>k. k\<lparr>k_pvstBoundary := True\<rparr>) l1 else l1)
      in if finished then (SSTPGuarded, l2)
         else
           let l3 = armHelloTimers now l2
           in if l_pvst l3 = None then (SSTPBoundary, recomputeAll now l3)
              else if \<not> sa_Admitted arrival then (SSTPNotAdmitted, recomputeAll now l3)
              else case treeFor l3 (sa_ArrivalVID arrival) of
                None \<Rightarrow> (SSTPUntrackedVLAN, recomputeAll now l3)
              | Some i \<Rightarrow>
                  if \<not> has_port l3 i port then (SSTPUntrackedVLAN, recomputeAll now l3)
                  else if b_Type b = TypeTopologyChangeNotification
                  then (SSTPApplied, recomputeAll now (sstp_tcn i now port l3))
                  else if sa_TLVVID arrival \<noteq> sa_ArrivalVID arrival
                  then (SSTPPVIDInconsistent,
                        recomputeAll now (upd_port i port (\<lambda>p. p\<lparr>p_pvidInconsistent := True\<rparr>) l3))
                  else (SSTPApplied,
                        applyBPDU i port now b
                          (upd_port i port (\<lambda>p. p\<lparr>p_pvidInconsistent := False,
                             p_loopInconsistent := False\<rparr>) l3)))"

definition sstp_outcome_of ::
    "time \<Rightarrow> string \<Rightarrow> sstp_arrival \<Rightarrow> bpdu \<Rightarrow> stp_layer \<Rightarrow> sstp_outcome \<times> stp_layer" where
  "sstp_outcome_of now port arrival b l =
     (if map_of (l_links l) port = None \<or> \<not> k_up (link_at l port) then (SSTPPortDown, l)
      else
        let l1 = upd_link port (\<lambda>k. k\<lparr>k_rxBPDUs := k_rxBPDUs k + 1\<rparr>) l;
            (outcome, l2) = sstp_inner now port arrival b l1
        in (outcome, transmit now l2))"

definition ReceiveSSTP ::
    "time \<Rightarrow> string \<Rightarrow> sstp_arrival \<Rightarrow> bpdu \<Rightarrow> stp_layer \<Rightarrow> (effects \<times> sstp_outcome) \<times> stp_layer" where
  "ReceiveSSTP now port arrival b l =
     (let l1 = settleHelloTimers now (l\<lparr>l_flushes := [], l_emissions := []\<rparr>);
          (outcome, _) = sstp_outcome_of now port arrival b l1;
          (fx, l2) = api now (\<lambda>l. snd (sstp_outcome_of now port arrival b l)) l
      in ((fx, outcome), l2))"

section \<open>Shape\<close>

lemma shape_mirror_sync [simp]: "shape (mirror_sync n f i l) = shape l"
  by (simp add: mirror_sync_def Let_def)

lemma shape_sync_port [simp]: "shape (sync_port i r now n l) = shape l"
  by (simp add: sync_port_def Let_def shape_fold)

lemma shape_handleProposal [simp]: "shape (handleProposal i n now l) = shape l"
  by (simp add: handleProposal_def syncTree_def shape_fold)

lemma shape_recordAgreement [simp]: "shape (recordAgreement i n v r a l) = shape l"
  by (simp add: recordAgreement_def Let_def)

lemma shape_on_mstis: "(\<And>i l. shape (f i l) = shape l) \<Longrightarrow> shape (on_mstis f n l) = shape l"
  by (simp add: on_mstis_def shape_fold)

lemma shape_receive_record [simp]: "shape (snd (receive_record now p b h r s)) = shape (snd s)"
  by (simp add: receive_record_def Let_def split: prod.splits)

lemma shape_receiveMSTIs [simp]: "shape (snd (receiveMSTIs now p b h l)) = shape l"
  unfolding receiveMSTIs_def using fold_const [where g = "\<lambda>s. shape (snd s)"]
  by (metis (no_types, lifting) shape_receive_record snd_conv)

lemma recordReceivedBPDU_frame [simp]:
  "p_name (recordReceivedBPDU b i now p) = p_name p" "p_cfg (recordReceivedBPDU b i now p) = p_cfg p"
  "p_portID (recordReceivedBPDU b i now p) = p_portID p"
  "p_pathCostFixed (recordReceivedBPDU b i now p) = p_pathCostFixed p"
  "p_role (recordReceivedBPDU b i now p) = p_role p"
  "p_state (recordReceivedBPDU b i now p) = p_state p"
  by (simp_all add: recordReceivedBPDU_def Let_def)

lemma shape_mirror_agreement [simp]: "shape (mirror_agreement i n l) = shape l"
  by (simp add: mirror_agreement_def Let_def shape_on_mstis)

lemma shape_propagateReceivedTC [simp]: "shape (propagateReceivedTC i n b now l) = shape l"
  by (simp add: propagateReceivedTC_def Let_def shape_on_mstis)

lemma shape_answer_tree [simp]: "shape (snd (answer_tree n now j s)) = shape (snd s)"
  by (simp add: answer_tree_def split: prod.splits)

lemma shape_answer_fold [simp]: "shape (snd (fold (answer_tree n now) js s)) = shape (snd s)"
  by (rule fold_const [where g = "\<lambda>s. shape (snd s)"]) simp

lemma shape_answerProposals [simp]: "shape (snd (answerProposals i n b ps now l)) = shape l"
  by (simp add: answerProposals_def Let_def)

lemma shape_store_segment [simp]: "shape (store_segment i n now b l) = shape l"
  by (simp add: store_segment_def Let_def)

lemma shape_internal_segment [simp]: "shape (snd (internal_segment i n now b s l)) = shape l"
  by (simp add: internal_segment_def Let_def erase_tree_eq)

lemma shape_answer_segment [simp]: "shape (answer_segment i n now b v ps l) = shape l"
  by (simp add: answer_segment_def Let_def shape_fold case_prod_beta)

lemma shape_applyBPDU [simp]: "shape (applyBPDU i n now b l) = shape l"
  by (simp add: applyBPDU_def Let_def case_prod_beta)

lemma shape_receive_tcn [simp]: "shape (receive_tcn now p l) = shape l"
  by (simp add: receive_tcn_def Let_def shape_on_mstis)

lemma shape_receive_inner [simp]: "shape (receive_inner now p b l) = shape l"
  by (simp add: receive_inner_def Let_def case_prod_beta)

lemma shape_receive_body [simp]: "shape (receive_body now p b l) = shape l"
  by (simp add: receive_body_def Let_def)

lemma shape_sstp_tcn [simp]: "shape (sstp_tcn i now p l) = shape l"
  by (simp add: sstp_tcn_def Let_def)

lemma shape_sstp_inner [simp]: "shape (snd (sstp_inner now p a b l)) = shape l"
  by (simp add: sstp_inner_def Let_def case_prod_beta split: option.split)

lemma shape_sstp [simp]: "shape (snd (sstp_outcome_of now p a b l)) = shape l"
  by (simp add: sstp_outcome_of_def Let_def case_prod_beta)

end
