(* ===== verification/Stp_Advance.thy ===== *)
theory Stp_Advance
  imports Stp_Receive
begin

text \<open>
  Time and reading: the timer-driven transitions of \<^verbatim>\<open>stp/advance.go\<close> and the accessors of
  \<^verbatim>\<open>stp/info.go\<close> the other layers and the API ask.
\<close>

section \<open>Timer-driven transitions\<close>

definition expire_port :: "time \<Rightarrow> tree_id \<Rightarrow> string \<Rightarrow> bool \<times> stp_layer \<Rightarrow> bool \<times> stp_layer" where
  "expire_port now i name = (\<lambda>(agedOut, l).
     let p = port_at l i name in
     if \<not> has_port l i name \<or> \<not> p_rcvInfoValid p \<or> now < p_rcvTime p + 3 * p_rcvHelloTime p
     then (agedOut, l)
     else
       let guarded = ((i = cistID \<or> l_pvst l \<noteq> None) \<and> loopGuardWatches p (link_at l name) \<and>
                      (p_role p = RoleRoot \<or> p_role p = RoleAlternate \<or> p_role p = RoleBackup))
       in (True, upd_port i name (\<lambda>p.
             (if guarded then p\<lparr>p_loopInconsistent := True\<rparr> else p)\<lparr>p_rcvInfoValid := False\<rparr>) l))"

definition expireReceivedInfo :: "time \<Rightarrow> stp_layer \<Rightarrow> bool \<times> stp_layer" where
  "expireReceivedInfo now l =
     fold (\<lambda>i. fold (expire_port now i) (l_portNames l)) (l_treeOrder l) (False, l)"

definition edgeDelayPending :: "stp_layer \<Rightarrow> string \<Rightarrow> bool" where
  "edgeDelayPending l name \<longleftrightarrow>
     (let p = port_at l cistID name; link = link_at l name in
      has_port l cistID name \<and> a_AutoEdge (p_cfg p) \<and> k_up link \<and> \<not> k_edge link \<and>
      k_sendRSTP link \<and> k_pointToPoint link \<and> p_role p = RoleDesignated \<and>
      p_state p = StateDiscarding \<and> p_proposing p \<and> k_edgeDelayWhile link \<noteq> 0)"

definition become_edge :: "string \<Rightarrow> tree_id \<Rightarrow> stp_layer \<Rightarrow> stp_layer" where
  "become_edge name i l =
     (if \<not> has_port l i name then l
      else deactivatePort i name (upd_port i name (\<lambda>p.
        (if p_state p \<noteq> StateForwarding
         then p\<lparr>p_state := StateForwarding, p_forwardTransitions := p_forwardTransitions p + 1\<rparr>
         else p)\<lparr>p_fwdDelayTimer := 0, p_proposing := False\<rparr>) l))"

definition auto_edge_port :: "time \<Rightarrow> string \<Rightarrow> bool \<times> stp_layer \<Rightarrow> bool \<times> stp_layer" where
  "auto_edge_port now name = (\<lambda>(fired, l).
     if edgeDelayPending l name \<and> \<not> now < k_edgeDelayWhile (link_at l name) then
       (let l1 = upd_link name (\<lambda>k. k\<lparr>k_edge := True, k_edgeDelayWhile := 0\<rparr>) l
        in (True, fold (become_edge name) (l_treeOrder l1) l1))
     else (fired, l))"

definition advanceAutoEdge :: "time \<Rightarrow> stp_layer \<Rightarrow> bool \<times> stp_layer" where
  "advanceAutoEdge now l = fold (auto_edge_port now) (l_portNames l) (False, l)"

text \<open>One expired forward delay: the next rung of the port's ladder, or of its sync cut.\<close>

definition forward_port ::
    "time \<Rightarrow> duration \<Rightarrow> tree_id \<Rightarrow> string \<Rightarrow> bool \<times> stp_layer \<Rightarrow> bool \<times> stp_layer" where
  "forward_port now fwdDelay i name = (\<lambda>(changed, l).
     let p = port_at l i name in
     if \<not> has_port l i name \<or> p_fwdDelayTimer p = 0 \<or> now < p_fwdDelayTimer p then (changed, l)
     else
       let l1 = upd_port i name (\<lambda>p. p\<lparr>p_fwdDelayTimer := 0\<rparr>) l in
       if boundary_rule l i name \<and> p_boundarySyncState p \<noteq> StateNone then
         (True, case p_boundarySyncState p of
            StateDiscarding \<Rightarrow> upd_port i name (\<lambda>p. p\<lparr>p_boundarySyncState := StateLearning,
                                                      p_fwdDelayTimer := now + fwdDelay\<rparr>) l1
          | StateLearning \<Rightarrow> upd_port i name (\<lambda>p. p\<lparr>p_boundarySyncState := StateForwarding\<rparr>) l1
          | _ \<Rightarrow> l1)
       else if active_role (p_role p) then
         (case p_state p of
            StateDiscarding \<Rightarrow>
              (changed, upd_port i name (\<lambda>p. p\<lparr>p_state := StateLearning,
                                               p_fwdDelayTimer := now + fwdDelay\<rparr>) l1)
          | StateLearning \<Rightarrow>
              (let l2 = upd_port i name (\<lambda>p. p\<lparr>p_state := StateForwarding,
                          p_forwardTransitions := p_forwardTransitions p + 1\<rparr>) l1
               in (True, if \<not> k_edge (link_at l2 name) then detectTopologyChange i name now l2 else l2))
          | _ \<Rightarrow> (changed, l1))
       else (changed, l1))"

definition advanceForwardDelay :: "time \<Rightarrow> stp_layer \<Rightarrow> bool \<times> stp_layer" where
  "advanceForwardDelay now l =
     fold (\<lambda>i s. fold (forward_port now (fwdDelay_of (snd s) i) i) (l_portNames (snd s)) s)
       (l_treeOrder l) (False, l)"

definition clearExpiredTCWhile :: "time \<Rightarrow> stp_layer \<Rightarrow> stp_layer" where
  "clearExpiredTCWhile now l =
     fold (\<lambda>i l. fold (\<lambda>name. upd_port i name (\<lambda>p.
         if p_tcWhile p \<noteq> 0 \<and> \<not> now < p_tcWhile p then p\<lparr>p_tcWhile := 0\<rparr> else p))
       (l_portNames l) l) (l_treeOrder l) l"

definition backup_expired :: "stp_layer \<Rightarrow> time \<Rightarrow> tree_id \<Rightarrow> bool" where
  "backup_expired l now i \<longleftrightarrow>
     (let name = t_rootPort (tree_at l i); p = port_at l i name in
      has_port l i name \<and> p_role p = RoleRoot \<and> p_state p \<noteq> StateForwarding \<and>
      p_leftBackupAt p \<noteq> 0 \<and> recentBackupDeadline l i p now = 0)"

definition advance_body :: "time \<Rightarrow> stp_layer \<Rightarrow> stp_layer" where
  "advance_body now l =
     (let (agedOut, l1) = expireReceivedInfo now l;
          (autoEdgeFired, l2) = advanceAutoEdge now l1;
          (stateChanged, l3) = advanceForwardDelay now l2;
          l4 = clearExpiredTCWhile now l3;
          backupExpired = list_ex (backup_expired l4 now) (l_treeOrder l4);
          l5 = (if agedOut \<or> stateChanged \<or> autoEdgeFired \<or> backupExpired
                then recomputeAll now l4 else l4)
      in transmit now l5)"

definition Advance :: "time \<Rightarrow> stp_layer \<Rightarrow> effects \<times> stp_layer" where
  "Advance now = api now (advance_body now)"

section \<open>The next wake-up\<close>

definition helloWouldRequest :: "stp_layer \<Rightarrow> tree_id \<Rightarrow> string \<Rightarrow> time \<Rightarrow> bool" where
  "helloWouldRequest l i name at \<longleftrightarrow>
     ((i = cistID \<or> l_pvst l \<noteq> None) \<and> hello_port (port_at l i name) at) \<or>
     (l_pvst l = None \<and> i = cistID \<and>
      list_ex (\<lambda>j. j \<noteq> cistID \<and> hello_port (port_at l j name) at \<and> \<not> mstiMasterPort l name)
        (l_treeOrder l))"

text \<open>The times \<^verbatim>\<open>NextWake\<close> offers to \<^verbatim>\<open>update\<close> for one port, in order; zero is no time.\<close>

definition wake_times_port :: "stp_layer \<Rightarrow> tree_id \<Rightarrow> string \<times> port_state \<Rightarrow> time list" where
  "wake_times_port l i = (\<lambda>(name, p).
     let x = tx_at l i name in
     [p_fwdDelayTimer p] @
     (if name = t_rootPort (tree_at l i) \<and> p_role p = RoleRoot \<and> p_state p \<noteq> StateForwarding
      then [recentBackupDeadline l i p 0] else []) @
     [p_tcWhile p] @
     (if p_rcvInfoValid p then [p_rcvTime p + 3 * p_rcvHelloTime p] else []) @
     (if i = cistID \<and> edgeDelayPending l name then [k_edgeDelayWhile (link_at l name)] else []) @
     (if l_pvst l = None \<and> i \<noteq> cistID then []
      else (if x_helloWhen x \<noteq> 0 \<and> helloWouldRequest l i name (x_helloWhen x)
            then [x_helloWhen x] else []) @
           (if (x_newInfo x \<or> x_newInfoMsti x) \<and> x_count x \<ge> unat (l_txHoldCount l) \<and>
               x_tick x \<noteq> 0 \<and> transmitRequested l name x
            then [x_tick x] else [])))"

definition wake_times :: "stp_layer \<Rightarrow> time list" where
  "wake_times l =
     concat (map (\<lambda>i. concat (map (wake_times_port l i) (t_ports (tree_at l i)))) (l_treeOrder l))"

definition wake_update :: "time \<Rightarrow> time \<times> bool \<Rightarrow> time \<times> bool" where
  "wake_update at = (\<lambda>(next, hasTimer).
     if at = 0 then (next, hasTimer)
     else if \<not> hasTimer \<or> at < next then (at, True) else (next, hasTimer))"

definition NextWake :: "stp_layer \<Rightarrow> time \<times> bool" where
  "NextWake l = fold wake_update (wake_times l) (0, False)"

section \<open>Accessors\<close>

definition Learns :: "stp_layer \<Rightarrow> string \<Rightarrow> vlan_id \<Rightarrow> bool" where
  "Learns l port vid =
     (case treeFor l vid of
        None \<Rightarrow> True
      | Some i \<Rightarrow>
          (case port_of l i port of
             None \<Rightarrow> True
           | Some p \<Rightarrow> p_state p = StateLearning \<or> p_state p = StateForwarding))"

definition Forwards :: "stp_layer \<Rightarrow> string \<Rightarrow> vlan_id \<Rightarrow> bool" where
  "Forwards l port vid =
     (case treeFor l vid of
        None \<Rightarrow> True
      | Some i \<Rightarrow>
          (case port_of l i port of None \<Rightarrow> True | Some p \<Rightarrow> p_state p = StateForwarding))"

definition layer_Root :: "stp_layer \<Rightarrow> bridge_id \<times> u32 \<times> string" where
  "layer_Root l =
     (let t = tree_at l cistID in (t_rootID t, t_rootPathCost t, t_rootPort t))"

definition TopologyChanges :: "stp_layer \<Rightarrow> u64 \<times> time" where
  "TopologyChanges l =
     (let t = tree_at l cistID in (t_topologyChangeCount t, t_lastTopologyChange t))"

definition layer_BridgeID :: "stp_layer \<Rightarrow> bridge_id" where
  "layer_BridgeID l = t_bridgeID (tree_at l cistID)"

definition Times :: "stp_layer \<Rightarrow> duration \<times> duration \<times> duration" where
  "Times l = times l cistID"

definition TracksVLAN :: "stp_layer \<Rightarrow> vlan_id \<Rightarrow> bool" where
  "TracksVLAN l vid \<longleftrightarrow> treeFor l vid \<noteq> None"

definition PVSTBoundary :: "stp_layer \<Rightarrow> string \<Rightarrow> bool" where
  "PVSTBoundary l port =
     (case map_of (l_links l) port of None \<Rightarrow> False | Some link \<Rightarrow> k_pvstBoundary link)"

definition PortLinked :: "stp_layer \<Rightarrow> string \<Rightarrow> bool" where
  "PortLinked l port =
     (case map_of (l_links l) port of None \<Rightarrow> False | Some link \<Rightarrow> k_up link)"

definition BadBPDU :: "string \<Rightarrow> stp_layer \<Rightarrow> stp_layer" where
  "BadBPDU port = upd_link port (\<lambda>k. k\<lparr>k_badBPDUs := k_badBPDUs k + 1\<rparr>)"

datatype block_reason =
  NoBlock | BlockReasonBPDUGuard | BlockReasonPVIDInconsistent | BlockReasonLoopInconsistent

definition blockReason :: "stp_layer \<Rightarrow> port_state \<Rightarrow> port_state option \<Rightarrow> link_record \<Rightarrow> block_reason" where
  "blockReason l p cistP link =
     (if k_bpduGuardDisabled link then BlockReasonBPDUGuard
      else if p_pvidInconsistent p then BlockReasonPVIDInconsistent
      else if p_loopInconsistent p \<or>
              (l_pvst l = None \<and> (case cistP of Some q \<Rightarrow> p_loopInconsistent q | None \<Rightarrow> False))
      then BlockReasonLoopInconsistent
      else NoBlock)"

datatype tree_ref = TreeCIST | TreeMSTI u16 | TreeVLAN u16

record port_info =
  pi_Tree :: "tree_ref option"
  pi_Role :: role
  pi_State :: state
  pi_BlockReason :: block_reason
  pi_Priority :: byte
  pi_PathCost :: u32
  pi_DesignatedRoot :: bridge_id
  pi_Designated :: bridge_id
  pi_DesignatedPort :: u16
  pi_DesignatedCost :: u32
  pi_PointToPoint :: bool
  pi_Edge :: bool
  pi_ForwardTransitions :: u64
  pi_TxBPDUs :: u64
  pi_RxBPDUs :: u64
  pi_BadBPDUs :: u64
  pi_SendRSTP :: bool

definition zero_info :: port_info where
  "zero_info = \<lparr>pi_Tree = None, pi_Role = RoleNone, pi_State = StateNone, pi_BlockReason = NoBlock,
     pi_Priority = 0, pi_PathCost = 0, pi_DesignatedRoot = zero_bid, pi_Designated = zero_bid,
     pi_DesignatedPort = 0, pi_DesignatedCost = 0, pi_PointToPoint = False, pi_Edge = False,
     pi_ForwardTransitions = 0, pi_TxBPDUs = 0, pi_RxBPDUs = 0, pi_BadBPDUs = 0,
     pi_SendRSTP = False\<rparr>"

definition portInfo :: "stp_layer \<Rightarrow> tree_id \<Rightarrow> string \<Rightarrow> port_info" where
  "portInfo l i port =
     (case port_of l i port of
        None \<Rightarrow> zero_info
      | Some p \<Rightarrow>
          let t = tree_at l i; link = link_at l port;
              (desigRoot, desig, desigPort, desigCost) =
                (if p_role p = RoleDesignated
                 then (t_rootID t, t_bridgeID t, p_portID p, t_rootPathCost t)
                 else if (p_role p = RoleRoot \<or> p_role p = RoleAlternate \<or> p_role p = RoleBackup) \<and>
                         p_rcvInfoValid p
                 then (p_rcvRootID p, p_rcvBridgeID p, p_rcvPortID p, p_rcvRootPathCost p)
                 else (zero_bid, zero_bid, 0, 0))
          in \<lparr>pi_Tree = Some (if l_pvst l \<noteq> None then TreeVLAN (if i = cistID then 1 else i)
                             else if i = cistID then TreeCIST else TreeMSTI i),
              pi_Role = p_role p, pi_State = p_state p,
              pi_BlockReason = blockReason l p (port_of l cistID port) link,
              pi_Priority = ucast (drop_bit 8 (p_portID p)), pi_PathCost = p_pathCost p,
              pi_DesignatedRoot = desigRoot, pi_Designated = desig, pi_DesignatedPort = desigPort,
              pi_DesignatedCost = desigCost, pi_PointToPoint = k_pointToPoint link,
              pi_Edge = k_edge link, pi_ForwardTransitions = p_forwardTransitions p,
              pi_TxBPDUs = p_txBPDUs p, pi_RxBPDUs = k_rxBPDUs link,
              pi_BadBPDUs = k_badBPDUs link, pi_SendRSTP = k_sendRSTP link\<rparr>)"

definition PortInfo :: "stp_layer \<Rightarrow> string \<Rightarrow> port_info" where
  "PortInfo l = portInfo l cistID"

definition instancePortInfo :: "stp_layer \<Rightarrow> u16 \<Rightarrow> string \<Rightarrow> port_info" where
  "instancePortInfo l mstid port =
     (if map_of (l_trees l) mstid = None then zero_info else portInfo l mstid port)"

definition VLANPortInfo :: "stp_layer \<Rightarrow> vlan_id \<Rightarrow> string \<Rightarrow> port_info" where
  "VLANPortInfo l vid port =
     (case treeFor l vid of None \<Rightarrow> zero_info | Some i \<Rightarrow> portInfo l i port)"

section \<open>Shape\<close>

lemma shape_expireReceivedInfo [simp]: "shape (snd (expireReceivedInfo now l)) = shape l"
proof -
  have *: "shape (snd (expire_port now i n s)) = shape (snd s)" for i n s
    by (simp add: expire_port_def Let_def case_prod_beta)
  show ?thesis
    unfolding expireReceivedInfo_def
    by (subst fold_const [where g = "\<lambda>s. shape (snd s)"])
      (simp_all add: fold_const [where g = "\<lambda>s. shape (snd s)"] *)
qed

lemma shape_advanceAutoEdge [simp]: "shape (snd (advanceAutoEdge now l)) = shape l"
proof -
  have "shape (become_edge n i l) = shape l" for n i l
    by (simp add: become_edge_def)
  then have *: "shape (snd (auto_edge_port now n s)) = shape (snd s)" for n s
    by (simp add: auto_edge_port_def Let_def case_prod_beta shape_fold)
  show ?thesis
    unfolding advanceAutoEdge_def
    by (subst fold_const [where g = "\<lambda>s. shape (snd s)"]) (simp_all add: *)
qed

lemma shape_forward_port [simp]: "shape (snd (forward_port now d i n s)) = shape (snd s)"
  by (simp add: forward_port_def Let_def case_prod_beta split: state.split)

lemma shape_advanceForwardDelay [simp]: "shape (snd (advanceForwardDelay now l)) = shape l"
  unfolding advanceForwardDelay_def
  by (subst fold_const [where g = "\<lambda>s. shape (snd s)"])
    (simp_all add: fold_const [where g = "\<lambda>s. shape (snd s)"])

lemma shape_clearExpiredTCWhile [simp]: "shape (clearExpiredTCWhile now l) = shape l"
  by (simp add: clearExpiredTCWhile_def shape_fold)

lemma shape_advance_body [simp]: "shape (advance_body now l) = shape l"
  by (simp add: advance_body_def Let_def case_prod_beta)

end
