(* ===== verification/Stp_New.thy ===== *)
theory Stp_New
  imports Stp_State
begin

text \<open>
  Construction, \<^verbatim>\<open>stp/layer.go\<close>: the layer a validated configuration builds, in the three
  modes, and the proof that it is well formed.
\<close>

section \<open>Bridge identifiers and ports\<close>

definition mstiBridgeID :: "mst_instance \<Rightarrow> u16 \<Rightarrow> mac \<Rightarrow> bridge_id" where
  "mstiBridgeID inst mstid address = BridgeID ((in_Priority inst AND 0xF000) OR mstid) address"

definition pvstBridgeID :: "vlan_tree \<Rightarrow> vlan_id \<Rightarrow> u16 \<Rightarrow> mac \<Rightarrow> bridge_id" where
  "pvstBridgeID t vid bridgePriority address =
     (let priority = (if vt_PriorityPresent t then vt_Priority t else bridgePriority)
      in BridgeID ((priority AND 0xF000) OR vid) address)"

definition cfg_port :: "stp_config \<Rightarrow> string \<Rightarrow> stp_port" where
  "cfg_port cfg name = (case map_of (c_Ports cfg) name of Some p \<Rightarrow> p | None \<Rightarrow> zero_stp_port)"

definition start_cost :: "stp_port \<Rightarrow> u32" where
  "start_cost p = (if a_PathCost p = 0 then defaultPathCost 0 else a_PathCost p)"

text \<open>The \<open>k\<close>-th port of a tree with its own overrides, the loop body of both constructors.\<close>

definition new_port ::
    "stp_config \<Rightarrow> (string, instance_port) gomap \<Rightarrow> nat \<times> string \<Rightarrow> string \<times> port_state" where
  "new_port cfg treePorts = (\<lambda>(k, name).
     let pCfg = cfg_port cfg name;
         treePort = map_of treePorts name;
         portPrio = (case treePort of Some tp \<Rightarrow> ip_Priority tp | None \<Rightarrow> a_Priority pCfg);
         cost = (case treePort of
                   Some tp \<Rightarrow> if ip_PathCost tp \<noteq> 0 then ip_PathCost tp else start_cost pCfg
                 | None \<Rightarrow> start_cost pCfg);
         fixed = (case treePort of Some tp \<Rightarrow> ip_PathCost tp \<noteq> 0 | None \<Rightarrow> False)
     in (name, zero_pstate\<lparr>p_name := name, p_cfg := pCfg,
           p_portID := push_bit 8 (ucast portPrio) OR of_nat (k + 1),
           p_pathCost := cost, p_pathCostFixed := fixed,
           p_role := RoleDisabled, p_state := StateDiscarding\<rparr>))"

definition new_tree ::
    "stp_config \<Rightarrow> string list \<Rightarrow> tree_id \<Rightarrow> vlan_id \<Rightarrow> bridge_id \<Rightarrow> (string, instance_port) gomap \<Rightarrow> tree"
    where
  "new_tree cfg names i vid bid treePorts =
     zero_tree\<lparr>t_id := i, t_vid := vid, t_bridgeID := bid, t_rootID := bid,
       t_ports := map (new_port cfg treePorts) (enumerate 0 names)\<rparr>"

definition new_link :: "stp_config \<Rightarrow> string \<Rightarrow> string \<times> link_record" where
  "new_link cfg name =
     (let pCfg = cfg_port cfg name in
      (name, zero_link\<lparr>k_adminEdge := a_AdminEdge pCfg, k_edge := a_AdminEdge pCfg,
                       k_sendRSTP := True, k_linkPathCost := start_cost pCfg\<rparr>))"

section \<open>The trees of the three modes\<close>

definition addTree ::
    "tree_id \<Rightarrow> vlan_id \<Rightarrow> bridge_id \<Rightarrow> (string, instance_port) gomap \<Rightarrow> stp_layer \<Rightarrow> stp_layer" where
  "addTree i vid bid treePorts l =
     l\<lparr>l_trees := l_trees l @ [(i, new_tree (l_cfg l) (l_portNames l) i vid bid treePorts)],
       l_treeOrder := l_treeOrder l @ [i]\<rparr>"

definition init_instance :: "stp_config \<Rightarrow> (u16, mst_instance) gomap \<Rightarrow> u16 \<Rightarrow> stp_layer \<Rightarrow> stp_layer" where
  "init_instance cfg insts mstid l =
     (case map_of insts mstid of
        None \<Rightarrow> l
      | Some inst \<Rightarrow>
          (addTree mstid 0 (mstiBridgeID inst mstid (c_Address cfg)) (in_Ports inst) l)
            \<lparr>l_treeVLANs := (l_treeVLANs l)(mstid \<mapsto> remdups_adj (sort (in_VLANs inst))),
             l_vidToTree := fold (\<lambda>vid m. m(vid \<mapsto> mstid)) (in_VLANs inst) (l_vidToTree l)\<rparr>)"

definition initMST :: "stp_config \<Rightarrow> mst \<Rightarrow> stp_layer \<Rightarrow> stp_layer" where
  "initMST cfg m l = fold (init_instance cfg (m_Instances m)) (sortedKeys (m_Instances m)) l"

definition vlan_tree_of :: "pvst \<Rightarrow> vlan_id \<Rightarrow> vlan_tree" where
  "vlan_tree_of p vid = (case map_of (pv_Trees p) vid of Some t \<Rightarrow> t | None \<Rightarrow> zero_vlan_tree)"

definition init_vlan :: "stp_config \<Rightarrow> u16 \<Rightarrow> pvst \<Rightarrow> vlan_id \<Rightarrow> stp_layer \<Rightarrow> stp_layer" where
  "init_vlan cfg prio p vid l =
     (if vid = 1 then l
      else
        let cfgTree = vlan_tree_of p vid in
        (addTree vid vid (pvstBridgeID cfgTree vid prio (c_Address cfg)) (vt_Ports cfgTree) l)
          \<lparr>l_treeVLANs := (l_treeVLANs l)(vid \<mapsto> [vid]),
           l_vidToTree := (l_vidToTree l)(vid \<mapsto> vid)\<rparr>)"

definition initPVST :: "stp_config \<Rightarrow> u16 \<Rightarrow> pvst \<Rightarrow> stp_layer \<Rightarrow> stp_layer" where
  "initPVST cfg prio p l =
     fold (init_vlan cfg prio p) (sortedKeys (pv_Trees p))
       (l\<lparr>l_vidToTree := (l_vidToTree l)(1 \<mapsto> cistID),
          l_treeVLANs := (l_treeVLANs l)(cistID \<mapsto> [1])\<rparr>)"

definition init_tx :: "tree_id \<Rightarrow> string \<Rightarrow> stp_layer \<Rightarrow> stp_layer" where
  "init_tx i name l =
     (let key = txKeyFor l i name in
      if map_of (l_portTx l) key \<noteq> None then l
      else l\<lparr>l_portTx := l_portTx l @ [(key, zero_tx\<lparr>x_newInfo := True, x_newInfoMsti := True\<rparr>)]\<rparr>)"

text \<open>\<open>hmac_md5\<close> is the keyed digest of the standard library behind \<^verbatim>\<open>ConfigID\<close>.\<close>

definition base_layer :: "(byte list \<Rightarrow> byte list \<Rightarrow> byte list) \<Rightarrow> stp_config \<Rightarrow> stp_layer" where
  "base_layer hmac_md5 cfg =
     (let prio = effectivePriority (c_Priority cfg) (c_PriorityPresent cfg);
          bridgeID = BridgeID prio (c_Address cfg);
          names = sortedKeys (c_Ports cfg);
          (cistVID, cistBridgeID, treePorts) =
            (case c_PVST cfg of
               None \<Rightarrow> (0, bridgeID, [])
             | Some p \<Rightarrow> (1, pvstBridgeID (vlan_tree_of p 1) 1 prio (c_Address cfg),
                          vt_Ports (vlan_tree_of p 1)))
      in \<lparr>l_cfg = cfg, l_priority = prio, l_address = c_Address cfg, l_bridgeID = bridgeID,
          l_helloTime = effectiveHelloTime (c_HelloTime cfg),
          l_maxAge = effectiveMaxAge (c_MaxAge cfg),
          l_forwardDelay = effectiveForwardDelay (c_ForwardDelay cfg),
          l_txHoldCount = (if c_TxHoldCount cfg = 0 then DefaultTxHoldCount else c_TxHoldCount cfg),
          l_portNames = names,
          l_trees = [(cistID, new_tree cfg names cistID cistVID cistBridgeID treePorts)],
          l_vidToTree = Map.empty, l_treeVLANs = Map.empty, l_treeOrder = [cistID],
          l_portTx = [], l_links = map (new_link cfg) names,
          l_mst = c_MST cfg, l_pvst = c_PVST cfg,
          l_configID = map_option (mst_ConfigID hmac_md5) (c_MST cfg),
          l_flushes = [], l_emissions = []\<rparr>)"

definition newLayer :: "(byte list \<Rightarrow> byte list \<Rightarrow> byte list) \<Rightarrow> stp_config \<Rightarrow> stp_layer" where
  "newLayer hmac_md5 cfg =
     (let l = base_layer hmac_md5 cfg;
          l1 = (case c_MST cfg of None \<Rightarrow> l | Some m \<Rightarrow> initMST cfg m l);
          l2 = (case c_PVST cfg of None \<Rightarrow> l1 | Some p \<Rightarrow> initPVST cfg (l_priority l) p l1)
      in fold (\<lambda>i l. fold (init_tx i) (l_portNames l) l) (l_treeOrder l2) l2)"

definition New ::
    "(byte list \<Rightarrow> byte list \<Rightarrow> byte list) \<Rightarrow> stp_config \<Rightarrow> port_table \<Rightarrow> config_error + stp_layer" where
  "New hmac_md5 cfg tbl =
     (case config_Validate tbl cfg of
        Some e \<Rightarrow> Inl e
      | None \<Rightarrow> Inr (newLayer hmac_md5 (config_Normalize cfg)))"

section \<open>A new layer is well formed\<close>

lemma new_tree_wf: "wf_tree names i (new_tree cfg names i vid bid tp)"
proof -
  have f: "fst (new_port cfg tp x) = snd x" "p_name (snd (new_port cfg tp x)) = snd x" for x
    by (simp_all add: new_port_def case_prod_beta Let_def)
  have "map fst (map (new_port cfg tp) (enumerate 0 names)) = map snd (enumerate 0 names)"
    by (simp add: f comp_def)
  then show ?thesis
    by (simp add: wf_tree_def new_tree_def list_all_iff case_prod_beta f)
qed

text \<open>Everything \<open>wf_layer\<close> asks but the transmit budgets, which the last loop creates.\<close>

definition pre_wf :: "stp_layer \<Rightarrow> bool" where
  "pre_wf l \<longleftrightarrow>
     distinct (l_portNames l) \<and> '''' \<notin> set (l_portNames l) \<and>
     map fst (l_trees l) = l_treeOrder l \<and> distinct (l_treeOrder l) \<and>
     l_treeOrder l \<noteq> [] \<and> hd (l_treeOrder l) = cistID \<and>
     list_all (\<lambda>(i, t). wf_tree (l_portNames l) i t) (l_trees l) \<and>
     map fst (l_links l) = l_portNames l \<and>
     second \<le> l_helloTime l \<and> 6 * second \<le> l_maxAge l \<and> 4 * second \<le> l_forwardDelay l \<and>
     0 < l_txHoldCount l \<and> (l_mst l = None \<or> l_pvst l = None) \<and>
     (l_mst l = None \<longleftrightarrow> l_configID l = None)"

lemma pre_wf_addTree:
  "pre_wf l \<Longrightarrow> i \<notin> set (l_treeOrder l) \<Longrightarrow> pre_wf (addTree i vid bid tp l)"
  by (auto simp: pre_wf_def addTree_def new_tree_wf)

lemma pre_wf_maps:
  "pre_wf (l\<lparr>l_treeVLANs := tv, l_vidToTree := vt\<rparr>) \<longleftrightarrow> pre_wf l"
  "pre_wf (l\<lparr>l_vidToTree := vt, l_treeVLANs := tv\<rparr>) \<longleftrightarrow> pre_wf l"
  by (simp_all add: pre_wf_def)

lemma pre_wf_init_instance:
  assumes "pre_wf l" "k \<notin> set (l_treeOrder l)"
  shows "pre_wf (init_instance cfg insts k l)"
    "set (l_treeOrder (init_instance cfg insts k l)) \<subseteq> insert k (set (l_treeOrder l))"
  using pre_wf_addTree [OF assms] assms
  by (auto simp: init_instance_def pre_wf_maps addTree_def split: option.splits)

lemma pre_wf_init_vlan:
  assumes "pre_wf l" "k \<noteq> 1 \<Longrightarrow> k \<notin> set (l_treeOrder l)"
  shows "pre_wf (init_vlan cfg prio p k l)"
    "set (l_treeOrder (init_vlan cfg prio p k l)) \<subseteq> insert k (set (l_treeOrder l))"
  using pre_wf_addTree [OF assms(1)] assms
  by (auto simp: init_vlan_def pre_wf_maps addTree_def Let_def)

text \<open>Adding trees in order, none of them there before.\<close>

lemma pre_wf_fold:
  assumes "pre_wf l" "distinct ks" "set ks \<inter> set (l_treeOrder l) = {}"
    and "\<And>k l. pre_wf l \<Longrightarrow> k \<notin> set (l_treeOrder l) \<Longrightarrow>
           pre_wf (f k l) \<and> set (l_treeOrder (f k l)) \<subseteq> insert k (set (l_treeOrder l))"
  shows "pre_wf (fold f ks l)"
  using assms(1-3)
proof (induction ks arbitrary: l)
  case Nil
  then show ?case by simp
next
  case (Cons k ks)
  then have "pre_wf (f k l)" "set (l_treeOrder (f k l)) \<subseteq> insert k (set (l_treeOrder l))"
    using assms(4) [of l k] by auto
  then show ?case
    using Cons.prems by (auto intro!: Cons.IH)
qed

lemma validate_instances_keys:
  "validate_instances tbl ports insts ks claimed = None \<Longrightarrow> set ks \<subseteq> fst ` set insts \<Longrightarrow>
   \<forall>k \<in> set ks. k \<noteq> 0"
proof (induction ks arbitrary: claimed)
  case Nil
  then show ?case by simp
next
  case (Cons k ks)
  then obtain inst where "map_of insts k = Some inst"
    by (metis insert_subset list.set(2) map_of_eq_None_iff not_Some_eq)
  with Cons show ?case
    by (auto simp: not_less split: if_splits sum.splits option.splits)
qed

lemma ValidateTimers_None:
  assumes "ValidateTimers c = None"
  shows "second \<le> effectiveHelloTime (c_HelloTime c)"
    "6 * second \<le> effectiveMaxAge (c_MaxAge c)"
    "4 * second \<le> effectiveForwardDelay (c_ForwardDelay c)"
  using assms by (auto simp: ValidateTimers_def Let_def split: option.splits if_splits)

lemma config_Validate_None:
  assumes "config_Validate tbl c = None"
  shows "ValidateTimers c = None" "c_MST c = None \<or> c_PVST c = None"
    "\<forall>n \<in> fst ` set (c_Ports c). validate_port tbl (c_Ports c) n = None"
    "c_MST c = Some m \<Longrightarrow> mst_Validate tbl (c_Ports c) m = None"
    "c_PVST c = Some p \<Longrightarrow> pvst_Validate tbl (c_Ports c) p = None"
  using assms by (auto simp: config_Validate_def split: if_splits option.splits)

lemma effective_idem [simp]:
  "effectiveHelloTime (effectiveHelloTime d) = effectiveHelloTime d"
  "effectiveMaxAge (effectiveMaxAge d) = effectiveMaxAge d"
  "effectiveForwardDelay (effectiveForwardDelay d) = effectiveForwardDelay d"
  "effectiveTxHoldCount (effectiveTxHoldCount n) = effectiveTxHoldCount n"
  "effectivePriority (effectivePriority q b) b' = effectivePriority q b \<or> effectivePriority q b = 0"
  by (auto simp: effectiveHelloTime_def effectiveMaxAge_def effectiveForwardDelay_def
      effectiveTxHoldCount_def effectivePriority_def)

lemma config_Normalize_sel [simp]:
  "c_HelloTime (config_Normalize c) = effectiveHelloTime (c_HelloTime c)"
  "c_MaxAge (config_Normalize c) = effectiveMaxAge (c_MaxAge c)"
  "c_ForwardDelay (config_Normalize c) = effectiveForwardDelay (c_ForwardDelay c)"
  "c_TxHoldCount (config_Normalize c) = effectiveTxHoldCount (c_TxHoldCount c)"
  "sortedKeys (c_Ports (config_Normalize c)) = sortedKeys (c_Ports c)"
  "c_MST (config_Normalize c) = None \<longleftrightarrow> c_MST c = None"
  "c_PVST (config_Normalize c) = None \<longleftrightarrow> c_PVST c = None"
  by (simp_all add: config_Normalize_def Let_def)

lemma base_layer_pre_wf:
  assumes "second \<le> effectiveHelloTime (c_HelloTime cfg)"
    "6 * second \<le> effectiveMaxAge (c_MaxAge cfg)"
    "4 * second \<le> effectiveForwardDelay (c_ForwardDelay cfg)"
    "c_MST cfg = None \<or> c_PVST cfg = None" "'''' \<notin> set (sortedKeys (c_Ports cfg))"
  shows "pre_wf (base_layer h cfg)"
proof -
  have "map fst (map (new_link cfg) ns) = ns" for ns
    by (simp add: new_link_def comp_def Let_def)
  then show ?thesis
    using assms by (simp add: base_layer_def Let_def case_prod_beta pre_wf_def new_tree_wf
        unat_gt_0 word_gt_0 del: set_sortedKeys)
qed

lemma init_tx_other:
  "pre_wf (init_tx i n l) = pre_wf l" "l_portNames (init_tx i n l) = l_portNames l"
  "l_treeOrder (init_tx i n l) = l_treeOrder l" "txKeyFor (init_tx i n l) j m = txKeyFor l j m"
  "fst ` set (l_portTx l) \<subseteq> fst ` set (l_portTx (init_tx i n l))"
  "txKeyFor l i n \<in> fst ` set (l_portTx (init_tx i n l))"
  by (auto simp: init_tx_def Let_def pre_wf_def txKeyFor_def map_of_eq_None_iff)

lemma init_tx_row:
  assumes "pre_wf l" "l' = fold (init_tx i) ns l"
  shows "pre_wf l' \<and> l_portNames l' = l_portNames l \<and> l_treeOrder l' = l_treeOrder l \<and>
    (\<forall>j m. txKeyFor l' j m = txKeyFor l j m) \<and> fst ` set (l_portTx l) \<subseteq> fst ` set (l_portTx l') \<and>
    (\<forall>n \<in> set ns. txKeyFor l i n \<in> fst ` set (l_portTx l'))"
  using assms
proof (induction ns arbitrary: l)
  case Nil
  then show ?case by simp
next
  case (Cons n ns)
  have p: "pre_wf (init_tx i n l)"
    using Cons.prems by (simp add: init_tx_other)
  show ?case
    using Cons.IH [OF p] Cons.prems(2)
      subset_trans [OF init_tx_other(5) [of l i n]] subsetD [OF _ init_tx_other(6) [of l i n]]
    by (simp add: init_tx_other)
qed

lemma init_tx_all:
  assumes "pre_wf l"
  shows "wf_layer (fold (\<lambda>i l. fold (init_tx i) (l_portNames l) l) (l_treeOrder l) l)"
proof -
  let ?f = "\<lambda>i l. fold (init_tx i) (l_portNames l) l"
  let ?I = "\<lambda>is l'. pre_wf l' \<and> l_portNames l' = l_portNames l \<and> l_treeOrder l' = l_treeOrder l \<and>
    (\<forall>j m. txKeyFor l' j m = txKeyFor l j m) \<and>
    (\<forall>i \<in> is. \<forall>n \<in> set (l_portNames l). txKeyFor l i n \<in> fst ` set (l_portTx l'))"
  have "?I (set is) (fold ?f is l)" for "is"
  proof (induction "is" rule: rev_induct)
    case Nil
    then show ?case using assms by simp
  next
    case (snoc i "is")
    let ?m = "fold ?f is l"
    have m: "pre_wf ?m" "l_portNames ?m = l_portNames l" "l_treeOrder ?m = l_treeOrder l"
      "\<forall>j m. txKeyFor ?m j m = txKeyFor l j m"
      "\<forall>i \<in> set is. \<forall>n \<in> set (l_portNames l). txKeyFor l i n \<in> fst ` set (l_portTx ?m)"
      using snoc.IH by auto
    note r = init_tx_row [OF m(1) refl, of i "l_portNames l"]
    show ?case
      using r m by (auto simp del: fold_append) (auto 0 4)
  qed
  then have "?I (set (l_treeOrder l)) (fold ?f (l_treeOrder l) l)" .
  then show ?thesis
    unfolding wf_layer_def pre_wf_def by auto
qed

lemma base_layer_sel [simp]:
  "l_treeOrder (base_layer h cfg) = [cistID]" "l_priority (base_layer h cfg) =
    effectivePriority (c_Priority cfg) (c_PriorityPresent cfg)"
  by (simp_all add: base_layer_def Let_def case_prod_beta)

lemma newLayer_wf:
  assumes "pre_wf (base_layer h cfg)" "c_MST cfg = None \<or> c_PVST cfg = None"
    and mst: "\<And>m. c_MST cfg = Some m \<Longrightarrow> cistID \<notin> set (sortedKeys (m_Instances m))"
    and pvst: "\<And>p. c_PVST cfg = Some p \<Longrightarrow> cistID \<notin> set (sortedKeys (pv_Trees p))"
  shows "wf_layer (newLayer h cfg)"
proof -
  let ?b = "base_layer h cfg"
  have m: "pre_wf (initMST cfg m ?b)" if "c_MST cfg = Some m" for m
    unfolding initMST_def
  proof (rule pre_wf_fold [OF assms(1) distinct_sortedKeys])
    show "set (sortedKeys (m_Instances m)) \<inter> set (l_treeOrder ?b) = {}"
      using mst [OF that] by (simp del: set_sortedKeys)
  qed (rule conjI, erule pre_wf_init_instance, assumption, erule pre_wf_init_instance, assumption)
  have p: "pre_wf (initPVST cfg q p ?b)" if "c_PVST cfg = Some p" for p q
    unfolding initPVST_def
  proof (rule pre_wf_fold [OF _ distinct_sortedKeys])
    show "pre_wf (?b\<lparr>l_vidToTree := (l_vidToTree ?b)(1 \<mapsto> cistID),
                     l_treeVLANs := (l_treeVLANs ?b)(cistID \<mapsto> [1])\<rparr>)"
      using assms(1) by (simp add: pre_wf_maps)
    show "set (sortedKeys (pv_Trees p)) \<inter> set (l_treeOrder (?b\<lparr>l_vidToTree := (l_vidToTree ?b)(1 \<mapsto> cistID),
                     l_treeVLANs := (l_treeVLANs ?b)(cistID \<mapsto> [1])\<rparr>)) = {}"
      using pvst [OF that] by (simp del: set_sortedKeys)
  qed (rule conjI, erule pre_wf_init_vlan, assumption, erule pre_wf_init_vlan, assumption)
  have "pre_wf (case c_PVST cfg of
      None \<Rightarrow> case c_MST cfg of None \<Rightarrow> ?b | Some m \<Rightarrow> initMST cfg m ?b
    | Some p \<Rightarrow> initPVST cfg (l_priority ?b) p
        (case c_MST cfg of None \<Rightarrow> ?b | Some m \<Rightarrow> initMST cfg m ?b))"
    using assms(1,2) m p by (auto split: option.splits)
  then show ?thesis
    unfolding newLayer_def Let_def by (rule init_tx_all)
qed

lemma normal_mst_keys:
  "c_MST (config_Normalize c) = Some m \<Longrightarrow>
   \<exists>m0. c_MST c = Some m0 \<and> sortedKeys (m_Instances m) = sortedKeys (m_Instances m0)"
  by (auto simp: config_Normalize_def mst_Normalize_def Let_def)

lemma normal_pvst_keys:
  "c_PVST (config_Normalize c) = Some p \<Longrightarrow>
   \<exists>p0. c_PVST c = Some p0 \<and> set (sortedKeys (pv_Trees p)) \<subseteq> insert 1 (set (sortedKeys (pv_Trees p0)))"
  by (auto simp: config_Normalize_def pvst_Normalize_def Let_def)

lemma mst_Validate_keys:
  "mst_Validate tbl ports m = None \<Longrightarrow> 0 \<notin> set (sortedKeys (m_Instances m))"
  using validate_instances_keys [of tbl ports "m_Instances m" "sortedKeys (m_Instances m)" Map.empty]
  by (auto simp: mst_Validate_def Let_def split: if_splits)

lemma pvst_Validate_keys:
  "pvst_Validate tbl ports p = None \<Longrightarrow> 0 \<notin> set (sortedKeys (pv_Trees p))"
  by (auto simp: pvst_Validate_def)

lemma New_pre_wf:
  assumes "config_Validate tbl c = None" "Table_Port tbl '''' = None"
  shows "pre_wf (base_layer h (config_Normalize c))"
proof (rule base_layer_pre_wf)
  show "'''' \<notin> set (sortedKeys (c_Ports (config_Normalize c)))"
    using config_Validate_None(3) [OF assms(1)] assms(2) by (force simp: validate_port_def)
qed (use ValidateTimers_None [OF config_Validate_None(1) [OF assms(1)]]
      config_Validate_None(2) [OF assms(1)] in auto)

lemma New_wf:
  assumes "New h cfg tbl = Inr l" "Table_Port tbl '''' = None"
  shows "wf_layer l"
proof -
  have v: "config_Validate tbl cfg = None" and l: "l = newLayer h (config_Normalize cfg)"
    using assms(1) by (auto simp: New_def split: option.splits)
  show ?thesis
    unfolding l
  proof (rule newLayer_wf [OF New_pre_wf [OF v assms(2)]])
    show "c_MST (config_Normalize cfg) = None \<or> c_PVST (config_Normalize cfg) = None"
      using config_Validate_None(2) [OF v] by simp
    show "cistID \<notin> set (sortedKeys (m_Instances m))" if "c_MST (config_Normalize cfg) = Some m" for m
      using normal_mst_keys [OF that] mst_Validate_keys config_Validate_None(4) [OF v] by metis
    show "cistID \<notin> set (sortedKeys (pv_Trees p))" if "c_PVST (config_Normalize cfg) = Some p" for p
    proof -
      from that obtain p0 where p0: "c_PVST cfg = Some p0"
        and sub: "set (sortedKeys (pv_Trees p)) \<subseteq> insert 1 (set (sortedKeys (pv_Trees p0)))"
        using normal_pvst_keys by blast
      have "0 \<notin> set (sortedKeys (pv_Trees p0))"
        by (rule pvst_Validate_keys [OF config_Validate_None(5) [OF v p0]])
      then show ?thesis
        using sub by (auto simp del: set_sortedKeys)
    qed
  qed
qed

end
