(* ===== verification/Stp_Settled.thy ===== *)
theory Stp_Settled
  imports Stp_Roles
begin

text \<open>
  What a recomputation establishes, whatever the state it starts from: every port's role agrees
  with its link, its guards and the elected root, and its state with its role (\<open>port_ok\<close>).
\<close>

section \<open>What a recomputation reads and leaves alone\<close>

text \<open>
  The link without its timers, counters and marks, and the part of a port its role and state are
  judged by.
\<close>

definition link_sig :: "stp_layer \<Rightarrow> string \<Rightarrow> link_record" where
  "link_sig l n = (link_at l n)\<lparr>k_edgeDelayWhile := 0, k_mdelayWhile := 0, k_rxBPDUs := 0,
     k_badBPDUs := 0, k_pvstBoundary := False\<rparr>"

definition psig :: "port_state \<Rightarrow> role \<times> state \<times> bool \<times> bool \<times> state \<times> time" where
  "psig p = (p_role p, p_state p, p_loopInconsistent p, p_pvidInconsistent p,
     p_boundarySyncState p, p_fwdDelayTimer p)"

lemma link_sig_eq:
  assumes "link_sig l' n = link_sig l n"
  shows "k_up (link_at l' n) = k_up (link_at l n)"
    "k_bpduGuardDisabled (link_at l' n) = k_bpduGuardDisabled (link_at l n)"
    "k_external (link_at l' n) = k_external (link_at l n)"
    "k_edge (link_at l' n) = k_edge (link_at l n)"
    "k_pointToPoint (link_at l' n) = k_pointToPoint (link_at l n)"
    "k_sendRSTP (link_at l' n) = k_sendRSTP (link_at l n)"
  using arg_cong [OF assms, of k_up] arg_cong [OF assms, of k_bpduGuardDisabled]
    arg_cong [OF assms, of k_external] arg_cong [OF assms, of k_edge]
    arg_cong [OF assms, of k_pointToPoint] arg_cong [OF assms, of k_sendRSTP]
  by (simp_all add: link_sig_def)

lemma link_sig_links: "l_links l' = l_links l \<Longrightarrow> link_sig l' n = link_sig l n"
  by (simp add: link_sig_def link_at_def)

lemma link_sig_upd [simp]:
  "link_sig (upd_port i n f l) m = link_sig l m" "link_sig (upd_tree i g l) m = link_sig l m"
  "link_sig (requestNewInfo i n l) m = link_sig l m"
  "link_sig (upd_link n (\<lambda>k. k\<lparr>k_edgeDelayWhile := w\<rparr>) l) m = link_sig l m"
  "link_sig (upd_link n (\<lambda>k. k\<lparr>k_pvstBoundary := b\<rparr>) l) m = link_sig l m"
  "link_sig (upd_link n (\<lambda>k. k\<lparr>k_rxBPDUs := k_rxBPDUs k + 1\<rparr>) l) m = link_sig l m"
  "link_sig (upd_link n (\<lambda>k. k\<lparr>k_badBPDUs := k_badBPDUs k + 1\<rparr>) l) m = link_sig l m"
  by (simp_all add: link_sig_def frame_simps)

lemma link_sig_core: "core l' = core l \<Longrightarrow> link_sig l' n = link_sig l n"
  by (rule link_sig_links) (rule core_links)

lemma psig_core:
  assumes "core l' = core l"
  shows "psig (port_at l' i n) = psig (port_at l i n)"
  by (simp add: psig_def core_ports [OF assms])

lemma boundary_sig:
  assumes "shape l' = shape l" "link_sig l' n = link_sig l n"
  shows "boundary_rule l' i n = boundary_rule l i n"
proof -
  have b: "boundary l n \<longleftrightarrow> map_of (l_links l) n \<noteq> None \<and> k_external (link_at l n)" for l
    by (auto simp: boundary_def link_at_def split: option.splits)
  have "map_of (l_links l') n = None \<longleftrightarrow> map_of (l_links l) n = None"
    by (rule map_of_keys_eq [OF shape_keys(3) [OF assms(1)]])
  then show ?thesis
    by (simp add: boundary_rule_def b shape_fields [OF assms(1)] link_sig_eq [OF assms(2)])
qed

text \<open>The other trees are not touched at all.\<close>

lemma other_tree_fold:
  "(\<And>x l. tree_at (f x l) j = tree_at l j) \<Longrightarrow> tree_at (fold f xs l) j = tree_at l j"
  by (rule fold_const [where g = "\<lambda>l. tree_at l j"])

lemma tree_at_add_flush [simp]: "tree_at (add_flush n v l) j = tree_at l j"
  by (simp add: add_flush_def frame_simps)

lemma other_tree_topology:
  assumes "j \<noteq> i"
  shows "tree_at (propagateTopologyChange i o' now l) j = tree_at l j"
    "tree_at (detectTopologyChange i n now l) j = tree_at l j"
    "tree_at (deactivatePort i n l) j = tree_at l j"
proof -
  have p: "tree_at (propagate_port i o' now n l) j = tree_at l j" for o' n l
    using assms by (simp add: propagate_port_def Let_def frame_simps)
  show "tree_at (propagateTopologyChange i o' now l) j = tree_at l j" for o' l
    by (simp add: propagateTopologyChange_def other_tree_fold p)
  then show "tree_at (detectTopologyChange i n now l) j = tree_at l j"
    using assms
    by (simp add: detectTopologyChange_def initiateTopologyChange_def Let_def frame_simps)
  show "tree_at (deactivatePort i n l) j = tree_at l j"
    using assms by (simp add: deactivatePort_def Let_def frame_simps)
qed

lemma other_tree_steps:
  assumes "j \<noteq> i"
  shows "tree_at (electRoot i now l) j = tree_at l j"
    "tree_at (assign_role i now n l) j = tree_at l j"
    "tree_at (settle_port i now n l) j = tree_at l j"
    "tree_at (cut_port i now d n l) j = tree_at l j"
    "tree_at (note_forwarding i now s n l) j = tree_at l j"
    "tree_at (drive_own i now d n l) j = tree_at l j"
    "tree_at (drive_boundary i now d n l) j = tree_at l j"
    "tree_at (request_port i n l) j = tree_at l j"
proof -
  show "tree_at (electRoot i now l) j = tree_at l j"
    using assms by (simp add: electRoot_def case_prod_beta Let_def frame_simps)
  have t: "tree_at (trackDesignatedVector i n r e l) j = tree_at l j" for r e l
    using assms by (simp add: trackDesignatedVector_def Let_def frame_simps)
  show "tree_at (assign_role i now n l) j = tree_at l j"
    using assms t by (cases "i = cistID") (simp_all add: assign_role_def Let_def frame_simps)
  show "tree_at (settle_port i now n l) j = tree_at l j"
    using assms by (simp add: settle_port_def frame_simps)
  show "tree_at (cut_port i now d n l) j = tree_at l j"
    using assms by (cases "i = cistID") (simp_all add: cut_port_def Let_def frame_simps)
  show nf: "tree_at (note_forwarding i now s n l) j = tree_at l j" for s l
    using assms by (simp add: note_forwarding_def Let_def other_tree_topology frame_simps)
  show "tree_at (drive_own i now d n l) j = tree_at l j"
    using assms by (simp add: drive_own_def Let_def nf other_tree_topology frame_simps)
  show "tree_at (drive_boundary i now d n l) j = tree_at l j"
    using assms by (simp add: drive_boundary_def Let_def nf other_tree_topology frame_simps)
  show "tree_at (request_port i n l) j = tree_at l j"
    by (simp add: request_port_def Let_def frame_simps)
qed

lemma other_tree:
  assumes "j \<noteq> i"
  shows "tree_at (assignRoles i now l) j = tree_at l j"
    "tree_at (updatePortStates i now l) j = tree_at l j"
    "tree_at (recompute now i l) j = tree_at l j"
proof -
  have d: "tree_at (drive_port i now d n l) j = tree_at l j" for d n l
    using assms by (simp add: drive_port_def other_tree_steps)
  show a: "tree_at (assignRoles i now l) j = tree_at l j" for l
    using assms by (simp add: assignRoles_def other_tree_fold other_tree_steps)
  show u: "tree_at (updatePortStates i now l) j = tree_at l j" for l
    using assms by (simp add: updatePortStates_def Let_def other_tree_fold other_tree_steps d)
  show "tree_at (recompute now i l) j = tree_at l j"
    using assms by (simp add: recompute_def Let_def other_tree_fold other_tree_steps a u)
qed

lemma other_port: "j \<noteq> i \<Longrightarrow> port_at (recompute now i l) j n = port_at l j n"
  by (simp add: port_at_def other_tree)

text \<open>Links keep everything but the edge delay.\<close>

lemma link_sig_steps [simp]:
  "link_sig (electRoot i now l) m = link_sig l m"
  "link_sig (assign_role i now n l) m = link_sig l m"
  "link_sig (settle_port i now n l) m = link_sig l m"
  "link_sig (cut_port i now d n l) m = link_sig l m"
  "link_sig (drive_port i now d n l) m = link_sig l m"
  "link_sig (request_port i n l) m = link_sig l m"
proof -
  have nf: "link_sig (note_forwarding i now s n l) m = link_sig l m" for s l
    by (simp add: note_forwarding_def Let_def link_sig_core [OF core_detect])
  show "link_sig (drive_port i now d n l) m = link_sig l m"
    by (simp add: drive_port_def drive_own_def drive_boundary_def Let_def nf
        link_sig_core [OF core_deactivate])
qed (simp_all add: electRoot_def case_prod_beta assign_role_def trackDesignatedVector_def
    settle_port_def cut_port_def request_port_def Let_def)

lemma link_sig_fold:
  "(\<And>x l. link_sig (f x l) m = link_sig l m) \<Longrightarrow> link_sig (fold f xs l) m = link_sig l m"
  by (rule fold_const [where g = "\<lambda>l. link_sig l m"])

lemma link_sig_recompute [simp]:
  "link_sig (assignRoles i now l) m = link_sig l m"
  "link_sig (updatePortStates i now l) m = link_sig l m"
  "link_sig (recompute now i l) m = link_sig l m"
  "link_sig (recomputeAll now l) m = link_sig l m"
  by (simp_all add: assignRoles_def updatePortStates_def recompute_def recomputeAll_def
      Let_def link_sig_fold)

section \<open>Roles\<close>

definition rsig :: "port_state \<Rightarrow> role \<times> bool \<times> bool" where
  "rsig p = (p_role p, p_loopInconsistent p, p_pvidInconsistent p)"

definition role_ok :: "stp_layer \<Rightarrow> tree_id \<Rightarrow> string \<Rightarrow> bool" where
  "role_ok l i n \<longleftrightarrow>
     (let p = port_at l i n; cistP = port_at l cistID n; link = link_at l n in
      if boundary_rule l i n then p_role p = p_role cistP
      else
        (p_role p = RoleDisabled \<longleftrightarrow> \<not> k_up link \<or> k_bpduGuardDisabled link) \<and>
        (p_loopInconsistent p \<or> (l_pvst l = None \<and> p_loopInconsistent cistP) \<or>
         p_pvidInconsistent p \<longrightarrow> p_role p = RoleAlternate \<or> p_role p = RoleDisabled) \<and>
        (p_role p = RoleRoot \<longrightarrow> n = t_rootPort (tree_at l i)) \<and>
        p_role p \<noteq> RoleNone)"

lemma role_ok_cong:
  assumes "shape l' = shape l" "link_sig l' n = link_sig l n"
    "rsig (port_at l' i n) = rsig (port_at l i n)"
    "rsig (port_at l' cistID n) = rsig (port_at l cistID n)"
    "t_rootPort (tree_at l' i) = t_rootPort (tree_at l i)"
  shows "role_ok l' i n \<longleftrightarrow> role_ok l i n"
proof -
  have p: "p_role (port_at l' i n) = p_role (port_at l i n)"
    "p_loopInconsistent (port_at l' i n) = p_loopInconsistent (port_at l i n)"
    "p_pvidInconsistent (port_at l' i n) = p_pvidInconsistent (port_at l i n)"
    "p_role (port_at l' cistID n) = p_role (port_at l cistID n)"
    "p_loopInconsistent (port_at l' cistID n) = p_loopInconsistent (port_at l cistID n)"
    using assms(3,4) by (simp_all add: rsig_def)
  show ?thesis
    by (simp only: role_ok_def Let_def boundary_sig [OF assms(1,2)] link_sig_eq [OF assms(2)] p
        assms(5) shape_fields(14) [OF assms(1)])
qed

lemma designatedOrBlocked_cases:
  "designatedOrBlocked l i n now \<in> {RoleBackup, RoleAlternate, RoleDesignated}"
  by (simp add: designatedOrBlocked_def Let_def)

lemma track_frame [simp]:
  "m \<noteq> n \<Longrightarrow> port_at (trackDesignatedVector i n r e l) i m = port_at l i m"
  "rsig (port_at (trackDesignatedVector i n r e l) i m) = rsig (port_at l i m)"
  "t_rootPort (tree_at (trackDesignatedVector i n r e l) j) = t_rootPort (tree_at l j)"
  "p_state (port_at (trackDesignatedVector i n r e l) i m) = p_state (port_at l i m)"
  by (simp_all add: trackDesignatedVector_def Let_def frame_simps rsig_def)

lemma take_role_sig [simp]: "rsig (take_role r now p) = (r, snd (rsig p))"
  by (simp add: rsig_def take_role_def recordRoleChange_def Let_def)

lemma assign_role_port:
  "m \<noteq> n \<Longrightarrow> port_at (assign_role i now n l) i m = port_at l i m"
  "has_port l i n \<Longrightarrow>
   rsig (port_at (assign_role i now n l) i n) = (chosen_role l i now n, snd (rsig (port_at l i n)))"
  "t_rootPort (tree_at (assign_role i now n l) j) = t_rootPort (tree_at l j)"
  "p_state (port_at (assign_role i now n l) i m) = p_state (port_at l i m)"
  by (cases "i = cistID"; simp add: assign_role_def Let_def frame_simps)+

lemma rsig_other:
  "j \<noteq> i \<Longrightarrow> port_at (assign_role i now n l) j m = port_at l j m"
  by (simp add: port_at_def other_tree_steps)

lemma assign_role_ok:
  assumes "has_port l i n"
  shows "role_ok (assign_role i now n l) i n"
proof -
  let ?l = "assign_role i now n l"
  have r: "p_role (port_at ?l i n) = chosen_role l i now n"
    "p_loopInconsistent (port_at ?l i n) = p_loopInconsistent (port_at l i n)"
    "p_pvidInconsistent (port_at ?l i n) = p_pvidInconsistent (port_at l i n)"
    using assign_role_port(2) [OF assms, of now] by (simp_all add: rsig_def)
  have c: "p_loopInconsistent (port_at ?l cistID n) = p_loopInconsistent (port_at l cistID n)"
    using r(2) by (cases "i = cistID") (simp_all add: rsig_other)
  have c': "p_role (port_at ?l cistID n) = p_role (port_at l cistID n)" if "i \<noteq> cistID"
    using that by (simp add: rsig_other)
  have b: "boundary_rule ?l i n = boundary_rule l i n"
    by (rule boundary_sig) simp_all
  have i: "i \<noteq> cistID" if "boundary_rule l i n"
    using that by (simp add: boundary_rule_def)
  show ?thesis
    using designatedOrBlocked_cases [of l i n now] i c'
    unfolding role_ok_def Let_def b r c shape_fields(14) [OF shape_assign_role]
      link_sig_eq [OF link_sig_steps(2)] assign_role_port(3)
    by (auto simp: chosen_role_def Let_def split: if_splits)
qed

lemma assignRoles_ok:
  assumes "\<And>n. n \<in> set (l_portNames l) \<Longrightarrow> has_port l i n" "n \<in> set (l_portNames l)"
  shows "role_ok (assignRoles i now l) i n"
proof -
  have "shape (assignRoles i now l) = shape l \<and>
      (\<forall>n \<in> set (l_portNames l). role_ok (assignRoles i now l) i n)"
    unfolding assignRoles_def
  proof (rule fold_each)
    show "shape l = shape l" ..
    fix x y s
    assume x: "x \<in> set (l_portNames l)" and s: "shape s = shape l"
    show "shape (assign_role i now x s) = shape l"
      using s by simp
    have h: "has_port s i x"
      using shape_has_port [OF s] assms(1) [OF x] by simp
    show "role_ok (assign_role i now x s) i x"
      by (rule assign_role_ok [OF h])
    show "role_ok (assign_role i now x s) i y" if "role_ok s i y"
    proof (cases "x = y")
      case True
      then show ?thesis using assign_role_ok [OF h] by simp
    next
      case False
      then have "port_at (assign_role i now x s) j y = port_at s j y" for j
        by (cases "j = i") (simp_all add: assign_role_port rsig_other)
      then have "role_ok (assign_role i now x s) i y = role_ok s i y"
        by (intro role_ok_cong) (simp_all add: assign_role_port)
      with that show ?thesis by simp
    qed
  qed
  with assms(2) show ?thesis by simp
qed

section \<open>States\<close>

fun state_rank :: "state \<Rightarrow> nat" where
  "state_rank StateForwarding = 2"
| "state_rank StateLearning = 1"
| "state_rank _ = 0"

definition state_ok :: "stp_layer \<Rightarrow> tree_id \<Rightarrow> string \<Rightarrow> bool" where
  "state_ok l i n \<longleftrightarrow>
     (let p = port_at l i n; cistP = port_at l cistID n in
      (blocked_role (p_role p) \<longrightarrow> p_state p = StateDiscarding) \<and>
      (boundary_rule l i n \<longrightarrow> state_rank (p_state p) \<le> state_rank (p_state cistP) \<and>
         (p_boundarySyncState p = StateNone \<longrightarrow> p_fwdDelayTimer p = 0)))"

definition port_ok :: "stp_layer \<Rightarrow> tree_id \<Rightarrow> string \<Rightarrow> bool" where
  "port_ok l i n \<longleftrightarrow> role_ok l i n \<and> state_ok l i n"

lemma state_ok_cong:
  assumes "shape l' = shape l" "link_sig l' n = link_sig l n"
    "psig (port_at l' i n) = psig (port_at l i n)"
    "psig (port_at l' cistID n) = psig (port_at l cistID n)"
  shows "state_ok l' i n \<longleftrightarrow> state_ok l i n"
  using assms(3,4)
  by (simp add: state_ok_def Let_def boundary_sig [OF assms(1,2)] psig_def)

lemma rsig_psig: "psig p = psig q \<Longrightarrow> rsig p = rsig q"
  by (simp add: psig_def rsig_def)

lemma port_ok_cong:
  assumes "shape l' = shape l" "link_sig l' n = link_sig l n"
    "psig (port_at l' i n) = psig (port_at l i n)"
    "psig (port_at l' cistID n) = psig (port_at l cistID n)"
    "t_rootPort (tree_at l' i) = t_rootPort (tree_at l i)"
  shows "port_ok l' i n \<longleftrightarrow> port_ok l i n"
  unfolding port_ok_def
  using role_ok_cong [OF assms(1,2) rsig_psig [OF assms(3)] rsig_psig [OF assms(4)] assms(5)]
    state_ok_cong [OF assms(1-4)] by simp

lemma settled_cong:
  assumes "shape l' = shape l" "\<And>n. link_sig l' n = link_sig l n"
    "\<And>i n. psig (port_at l' i n) = psig (port_at l i n)"
    "\<And>i. t_rootPort (tree_at l' i) = t_rootPort (tree_at l i)"
  shows "port_ok l' i n \<longleftrightarrow> port_ok l i n"
  by (rule port_ok_cong) (simp_all add: assms)

lemma core_port_ok:
  assumes "core l' = core l"
  shows "port_ok l' i n \<longleftrightarrow> port_ok l i n"
  by (rule port_ok_cong [OF core_shape [OF assms] link_sig_core [OF assms] psig_core [OF assms]
        psig_core [OF assms] core_trees(1) [OF assms]])

text \<open>The steps of \<^verbatim>\<open>updatePortStates\<close> keep roles and guards.\<close>

lemma clearRecentRoot_sig [simp]: "psig (clearRecentRoot p) = psig p" "rsig (clearRecentRoot p) = rsig p"
  by (simp_all add: psig_def rsig_def clearRecentRoot_def)

lemma psig_settle [simp]: "psig (port_at (settle_port i now n l) j m) = psig (port_at l j m)"
  by (auto simp: settle_port_def frame_simps psig_def clearRecentRoot_def Let_def)

lemma rsig_settle [simp]: "rsig (port_at (settle_port i now n l) j m) = rsig (port_at l j m)"
  by (rule rsig_psig) simp

lemma rsig_cut [simp]: "rsig (port_at (cut_port i now d n l) j m) = rsig (port_at l j m)"
  by (simp add: cut_port_def frame_simps Let_def rsig_def clearRecentRoot_def)

lemma rsig_note [simp]:
  "psig (port_at (note_forwarding i now s n l) j m) = psig (port_at l j m)"
proof -
  have "psig (port_at (upd_port i n (\<lambda>p. p\<lparr>p_forwardTransitions := p_forwardTransitions p + 1\<rparr>) l) j m) =
      psig (port_at l j m)"
    by (simp add: frame_simps psig_def)
  then show ?thesis
    by (simp add: note_forwarding_def Let_def psig_core [OF core_detect])
qed

lemma psig_drive_own:
  "psig (port_at (drive_own i now d n l) j m) =
   psig (port_at (upd_port i n (own_ladder now d (link_at l n)
     (recentBackupDeadline l i (port_at l i n) now \<noteq> 0)) l) j m)"
  by (simp add: drive_own_def Let_def psig_core [OF core_deactivate])

lemma psig_drive_boundary:
  "psig (port_at (drive_boundary i now d n l) j m) =
   psig (port_at (upd_port i n (follow_cist now d (link_at l n) (port_at l cistID n)) l) j m)"
  by (simp add: drive_boundary_def Let_def psig_core [OF core_deactivate])

lemma own_ladder_sig [simp]: "rsig (own_ladder now d k b p) = rsig p"
  by (cases "p_role p") (simp_all add: own_ladder_def arm_forward_def rsig_def Let_def)

lemma follow_cist_sig [simp]: "rsig (follow_cist now d k c p) = rsig p"
  by (simp add: follow_cist_def rsig_def Let_def)

lemma rsig_drive [simp]: "rsig (port_at (drive_port i now d n l) j m) = rsig (port_at l j m)"
proof -
  have "rsig (port_at (drive_own i now d n l) j m) = rsig (port_at l j m)"
    using rsig_psig [OF psig_drive_own [of i now d n l j m]] by (simp add: frame_simps)
  moreover have "rsig (port_at (drive_boundary i now d n l) j m) = rsig (port_at l j m)"
    using rsig_psig [OF psig_drive_boundary [of i now d n l j m]] by (simp add: frame_simps)
  ultimately show ?thesis
    by (simp add: drive_port_def)
qed

lemma psig_drive_other:
  "j \<noteq> i \<or> m \<noteq> n \<Longrightarrow> psig (port_at (drive_port i now d n l) j m) = psig (port_at l j m)"
  by (auto simp: drive_port_def psig_drive_own psig_drive_boundary frame_simps)

lemma rootPort_steps [simp]:
  "t_rootPort (tree_at (settle_port i now n l) j) = t_rootPort (tree_at l j)"
  "t_rootPort (tree_at (cut_port i now d n l) j) = t_rootPort (tree_at l j)"
  "t_rootPort (tree_at (drive_port i now d n l) j) = t_rootPort (tree_at l j)"
  "t_rootPort (tree_at (request_port i n l) j) = t_rootPort (tree_at l j)"
proof -
  have "t_rootPort (tree_at (note_forwarding i now s n l) j) = t_rootPort (tree_at l j)" for s l
    by (simp add: note_forwarding_def Let_def frame_simps core_trees(1) [OF core_detect])
  then show "t_rootPort (tree_at (drive_port i now d n l) j) = t_rootPort (tree_at l j)"
    by (simp add: drive_port_def drive_own_def drive_boundary_def Let_def frame_simps
        core_trees(1) [OF core_deactivate])
qed (simp_all add: settle_port_def cut_port_def request_port_def Let_def frame_simps)

text \<open>The ladder leaves a blocked port Discarding, and a boundary port no further than the CIST.\<close>

lemma own_ladder_blocked: "blocked_role (p_role p) \<Longrightarrow> p_state (own_ladder now d k b p) = StateDiscarding"
  by (auto simp: own_ladder_def Let_def)

lemma follow_cist_rank: "state_rank (p_state (follow_cist now d k c p)) \<le> state_rank (p_state c)"
  by (cases "p_boundarySyncState p") (auto simp: follow_cist_def Let_def)

lemma follow_cist_timer:
  "p_boundarySyncState (follow_cist now d k c p) = StateNone \<Longrightarrow>
   p_fwdDelayTimer (follow_cist now d k c p) = 0"
  by (auto simp: follow_cist_def Let_def split: if_splits)

lemma follow_cist_blocked:
  "p_role p \<noteq> RoleDesignated \<Longrightarrow> p_state (follow_cist now d k c p) = p_state c"
  by (simp add: follow_cist_def Let_def)

lemma drive_port_ok:
  assumes h: "has_port l i n" and r: "role_ok l i n" and c: "i \<noteq> cistID \<Longrightarrow> state_ok l cistID n"
  shows "state_ok (drive_port i now d n l) i n"
proof -
  let ?l = "drive_port i now d n l"
  have b: "boundary_rule ?l i n = boundary_rule l i n"
    by (rule boundary_sig) simp_all
  show ?thesis
  proof (cases "boundary_rule l i n")
    case True
    then have i: "i \<noteq> cistID"
      by (simp add: boundary_rule_def)
    let ?p = "follow_cist now d (link_at l n) (port_at l cistID n) (port_at l i n)"
    have own: "psig (port_at ?l i n) = psig ?p"
      using True h by (simp add: drive_port_def psig_drive_boundary frame_simps)
    have cist: "psig (port_at ?l cistID n) = psig (port_at l cistID n)"
      using i by (simp add: psig_drive_other)
    have role: "p_role (port_at l i n) = p_role (port_at l cistID n)"
      using r True by (simp add: role_ok_def Let_def)
    have "p_state ?p = StateDiscarding" if "blocked_role (p_role (port_at l i n))"
      using that c [OF i] role by (auto simp: follow_cist_blocked state_ok_def Let_def)
    then show ?thesis
      using own cist follow_cist_rank [of now d "link_at l n" "port_at l cistID n" "port_at l i n"]
        follow_cist_timer [of now d "link_at l n" "port_at l cistID n" "port_at l i n"]
      by (simp add: state_ok_def b True psig_def Let_def)
  next
    case False
    have "psig (port_at ?l i n) = psig (own_ladder now d (link_at l n)
        (recentBackupDeadline l i (port_at l i n) now \<noteq> 0) (port_at l i n))"
      using False h by (simp add: drive_port_def psig_drive_own frame_simps)
    then show ?thesis
      using False own_ladder_blocked by (simp add: state_ok_def b psig_def Let_def)
  qed
qed

text \<open>Frames of the three loops together.\<close>

lemma rsig_fold:
  "(\<And>x l. rsig (port_at (f x l) j m) = rsig (port_at l j m)) \<Longrightarrow>
   rsig (port_at (fold f xs l) j m) = rsig (port_at l j m)"
  by (rule fold_const [where g = "\<lambda>l. rsig (port_at l j m)"])

lemma rootPort_fold:
  "(\<And>x l. t_rootPort (tree_at (f x l) j) = t_rootPort (tree_at l j)) \<Longrightarrow>
   t_rootPort (tree_at (fold f xs l) j) = t_rootPort (tree_at l j)"
  by (rule fold_const [where g = "\<lambda>l. t_rootPort (tree_at l j)"])

lemma rsig_updatePortStates [simp]:
  "rsig (port_at (updatePortStates i now l) j m) = rsig (port_at l j m)"
  by (simp add: updatePortStates_def Let_def rsig_fold)

lemma rootPort_updatePortStates [simp]:
  "t_rootPort (tree_at (updatePortStates i now l) j) = t_rootPort (tree_at l j)"
  by (simp add: updatePortStates_def Let_def rootPort_fold)

lemma drive_all_ok:
  assumes h: "\<And>n. n \<in> set ns \<Longrightarrow> has_port l i n"
    and r: "\<And>n. n \<in> set ns \<Longrightarrow> role_ok l i n"
    and c: "\<And>n. n \<in> set ns \<Longrightarrow> i \<noteq> cistID \<Longrightarrow> state_ok l cistID n"
    and n: "n \<in> set ns"
  shows "state_ok (fold (drive_port i now d) ns l) i n"
proof -
  let ?I = "\<lambda>s. shape s = shape l \<and> (\<forall>m. link_sig s m = link_sig l m) \<and>
    (\<forall>j m. rsig (port_at s j m) = rsig (port_at l j m)) \<and>
    t_rootPort (tree_at s i) = t_rootPort (tree_at l i) \<and>
    (i \<noteq> cistID \<longrightarrow> (\<forall>m. psig (port_at s cistID m) = psig (port_at l cistID m)))"
  have "?I (fold (drive_port i now d) ns l) \<and>
      (\<forall>n \<in> set ns. state_ok (fold (drive_port i now d) ns l) i n)"
  proof (rule fold_each)
    show "?I l" by simp
    fix x y s
    assume x: "x \<in> set ns" and s: "?I s"
    then show "?I (drive_port i now d x s)"
      by (simp add: psig_drive_other)
    have "has_port s i x"
      using shape_has_port s h [OF x] by blast
    moreover have "role_ok s i x"
      using role_ok_cong [of s l x i] s r [OF x] by simp
    moreover have "state_ok s cistID x" if "i \<noteq> cistID"
      using state_ok_cong [of s l x cistID] s c [OF x that] that by simp
    ultimately show ok: "state_ok (drive_port i now d x s) i x"
      by (rule drive_port_ok)
    show "state_ok (drive_port i now d x s) i y" if "state_ok s i y"
    proof (cases "x = y")
      case True
      then show ?thesis using ok by simp
    next
      case False
      then have "state_ok (drive_port i now d x s) i y = state_ok s i y"
        by (intro state_ok_cong) (simp_all add: psig_drive_other)
      with that show ?thesis by simp
    qed
  qed
  with n show ?thesis by blast
qed

text \<open>The CIST's states are out of reach of the first two loops on another tree.\<close>

lemma updatePortStates_ok:
  assumes h: "\<And>n. n \<in> set (l_portNames l) \<Longrightarrow> has_port l i n"
    and r: "\<And>n. n \<in> set (l_portNames l) \<Longrightarrow> role_ok l i n"
    and c: "\<And>n. n \<in> set (l_portNames l) \<Longrightarrow> i \<noteq> cistID \<Longrightarrow> state_ok l cistID n"
    and n: "n \<in> set (l_portNames l)"
  shows "port_ok (updatePortStates i now l) i n"
proof -
  define l1 where "l1 = fold (settle_port i now) (l_portNames l) l"
  define l2 where "l2 = (if reroot_pending l1 i
    then fold (cut_port i now (fwdDelay_of l i)) (l_portNames l1) l1 else l1)"
  have eq: "updatePortStates i now l = fold (drive_port i now (fwdDelay_of l i)) (l_portNames l2) l2"
    by (simp add: updatePortStates_def Let_def l1_def l2_def)
  have s: "shape l2 = shape l"
    by (simp add: l1_def l2_def shape_fold)
  have k: "link_sig l2 m = link_sig l m" for m
    by (simp add: l1_def l2_def link_sig_fold)
  have p: "rsig (port_at l2 j m) = rsig (port_at l j m)" for j m
    by (simp add: l1_def l2_def rsig_fold)
  have t: "t_rootPort (tree_at l2 j) = t_rootPort (tree_at l j)" for j
    by (simp add: l1_def l2_def rootPort_fold)
  have o': "tree_at l2 j = tree_at l j" if "j \<noteq> i" for j
    using that by (simp add: l1_def l2_def other_tree_fold other_tree_steps)
  have names: "l_portNames l2 = l_portNames l"
    by (rule shape_fields(9) [OF s])
  have "state_ok (updatePortStates i now l) i n"
    unfolding eq
  proof (rule drive_all_ok)
    fix m
    assume "m \<in> set (l_portNames l2)"
    then have m: "m \<in> set (l_portNames l)"
      by (simp add: names)
    show "has_port l2 i m"
      using shape_has_port [OF s] h [OF m] by simp
    show "role_ok l2 i m"
      using role_ok_cong [OF s k p p t] r [OF m] by simp
    show "state_ok l2 cistID m" if "i \<noteq> cistID"
    proof -
      have "port_at l2 cistID m = port_at l cistID m"
        using o' [OF that [symmetric]] by (simp add: port_at_def)
      then show ?thesis
        using state_ok_cong [OF s k, where n = m and i = cistID] c [OF m that] by simp
    qed
  qed (simp add: names n)
  moreover have "role_ok (updatePortStates i now l) i n"
    using role_ok_cong [of "updatePortStates i now l" l n i] r [OF n] by simp
  ultimately show ?thesis
    by (simp add: port_ok_def)
qed

section \<open>Recomputation\<close>

lemma request_core [simp]: "core (request_port i n l) = core l"
  by (simp add: request_port_def Let_def)

lemma port_at_electRoot [simp]: "port_at (electRoot i now l) j n = port_at l j n"
  by (auto simp: port_at_def electRoot_def case_prod_beta frame_simps Let_def)

lemma recompute_ok:
  assumes w: "wf_layer l" and i: "i \<in> set (l_treeOrder l)" and n: "n \<in> set (l_portNames l)"
    and c: "\<And>n. n \<in> set (l_portNames l) \<Longrightarrow> i \<noteq> cistID \<Longrightarrow> port_ok l cistID n"
  shows "port_ok (recompute now i l) i n"
proof -
  define l1 where "l1 = electRoot i now l"
  define l2 where "l2 = assignRoles i now l1"
  have s1: "shape l1 = shape l" and s2: "shape l2 = shape l"
    by (simp_all add: l1_def l2_def)
  have names: "l_portNames l1 = l_portNames l" "l_portNames l2 = l_portNames l"
    using shape_fields(9) [OF s1] shape_fields(9) [OF s2] by simp_all
  have h: "has_port l1 i m" "has_port l2 i m" if "m \<in> set (l_portNames l)" for m
    using that wf_has_port [OF w i] shape_has_port [OF s1] shape_has_port [OF s2] by simp_all
  have "port_ok (updatePortStates i now l2) i n"
  proof (rule updatePortStates_ok)
    fix m
    assume "m \<in> set (l_portNames l2)"
    then have m: "m \<in> set (l_portNames l)"
      by (simp add: names)
    show "has_port l2 i m"
      by (rule h [OF m])
    show "role_ok l2 i m"
      unfolding l2_def by (rule assignRoles_ok) (use h m names in auto)
    show "state_ok l2 cistID m" if "i \<noteq> cistID"
    proof -
      have "port_at l2 cistID m = port_at l cistID m"
        using that by (simp add: l2_def l1_def port_at_def other_tree other_tree_steps)
      then have "state_ok l2 cistID m = state_ok l cistID m"
        by (intro state_ok_cong) (simp_all add: s2 l2_def l1_def)
      then show ?thesis
        using c [OF m that] by (simp add: port_ok_def)
    qed
  qed (simp add: names n)
  moreover have "core (recompute now i l) = core (updatePortStates i now l2)"
    by (simp add: recompute_def Let_def l1_def l2_def core_fold)
  note core_port_ok [OF this]
  ultimately show ?thesis
    by simp
qed

text \<open>Recomputing another tree than the CIST keeps what the others have.\<close>

lemma recompute_keeps:
  assumes "i \<noteq> cistID" "j \<noteq> i"
  shows "port_ok (recompute now i l) j n = port_ok l j n"
  using assms by (intro port_ok_cong) (simp_all add: other_port other_tree)

definition settled :: "stp_layer \<Rightarrow> bool" where
  "settled l \<longleftrightarrow> (\<forall>i \<in> set (l_treeOrder l). \<forall>n \<in> set (l_portNames l). port_ok l i n)"

lemma recomputeAll_settled:
  assumes w: "wf_layer l"
  shows "settled (recomputeAll now l)"
proof -
  obtain rest where order: "l_treeOrder l = cistID # rest" and d: "distinct (cistID # rest)"
    using w by (cases "l_treeOrder l") (auto simp: wf_layer_def)
  let ?ns = "set (l_portNames l)"
  define l1 where "l1 = recompute now cistID l"
  let ?I = "\<lambda>s. shape s = shape l \<and> (\<forall>n \<in> ?ns. port_ok s cistID n)"
  have start: "?I l1"
    using recompute_ok [OF w, of cistID] order by (auto simp: l1_def)
  have "?I (fold (recompute now) rest l1) \<and>
      (\<forall>i \<in> set rest. \<forall>n \<in> ?ns. port_ok (fold (recompute now) rest l1) i n)"
  proof (rule fold_each [of ?I])
    show "?I l1" by (rule start)
    fix i j s
    assume i: "i \<in> set rest" and s: "?I s"
    have i0: "i \<noteq> cistID"
      using d i by auto
    show "?I (recompute now i s)"
      using s recompute_keeps [OF i0 i0 [symmetric]] by simp
    have sh: "shape s = shape l"
      using s by blast
    have ws: "wf_layer s" and os: "i \<in> set (l_treeOrder s)" and ns: "set (l_portNames s) = ?ns"
      unfolding wf_shape [OF sh] shape_fields(9,12) [OF sh] using w i order by auto
    show ok: "\<forall>n \<in> ?ns. port_ok (recompute now i s) i n"
      using recompute_ok [OF ws os] s ns by blast
    show "\<forall>n \<in> ?ns. port_ok (recompute now i s) j n" if "\<forall>n \<in> ?ns. port_ok s j n"
      using ok that recompute_keeps [OF i0, of j] by (cases "j = i") auto
  qed
  then show ?thesis
    unfolding settled_def shape_fields(9,12) [OF shape_recomputeAll]
    by (auto simp: recomputeAll_def order l1_def)
qed

end
