(* ===== verification/Transitions.thy ===== *)
theory Transitions
  imports Main
begin

text \<open>
  The interface of an invariant: what holds initially and is kept by every call holds in every
  state the program can reach.
\<close>

inductive reach :: "('s \<Rightarrow> bool) \<Rightarrow> ('s \<Rightarrow> 's \<Rightarrow> bool) \<Rightarrow> 's \<Rightarrow> bool" for init step where
  reach_init: "init s \<Longrightarrow> reach init step s"
| reach_step: "reach init step s \<Longrightarrow> step s s' \<Longrightarrow> reach init step s'"

locale invariant =
  fixes init :: "'s \<Rightarrow> bool" and step :: "'s \<Rightarrow> 's \<Rightarrow> bool" and inv :: "'s \<Rightarrow> bool"
  assumes inv_init: "init s \<Longrightarrow> inv s"
    and inv_step: "inv s \<Longrightarrow> step s s' \<Longrightarrow> inv s'"
begin

lemma reachable_inv: "reach init step s \<Longrightarrow> inv s"
  by (induction rule: reach.induct) (auto intro: inv_init inv_step)

end

text \<open>An invariant on top of another: its step may assume what the first one gives.\<close>

locale invariant_on = base: invariant init step base_inv
  for init :: "'s \<Rightarrow> bool" and step :: "'s \<Rightarrow> 's \<Rightarrow> bool" and base_inv :: "'s \<Rightarrow> bool" +
  fixes inv2 :: "'s \<Rightarrow> bool"
  assumes inv2_init: "init s \<Longrightarrow> inv2 s"
    and inv2_step: "base_inv s \<Longrightarrow> inv2 s \<Longrightarrow> step s s' \<Longrightarrow> inv2 s'"
begin

lemma reachable_inv2: "reach init step s \<Longrightarrow> inv2 s"
proof (induction rule: reach.induct)
  case (reach_step s s')
  then show ?case
    using inv2_step base.reachable_inv by blast
qed (rule inv2_init)

end

end
