(* ===== verification/Stp_Reach.thy ===== *)
theory Stp_Reach
  imports Stp_Advance Stp_New Stp_Settled Transitions
begin

text \<open>
  The layer as a transition system: the calls a switch makes, the states they reach from a new
  layer, and the invariant \<open>settled\<close> of every state between two calls.
\<close>

section \<open>Calls\<close>

datatype event =
  EvMcheck time string
| EvLink time string bool bool u64
| EvReceive time string bpdu
| EvSSTP time string sstp_arrival bpdu
| EvAdvance time
| EvBad string

fun perform :: "event \<Rightarrow> stp_layer \<Rightarrow> effects \<times> stp_layer" where
  "perform (EvMcheck now port) l = Mcheck now port l"
| "perform (EvLink now port up p2p speed) l = LinkChange now port up p2p speed l"
| "perform (EvReceive now port b) l = Receive now port b l"
| "perform (EvSSTP now port arrival b) l =
     (let ((fx, _), l') = ReceiveSSTP now port arrival b l in (fx, l'))"
| "perform (EvAdvance now) l = Advance now l"
| "perform (EvBad port) l = (\<lparr>fx_Emissions = [], fx_Flush = [], fx_Changed = []\<rparr>, BadBPDU port l)"

inductive stp_step :: "stp_layer \<Rightarrow> stp_layer \<Rightarrow> bool" where
  call: "perform ev l = (fx, l') \<Longrightarrow> stp_step l l'"

inductive_cases stp_stepE: "stp_step l l'"

text \<open>A layer \<^verbatim>\<open>New\<close> returns over a port table without an empty name, as the builder makes.\<close>

definition new_state ::
    "(byte list \<Rightarrow> byte list \<Rightarrow> byte list) \<Rightarrow> stp_config \<Rightarrow> port_table \<Rightarrow> stp_layer \<Rightarrow> bool" where
  "new_state hmac_md5 cfg tbl l \<longleftrightarrow>
     New hmac_md5 cfg tbl = Inr l \<and> Table_Port tbl '''' = None"

abbreviation stp_reachable ::
    "(byte list \<Rightarrow> byte list \<Rightarrow> byte list) \<Rightarrow> stp_config \<Rightarrow> port_table \<Rightarrow> stp_layer \<Rightarrow> bool" where
  "stp_reachable hmac_md5 cfg tbl \<equiv> reach (new_state hmac_md5 cfg tbl) stp_step"

section \<open>Well-formedness is kept\<close>

lemma snd_api_sstp: "snd (perform (EvSSTP now port a b) l) =
    snd (api now (\<lambda>l. snd (sstp_outcome_of now port a b l)) l)"
  by (simp add: ReceiveSSTP_def Let_def case_prod_beta)

lemma shape_perform [simp]: "shape (snd (perform ev l)) = shape l"
proof (cases ev)
  case (EvSSTP now port a b)
  then show ?thesis
    using snd_api_sstp shape_api [of "\<lambda>l. snd (sstp_outcome_of now port a b l)"] by simp
next
  case (EvBad port)
  then show ?thesis by (simp add: BadBPDU_def)
qed (simp_all add: Mcheck_def LinkChange_def Receive_def Advance_def shape_api)

lemma new_state_wf: "new_state h cfg tbl l \<Longrightarrow> wf_layer l"
  by (auto simp: new_state_def intro: New_wf)

lemma step_shape: "stp_step l l' \<Longrightarrow> shape l' = shape l"
  by (erule stp_stepE) (metis shape_perform snd_conv)

interpretation stp_wf: invariant "new_state h cfg tbl" stp_step wf_layer for h cfg tbl
  by unfold_locales (use new_state_wf wf_shape step_shape in blast)+

section \<open>What keeps a layer settled\<close>

lemma settledI:
  assumes "settled l" "shape l' = shape l" "\<And>i n. port_ok l i n \<Longrightarrow> port_ok l' i n"
  shows "settled l'"
  using assms(1,3) by (simp add: settled_def shape_fields [OF assms(2)])

lemma settled_core:
  assumes "core l' = core l"
  shows "settled l' \<longleftrightarrow> settled l"
  by (simp add: settled_def shape_fields [OF core_shape [OF assms]] core_port_ok [OF assms])

lemma settled_link:
  assumes "\<And>m. link_sig (upd_link n f l) m = link_sig l m"
  shows "settled (upd_link n f l) \<longleftrightarrow> settled l"
proof -
  have "port_ok (upd_link n f l) i m = port_ok l i m" for i m
    by (rule settled_cong) (simp_all add: assms frame_simps)
  then show ?thesis
    by (simp add: settled_def frame_simps)
qed

lemma settled_settle [simp]: "settled (settleHelloTimers now l) = settled l"
  by (rule settled_core) simp

lemma settled_transmit [simp]: "settled (transmit now l) = settled l"
  by (rule settled_core) simp

lemma settled_request [simp]: "settled (requestNewInfo i n l) = settled l"
  by (rule settled_core) simp

lemma settled_request_fold [simp]: "settled (fold (\<lambda>j. requestNewInfo j n) js l) = settled l"
  by (rule settled_core) (simp add: core_fold)

lemma settled_arm [simp]: "settled (armHelloTimers now l) = settled l"
proof (rule settled_core)
  have "core (arm_port i now n l) = core l" for i n l
    by (simp add: arm_port_def)
  then show "core (armHelloTimers now l) = core l"
    by (simp add: armHelloTimers_def core_fold)
qed

lemma settled_outputs [simp]: "settled (l\<lparr>l_flushes := fl, l_emissions := em\<rparr>) = settled l"
  by (rule settled_core) (simp add: core_def)

lemma settled_clearTC [simp]: "settled (clearExpiredTCWhile now l) = settled l"
proof (rule settled_core)
  have "core (upd_port i n (\<lambda>p. if p_tcWhile p \<noteq> 0 \<and> \<not> now < p_tcWhile p
      then p\<lparr>p_tcWhile := 0\<rparr> else p) l) = core l" for i n l
    by (rule core_upd_port) (simp add: core_port_def)
  then show "core (clearExpiredTCWhile now l) = core l"
    by (simp add: clearExpiredTCWhile_def core_fold)
qed

lemma settled_finish [simp]: "settled (finishRecentRootDeadlines now l) \<longleftrightarrow> settled l"
proof -
  let ?P = "\<lambda>s. shape s = shape l \<and> (\<forall>i n. port_ok s i n = port_ok l i n)"
  have step: "port_ok (finish_port now i n s) j m = port_ok s j m" for i n s j m
    by (rule settled_cong)
      (auto simp: finish_port_def Let_def clearRecentRoot_def psig_def frame_simps)
  have "?P (finishRecentRootDeadlines now l)"
    unfolding finishRecentRootDeadlines_def
    by (rule fold_inv, simp, rule fold_inv) (simp_all add: step)
  then show ?thesis
    by (simp add: settled_def shape_fields [OF shape_finish])
qed

lemma settled_api:
  assumes "settled l" "wf_layer l"
    and "\<And>l. wf_layer l \<Longrightarrow> settled l \<Longrightarrow> settled (body l)"
  shows "settled (snd (api now body l))"
proof -
  have "wf_layer (settleHelloTimers now (l\<lparr>l_flushes := [], l_emissions := []\<rparr>))"
    using assms(2) by (subst wf_shape [of _ l]) simp_all
  then show ?thesis
    using assms(1,3) by (simp add: api_def Let_def)
qed

text \<open>A recomputation settles any layer of the right shape.\<close>

lemma settled_recompute:
  assumes "wf_layer l" "shape l' = shape l"
  shows "settled (recomputeAll now l')"
  by (rule recomputeAll_settled) (use assms wf_shape in blast)

section \<open>The proposal handshake keeps a layer settled\<close>

text \<open>Ports that fall to Discarding stay in order as long as the CIST does not fall alone.\<close>

definition same_or_cut :: "port_state \<Rightarrow> port_state \<Rightarrow> bool" where
  "same_or_cut p p' \<longleftrightarrow> psig p' = psig p \<or>
     (rsig p' = rsig p \<and> p_state p' = StateDiscarding \<and>
      (p_boundarySyncState p' = StateNone \<longrightarrow>
         p_fwdDelayTimer p' = 0 \<or>
         (p_boundarySyncState p = StateNone \<and> p_fwdDelayTimer p' = p_fwdDelayTimer p)))"

lemma same_or_cut_rsig: "same_or_cut p p' \<Longrightarrow> rsig p' = rsig p"
  unfolding same_or_cut_def by (elim disjE conjE) (rule rsig_psig)

lemma cut_port_ok:
  assumes ok: "port_ok l i n" and s: "shape l' = shape l" and k: "link_sig l' n = link_sig l n"
    and t: "t_rootPort (tree_at l' i) = t_rootPort (tree_at l i)"
    and p: "same_or_cut (port_at l i n) (port_at l' i n)"
    and c: "same_or_cut (port_at l cistID n) (port_at l' cistID n)"
    and m: "boundary_rule l i n \<Longrightarrow> psig (port_at l' cistID n) = psig (port_at l cistID n) \<or>
              p_state (port_at l' i n) = StateDiscarding"
  shows "port_ok l' i n"
proof -
  have r: "rsig (port_at l' i n) = rsig (port_at l i n)"
    "rsig (port_at l' cistID n) = rsig (port_at l cistID n)"
    by (rule same_or_cut_rsig [OF p], rule same_or_cut_rsig [OF c])
  have "role_ok l' i n"
    using role_ok_cong [OF s k r t] ok by (simp add: port_ok_def)
  moreover have "state_ok l' i n"
  proof -
    have old: "blocked_role (p_role (port_at l i n)) \<Longrightarrow> p_state (port_at l i n) = StateDiscarding"
      "boundary_rule l i n \<Longrightarrow>
        state_rank (p_state (port_at l i n)) \<le> state_rank (p_state (port_at l cistID n)) \<and>
        (p_boundarySyncState (port_at l i n) = StateNone \<longrightarrow> p_fwdDelayTimer (port_at l i n) = 0)"
      using ok by (auto simp: port_ok_def state_ok_def Let_def)
    have role: "p_role (port_at l' i n) = p_role (port_at l i n)"
      using r(1) by (simp add: rsig_def)
    have own: "p_state (port_at l' i n) = p_state (port_at l i n) \<or>
        p_state (port_at l' i n) = StateDiscarding"
      using p by (auto simp: same_or_cut_def psig_def)
    have rank: "state_rank (p_state (port_at l' i n)) \<le> state_rank (p_state (port_at l' cistID n))"
      if b: "boundary_rule l i n"
      using m [OF b] old(2) [OF b] own by (auto simp: psig_def)
    have timer: "p_fwdDelayTimer (port_at l' i n) = 0"
      if b: "boundary_rule l i n" and "p_boundarySyncState (port_at l' i n) = StateNone"
      using p that(2) old(2) [OF b] by (auto simp: same_or_cut_def psig_def)
    show ?thesis
      unfolding state_ok_def Let_def boundary_sig [OF s k] role
      by (intro conjI impI, metis old(1) own, erule rank, erule (1) timer)
  qed
  ultimately show ?thesis
    by (simp add: port_ok_def)
qed

lemma same_or_cut_refl [simp]: "same_or_cut p p"
  by (simp add: same_or_cut_def)

text \<open>The mirror on one MSTI: its port ends Discarding with the CIST's.\<close>

lemma mirror_other:
  "j \<noteq> i \<or> m \<noteq> n \<Longrightarrow> port_at (mirror_sync n f i l) j m = port_at l j m"
  "link_sig (mirror_sync n f i l) k = link_sig l k"
  "t_rootPort (tree_at (mirror_sync n f i l) j) = t_rootPort (tree_at l j)"
  by (elim disjE; simp add: mirror_sync_def Let_def frame_simps) (simp_all add: mirror_sync_def Let_def frame_simps)

lemma mirror_own:
  assumes "i \<noteq> cistID" "has_port l i n" "p_state (port_at l cistID n) = StateDiscarding"
  shows "p_state (port_at (mirror_sync n f i l) i n) = StateDiscarding"
    "same_or_cut (port_at l i n) (port_at (mirror_sync n f i l) i n)"
proof -
  let ?p = "port_at l i n" and ?c = "port_at l cistID n"
  let ?q = "?p\<lparr>p_agreed := p_agreed ?c, p_proposing := p_proposing ?c\<rparr>"
  have eq: "port_at (mirror_sync n f i l) i n =
      (if p_state ?p \<noteq> StateDiscarding then ?q\<lparr>p_state := StateDiscarding, p_fwdDelayTimer := 0\<rparr> else ?q)"
  proof -
    obtain y where "port_of l i n = Some y"
      using assms(2) by blast
    then show ?thesis
      using assms(1,3) by (simp add: mirror_sync_def Let_def frame_simps)
  qed
  show "p_state (port_at (mirror_sync n f i l) i n) = StateDiscarding"
    unfolding eq by simp
  show "same_or_cut ?p (port_at (mirror_sync n f i l) i n)"
    unfolding eq same_or_cut_def by (simp add: psig_def rsig_def)
qed

lemma mirror_fold:
  assumes d: "distinct is" and h: "\<And>i. i \<in> set is \<Longrightarrow> has_port l i n"
    and c: "p_state (port_at l cistID n) = StateDiscarding" and l': "l' = fold (mirror_sync n f) is l"
  shows "(\<forall>k. link_sig l' k = link_sig l k) \<and>
    (\<forall>j. t_rootPort (tree_at l' j) = t_rootPort (tree_at l j)) \<and>
    (\<forall>j m. m \<noteq> n \<or> j = cistID \<or> j \<notin> set is \<longrightarrow> port_at l' j m = port_at l j m) \<and>
    (\<forall>j. same_or_cut (port_at l j n) (port_at l' j n)) \<and>
    (\<forall>j \<in> set is. j \<noteq> cistID \<longrightarrow> p_state (port_at l' j n) = StateDiscarding)"
  using d h unfolding l'
proof (induction "is" rule: rev_induct)
  case Nil
  then show ?case by simp
next
  case (snoc i "is")
  let ?s = "fold (mirror_sync n f) is l"
  have s: "shape ?s = shape l"
    by (rule shape_fold) simp
  have IH: "\<forall>k. link_sig ?s k = link_sig l k" "\<forall>j. t_rootPort (tree_at ?s j) = t_rootPort (tree_at l j)"
    "\<forall>j m. m \<noteq> n \<or> j = cistID \<or> j \<notin> set is \<longrightarrow> port_at ?s j m = port_at l j m"
    "\<forall>j. same_or_cut (port_at l j n) (port_at ?s j n)"
    "\<forall>j \<in> set is. j \<noteq> cistID \<longrightarrow> p_state (port_at ?s j n) = StateDiscarding"
    using snoc by auto
  have i: "i \<notin> set is" and hi: "has_port ?s i n"
    using snoc.prems shape_has_port [OF s] by auto
  have ci: "p_state (port_at ?s cistID n) = StateDiscarding" and pi: "port_at ?s i n = port_at l i n"
    using IH(3) c i by auto
  have skip: "mirror_sync n f i ?s = ?s" if "i = cistID"
    using that by (simp add: mirror_sync_def)
  show ?case
  proof (cases "i = cistID")
    case True
    then show ?thesis using IH skip by auto
  next
    case False
    show ?thesis
      using IH mirror_own [OF False hi ci, of f] pi i False
      by (auto simp: mirror_other) (metis mirror_other(1))+
  qed
qed

text \<open>What the cut of \<open>sync_port\<close> does before the mirror: one port falls, the rest is untouched.\<close>

definition one_cut :: "tree_id \<Rightarrow> string \<Rightarrow> stp_layer \<Rightarrow> stp_layer \<Rightarrow> bool" where
  "one_cut i n l l' \<longleftrightarrow> shape l' = shape l \<and> (\<forall>k. link_sig l' k = link_sig l k) \<and>
     (\<forall>j. t_rootPort (tree_at l' j) = t_rootPort (tree_at l j)) \<and>
     (\<forall>j m. j \<noteq> i \<or> m \<noteq> n \<longrightarrow> port_at l' j m = port_at l j m) \<and>
     same_or_cut (port_at l i n) (port_at l' i n) \<and>
     p_state (port_at l' i n) = StateDiscarding"

lemma sync_port_cases:
  assumes "has_port l i n"
  shows "sync_port i r now n l = l \<or>
    (\<exists>l' f. one_cut i n l l' \<and>
       sync_port i r now n l =
         (if i = cistID \<and> l_mst l \<noteq> None \<and> boundary l n
          then fold (mirror_sync n f) (l_treeOrder l') l' else l'))"
proof (cases "n = r \<or> \<not> has_port l i n \<or> p_role (port_at l i n) \<noteq> RoleDesignated \<or>
    k_edge (link_at l n) \<or> (p_synced (port_at l i n) \<and> p_state (port_at l i n) \<noteq> StateDiscarding)")
  case True
  then show ?thesis
    by (auto simp: sync_port_def Let_def)
next
  case False
  let ?p = "port_at l i n" and ?k = "link_at l n"
  define fresh where "fresh = (\<not> p_proposing ?p \<or> p_state ?p \<noteq> StateDiscarding)"
  define proposing where "proposing = (k_pointToPoint ?k \<and> k_sendRSTP ?k)"
  define l1 where "l1 = upd_port i n (\<lambda>p. p\<lparr>p_agreed := False\<rparr>) l"
  define l2 where "l2 = (if boundary_rule l i n \<and> \<not> p_synced ?p
      then upd_port i n (\<lambda>p. p\<lparr>p_boundarySyncState := StateDiscarding,
             p_fwdDelayTimer := now + fwdDelay_of l i\<rparr>) l1 else l1)"
  define l3 where "l3 = upd_port i n (\<lambda>p. p\<lparr>p_synced := True, p_proposing := proposing\<rparr>) l2"
  define l4 where "l4 = (if proposing \<and> fresh then requestNewInfo i n l3 else l3)"
  define l5 where "l5 = (if i = cistID \<and> proposing \<and> fresh
      then upd_link n (\<lambda>k. k\<lparr>k_edgeDelayWhile := now + edgeDelay l4 cistID ?k\<rparr>) l4 else l4)"
  define l6 where "l6 = upd_port i n (\<lambda>p. p\<lparr>p_state := StateDiscarding\<rparr>) l5"
  have eq: "sync_port i r now n l =
      (if i = cistID \<and> l_mst l \<noteq> None \<and> boundary l n
       then fold (mirror_sync n fresh) (l_treeOrder l6) l6 else l6)"
    unfolding sync_port_def Let_def if_not_P [OF False] l1_def [symmetric] fresh_def [symmetric]
      proposing_def [symmetric] l2_def [symmetric] l3_def [symmetric] l4_def [symmetric]
      l5_def [symmetric] l6_def [symmetric] ..
  obtain y where y: "port_of l i n = Some y"
    using assms by blast
  have own: "port_at l6 i n =
      (if boundary_rule l i n \<and> \<not> p_synced ?p
       then ?p\<lparr>p_agreed := False, p_boundarySyncState := StateDiscarding,
              p_fwdDelayTimer := now + fwdDelay_of l i, p_synced := True, p_proposing := proposing,
              p_state := StateDiscarding\<rparr>
       else ?p\<lparr>p_agreed := False, p_synced := True, p_proposing := proposing,
              p_state := StateDiscarding\<rparr>)"
  proof -
    have sh: "shape l1 = shape l" "shape l2 = shape l" "shape l5 = shape l"
      by (simp_all add: l1_def l2_def l3_def l4_def l5_def)
    have h: "has_port l1 i n" "has_port l2 i n" "has_port l5 i n"
      using shape_has_port [OF sh(1)] shape_has_port [OF sh(2)] shape_has_port [OF sh(3)] y
      by simp_all
    have p1: "port_at l1 i n = ?p\<lparr>p_agreed := False\<rparr>"
      using y by (simp add: l1_def port_at_upd_port)
    have p2: "port_at l2 i n = (if boundary_rule l i n \<and> \<not> p_synced ?p
        then ?p\<lparr>p_agreed := False, p_boundarySyncState := StateDiscarding,
               p_fwdDelayTimer := now + fwdDelay_of l i\<rparr> else ?p\<lparr>p_agreed := False\<rparr>)"
      using h(1) p1 by (simp add: l2_def port_at_upd_port)
    have p3: "port_at l3 i n = (port_at l2 i n)\<lparr>p_synced := True, p_proposing := proposing\<rparr>"
      using h(2) by (simp add: l3_def port_at_upd_port)
    have p5: "port_at l5 i n = port_at l3 i n"
      by (simp add: l5_def l4_def frame_simps)
    have "port_at l6 i n = (port_at l5 i n)\<lparr>p_state := StateDiscarding\<rparr>"
      using h(3) by (simp add: l6_def port_at_upd_port)
    then show ?thesis
      by (simp add: p5 p3 p2)
  qed
  have "one_cut i n l l6"
    unfolding one_cut_def
  proof (intro conjI allI impI)
    show "shape l6 = shape l"
      by (simp add: l6_def l5_def l4_def l3_def l2_def l1_def)
    show "link_sig l6 k = link_sig l k" for k
      by (simp add: l6_def l5_def l4_def l3_def l2_def l1_def)
    show "t_rootPort (tree_at l6 j) = t_rootPort (tree_at l j)" for j
      by (simp add: l6_def l5_def l4_def l3_def l2_def l1_def frame_simps)
    show "port_at l6 j m = port_at l j m" if "j \<noteq> i \<or> m \<noteq> n" for j m
    proof -
      have u: "k = i \<Longrightarrow> port_at (upd_port k n f s) j m = port_at s j m" for k f s
        using that by (auto simp: port_at_upd_port)
      show ?thesis
        by (simp add: l6_def l5_def l4_def l3_def l2_def l1_def u port_at_other requestNewInfo_frame)
    qed
    show "same_or_cut ?p (port_at l6 i n)"
      unfolding own same_or_cut_def by (simp add: rsig_def)
    show "p_state (port_at l6 i n) = StateDiscarding"
      unfolding own by simp
  qed
  with eq show ?thesis
    by blast
qed

lemma wf_port_in:
  assumes "wf_layer l" "has_port l i n"
  shows "i \<in> set (l_treeOrder l)" "n \<in> set (l_portNames l)"
proof -
  have "map_of (l_trees l) i \<noteq> None"
    using assms(2) by (auto simp: tree_at_def split: option.splits)
  then have "i \<in> fst ` set (l_trees l)"
    by (simp add: map_of_eq_None_iff)
  then show i: "i \<in> set (l_treeOrder l)"
    using assms(1) by (metis wf_layer_def list.set_map)
  show "n \<in> set (l_portNames l)"
    using wf_has_port [OF assms(1) i] assms(2) by simp
qed

lemma one_cut_ok:
  assumes "port_ok l j m" "one_cut i n l l'" "boundary_rule l j m \<Longrightarrow> m = n \<Longrightarrow> i \<noteq> cistID \<or> j = i"
  shows "port_ok l' j m"
proof (rule cut_port_ok [OF assms(1)])
  have c: "same_or_cut (port_at l j m) (port_at l' j m)" for j m
    using assms(2) by (cases "j = i \<and> m = n") (auto simp: one_cut_def)
  then show "same_or_cut (port_at l j m) (port_at l' j m)"
    "same_or_cut (port_at l cistID m) (port_at l' cistID m)" by simp_all
  show "psig (port_at l' cistID m) = psig (port_at l cistID m) \<or>
      p_state (port_at l' j m) = StateDiscarding" if "boundary_rule l j m"
  proof (cases "j = i \<and> m = n")
    case True
    then show ?thesis using assms(2) by (simp add: one_cut_def)
  next
    case False
    then have "i \<noteq> cistID \<or> m \<noteq> n"
      using assms(3) [OF that] by blast
    then show ?thesis
      using assms(2) by (auto simp: one_cut_def)
  qed
qed (use assms(2) in \<open>simp_all add: one_cut_def\<close>)

lemma settled_sync_port:
  assumes w: "wf_layer l" and s: "settled l"
  shows "settled (sync_port i r now n l)"
proof (cases "has_port l i n")
  case False
  then show ?thesis
    using s by (simp add: sync_port_def Let_def)
next
  case True
  consider "sync_port i r now n l = l"
    | (plain) l' where "one_cut i n l l'" "sync_port i r now n l = l'"
        "\<not> (i = cistID \<and> l_mst l \<noteq> None \<and> boundary l n)"
    | (mirror) l' f where "one_cut i n l l'" "i = cistID"
        "sync_port i r now n l = fold (mirror_sync n f) (l_treeOrder l') l'"
    using sync_port_cases [OF True, of r now] by (auto split: if_splits)
  then show ?thesis
  proof cases
    case 1
    then show ?thesis using s by simp
  next
    case plain
    show ?thesis
    proof (rule settledI [OF s shape_sync_port])
      fix j m
      assume ok: "port_ok l j m"
      show "port_ok (sync_port i r now n l) j m"
        unfolding plain(2)
        by (rule one_cut_ok [OF ok plain(1)]) (use plain(3) in \<open>auto simp: boundary_rule_def\<close>)
    qed
  next
    case mirror
    let ?l = "sync_port i r now n l"
    have cut: "shape l' = shape l" "\<And>k. link_sig l' k = link_sig l k"
      "\<And>j. t_rootPort (tree_at l' j) = t_rootPort (tree_at l j)"
      "\<And>j m. j \<noteq> i \<or> m \<noteq> n \<Longrightarrow> port_at l' j m = port_at l j m"
      "same_or_cut (port_at l i n) (port_at l' i n)" "p_state (port_at l' i n) = StateDiscarding"
      using mirror(1) by (auto simp: one_cut_def)
    have w': "wf_layer l'" and order: "l_treeOrder l' = l_treeOrder l"
      using w wf_shape [OF cut(1)] shape_fields(12) [OF cut(1)] by auto
    have n: "n \<in> set (l_portNames l')"
      using wf_port_in(2) [OF w True] shape_fields(9) [OF cut(1)] by simp
    have "distinct (l_treeOrder l')" "\<And>j. j \<in> set (l_treeOrder l') \<Longrightarrow> has_port l' j n"
      using w' wf_has_port [OF w'] n by (auto simp: wf_layer_def)
    have f: "\<forall>k. link_sig ?l k = link_sig l' k"
      "\<forall>j. t_rootPort (tree_at ?l j) = t_rootPort (tree_at l' j)"
      "\<forall>j m. m \<noteq> n \<or> j = cistID \<or> j \<notin> set (l_treeOrder l') \<longrightarrow> port_at ?l j m = port_at l' j m"
      "\<forall>j. same_or_cut (port_at l' j n) (port_at ?l j n)"
      "\<forall>j \<in> set (l_treeOrder l'). j \<noteq> cistID \<longrightarrow> p_state (port_at ?l j n) = StateDiscarding"
      using mirror_fold [OF \<open>distinct (l_treeOrder l')\<close> \<open>\<And>j. j \<in> set (l_treeOrder l') \<Longrightarrow> has_port l' j n\<close>
          _ mirror(3)] cut(6) mirror(2) by auto
    show ?thesis
      unfolding settled_def shape_fields [OF shape_sync_port]
    proof (intro ballI)
      fix j m
      assume j: "j \<in> set (l_treeOrder l)" and "m \<in> set (l_portNames l)"
      then have ok: "port_ok l j m"
        using s by (simp add: settled_def)
      show "port_ok ?l j m"
      proof (cases "m = n")
        case False
        then have "port_at ?l k m = port_at l k m" for k
          using f(3) cut(4) by simp
        then show ?thesis
          using port_ok_cong [of ?l l m j] ok f cut by simp
      next
        case True
        have own: "same_or_cut (port_at l k n) (port_at ?l k n)" for k
        proof (cases "k = cistID")
          case True
          then show ?thesis using f(3) cut(5) mirror(2) by simp
        next
          case False
          then have "port_at l' k n = port_at l k n"
            using cut(4) mirror(2) by simp
          then show ?thesis
            using f(4) by metis
        qed
        show ?thesis
          unfolding True
        proof (rule cut_port_ok [OF ok [unfolded True]])
          show "psig (port_at ?l cistID n) = psig (port_at l cistID n) \<or>
              p_state (port_at ?l j n) = StateDiscarding" if "boundary_rule l j n"
            using that f(5) j order by (auto simp: boundary_rule_def)
        qed (use own f(1,2) cut(2,3) in simp_all)
      qed
    qed
  qed
qed

text \<open>A pass over several of them.\<close>

abbreviation wf_settled :: "stp_layer \<Rightarrow> bool" where
  "wf_settled l \<equiv> wf_layer l \<and> settled l"

lemma wf_settledI: "wf_layer l \<Longrightarrow> shape l' = shape l \<Longrightarrow> settled l' \<Longrightarrow> wf_settled l'"
  using wf_shape by blast

lemma settled_handleProposal:
  assumes "wf_settled l"
  shows "wf_settled (handleProposal i n now l)"
  unfolding handleProposal_def syncTree_def
proof (rule fold_inv [where P = wf_settled])
  show "wf_settled (sync_port i n now x s)" if "wf_settled s" for x s
    by (rule wf_settledI [of s]) (use that settled_sync_port in auto)
qed (rule assms)

lemma settled_answer_tree:
  "wf_settled (snd s) \<Longrightarrow> wf_settled (snd (answer_tree n now j s))"
  by (cases s) (simp add: answer_tree_def settled_handleProposal)

lemma settled_answer_fold:
  "wf_settled (snd s) \<Longrightarrow> wf_settled (snd (fold (answer_tree n now) js s))"
  by (rule fold_inv [where P = "\<lambda>s. wf_settled (snd s)"]) (simp_all add: settled_answer_tree)

lemma settled_answerProposals:
  assumes "wf_settled l"
  shows "wf_settled (snd (answerProposals i n b ps now l))"
  unfolding answerProposals_def Let_def
  by (rule settled_answer_fold)
    (use assms settled_handleProposal in \<open>auto intro!: settled_answer_fold\<close>)

lemma settled_answer_segment:
  assumes "wf_settled l"
  shows "settled (answer_segment i n now b v ps l)"
  using settled_answerProposals [OF assms, of i n b ps now]
  by (simp add: answer_segment_def Let_def case_prod_beta)

lemma settled_applyBPDU:
  assumes "wf_layer l"
  shows "settled (applyBPDU i n now b l)"
proof -
  have "settled (answer_segment i n now b v ps (recomputeAll now l'))" if "shape l' = shape l" for v ps l'
    by (intro settled_answer_segment wf_settledI [OF assms] settled_recompute [OF assms])
      (simp_all add: that)
  then show ?thesis
    by (simp add: applyBPDU_def Let_def case_prod_beta settled_recompute [OF assms])
qed

section \<open>Every call keeps a layer settled\<close>

lemma settled_mcheck:
  assumes "wf_layer l" "settled l"
  shows "settled (mcheck_body now port l)"
proof -
  have "shape (mcheck_link now port l) = shape l"
    by (simp add: mcheck_link_def Let_def)
  then show ?thesis
    using assms settled_recompute [OF assms(1)] by (simp add: mcheck_body_def Let_def)
qed

lemma settled_link_down:
  assumes "wf_layer l" "settled l"
  shows "settled (link_down now port l)"
proof -
  have "shape (down_port now port i l) = shape l" "shape (deactivate_on port i l) = shape l" for i l
    by (simp_all add: down_port_def deactivate_on_def)
  then show ?thesis
    using assms settled_recompute [OF assms(1)] by (simp add: link_down_def Let_def shape_fold)
qed

lemma settled_link_up:
  assumes "wf_layer l" "settled l"
  shows "settled (link_up now port p2p c l)"
proof -
  have "shape (reprice_port c port i l) = shape l" for i l
    by (simp add: reprice_port_def)
  then show ?thesis
    using assms settled_recompute [OF assms(1)] by (simp add: link_up_def Let_def shape_fold)
qed

lemma wf_arm [simp]: "wf_layer (armHelloTimers now l) = wf_layer l"
  by (rule wf_shape) simp

lemma settled_linkChange:
  assumes "wf_layer l" "settled l"
  shows "settled (linkChange_body now port up p2p speed l)"
  using assms by (simp add: linkChange_body_def Let_def settled_link_down settled_link_up)

lemma settled_receiveLink:
  assumes "wf_layer l" "settled l" "fst (receiveLink now port b l)"
  shows "settled (snd (receiveLink now port b l))"
proof -
  have "shape (guard_port port i l) = shape l" for i l
    by (simp add: guard_port_def)
  then have "settled (bpdu_guard now port l)"
    by (simp add: bpdu_guard_def Let_def shape_fold settled_recompute [OF assms(1)])
  then show ?thesis
    using assms(2,3) by (auto simp: receiveLink_def Let_def split: if_splits)
qed

lemma settled_rx [simp]:
  "settled (upd_link n (\<lambda>k. k\<lparr>k_rxBPDUs := k_rxBPDUs k + 1\<rparr>) l) = settled l"
  "settled (upd_link n (\<lambda>k. k\<lparr>k_badBPDUs := k_badBPDUs k + 1\<rparr>) l) = settled l"
  "settled (upd_link n (\<lambda>k. k\<lparr>k_pvstBoundary := b\<rparr>) l) = settled l"
  by (rule settled_link, simp)+

lemma wf_upd_link [simp]: "wf_layer (upd_link n f l) = wf_layer l"
  by (rule wf_shape) simp

lemma settled_receive_inner:
  assumes "wf_layer l" "settled l"
  shows "settled (receive_inner now port b l)"
proof -
  define l1 where "l1 = (if l_pvst l \<noteq> None \<and> b_ConfigID b \<noteq> None
      then upd_link port (\<lambda>k. k\<lparr>k_pvstBoundary := True\<rparr>) l else l)"
  have l1: "wf_layer l1" "settled l1"
    using assms by (simp_all add: l1_def)
  define l2 where "l2 = snd (receiveLink now port b l1)"
  have sh: "shape l2 = shape l1"
    by (simp add: l2_def)
  have "wf_layer (upd_port cistID port (\<lambda>p. p\<lparr>p_loopInconsistent := False\<rparr>) l2)"
    by (rule iffD2 [OF wf_shape l1(1)]) (simp add: sh)
  then show ?thesis
    using settled_receiveLink [OF l1, of now port b, folded l2_def] settled_recompute [OF l1(1)]
    unfolding receive_inner_def Let_def case_prod_beta l1_def [symmetric] l2_def [symmetric]
    by (simp add: sh settled_applyBPDU)
qed

lemma settled_receive:
  assumes "wf_layer l" "settled l"
  shows "settled (receive_body now port b l)"
  using assms by (simp add: receive_body_def Let_def settled_receive_inner)

lemma settled_sstp:
  assumes "wf_layer l" "settled l"
  shows "settled (snd (sstp_outcome_of now port a b l))"
proof -
  have inner: "settled (snd (sstp_inner now port a b l))" if l: "wf_layer l" "settled l" for l
  proof -
    define l1 where "l1 = snd (receiveLink now port b l)"
    define l2 where "l2 = (if l_pvst l1 = None
        then upd_link port (\<lambda>k. k\<lparr>k_pvstBoundary := True\<rparr>) l1 else l1)"
    define l3 where "l3 = armHelloTimers now l2"
    have sh: "shape l1 = shape l" "shape l2 = shape l" "shape l3 = shape l"
      by (simp_all add: l3_def l2_def l1_def)
    have w3: "wf_layer (upd_port i port (\<lambda>p. p\<lparr>p_pvidInconsistent := False,
        p_loopInconsistent := False\<rparr>) l3)" for i
      by (rule iffD2 [OF wf_shape l(1)]) (simp add: sh)
    have g: "settled l2" if "fst (receiveLink now port b l)"
      using settled_receiveLink [OF l that] by (simp add: l2_def l1_def)
    show ?thesis
      using g settled_recompute [OF l(1)] settled_applyBPDU [OF w3]
      by (simp add: sstp_inner_def Let_def case_prod_beta l1_def [symmetric] l2_def [symmetric]
          l3_def [symmetric] sh split: option.split)
  qed
  show ?thesis
    using assms inner by (simp add: sstp_outcome_of_def Let_def case_prod_beta)
qed

text \<open>
  \<^verbatim>\<open>Advance\<close> skips the recomputation when nothing but the first rung of a ladder was climbed.
\<close>

lemma expire_unchanged:
  "\<not> fst (expireReceivedInfo now l) \<Longrightarrow> snd (expireReceivedInfo now l) = l"
proof -
  let ?P = "\<lambda>s. fst s \<or> snd s = l"
  have row: "?P (fold (expire_port now i) ns s)" if "?P s" for i ns s
    by (rule fold_inv [where P = ?P, OF that])
      (auto simp: expire_port_def Let_def split: if_splits prod.splits)
  have "?P (expireReceivedInfo now l)"
    unfolding expireReceivedInfo_def by (rule fold_inv) (simp_all add: row)
  then show "\<not> fst (expireReceivedInfo now l) \<Longrightarrow> snd (expireReceivedInfo now l) = l"
    by simp
qed

lemma auto_edge_unchanged:
  "\<not> fst (advanceAutoEdge now l) \<Longrightarrow> snd (advanceAutoEdge now l) = l"
proof -
  have "fst (advanceAutoEdge now l) \<or> snd (advanceAutoEdge now l) = l"
    unfolding advanceAutoEdge_def
    by (rule fold_inv) (auto simp: auto_edge_port_def Let_def split: if_splits prod.splits)
  then show "\<not> fst (advanceAutoEdge now l) \<Longrightarrow> snd (advanceAutoEdge now l) = l"
    by simp
qed

lemma forward_port_quiet:
  assumes "\<not> fst (forward_port now d i n (c, l))"
  shows "snd (forward_port now d i n (c, l)) = l \<or>
    (has_port l i n \<and> p_fwdDelayTimer (port_at l i n) \<noteq> 0 \<and>
     \<not> (boundary_rule l i n \<and> p_boundarySyncState (port_at l i n) \<noteq> StateNone) \<and>
     (\<exists>f. snd (forward_port now d i n (c, l)) = upd_port i n f l \<and>
       rsig (f (port_at l i n)) = rsig (port_at l i n) \<and>
       p_boundarySyncState (f (port_at l i n)) = p_boundarySyncState (port_at l i n) \<and>
       (p_state (f (port_at l i n)) = p_state (port_at l i n) \<or>
        (p_state (port_at l i n) = StateDiscarding \<and> active_role (p_role (port_at l i n))))))"
proof -
  let ?p = "port_at l i n"
  have two: "upd_port i n g (upd_port i n f l) = upd_port i n (\<lambda>p. g (f p)) l" for f g
    by (simp add: upd_port_def upd_tree_def upd_def if_distrib cong: if_cong)
  show ?thesis
  proof (cases "\<not> has_port l i n \<or> p_fwdDelayTimer ?p = 0 \<or> now < p_fwdDelayTimer ?p")
    case True
    then show ?thesis by (auto simp: forward_port_def Let_def)
  next
    case False
    show ?thesis
    proof (cases "boundary_rule l i n \<and> p_boundarySyncState ?p \<noteq> StateNone")
      case True
      then show ?thesis
        using assms False by (auto simp: forward_port_def Let_def)
    next
      case nb: False
      have "\<exists>f. snd (forward_port now d i n (c, l)) = upd_port i n f l \<and>
         rsig (f ?p) = rsig ?p \<and> p_boundarySyncState (f ?p) = p_boundarySyncState ?p \<and>
         (p_state (f ?p) = p_state ?p \<or> (p_state ?p = StateDiscarding \<and> active_role (p_role ?p)))"
      proof (cases "active_role (p_role ?p) \<and> p_state ?p = StateDiscarding")
        case True
        then have "snd (forward_port now d i n (c, l)) = upd_port i n (\<lambda>p. p\<lparr>p_fwdDelayTimer := 0,
            p_state := StateLearning, p_fwdDelayTimer := now + d\<rparr>) l"
          unfolding forward_port_def Let_def prod.case if_not_P [OF False] if_not_P [OF nb]
          by (simp add: two)
        then show ?thesis
          using True by (intro exI conjI) (assumption, simp_all add: rsig_def)
      next
        case b: False
        then have "snd (forward_port now d i n (c, l)) = upd_port i n (\<lambda>p. p\<lparr>p_fwdDelayTimer := 0\<rparr>) l"
          using assms
          unfolding forward_port_def Let_def prod.case if_not_P [OF False] if_not_P [OF nb]
          by (auto split: state.splits if_splits)
        then show ?thesis
          by (intro exI conjI) (assumption, simp_all add: rsig_def)
      qed
      then show ?thesis
        using False nb by blast
    qed
  qed
qed

lemma forward_port_fst: "fst s \<Longrightarrow> fst (forward_port now d i n s)"
  by (cases s) (simp add: forward_port_def Let_def split: state.split)

lemma settled_forward_port:
  assumes ok: "\<And>j m. j \<in> set (l_treeOrder l) \<Longrightarrow> m \<in> set (l_portNames l) \<Longrightarrow> port_ok l j m"
    and w: "wf_layer l" and q: "\<not> fst (forward_port now d i n (c, l))"
    and j: "j \<in> set (l_treeOrder l)" and m: "m \<in> set (l_portNames l)"
  shows "port_ok (snd (forward_port now d i n (c, l))) j m"
proof -
  let ?p = "port_at l i n" and ?l = "snd (forward_port now d i n (c, l))"
  consider "?l = l" | (up) f where "has_port l i n" "p_fwdDelayTimer ?p \<noteq> 0"
      "\<not> (boundary_rule l i n \<and> p_boundarySyncState ?p \<noteq> StateNone)"
      "?l = upd_port i n f l" "rsig (f ?p) = rsig ?p"
      "p_boundarySyncState (f ?p) = p_boundarySyncState ?p"
      "p_state (f ?p) = p_state ?p \<or> (p_state ?p = StateDiscarding \<and> active_role (p_role ?p))"
    using forward_port_quiet [OF q] by blast
  then show ?thesis
  proof cases
    case 1
    then show ?thesis using ok [OF j m] by simp
  next
    case up
    have own: "port_ok l i n"
      using ok wf_port_in [OF w up(1)] by blast
    have nb: "\<not> boundary_rule l i n"
      using own up(2,3) by (auto simp: port_ok_def state_ok_def Let_def)
    have sh: "shape ?l = shape l"
      by simp
    have k: "link_sig ?l m = link_sig l m" and t: "t_rootPort (tree_at ?l j) = t_rootPort (tree_at l j)"
      by (simp_all add: up(4) frame_simps)
    have at: "port_at ?l j m = (if j = i \<and> m = n then f ?p else port_at l j m)" for j m
      using up(1) by (auto simp: up(4) port_at_upd_port)
    have r: "rsig (port_at ?l j m) = rsig (port_at l j m)" for j m
      by (simp add: at up(5))
    have rank: "state_rank (p_state (port_at l j m)) \<le> state_rank (p_state (port_at ?l j m))" for j m
      using up(7) by (auto simp: at)
    have role: "p_role (port_at ?l j m) = p_role (port_at l j m)" for j m
      using r [of j m] by (simp add: rsig_def)
    have "role_ok ?l j m"
      using role_ok_cong [OF sh k r r t] ok [OF j m] by (simp add: port_ok_def)
    moreover have "state_ok ?l j m"
    proof -
      have old: "state_ok l j m"
        using ok [OF j m] by (simp add: port_ok_def)
      show ?thesis
      proof (cases "j = i \<and> m = n")
        case True
        then have "\<not> boundary_rule ?l j m"
          using nb boundary_sig [OF sh k] by simp
        moreover have "p_state (port_at ?l j m) = StateDiscarding" if "blocked_role (p_role (port_at l j m))"
        proof -
          have "p_state (port_at l j m) = StateDiscarding"
            using that old by (auto simp: state_ok_def Let_def)
          then show ?thesis
            using that up(7) True at by (metis role.distinct)
        qed
        ultimately show ?thesis
          unfolding state_ok_def Let_def role by blast
      next
        case False
        then have "port_at ?l j m = port_at l j m"
          using at by auto
        then show ?thesis
          using old order_trans [OF _ rank [of cistID m]]
          unfolding state_ok_def Let_def boundary_sig [OF sh k] by simp
      qed
    qed
    ultimately show ?thesis
      by (simp add: port_ok_def)
  qed
qed

lemma forward_row_fst: "fst s \<Longrightarrow> fst (fold (forward_port now d i) ns s)"
  by (rule fold_inv [where P = fst]) (simp_all add: forward_port_fst)

lemma advance_forward_quiet:
  assumes "wf_layer l" "settled l" "\<not> fst (advanceForwardDelay now l)"
  shows "settled (snd (advanceForwardDelay now l))"
proof -
  let ?P = "\<lambda>s. fst s \<or> wf_settled (snd s)"
  have port: "?P (forward_port now d i n s)" if "?P s" for d i n s
  proof (cases "fst (forward_port now d i n s)")
    case False
    then have "\<not> fst s" using forward_port_fst by blast
    then obtain k where s: "s = (False, k)"
      by (cases s) auto
    have ws: "wf_settled k" and q: "\<not> fst (forward_port now d i n (False, k))"
      using that False s by auto
    have "settled (snd (forward_port now d i n (False, k)))"
      unfolding settled_def shape_fields [OF shape_forward_port] snd_conv
      using settled_forward_port [OF _ _ q] ws by (simp add: settled_def)
    then have "wf_settled (snd (forward_port now d i n s))"
      unfolding s using ws by (intro wf_settledI [of k]) simp_all
    then show ?thesis by blast
  qed blast
  have row: "?P (fold (forward_port now d i) ns s)" if "?P s" for d i ns s
    by (rule fold_inv [where P = ?P, OF that]) (rule port)
  have "?P (advanceForwardDelay now l)"
    unfolding advanceForwardDelay_def
    by (rule fold_inv [where P = ?P]) (use assms(1,2) row in auto)
  with assms(3) show ?thesis by blast
qed

lemma settled_advance:
  assumes "wf_layer l" "settled l"
  shows "settled (advance_body now l)"
proof -
  define l1 where "l1 = snd (expireReceivedInfo now l)"
  define l2 where "l2 = snd (advanceAutoEdge now l1)"
  define l3 where "l3 = snd (advanceForwardDelay now l2)"
  have sh: "shape (clearExpiredTCWhile now l3) = shape l"
    by (simp add: l3_def l2_def l1_def)
  have quiet: "settled l3"
    if "\<not> fst (expireReceivedInfo now l)" "\<not> fst (advanceAutoEdge now l1)"
      "\<not> fst (advanceForwardDelay now l2)"
    using that assms expire_unchanged auto_edge_unchanged advance_forward_quiet
    by (auto simp: l1_def l2_def l3_def)
  show ?thesis
    using settled_recompute [OF assms(1) sh] quiet
    unfolding advance_body_def Let_def case_prod_beta l1_def [symmetric] l2_def [symmetric]
      l3_def [symmetric]
    by auto
qed

lemma settled_perform:
  assumes "wf_layer l" "settled l"
  shows "settled (snd (perform ev l))"
proof (cases ev)
  case (EvMcheck now port)
  then show ?thesis
    using settled_api [OF assms(2,1) settled_mcheck] by (simp add: Mcheck_def)
next
  case (EvLink now port up p2p speed)
  then show ?thesis
    using settled_api [OF assms(2,1) settled_linkChange] by (simp add: LinkChange_def)
next
  case (EvReceive now port b)
  then show ?thesis
    using settled_api [OF assms(2,1) settled_receive] by (simp add: Receive_def)
next
  case (EvSSTP now port a b)
  then show ?thesis
    unfolding EvSSTP snd_api_sstp by (intro settled_api [OF assms(2,1) settled_sstp])
next
  case (EvAdvance now)
  then show ?thesis
    using settled_api [OF assms(2,1) settled_advance] by (simp add: Advance_def)
next
  case (EvBad port)
  then show ?thesis
    using assms by (simp add: BadBPDU_def)
qed

text \<open>A new layer: no link is up, and every port is Disabled and Discarding.\<close>

lemma init_tx_frame:
  "l_trees (init_tx i n l) = l_trees l" "l_links (init_tx i n l) = l_links l"
  by (simp_all add: init_tx_def Let_def)

lemma new_parts:
  assumes "l = newLayer h cfg" "t \<in> snd ` set (l_trees l)"
  shows "\<exists>bid tp vid i names. t = new_tree cfg names i vid bid tp"
proof -
  define P where "P l \<longleftrightarrow> l_cfg (l :: stp_layer) = cfg \<and>
    (\<forall>t \<in> snd ` set (l_trees l). \<exists>bid tp vid i names. t = new_tree cfg names i vid bid tp)" for l
  have base: "P (base_layer h cfg)"
    by (simp add: P_def base_layer_def Let_def case_prod_beta) blast
  have inst: "P (init_instance cfg insts k l)" if "P l" for insts k l
    using that by (auto simp: P_def init_instance_def addTree_def split: option.splits) blast
  have vlan: "P (init_vlan cfg q p k l)" if "P l" for q p k l
    using that by (auto simp: P_def init_vlan_def addTree_def Let_def) blast
  have m: "P (initMST cfg m (base_layer h cfg))" for m
    unfolding initMST_def by (rule fold_inv [where P = P, OF base]) (rule inst)
  have p: "P (initPVST cfg q p l)" if "P l" for q p l
    unfolding initPVST_def by (rule fold_inv [where P = P]) (use that vlan in \<open>auto simp: P_def\<close>)
  define l2 where "l2 = (case c_PVST cfg of
      None \<Rightarrow> case c_MST cfg of None \<Rightarrow> base_layer h cfg | Some m \<Rightarrow> initMST cfg m (base_layer h cfg)
    | Some p \<Rightarrow> initPVST cfg (l_priority (base_layer h cfg)) p
        (case c_MST cfg of None \<Rightarrow> base_layer h cfg | Some m \<Rightarrow> initMST cfg m (base_layer h cfg)))"
  have l2: "P l2"
    unfolding l2_def using base m p by (cases "c_PVST cfg"; cases "c_MST cfg") simp_all
  have "l = fold (\<lambda>i l. fold (init_tx i) (l_portNames l) l) (l_treeOrder l2) l2"
    using assms(1) by (simp add: newLayer_def Let_def l2_def)
  then have "l_trees l = l_trees l2"
    by (simp add: fold_const [where g = l_trees] init_tx_frame)
  then show ?thesis
    using l2 assms(2) by (auto simp: P_def)
qed

lemma new_tree_ports:
  "map_of (t_ports (new_tree cfg names i vid bid tp)) n = Some p \<Longrightarrow>
   p_role p = RoleDisabled \<and> p_state p = StateDiscarding \<and> \<not> p_loopInconsistent p \<and>
   \<not> p_pvidInconsistent p \<and> p_fwdDelayTimer p = 0 \<and> p_boundarySyncState p = StateNone"
  by (auto simp: new_tree_def new_port_def Let_def zero_pstate_def dest!: map_of_SomeD)

lemma new_links:
  assumes "l = newLayer h cfg"
  shows "l_links l = map (new_link cfg) (sortedKeys (c_Ports cfg))"
proof -
  have inst: "l_links (init_instance cfg insts k l) = l_links l" for insts k l
    by (auto simp: init_instance_def addTree_def split: option.splits)
  have vlan: "l_links (init_vlan cfg q p k l) = l_links l" for q p k l
    by (auto simp: init_vlan_def addTree_def Let_def)
  show ?thesis
    using assms
    by (simp add: newLayer_def Let_def fold_const [where g = l_links] init_tx_frame initMST_def
        initPVST_def inst vlan split: option.split) (simp add: base_layer_def Let_def case_prod_beta)
qed

lemma settled_new:
  assumes "l = newLayer h cfg" "wf_layer l"
  shows "settled l"
  unfolding settled_def
proof (intro ballI)
  fix i n
  assume i: "i \<in> set (l_treeOrder l)" and n: "n \<in> set (l_portNames l)"
  have p: "p_role (port_at l j n) = RoleDisabled \<and> p_state (port_at l j n) = StateDiscarding \<and>
      \<not> p_loopInconsistent (port_at l j n) \<and> \<not> p_pvidInconsistent (port_at l j n) \<and>
      p_fwdDelayTimer (port_at l j n) = 0 \<and> p_boundarySyncState (port_at l j n) = StateNone"
    if j: "j \<in> set (l_treeOrder l)" for j
  proof -
    have "(j, tree_at l j) \<in> set (l_trees l)"
      using wf_tree_at(1) [OF assms(2) j] by (rule map_of_SomeD)
    then have "tree_at l j \<in> snd ` set (l_trees l)"
      by force
    then obtain bid tp vid k names where t: "tree_at l j = new_tree cfg names k vid bid tp"
      using new_parts [OF assms(1)] by blast
    obtain p where "port_of l j n = Some p"
      using wf_has_port [OF assms(2) j] n by blast
    then show ?thesis
      using new_tree_ports t by (auto simp: port_at_def)
  qed
  have "\<not> k_up (link_at l n)"
  proof -
    obtain k where k: "map_of (l_links l) n = Some k"
      using wf_link [OF assms(2)] n by blast
    then have "(n, k) \<in> set (map (new_link cfg) (sortedKeys (c_Ports cfg)))"
      using new_links [OF assms(1)] by (metis map_of_SomeD)
    then have "\<not> k_up k"
      by (auto simp: new_link_def Let_def zero_link_def)
    with k show ?thesis
      by (simp add: link_at_def)
  qed
  then show "port_ok l i n"
    using p [OF i] p [OF wf_cist [OF assms(2)]]
    by (simp add: port_ok_def role_ok_def state_ok_def Let_def)
qed

lemma new_state_settled: "new_state h cfg tbl l \<Longrightarrow> settled l"
  using settled_new [of l h "config_Normalize cfg"] new_state_wf [of h cfg tbl l]
  by (auto simp: new_state_def New_def split: option.splits)

lemma step_settled: "wf_layer l \<Longrightarrow> settled l \<Longrightarrow> stp_step l l' \<Longrightarrow> settled l'"
  by (erule stp_stepE) (metis settled_perform snd_conv)

interpretation stp_settled: invariant_on "new_state h cfg tbl" stp_step wf_layer settled
  for h cfg tbl
  by unfold_locales (use new_state_settled step_settled in blast)+

lemma reachable_settled:
  "stp_reachable h cfg tbl l \<Longrightarrow> settled l" "stp_reachable h cfg tbl l \<Longrightarrow> wf_layer l"
  by (rule stp_settled.reachable_inv2, assumption) (rule stp_wf.reachable_inv)

end
