(* ===== verification/Stp_Example.thy ===== *)
theory Stp_Example
  imports Stp_Reach
begin

text \<open>
  Concrete bridges the witnesses evaluate: a bridge with two ports, the states a few calls reach
  from it, and an MSTP bridge of one instance.
\<close>

definition ex_table :: port_table where
  "ex_table =
     (let p = (\<lambda>n. zero_port\<lparr>pt_Name := n, pt_AdminStatus := Up, pt_OperStatus := Up\<rparr>);
          ps = [p ''a'', p ''b'']
      in \<lparr>tb_ports = ps, tb_byName = index_ports ps\<rparr>)"

definition ex_config :: "u16 \<Rightarrow> mac \<Rightarrow> stp_port \<Rightarrow> stp_config" where
  "ex_config prio address a =
     \<lparr>c_Priority = prio, c_PriorityPresent = True, c_Address = address, c_HelloTime = 0,
      c_MaxAge = 0, c_ForwardDelay = 0, c_TxHoldCount = 0,
      c_Ports = [(''b'', zero_stp_port), (''a'', a)], c_MST = None, c_PVST = None\<rparr>"

text \<open>A stand-in for the keyed digest, of its documented 16 octets.\<close>

abbreviation no_digest :: "byte list \<Rightarrow> byte list \<Rightarrow> byte list" where
  "no_digest \<equiv> \<lambda>_ _. replicate 16 0"

definition ex_layer :: "u16 \<Rightarrow> mac \<Rightarrow> stp_port \<Rightarrow> stp_layer" where
  "ex_layer prio address a = newLayer no_digest (config_Normalize (ex_config prio address a))"

text \<open>The better bridge, the worse one, and the worse one with a guarded port \<open>a\<close>.\<close>

definition root_bridge :: stp_layer where
  "root_bridge = ex_layer 4096 (MAC 2 0 0 0 0 1) zero_stp_port"

abbreviation leaf_cfg :: stp_config where
  "leaf_cfg \<equiv> ex_config 8192 (MAC 2 0 0 0 0 2) zero_stp_port"

definition leaf_bridge :: stp_layer where
  "leaf_bridge = ex_layer 8192 (MAC 2 0 0 0 0 2) zero_stp_port"

abbreviation guard_cfg :: stp_config where
  "guard_cfg \<equiv> ex_config 8192 (MAC 2 0 0 0 0 2) (zero_stp_port\<lparr>a_BPDUGuard := True\<rparr>)"

definition guard_bridge :: stp_layer where
  "guard_bridge = ex_layer 8192 (MAC 2 0 0 0 0 2) (zero_stp_port\<lparr>a_BPDUGuard := True\<rparr>)"

abbreviation loop_cfg :: stp_config where
  "loop_cfg \<equiv> ex_config 8192 (MAC 2 0 0 0 0 2) (zero_stp_port\<lparr>a_LoopGuard := True\<rparr>)"

definition loop_bridge :: stp_layer where
  "loop_bridge = ex_layer 8192 (MAC 2 0 0 0 0 2) (zero_stp_port\<lparr>a_LoopGuard := True\<rparr>)"

lemma ex_new:
  "new_state no_digest leaf_cfg ex_table leaf_bridge"
  "new_state no_digest guard_cfg ex_table guard_bridge"
  "new_state no_digest loop_cfg ex_table loop_bridge"
proof -
  have "config_Validate ex_table leaf_cfg = None" "config_Validate ex_table guard_cfg = None"
    "config_Validate ex_table loop_cfg = None" "Table_Port ex_table '''' = None"
    by code_simp+
  then show "new_state no_digest leaf_cfg ex_table leaf_bridge"
    "new_state no_digest guard_cfg ex_table guard_bridge"
    "new_state no_digest loop_cfg ex_table loop_bridge"
    by (simp_all add: new_state_def New_def leaf_bridge_def guard_bridge_def loop_bridge_def
        ex_layer_def)
qed

text \<open>A run of calls from a state, and that it reaches what it ends in.\<close>

definition run :: "event list \<Rightarrow> stp_layer \<Rightarrow> stp_layer" where
  "run evs l = fold (\<lambda>ev l. snd (perform ev l)) evs l"

lemma reach_run:
  assumes "stp_reachable h cfg tbl l"
  shows "stp_reachable h cfg tbl (run evs l)"
  unfolding run_def
proof (rule fold_inv [where P = "stp_reachable h cfg tbl"])
  show "stp_reachable h cfg tbl (snd (perform ev s))" if "stp_reachable h cfg tbl s" for ev s
    using that by (rule reach_step) (rule stp_step.call [where fx = "fst (perform ev s)"], simp)
qed (rule assms)

lemma ex_reach:
  "stp_reachable no_digest leaf_cfg ex_table (run evs leaf_bridge)"
  "stp_reachable no_digest guard_cfg ex_table (run evs guard_bridge)"
  "stp_reachable no_digest loop_cfg ex_table (run evs loop_bridge)"
  by (rule reach_run, rule reach_init [where init = "new_state no_digest _ ex_table"], rule ex_new)+

text \<open>The root's hello as it reaches the leaf, and the leaf that has heard it on both ports.\<close>

definition root_hello :: "u16 \<Rightarrow> bpdu" where
  "root_hello portID = zero_bpdu\<lparr>b_Version := 2, b_Type := TypeRapid,
     b_Flags := flagPortRoleMask OR flagProposal,
     b_RootID := BridgeID 4096 (MAC 2 0 0 0 0 1), b_BridgeID := BridgeID 4096 (MAC 2 0 0 0 0 1),
     b_PortID := portID, b_MaxAge := 20 * second, b_HelloTime := 2 * second,
     b_ForwardDelay := 15 * second\<rparr>"

definition ex_calls :: "event list" where
  "ex_calls = [EvLink (1 * second) ''a'' True True 1000000000,
               EvReceive (2 * second) ''a'' (root_hello 32769)]"

definition leaf_root :: stp_layer where
  "leaf_root = run ex_calls leaf_bridge"

definition guard_hit :: stp_layer where
  "guard_hit = run ex_calls guard_bridge"

definition loop_root :: stp_layer where
  "loop_root = run ex_calls loop_bridge"

lemma ex_states_reach:
  "stp_reachable no_digest leaf_cfg ex_table leaf_root"
  "stp_reachable no_digest guard_cfg ex_table guard_hit"
  "stp_reachable no_digest loop_cfg ex_table loop_root"
  unfolding leaf_root_def guard_hit_def loop_root_def by (rule ex_reach)+

definition summary :: "stp_layer \<Rightarrow> _" where
  "summary l =
     (l_treeOrder l, l_portNames l,
      map (\<lambda>n. let p = port_at l cistID n in (p_role p, p_state p)) [''a'', ''b''],
      map (\<lambda>n. let k = link_at l n in (k_up k, k_bpduGuardDisabled k)) [''a'', ''b''],
      t_rootPort (tree_at l cistID), t_rootID (tree_at l cistID))"

lemma leaf_root_summary:
  "summary leaf_root =
     ([cistID], [''a'', ''b''],
      [(RoleRoot, StateForwarding), (RoleDisabled, StateDiscarding)],
      [(True, False), (False, False)], ''a'', BridgeID 4096 (MAC 2 0 0 0 0 1))"
  by code_simp

lemma guard_hit_summary:
  "summary guard_hit =
     ([cistID], [''a'', ''b''],
      [(RoleDisabled, StateDiscarding), (RoleDisabled, StateDiscarding)],
      [(True, True), (False, False)], '''', BridgeID 8192 (MAC 2 0 0 0 0 2))"
  by code_simp

section \<open>An MSTP bridge at a region boundary\<close>

text \<open>One instance, and a neighbour that speaks RSTP: the port becomes a boundary port.\<close>

definition mst_cfg :: stp_config where
  "mst_cfg = (ex_config 8192 (MAC 2 0 0 0 0 2) zero_stp_port)
     \<lparr>c_Ports := [(''a'', zero_stp_port)],
      c_MST := Some \<lparr>m_Name = ''r'', m_Revision = 1, m_MaxHops = 0,
        m_Instances = [(1, \<lparr>in_Priority = 4096, in_PriorityPresent = True, in_VLANs = [10],
                            in_Ports = []\<rparr>)]\<rparr>\<rparr>"

definition mst_bridge :: stp_layer where
  "mst_bridge = newLayer no_digest (config_Normalize mst_cfg)"

lemma mst_new: "new_state no_digest mst_cfg ex_table mst_bridge"
proof -
  have "config_Validate ex_table mst_cfg = None" "Table_Port ex_table '''' = None"
    by code_simp+
  then show ?thesis
    by (simp add: new_state_def New_def mst_bridge_def)
qed

text \<open>The same layer without the 4096-entry table behind its digest.\<close>

definition mst_base :: stp_layer where
  "mst_base =
     (let cfg = config_Normalize mst_cfg
      in (base_layer no_digest (cfg\<lparr>c_MST := None\<rparr>))
           \<lparr>l_cfg := cfg,
            l_trees := [(cistID, new_tree cfg (sortedKeys (c_Ports cfg)) cistID 0
                                   (BridgeID 8192 (MAC 2 0 0 0 0 2)) [])],
            l_links := map (new_link cfg) (sortedKeys (c_Ports cfg)),
            l_mst := c_MST cfg,
            l_configID := map_option (\<lambda>m. \<lparr>cid_Selector = 0, cid_Name = m_Name m,
              cid_Revision = m_Revision m, cid_Digest = replicate 16 0\<rparr>) (c_MST cfg)\<rparr>)"

definition mst_start :: stp_layer where
  "mst_start =
     (let cfg = config_Normalize mst_cfg;
          l = (case c_MST cfg of None \<Rightarrow> mst_base | Some m \<Rightarrow> initMST cfg m mst_base)
      in fold (\<lambda>i l. fold (init_tx i) (l_portNames l) l) (l_treeOrder l) l)"

lemma mst_bridge_start: "mst_bridge = mst_start"
proof -
  have c: "c_PVST (config_Normalize mst_cfg) = None" "c_Address (config_Normalize mst_cfg) = MAC 2 0 0 0 0 2"
    "effectivePriority (c_Priority (config_Normalize mst_cfg)) (c_PriorityPresent (config_Normalize mst_cfg)) = 8192"
    by (simp_all add: mst_cfg_def ex_config_def config_Normalize_def Let_def effectivePriority_def)
  have "base_layer no_digest (config_Normalize mst_cfg) = mst_base"
  proof -
    have "mst_ConfigID no_digest = (\<lambda>m. \<lparr>cid_Selector = 0, cid_Name = m_Name m,
        cid_Revision = m_Revision m, cid_Digest = replicate 16 0\<rparr>)"
      by (rule ext) (simp add: mst_ConfigID_def)
    then show ?thesis
      by (simp add: base_layer_def mst_base_def Let_def c)
  qed
  then show ?thesis
    by (simp add: mst_bridge_def mst_start_def newLayer_def Let_def c)
qed

definition mst_root :: stp_layer where
  "mst_root = run ex_calls mst_bridge"

lemma mst_root_reach: "stp_reachable no_digest mst_cfg ex_table mst_root"
  unfolding mst_root_def
  by (rule reach_run, rule reach_init [where init = "new_state no_digest mst_cfg ex_table"], rule mst_new)

definition mst_summary :: "stp_layer \<Rightarrow> _" where
  "mst_summary l = (l_treeOrder l, l_portNames l, boundary_rule l 1 ''a'')"

lemma mst_run: "mst_summary (run ex_calls mst_start) = ([0, 1], [''a''], True)"
  by code_simp

lemma mst_root_facts:
  "l_treeOrder mst_root = [0, 1]" "l_portNames mst_root = [''a'']" "boundary_rule mst_root 1 ''a''"
  using mst_run by (simp_all add: mst_summary_def mst_root_def mst_bridge_start)

end
