(* ===== verification/Scans.thy ===== *)
theory Scans
  imports Main
begin

text \<open>
  The interface of a scan that keeps the best element seen so far: the code has several (the
  election of the root port, the next wake-up time, the eviction of a filtering database entry),
  each with a state of its own.
\<close>

locale best_scan =
  fixes key :: "'a \<Rightarrow> ('k :: linorder) option"
    and best :: "'s \<Rightarrow> ('a \<times> 'k) option"
    and step :: "'a \<Rightarrow> 's \<Rightarrow> 's"
    and inv :: "'s \<Rightarrow> bool"
    and admissible :: "'a \<Rightarrow> bool"
  assumes inv_step: "admissible x \<Longrightarrow> inv s \<Longrightarrow> inv (step x s)"
    and best_step: "admissible x \<Longrightarrow> inv s \<Longrightarrow> best (step x s) =
      (case key x of
         None \<Rightarrow> best s
       | Some k \<Rightarrow> (case best s of
                     None \<Rightarrow> Some (x, k)
                   | Some (y, b) \<Rightarrow> if k < b then Some (x, k) else Some (y, b)))"
begin

definition is_best :: "'a list \<Rightarrow> 's \<Rightarrow> bool" where
  "is_best xs s \<longleftrightarrow>
     (case best s of
        None \<Rightarrow> \<forall>x \<in> set xs. key x = None
      | Some (y, b) \<Rightarrow> y \<in> set xs \<and> key y = Some b \<and>
          (\<forall>x \<in> set xs. \<forall>k. key x = Some k \<longrightarrow> b \<le> k))"

lemma scan:
  assumes "inv s" "best s = None" "\<forall>x \<in> set xs. admissible x"
  shows "inv (fold step xs s) \<and> is_best xs (fold step xs s)"
  using assms(3)
proof (induction xs rule: rev_induct)
  case Nil
  then show ?case using assms by (simp add: is_best_def)
next
  case (snoc x xs)
  let ?s = "fold step xs s"
  have s: "inv ?s" "is_best xs ?s" and x: "admissible x"
    using snoc by auto
  have "is_best (xs @ [x]) (step x ?s)"
    using s(2) best_step [OF x s(1)]
    by (fastforce simp: is_best_def split: option.splits if_splits)
  then show ?case
    using inv_step [OF x s(1)] by simp
qed

lemma scan_none:
  assumes "inv s" "best s = None" "\<forall>x \<in> set xs. admissible x" "best (fold step xs s) = None"
  shows "\<forall>x \<in> set xs. key x = None"
  using scan [OF assms(1-3)] assms(4) by (simp add: is_best_def)

lemma scan_some:
  assumes "inv s" "best s = None" "\<forall>x \<in> set xs. admissible x" "best (fold step xs s) = Some (y, b)"
  shows "y \<in> set xs" "key y = Some b" "x \<in> set xs \<Longrightarrow> key x = Some k \<Longrightarrow> b \<le> k"
  using scan [OF assms(1-3)] assms(4) by (auto simp: is_best_def)

end

end
