(* ===== verification/Stp_Election.thy ===== *)
theory Stp_Election
  imports Stp_Roles Scans
begin

text \<open>
  The election of \<^verbatim>\<open>electRoot\<close> picks the least candidate vector: \<^theory_text>\<open>best_scan\<close> interpreted
  on \<open>elect_step\<close>, whose key is the pair of the candidate vector and the port identifier.
\<close>

definition candidate :: "stp_layer \<Rightarrow> tree_id \<Rightarrow> string \<Rightarrow> priority_vector" where
  "candidate l i n =
     candidateVector (tree_at l i) (port_at l i n) (k_external (link_at l n))"

text \<open>A candidate counts when its port is eligible and it beats this bridge's own vector.\<close>

definition contender :: "stp_layer \<Rightarrow> tree_id \<Rightarrow> time \<Rightarrow> string \<Rightarrow> bool" where
  "contender l i now n \<longleftrightarrow>
     eligible l i now n \<and> vec_less (candidate l i n) (ownVector (tree_at l i))"

definition elect_key ::
    "stp_layer \<Rightarrow> tree_id \<Rightarrow> time \<Rightarrow> string \<Rightarrow>
     ((bridge_id \<times> u32 \<times> bridge_id \<times> u32 \<times> bridge_id \<times> u16) \<times> u16) option" where
  "elect_key l i now n =
     (if contender l i now n then Some (vec_key (candidate l i n), p_portID (port_at l i n)) else None)"

definition elect_best where
  "elect_best s = (case s of (bv, bp, bid) \<Rightarrow> if bp = '''' then None else Some (bp :: string, (vec_key bv, bid :: u16)))"

definition elect_inv :: "stp_layer \<Rightarrow> tree_id \<Rightarrow> best \<Rightarrow> bool" where
  "elect_inv l i s \<longleftrightarrow>
     (case s of (bv, bp, _) \<Rightarrow>
        if bp = '''' then bv = ownVector (tree_at l i) else vec_less bv (ownVector (tree_at l i)))"

lemma pair_le: "(a, x) \<le> (b, y) \<longleftrightarrow> a < b \<or> a = b \<and> x \<le> y" for a b :: "'a :: linorder" and x y :: "'b :: linorder"
  by (auto simp: less_eq_prod_def)

lemma pair_less: "(a, x) < (b, y) \<longleftrightarrow> a < b \<or> a = b \<and> x < y" for a b :: "'a :: linorder" and x y :: "'b :: linorder"
  by (auto simp: less_prod_def)

lemma vec_less_key: "vec_less a b \<longleftrightarrow> vec_key a < vec_key b"
  by (simp add: vec_less_def compareVectors_key)

lemma vec_le_key: "vec_le a b \<longleftrightarrow> vec_key a \<le> vec_key b"
  by (simp add: vec_le_def compareVectors_key)

lemma elect_step_inv:
  "n \<noteq> '''' \<Longrightarrow> elect_inv l i s \<Longrightarrow> elect_inv l i (elect_step l i now n s)"
  by (cases s)
    (auto simp: elect_inv_def elect_step_def Let_def vec_less_key compareVectors_key split: if_splits)

lemma elect_step_best:
  assumes "n \<noteq> ''''" "elect_inv l i s"
  shows "elect_best (elect_step l i now n s) =
    (case elect_key l i now n of
       None \<Rightarrow> elect_best s
     | Some k \<Rightarrow> (case elect_best s of
                   None \<Rightarrow> Some (n, k)
                 | Some (y, b) \<Rightarrow> if k < b then Some (n, k) else Some (y, b)))"
proof (cases s)
  case (fields bv bp bid)
  let ?c = "candidate l i n" and ?own = "ownVector (tree_at l i)"
  have step: "elect_step l i now n (bv, bp, bid) =
      (if \<not> eligible l i now n then (bv, bp, bid)
       else if bp = '''' then
         (if vec_key ?c < vec_key bv then (?c, n, p_portID (port_at l i n)) else (bv, bp, bid))
       else if vec_key ?c < vec_key bv \<or> (vec_key ?c = vec_key bv \<and> p_portID (port_at l i n) < bid)
       then (?c, n, p_portID (port_at l i n)) else (bv, bp, bid))"
    by (simp add: elect_step_def candidate_def Let_def compareVectors_key del: vec_key_inj)
  show ?thesis
  proof (cases "bp = ''''")
    case True
    with assms show ?thesis
      unfolding fields step
      by (simp add: elect_best_def elect_key_def contender_def elect_inv_def fields vec_less_key)
  next
    case False
    with assms(2) have own: "vec_key bv < vec_key ?own"
      by (simp add: elect_inv_def fields vec_less_key)
    then have "vec_key ?c < vec_key bv \<or> vec_key ?c = vec_key bv \<Longrightarrow> vec_key ?c < vec_key ?own"
      by (auto simp del: vec_key_inj)
    then show ?thesis
      using own False assms(1)
      unfolding fields step
      by (simp add: elect_best_def elect_key_def contender_def vec_less_key pair_less
          del: vec_key_inj less_prod_simp)
  qed
qed

interpretation elect: best_scan "elect_key l i now" elect_best "elect_step l i now" "elect_inv l i"
    "\<lambda>n. n \<noteq> ''''" for l i now
  by unfold_locales (auto intro: elect_step_inv elect_step_best)

lemma elect_start:
  "elect_inv l i (ownVector (tree_at l i), '''', 0)" "elect_best (ownVector t, '''', 0) = None"
  by (simp_all add: elect_inv_def elect_best_def)

text \<open>What the scan hands to the rest of \<^verbatim>\<open>electRoot\<close>.\<close>

lemma elect_scan_none:
  assumes "'''' \<notin> set (l_portNames l)" "elect_scan l i now = (bv, '''', bid)"
    "n \<in> set (l_portNames l)"
  shows "\<not> contender l i now n"
proof -
  have adm: "\<forall>x \<in> set (l_portNames l). x \<noteq> ''''"
    using assms(1) by auto
  have b: "elect_best (fold (elect_step l i now) (l_portNames l) (ownVector (tree_at l i), '''', 0)) = None"
    using assms(2) by (simp add: elect_scan_def elect_best_def)
  have "\<forall>x \<in> set (l_portNames l). elect_key l i now x = None"
    by (rule elect.scan_none [OF elect_start adm b])
  with assms(3) show ?thesis
    by (auto simp: elect_key_def split: if_splits)
qed

lemma elect_scan_some:
  assumes "'''' \<notin> set (l_portNames l)" "elect_scan l i now = (bv, bp, bid)" "bp \<noteq> ''''"
  shows "bp \<in> set (l_portNames l)" "contender l i now bp" "bv = candidate l i bp"
    "\<And>n. n \<in> set (l_portNames l) \<Longrightarrow> contender l i now n \<Longrightarrow>
       vec_less bv (candidate l i n) \<or>
       (candidate l i n = bv \<and> p_portID (port_at l i bp) \<le> p_portID (port_at l i n))"
proof -
  have adm: "\<forall>x \<in> set (l_portNames l). x \<noteq> ''''"
    using assms(1) by auto
  have b: "elect_best (fold (elect_step l i now) (l_portNames l) (ownVector (tree_at l i), '''', 0)) =
      Some (bp, (vec_key bv, bid))"
    using assms(2,3) by (simp add: elect_scan_def elect_best_def)
  note s = elect.scan_some [OF elect_start adm b]
  show "bp \<in> set (l_portNames l)"
    by (rule s(1))
  show c: "contender l i now bp" and v: "bv = candidate l i bp"
    using s(2) by (auto simp: elect_key_def split: if_splits)
  show "vec_less bv (candidate l i n) \<or>
       (candidate l i n = bv \<and> p_portID (port_at l i bp) \<le> p_portID (port_at l i n))"
    if "n \<in> set (l_portNames l)" "contender l i now n" for n
    using s(2) s(3) [OF that(1)] that(2) c
    by (auto simp: elect_key_def vec_less_key pair_le simp del: less_eq_prod_simp split: if_splits)
qed

lemma candidate_rootID:
  "vec_less (candidate l i n) (ownVector (tree_at l i)) \<Longrightarrow>
   v_rootID (candidate l i n) \<le> t_bridgeID (tree_at l i)"
  by (auto simp: vec_less_key vec_key_def ownVector_def less_prod_def' dest: order.strict_implies_order)

end
