(* ===== verification/Stp_Properties.thy ===== *)
theory Stp_Properties
  imports Stp_Example Stp_Election
begin

text \<open>
  The properties of the spanning tree layer: what holds in every state a new layer reaches through
  its calls, and what the election decides.
\<close>

section \<open>Every reachable state\<close>

lemma reach_port_ok:
  "stp_reachable h cfg tbl l \<Longrightarrow> i \<in> set (l_treeOrder l) \<Longrightarrow> n \<in> set (l_portNames l) \<Longrightarrow> port_ok l i n"
  using reachable_settled(1) by (auto simp: settled_def)

lemma reach_cist: "stp_reachable h cfg tbl l \<Longrightarrow> cistID \<in> set (l_treeOrder l)"
  by (rule wf_cist) (rule reachable_settled(2))

lemma cist_free [simp]: "\<not> boundary_rule l cistID n"
  by (simp add: boundary_rule_def)

lemma leaf_root_facts:
  "l_treeOrder leaf_root = [cistID]" "l_portNames leaf_root = [''a'', ''b'']"
  "p_role (port_at leaf_root cistID ''a'') = RoleRoot"
  "p_state (port_at leaf_root cistID ''a'') = StateForwarding"
  "p_role (port_at leaf_root cistID ''b'') = RoleDisabled"
  "\<not> k_up (link_at leaf_root ''b'')"
  using leaf_root_summary by (simp_all add: summary_def Let_def)

lemma guard_hit_facts:
  "l_treeOrder guard_hit = [cistID]" "l_portNames guard_hit = [''a'', ''b'']"
  "k_bpduGuardDisabled (link_at guard_hit ''a'')" "k_up (link_at guard_hit ''a'')"
  using guard_hit_summary by (simp_all add: summary_def Let_def)

text \<open>
  C1: between two calls, on every spanning tree, a port whose role is Disabled, Alternate or Backup
  is Discarding. No sequence of link changes, received BPDUs, timers and migration checks leaves a
  blocked port learning or forwarding.
\<close>

theorem blocked_port_discards:
  assumes "stp_reachable h cfg tbl l" "i \<in> set (l_treeOrder l)" "n \<in> set (l_portNames l)"
    and "p_role (port_at l i n) = RoleDisabled \<or> p_role (port_at l i n) = RoleAlternate \<or>
         p_role (port_at l i n) = RoleBackup"
  shows "p_state (port_at l i n) = StateDiscarding"
  using reach_port_ok [OF assms(1-3)] assms(4) by (auto simp: port_ok_def state_ok_def Let_def)

theorem blocked_port_discards_witness: "p_state (port_at leaf_root cistID ''b'') = StateDiscarding"
  by (rule blocked_port_discards [OF ex_states_reach(1)]) (simp_all add: leaf_root_facts)





text \<open>
  A port whose link is down, or which BPDU guard disabled, is Disabled and Discarding on every
  tree of the bridge, the MSTIs that follow the CIST included.
\<close>

theorem link_down_disabled:
  assumes "stp_reachable h cfg tbl l" "i \<in> set (l_treeOrder l)" "n \<in> set (l_portNames l)"
    and "\<not> k_up (link_at l n) \<or> k_bpduGuardDisabled (link_at l n)"
  shows "p_role (port_at l i n) = RoleDisabled \<and> p_state (port_at l i n) = StateDiscarding"
proof -
  have ok: "port_ok l i n" "port_ok l cistID n"
    using reach_port_ok [OF assms(1) _ assms(3)] assms(2) reach_cist [OF assms(1)] by auto
  have "p_role (port_at l cistID n) = RoleDisabled"
    using ok(2) assms(4) by (simp add: port_ok_def role_ok_def Let_def)
  then have "p_role (port_at l i n) = RoleDisabled"
    using ok(1) assms(4) by (auto simp: port_ok_def role_ok_def Let_def split: if_splits)
  then show ?thesis
    using ok(1) by (simp add: port_ok_def state_ok_def Let_def)
qed

theorem link_down_disabled_witness: "p_role (port_at leaf_root cistID ''b'') = RoleDisabled"
  using link_down_disabled [OF ex_states_reach(1), of cistID "''b''"] by (simp add: leaf_root_facts)

text \<open>
  C31: at a region boundary an MSTI follows the common tree. On a boundary port of an MSTP bridge
  the instance's port has the CIST port's role, and its state is never ahead of the CIST's: it
  learns only where the CIST learns or forwards, and forwards only where the CIST forwards.
\<close>

theorem boundary_follows_cist:
  assumes "stp_reachable h cfg tbl l" "i \<in> set (l_treeOrder l)" "n \<in> set (l_portNames l)"
    and "boundary_rule l i n"
  shows "p_role (port_at l i n) = p_role (port_at l cistID n) \<and>
    state_rank (p_state (port_at l i n)) \<le> state_rank (p_state (port_at l cistID n))"
  using reach_port_ok [OF assms(1-3)] assms(4)
  by (simp add: port_ok_def role_ok_def state_ok_def Let_def)

theorem boundary_follows_cist_witness:
  "p_role (port_at mst_root 1 ''a'') = p_role (port_at mst_root cistID ''a'')"
  using boundary_follows_cist [OF mst_root_reach, of 1 "''a''"] mst_root_facts by simp

section \<open>The election\<close>

text \<open>
  C30: the election is optimal. After \<^verbatim>\<open>electRoot\<close> a root port, when there is one, is an eligible
  port whose candidate vector beats the bridge's own, no eligible port offers a better vector, and
  among equal vectors it has the least port identifier; when there is none, no eligible port's
  candidate beats the bridge's own vector and the tree is rooted at the bridge itself.
\<close>

theorem election_optimal:
  assumes "wf_layer l" "i \<in> set (l_treeOrder l)"
  shows "let r = t_rootPort (tree_at (electRoot i now l) i) in
    if r = '''' then
      (\<forall>n \<in> set (l_portNames l). \<not> contender l i now n) \<and>
      t_rootID (tree_at (electRoot i now l) i) = t_bridgeID (tree_at l i) \<and>
      t_rootPathCost (tree_at (electRoot i now l) i) = 0
    else
      r \<in> set (l_portNames l) \<and> contender l i now r \<and>
      (\<forall>n \<in> set (l_portNames l). contender l i now n \<longrightarrow>
         vec_less (candidate l i r) (candidate l i n) \<or>
         (candidate l i n = candidate l i r \<and> p_portID (port_at l i r) \<le> p_portID (port_at l i n)))"
proof -
  obtain bv bp bid where scan: "elect_scan l i now = (bv, bp, bid)"
    by (cases "elect_scan l i now")
  have names: "'''' \<notin> set (l_portNames l)"
    using assms(1) by (simp add: wf_layer_def)
  have t: "map_of (l_trees l) i \<noteq> None"
    using wf_tree_at(1) [OF assms] by simp
  then have r: "t_rootPort (tree_at (electRoot i now l) i) = bp"
    by (simp add: electRoot_def scan frame_simps Let_def)
  show ?thesis
  proof (cases "bp = ''''")
    case True
    then show ?thesis
      using elect_scan_none [OF names scan [unfolded True]] t
      by (simp add: r Let_def) (simp add: electRoot_def scan frame_simps Let_def)
  next
    case False
    then show ?thesis
      using elect_scan_some [OF names scan False] by (simp add: r Let_def)
  qed
qed

theorem election_optimal_witness:
  "t_rootPort (tree_at (electRoot cistID 0 leaf_root) cistID) = '''' \<or>
   contender leaf_root cistID 0 (t_rootPort (tree_at (electRoot cistID 0 leaf_root) cistID))"
  using election_optimal [OF reachable_settled(2) [OF ex_states_reach(1)], of cistID 0]
  by (simp add: leaf_root_facts Let_def split: if_splits)

lemma candidate_regional:
  "i \<noteq> cistID \<Longrightarrow> t_id (tree_at l i) = i \<Longrightarrow>
   v_regionalRootID (candidate l i n) = v_rootID (candidate l i n)"
  by (simp add: candidate_def candidateVector_def Let_def)

text \<open>
  A bridge never takes a worse root than itself. Whatever information its ports hold, the root
  identifier \<^verbatim>\<open>electRoot\<close> leaves in the tree is at most the bridge's own identifier.
\<close>

theorem root_never_worse:
  assumes "wf_layer l" "i \<in> set (l_treeOrder l)"
  shows "t_rootID (tree_at (electRoot i now l) i) \<le> t_bridgeID (tree_at l i)"
proof -
  obtain bv bp bid where scan: "elect_scan l i now = (bv, bp, bid)"
    by (cases "elect_scan l i now")
  have names: "'''' \<notin> set (l_portNames l)"
    using assms(1) by (simp add: wf_layer_def)
  have t: "map_of (l_trees l) i \<noteq> None" and id: "t_id (tree_at l i) = i"
    using wf_tree_at(1,3) [OF assms] by simp_all
  show ?thesis
  proof (cases "bp = ''''")
    case True
    then show ?thesis
      using t by (simp add: electRoot_def scan frame_simps Let_def)
  next
    case False
    note s = elect_scan_some [OF names scan False]
    have "v_rootID (candidate l i bp) \<le> t_bridgeID (tree_at l i)"
      using s(2) candidate_rootID by (simp add: contender_def)
    moreover have "t_rootID (tree_at (electRoot i now l) i) =
        (if i = cistID then v_rootID bv else v_regionalRootID bv)"
      using t False by (simp add: electRoot_def scan frame_simps Let_def)
    ultimately show ?thesis
      using s(3) candidate_regional [OF _ id] by (auto split: if_splits)
  qed
qed

theorem root_never_worse_witness:
  "t_rootID (tree_at (electRoot cistID 0 leaf_root) cistID) \<le> t_bridgeID (tree_at leaf_root cistID)"
  by (rule root_never_worse [OF reachable_settled(2) [OF ex_states_reach(1)]]) (simp add: leaf_root_facts)

end
