(* ===== verification/Stp_Flush.thy ===== *)
theory Stp_Flush
  imports Stp_Example
begin

text \<open>
  Flush lists as what they stand for (\<open>covers\<close>): \<^verbatim>\<open>mergeFlushTarget\<close>
  is union on that set, and the topology change machine flushes exactly the other active ports.
\<close>

lemma remdups_adj_Nil [simp]: "remdups_adj xs = [] \<longleftrightarrow> xs = []"
  by (metis empty_set remdups_adj_set set_empty2)

lemma sort_Nil [simp]: "sort xs = [] \<longleftrightarrow> xs = []"
  by (metis set_empty set_sort)

lemma merge_covers:
  "covers (mergeFlushTarget port fids fl) q f \<longleftrightarrow>
     covers fl q f \<or> q = port \<and> (fids = [] \<or> f \<in> set fids)"
  by (induction port fids fl rule: mergeFlushTarget.induct) (auto simp: target_covers_def)

text \<open>One target for each port, its identifiers sorted and without duplicates.\<close>

definition tidy :: "flush_target list \<Rightarrow> bool" where
  "tidy fl \<longleftrightarrow> distinct (map ft_Port fl) \<and>
     (\<forall>ft \<in> set fl. sorted (ft_FIDs ft) \<and> distinct (ft_FIDs ft))"

lemma merge_ports:
  "ft_Port ` set (mergeFlushTarget port fids fl) = insert port (ft_Port ` set fl)"
  by (induction port fids fl rule: mergeFlushTarget.induct) auto

lemma sorted_distinct_adj: "sorted xs \<Longrightarrow> distinct_adj xs \<Longrightarrow> distinct (xs :: vlan_id list)"
proof (induction xs)
  case (Cons x xs)
  then show ?case
    by (cases xs) (auto simp: distinct_adj_Cons)
qed simp

lemma sorted_remdups_adj_sort:
  "sorted (remdups_adj (sort xs)) \<and> distinct (remdups_adj (sort (xs :: vlan_id list)))"
  by (simp add: sorted_distinct_adj)

lemma merge_tidy:
  assumes "tidy fl" "sorted fids" "distinct fids"
  shows "tidy (mergeFlushTarget port fids fl)"
  using assms
proof (induction port fids fl rule: mergeFlushTarget.induct)
  case (2 port fids target rest)
  then have "tidy rest" "ft_Port target \<notin> ft_Port ` set rest"
    by (auto simp: tidy_def)
  then show ?case
    using 2 sorted_remdups_adj_sort [of "ft_FIDs target @ fids"]
    by (auto simp: tidy_def merge_ports)
qed (simp add: tidy_def)

text \<open>
  C32: adding a flush target is adding to the set of entries to flush: what the merged list covers
  is what the list covered before, and the given identifiers on the given port, all of them when
  none is given; a list with one sorted target for each port stays one.
\<close>

theorem merge_flush_refines:
  "(covers (mergeFlushTarget port fids fl) q f \<longleftrightarrow>
      covers fl q f \<or> q = port \<and> (fids = [] \<or> f \<in> set fids)) \<and>
   (tidy fl \<and> sorted fids \<and> distinct fids \<longrightarrow> tidy (mergeFlushTarget port fids fl))"
  using merge_covers merge_tidy by blast

theorem merge_flush_refines_witness:
  "covers (mergeFlushTarget ''a'' [20, 10] (mergeFlushTarget ''a'' [10] [])) ''a'' 20 \<and>
   tidy (mergeFlushTarget ''a'' [10] [])"
  using merge_flush_refines [of "''a''" "[20, 10]" "mergeFlushTarget ''a'' [10] []" "''a''" 20]
    merge_flush_refines [of "''a''" "[10]" "[]" "''a''" 20]
  by (simp add: tidy_def)

section \<open>What a topology change flushes\<close>

text \<open>The ports a topology change received on \<open>origin\<close> spreads to.\<close>

definition spreads_to :: "stp_layer \<Rightarrow> tree_id \<Rightarrow> string \<Rightarrow> string \<Rightarrow> bool" where
  "spreads_to l i origin n \<longleftrightarrow> n \<noteq> origin \<and> has_port l i n \<and> p_tcActive (port_at l i n) \<and>
     \<not> k_edge (link_at l n)"

lemma propagate_port_covers:
  "covers (l_flushes (propagate_port i origin now n l)) q f \<longleftrightarrow>
     covers (l_flushes l) q f \<or>
     q = n \<and> spreads_to l i origin n \<and> (tree_fids l i = [] \<or> f \<in> set (tree_fids l i))"
proof (cases "spreads_to l i origin n")
  case True
  then have "\<not> (n = origin \<or> \<not> has_port l i n \<or> \<not> p_tcActive (port_at l i n) \<or> k_edge (link_at l n))"
    by (simp add: spreads_to_def)
  with True show ?thesis
    by (simp add: propagate_port_def Let_def add_flush_def merge_covers frame_simps)
next
  case False
  then have "propagate_port i origin now n l = l"
    by (auto simp: propagate_port_def spreads_to_def)
  with False show ?thesis
    by simp
qed

lemma propagate_port_frame:
  "spreads_to (propagate_port i origin now n l) i origin m = spreads_to l i origin m"
  "tree_fids (propagate_port i origin now n l) i = tree_fids l i"
proof -
  have c: "core (propagate_port i origin now n l) = core l"
    by simp
  have "p_tcActive (port_at (propagate_port i origin now n l) i m) = p_tcActive (port_at l i m)"
    by (simp add: propagate_port_def Let_def add_flush_def frame_simps)
  moreover have "has_port (propagate_port i origin now n l) i m = has_port l i m"
    by (simp add: propagate_port_def Let_def add_flush_def frame_simps)
  ultimately show "spreads_to (propagate_port i origin now n l) i origin m = spreads_to l i origin m"
    by (simp add: spreads_to_def core_links(2) [OF c])
  show "tree_fids (propagate_port i origin now n l) i = tree_fids l i"
    by (simp add: tree_fids_def shape_fields(11) [OF core_shape [OF c]])
qed

lemma propagate_covers:
  "covers (l_flushes (fold (propagate_port i origin now) ns l)) q f \<longleftrightarrow>
     covers (l_flushes l) q f \<or>
     q \<in> set ns \<and> spreads_to l i origin q \<and> (tree_fids l i = [] \<or> f \<in> set (tree_fids l i))"
  by (induction ns arbitrary: l) (auto simp: propagate_port_covers propagate_port_frame)

end
