(* ===== verification/Stp_Quiet.thy ===== *)
theory Stp_Quiet
  imports Stp_Reach
begin

text \<open>
  What only the transmit pass touches: the transmit counts and the emissions. An observation of the
  layer that tree, port and link updates, flush targets and transmit requests leave alone is
  unchanged by every operation but \<^verbatim>\<open>transmit\<close>, \<^verbatim>\<open>resetTransmit\<close> and those that
  call them.
\<close>

locale observer =
  fixes obs :: "stp_layer \<Rightarrow> 'o"
  assumes obs_upd_tree [simp]: "obs (upd_tree i f l) = obs l"
    and obs_upd_link [simp]: "obs (upd_link n g l) = obs l"
    and obs_flushes [simp]: "obs (l\<lparr>l_flushes := fl\<rparr>) = obs l"
    and obs_upd_tx [simp]: "(\<And>x. x_count (h x) = x_count x) \<Longrightarrow> obs (upd_tx i n h l) = obs l"
begin

lemma obs_upd_port [simp]: "obs (upd_port i n f l) = obs l"
  by (simp add: upd_port_def)

lemma obs_fold: "(\<And>x l. obs (f x l) = obs l) \<Longrightarrow> obs (fold f xs l) = obs l"
  by (rule fold_const [where g = obs])

lemma obs_topology [simp]:
  "obs (add_flush n v l) = obs l" "obs (requestNewInfo i n l) = obs l"
  by (simp_all add: add_flush_def requestNewInfo_def)

lemma obs_propagate [simp]: "obs (propagateTopologyChange i o' now l) = obs l"
proof -
  have "obs (propagate_port i o' now n l) = obs l" for n l
    by (simp add: propagate_port_def Let_def)
  then show ?thesis
    by (simp add: propagateTopologyChange_def obs_fold)
qed

lemma obs_initiate [simp]: "obs (initiateTopologyChange i n now l) = obs l"
  by (simp add: initiateTopologyChange_def Let_def)

lemma obs_detect [simp]: "obs (detectTopologyChange i n now l) = obs l"
  by (simp add: detectTopologyChange_def)

lemma obs_deactivate [simp]: "obs (deactivatePort i n l) = obs l"
  by (simp add: deactivatePort_def Let_def)

lemma obs_setHelloRequests [simp]: "obs (setHelloRequests i now n l) = obs l"
  by (simp add: setHelloRequests_def Let_def)

lemma obs_settleHelloTimers [simp]: "obs (settleHelloTimers now l) = obs l"
  by (simp add: settleHelloTimers_def settle_tx_def obs_fold)

lemma obs_finish_port [simp]: "obs (finish_port now i name l) = obs l"
  by (simp add: finish_port_def clearRecentRoot_def Let_def)

lemma obs_finish [simp]: "obs (finishRecentRootDeadlines now l) = obs l"
  by (simp add: finishRecentRootDeadlines_def obs_fold)

lemma obs_electRoot [simp]: "obs (electRoot i now l) = obs l"
  by (simp add: electRoot_def case_prod_beta Let_def)

lemma obs_track [simp]: "obs (trackDesignatedVector i n r e l) = obs l"
  by (simp add: trackDesignatedVector_def Let_def)

lemma obs_assign_role [simp]: "obs (assign_role i now n l) = obs l"
  by (simp add: assign_role_def Let_def)

lemma obs_assignRoles [simp]: "obs (assignRoles i now l) = obs l"
  by (simp add: assignRoles_def obs_fold)

lemma obs_settle_port [simp]: "obs (settle_port i now n l) = obs l"
  by (simp add: settle_port_def Let_def)

lemma obs_cut_port [simp]: "obs (cut_port i now d n l) = obs l"
  by (simp add: cut_port_def Let_def)

lemma obs_note_forwarding [simp]: "obs (note_forwarding i now s n l) = obs l"
  by (simp add: note_forwarding_def Let_def)

lemma obs_drive_own [simp]: "obs (drive_own i now d n l) = obs l"
  by (simp add: drive_own_def Let_def)

lemma obs_drive_boundary [simp]: "obs (drive_boundary i now d n l) = obs l"
  by (simp add: drive_boundary_def Let_def)

lemma obs_drive_port [simp]: "obs (drive_port i now d n l) = obs l"
  by (simp add: drive_port_def)

lemma obs_updatePortStates [simp]: "obs (updatePortStates i now l) = obs l"
  by (simp add: updatePortStates_def Let_def obs_fold)

lemma obs_request_port [simp]: "obs (request_port i n l) = obs l"
  by (simp add: request_port_def Let_def)

lemma obs_recompute [simp]: "obs (recompute now i l) = obs l"
  by (simp add: recompute_def Let_def obs_fold)

lemma obs_recomputeAll [simp]: "obs (recomputeAll now l) = obs l"
  by (simp add: recomputeAll_def obs_fold)

lemma obs_armHelloTimers [simp]: "obs (armHelloTimers now l) = obs l"
proof -
  have "obs (arm_port i now n l) = obs l" for i n l
    by (simp add: arm_port_def)
  then show ?thesis
    by (simp add: armHelloTimers_def obs_fold)
qed

lemma obs_append_flush [simp]: "obs (append_flush n l) = obs l"
  by (simp add: append_flush_def)

lemma obs_restart_port [simp]: "obs (restart_port now c port i l) = obs l"
  by (simp add: restart_port_def Let_def)

lemma obs_link_up [simp]: "obs (link_up now port p2p c l) = obs l"
proof -
  have "obs (reprice_port c port i l) = obs l" for i l
    by (simp add: reprice_port_def)
  then show ?thesis
    by (simp add: link_up_def Let_def obs_fold)
qed

lemma obs_mirror_sync [simp]: "obs (mirror_sync n f i l) = obs l"
  by (simp add: mirror_sync_def Let_def)

lemma obs_sync_port [simp]: "obs (sync_port i r now n l) = obs l"
  by (simp add: sync_port_def Let_def obs_fold)

lemma obs_handleProposal [simp]: "obs (handleProposal i n now l) = obs l"
  by (simp add: handleProposal_def syncTree_def obs_fold)

lemma obs_recordAgreement [simp]: "obs (recordAgreement i n v r a l) = obs l"
  by (simp add: recordAgreement_def Let_def)

lemma obs_on_mstis: "(\<And>i l. obs (f i l) = obs l) \<Longrightarrow> obs (on_mstis f n l) = obs l"
  by (simp add: on_mstis_def obs_fold)

lemma obs_receive_record [simp]: "obs (snd (receive_record now p b h r s)) = obs (snd s)"
  by (simp add: receive_record_def Let_def split: prod.splits)

lemma obs_receiveMSTIs [simp]: "obs (snd (receiveMSTIs now p b h l)) = obs l"
  unfolding receiveMSTIs_def using fold_const [where g = "\<lambda>s. obs (snd s)"]
  by (metis (no_types, lifting) obs_receive_record snd_conv)

lemma obs_mirror_agreement [simp]: "obs (mirror_agreement i n l) = obs l"
  by (simp add: mirror_agreement_def Let_def obs_on_mstis)

lemma obs_propagateReceivedTC [simp]: "obs (propagateReceivedTC i n b now l) = obs l"
  by (simp add: propagateReceivedTC_def Let_def obs_on_mstis)

lemma obs_answer_tree [simp]: "obs (snd (answer_tree n now j s)) = obs (snd s)"
  by (simp add: answer_tree_def split: prod.splits)

lemma obs_answer_fold [simp]: "obs (snd (fold (answer_tree n now) js s)) = obs (snd s)"
  by (rule fold_const [where g = "\<lambda>s. obs (snd s)"]) simp

lemma obs_answerProposals [simp]: "obs (snd (answerProposals i n b ps now l)) = obs l"
  by (simp add: answerProposals_def Let_def)

lemma obs_store_segment [simp]: "obs (store_segment i n now b l) = obs l"
  by (simp add: store_segment_def Let_def)

lemma obs_internal_segment [simp]: "obs (snd (internal_segment i n now b s l)) = obs l"
  by (simp add: internal_segment_def Let_def)

lemma obs_answer_segment [simp]: "obs (answer_segment i n now b v ps l) = obs l"
  by (simp add: answer_segment_def Let_def obs_fold case_prod_beta)

lemma obs_applyBPDU [simp]: "obs (applyBPDU i n now b l) = obs l"
  by (simp add: applyBPDU_def Let_def case_prod_beta)

lemma obs_receive_tcn [simp]: "obs (receive_tcn now p l) = obs l"
  by (simp add: receive_tcn_def Let_def obs_on_mstis)

lemma obs_sstp_tcn [simp]: "obs (sstp_tcn i now p l) = obs l"
  by (simp add: sstp_tcn_def Let_def)

lemma obs_expireReceivedInfo [simp]: "obs (snd (expireReceivedInfo now l)) = obs l"
proof -
  have *: "obs (snd (expire_port now i n s)) = obs (snd s)" for i n s
    by (simp add: expire_port_def Let_def case_prod_beta)
  show ?thesis
    unfolding expireReceivedInfo_def
    by (subst fold_const [where g = "\<lambda>s. obs (snd s)"])
      (simp_all add: fold_const [where g = "\<lambda>s. obs (snd s)"] *)
qed

lemma obs_advanceAutoEdge [simp]: "obs (snd (advanceAutoEdge now l)) = obs l"
proof -
  have "obs (become_edge n i l) = obs l" for n i l
    by (simp add: become_edge_def)
  then have *: "obs (snd (auto_edge_port now n s)) = obs (snd s)" for n s
    by (simp add: auto_edge_port_def Let_def case_prod_beta obs_fold)
  show ?thesis
    unfolding advanceAutoEdge_def
    by (subst fold_const [where g = "\<lambda>s. obs (snd s)"]) (simp_all add: *)
qed

lemma obs_forward_port [simp]: "obs (snd (forward_port now d i n s)) = obs (snd s)"
  by (simp add: forward_port_def Let_def case_prod_beta split: state.split)

lemma obs_advanceForwardDelay [simp]: "obs (snd (advanceForwardDelay now l)) = obs l"
  unfolding advanceForwardDelay_def
  by (subst fold_const [where g = "\<lambda>s. obs (snd s)"])
    (simp_all add: fold_const [where g = "\<lambda>s. obs (snd s)"])

lemma obs_clearExpiredTCWhile [simp]: "obs (clearExpiredTCWhile now l) = obs l"
  by (simp add: clearExpiredTCWhile_def obs_fold)

end

section \<open>Emissions and counts\<close>

interpretation emissions: observer l_emissions
  by unfold_locales (simp_all add: frame_simps)

text \<open>No transmit record is above the hold count.\<close>

definition within_budget :: "stp_layer \<Rightarrow> bool" where
  "within_budget l \<longleftrightarrow>
     (\<forall>key c. map_option x_count (map_of (l_portTx l) key) = Some c \<longrightarrow> c \<le> unat (l_txHoldCount l))"

lemma within_upd_tx:
  assumes "within_budget l"
    and "\<And>x. map_of (l_portTx l) (txKeyFor l i n) = Some x \<Longrightarrow> x_count (h x) \<le> unat (l_txHoldCount l)"
  shows "within_budget (upd_tx i n h l)"
  using assms by (auto simp: within_budget_def frame_simps)

lemma within_budgetD:
  "within_budget l \<Longrightarrow> map_of (l_portTx l) key = Some x \<Longrightarrow> x_count x \<le> unat (l_txHoldCount l)"
  unfolding within_budget_def by (metis option.simps(9))

interpretation budget: observer within_budget
proof
  fix h :: "port_tx \<Rightarrow> port_tx" and i n l
  assume "\<And>x. x_count (h x) = x_count x"
  then have "map_option x_count (map_of (upd (l_portTx l) (txKeyFor l i n) h) key) =
      map_option x_count (map_of (l_portTx l) key)" for key
    by (simp add: option.map_comp comp_def)
  then show "within_budget (upd_tx i n h l) = within_budget l"
    unfolding within_budget_def frame_simps by simp
qed (simp_all add: within_budget_def frame_simps)

lemma within_reset: "within_budget l \<Longrightarrow> within_budget (resetTransmit n l)"
  unfolding resetTransmit_def
  by (rule fold_inv [where P = within_budget], assumption, rule within_upd_tx) simp_all

section \<open>Calls up to their transmit pass\<close>

lemma quiet_link_down:
  "l_emissions (link_down now p l) = l_emissions l"
  "within_budget l \<Longrightarrow> within_budget (link_down now p l)"
proof -
  have a: "l_emissions (down_port now p i l) = l_emissions l"
    "within_budget (down_port now p i l) = within_budget l"
    "l_emissions (deactivate_on p i l) = l_emissions l"
    "within_budget (deactivate_on p i l) = within_budget l" for i l
    by (simp_all add: down_port_def deactivate_on_def)
  show "l_emissions (link_down now p l) = l_emissions l"
    by (simp add: link_down_def Let_def emissions.obs_fold a frame_simps)
  show "within_budget l \<Longrightarrow> within_budget (link_down now p l)"
    by (simp add: link_down_def Let_def budget.obs_fold a within_reset)
qed

lemma quiet_bpdu_guard:
  "l_emissions (bpdu_guard now p l) = l_emissions l"
  "within_budget l \<Longrightarrow> within_budget (bpdu_guard now p l)"
proof -
  have a: "l_emissions (guard_port p i l) = l_emissions l"
    "within_budget (guard_port p i l) = within_budget l" for i l
    by (simp_all add: guard_port_def)
  show "l_emissions (bpdu_guard now p l) = l_emissions l"
    by (simp add: bpdu_guard_def Let_def emissions.obs_fold a frame_simps)
  show "within_budget l \<Longrightarrow> within_budget (bpdu_guard now p l)"
    by (simp add: bpdu_guard_def Let_def budget.obs_fold a within_reset)
qed

lemma quiet_receiveLink:
  "l_emissions (snd (receiveLink now p b l)) = l_emissions l"
  "within_budget l \<Longrightarrow> within_budget (snd (receiveLink now p b l))"
proof -
  have a: "l_emissions (lose_edge p i l) = l_emissions l"
    "within_budget (lose_edge p i l) = within_budget l" for i l
    by (simp_all add: lose_edge_def Let_def)
  show "l_emissions (snd (receiveLink now p b l)) = l_emissions l"
    by (simp add: receiveLink_def Let_def emissions.obs_fold a quiet_bpdu_guard)
  show "within_budget l \<Longrightarrow> within_budget (snd (receiveLink now p b l))"
    by (simp add: receiveLink_def Let_def budget.obs_fold a quiet_bpdu_guard)
qed

lemma quiet_receive_inner:
  "l_emissions (receive_inner now p b l) = l_emissions l"
  "within_budget l \<Longrightarrow> within_budget (receive_inner now p b l)"
  by (simp_all add: receive_inner_def Let_def case_prod_beta quiet_receiveLink)

lemma quiet_sstp_inner:
  "l_emissions (snd (sstp_inner now p a b l)) = l_emissions l"
  "within_budget l \<Longrightarrow> within_budget (snd (sstp_inner now p a b l))"
  by (simp_all add: sstp_inner_def Let_def case_prod_beta quiet_receiveLink split: option.split)

definition quiet :: "stp_layer \<Rightarrow> stp_layer \<Rightarrow> bool" where
  "quiet l k \<longleftrightarrow> l_emissions k = [] \<and> shape k = shape l \<and> (within_budget l \<longrightarrow> within_budget k)"

text \<open>Every body is a quiet part and then, if anything happened, one transmit pass.\<close>

definition transmits :: "time \<Rightarrow> stp_layer \<Rightarrow> stp_layer \<Rightarrow> bool" where
  "transmits now l l' \<longleftrightarrow> (\<exists>k. quiet l k \<and> (l' = k \<or> l' = transmit now k))"

lemma transmits_if: "quiet l l \<Longrightarrow> quiet l k \<Longrightarrow> transmits now l (if c then l else transmit now k)"
  by (auto simp: transmits_def)

lemma body_transmits:
  assumes "l_emissions l = []"
  shows "transmits now l (mcheck_body now p l)"
    "transmits now l (linkChange_body now p up p2p s l)"
    "transmits now l (receive_body now p b l)"
    "transmits now l (snd (sstp_outcome_of now p a b l))"
    "transmits now l (advance_body now l)"
proof -
  have m: "l_emissions (mcheck_link now p l) = l_emissions l" "within_budget (mcheck_link now p l) = within_budget l"
    "shape (mcheck_link now p l) = shape l"
    by (simp_all add: mcheck_link_def Let_def)
  show "transmits now l (mcheck_body now p l)"
    unfolding mcheck_body_def Let_def by (rule transmits_if) (use assms m in \<open>auto simp: quiet_def\<close>)
  show "transmits now l (linkChange_body now p up p2p s l)"
    unfolding linkChange_body_def Let_def
    by (rule transmits_if) (use assms in \<open>auto simp: quiet_def quiet_link_down\<close>)
  show "transmits now l (receive_body now p b l)"
    unfolding receive_body_def Let_def
    by (rule transmits_if) (use assms in \<open>auto simp: quiet_def quiet_receive_inner\<close>)
  show "transmits now l (snd (sstp_outcome_of now p a b l))"
    unfolding sstp_outcome_of_def Let_def case_prod_beta if_distrib [where f = snd] snd_conv
    by (rule transmits_if) (use assms in \<open>auto simp: quiet_def quiet_sstp_inner\<close>)
  show "transmits now l (advance_body now l)"
    using assms transmits_if [where c = False] unfolding advance_body_def Let_def case_prod_beta
    by (simp add: quiet_def)
qed

text \<open>So every call is: settle the hello timers, the quiet part, the transmit pass, finish.\<close>

lemma api_transmits:
  assumes "\<And>l. l_emissions l = [] \<Longrightarrow> transmits now l (body l)" "api now body l = (fx, l')"
  shows "\<exists>k x. quiet l k \<and> (x = k \<or> x = transmit now k) \<and> fx_Emissions fx = l_emissions x \<and>
    l' = finishRecentRootDeadlines now x"
proof -
  let ?l = "settleHelloTimers now (l\<lparr>l_flushes := [], l_emissions := []\<rparr>)"
  have em: "l_emissions ?l = []" and sh: "shape ?l = shape l"
    by simp_all
  have bud: "within_budget ?l = within_budget l"
    by simp (simp add: within_budget_def)
  obtain k where k: "quiet ?l k" "body ?l = k \<or> body ?l = transmit now k"
    using assms(1) [OF em] by (auto simp: transmits_def)
  have "quiet l k"
    using k(1) sh bud by (simp add: quiet_def)
  moreover have "fx_Emissions fx = l_emissions (body ?l)" "l' = finishRecentRootDeadlines now (body ?l)"
    using assms(2) by (auto simp: api_def Let_def)
  ultimately show ?thesis
    using k(2) by blast
qed

lemma perform_transmits:
  assumes "perform ev l = (fx, l')"
  shows "(\<exists>now k x. quiet l k \<and> (x = k \<or> x = transmit now k) \<and> fx_Emissions fx = l_emissions x \<and>
      l' = finishRecentRootDeadlines now x) \<or> (fx_Emissions fx = [] \<and> (\<exists>p. l' = BadBPDU p l))"
proof (cases ev)
  case (EvSSTP now port a b)
  then have "api now (\<lambda>l. snd (sstp_outcome_of now port a b l)) l = (fx, l')"
    using assms by (simp add: ReceiveSSTP_def Let_def case_prod_beta)
  moreover have "transmits now l (snd (sstp_outcome_of now port a b l))" if "l_emissions l = []" for l
    using that by (rule body_transmits(4))
  ultimately show ?thesis
    using api_transmits [where body = "\<lambda>l. snd (sstp_outcome_of now port a b l)"] by blast
next
  case (EvMcheck now port)
  then have "api now (mcheck_body now port) l = (fx, l')"
    using assms by (simp add: Mcheck_def)
  then show ?thesis
    using api_transmits [where body = "mcheck_body now port", OF body_transmits(1)] by blast
next
  case (EvLink now port up p2p s)
  then have "api now (linkChange_body now port up p2p s) l = (fx, l')"
    using assms by (simp add: LinkChange_def)
  then show ?thesis
    using api_transmits [where body = "linkChange_body now port up p2p s", OF body_transmits(2)] by blast
next
  case (EvReceive now port b)
  then have "api now (receive_body now port b) l = (fx, l')"
    using assms by (simp add: Receive_def)
  then show ?thesis
    using api_transmits [where body = "receive_body now port b", OF body_transmits(3)] by blast
next
  case (EvAdvance now)
  then have "api now (advance_body now) l = (fx, l')"
    using assms by (simp add: Advance_def)
  then show ?thesis
    using api_transmits [where body = "advance_body now", OF body_transmits(5)] by blast
qed (use assms in auto)

section \<open>The transmit pass\<close>

lemma drain_count: "fst (drain now c tick) \<le> c"
  by (induction now c tick rule: drain.induct) (auto split: if_splits)

lemma count_advance: "x_count (advanceTransmitCount now x) \<le> x_count x"
  using drain_count [of now "x_count x" "x_tick x"]
  by (simp add: advanceTransmitCount_def case_prod_beta Let_def)

lemma core_budget: "core k = core l \<Longrightarrow> l_txHoldCount k = l_txHoldCount l"
  using shape_fields(8) [OF core_shape] by blast

lemma transmitBPDU_portTx: "l_portTx (snd (transmitBPDU i n now l)) = l_portTx l"
  by (simp add: transmitBPDU_def makeBPDU_def frame_simps split: role.splits)

lemma within_portTx: "l_portTx k = l_portTx l \<Longrightarrow> l_txHoldCount k = l_txHoldCount l \<Longrightarrow> within_budget k = within_budget l"
  by (simp add: within_budget_def)

lemma within_send:
  assumes "within_budget l" "x_count (tx_at l i n) < unat (l_txHoldCount l)"
  shows "within_budget (send_port i now n l)"
proof -
  obtain msg l1 where t: "transmitBPDU i n now l = (msg, l1)"
    by (cases "transmitBPDU i n now l")
  have tx: "l_portTx l1 = l_portTx l" and hold: "l_txHoldCount l1 = l_txHoldCount l"
    and key: "txKeyFor l1 i n = txKeyFor l i n"
    using transmitBPDU_portTx [of i n now l] core_transmitBPDU [of i n now l] core_budget [of l1 l]
      shape_fields(14) [OF core_shape, of l1 l] t
    by (simp_all add: txKeyFor_def)
  have l1: "within_budget l1"
    using within_portTx [OF tx hold] assms(1) by simp
  have emit: "within_budget (emit n b l1) = within_budget l1" "l_portTx (emit n b l1) = l_portTx l1"
    "l_txHoldCount (emit n b l1) = l_txHoldCount l1" "txKeyFor (emit n b l1) i n = txKeyFor l1 i n" for b
    by (simp_all add: emit_def within_budget_def txKeyFor_def)
  have sent: "within_budget (upd_tx i n (charge d now ty)
      (upd_port i n (\<lambda>p. p\<lparr>p_txBPDUs := p_txBPDUs p + 1\<rparr>) (emit n b l1)))" for d ty b
  proof (rule within_upd_tx)
    fix x
    assume "map_of (l_portTx (upd_port i n (\<lambda>p. p\<lparr>p_txBPDUs := p_txBPDUs p + 1\<rparr>) (emit n b l1)))
      (txKeyFor (upd_port i n (\<lambda>p. p\<lparr>p_txBPDUs := p_txBPDUs p + 1\<rparr>) (emit n b l1)) i n) = Some x"
    then have "tx_at l i n = x"
      by (simp add: frame_simps emit tx key tx_at_def)
    with assms(2) show "x_count (charge d now ty x)
      \<le> unat (l_txHoldCount (upd_port i n (\<lambda>p. p\<lparr>p_txBPDUs := p_txBPDUs p + 1\<rparr>) (emit n b l1)))"
      by (simp add: charge_def frame_simps emit hold)
  qed (simp add: emit l1)
  show ?thesis
    using l1 sent by (simp add: send_port_def t split: option.split sum.split)
qed

lemma within_transmit_port:
  assumes "within_budget l"
  shows "within_budget (transmit_port i now n l)"
proof (cases "\<not> k_up (link_at l n) \<or> k_bpduGuardDisabled (link_at l n)")
  case True
  then show ?thesis
    using within_upd_tx [OF assms] by (auto simp: transmit_port_def Let_def)
next
  case False
  let ?l1 = "upd_tx i n (advanceTransmitCount now) l"
  let ?l2 = "setHelloRequests i now n ?l1"
  have "within_budget ?l1"
  proof (rule within_upd_tx [OF assms])
    fix x assume "map_of (l_portTx l) (txKeyFor l i n) = Some x"
    then have "x_count x \<le> unat (l_txHoldCount l)"
      by (rule within_budgetD [OF assms])
    then show "x_count (advanceTransmitCount now x) \<le> unat (l_txHoldCount l)"
      using count_advance [of now x] by simp
  qed
  then have "within_budget ?l2"
    by simp
  then show ?thesis
    using False within_send by (simp add: transmit_port_def Let_def not_less)
qed

lemma within_transmit: "within_budget l \<Longrightarrow> within_budget (transmit now l)"
  unfolding transmit_def
  by (rule fold_inv [where P = within_budget], assumption)
    (auto intro: fold_inv [where P = within_budget] within_transmit_port)

lemma step_within: "within_budget l \<Longrightarrow> stp_step l l' \<Longrightarrow> within_budget l'"
proof (erule stp_stepE)
  fix ev fx
  assume l: "within_budget l" and "perform ev l = (fx, l')"
  from perform_transmits [OF this(2)] show "within_budget l'"
  proof
    assume "\<exists>now k x. quiet l k \<and> (x = k \<or> x = transmit now k) \<and> fx_Emissions fx = l_emissions x \<and>
      l' = finishRecentRootDeadlines now x"
    then show ?thesis
      using l within_transmit by (auto simp: quiet_def)
  qed (use l in \<open>auto simp: BadBPDU_def\<close>)
qed

section \<open>A new layer\<close>

lemma init_portTx:
  "map_of (l_portTx (init_tx i n l)) key = Some x \<Longrightarrow> map_of (l_portTx l) key = Some x \<or> x_count x = 0"
  by (auto simp: init_tx_def Let_def map_add_Some_iff zero_tx_def split: if_splits)

lemma init_fields [simp]:
  "l_portTx (init_instance cfg insts k l) = l_portTx l"
  "l_portTx (init_vlan cfg q p k l) = l_portTx l"
  "l_portTx (base_layer h cfg) = []"
  by (auto simp: init_instance_def addTree_def init_vlan_def Let_def base_layer_def case_prod_beta
      split: option.splits)

lemma new_within:
  assumes "new_state h cfg tbl l"
  shows "within_budget l"
proof -
  define Z where "Z k \<longleftrightarrow> (\<forall>key x. map_of (l_portTx (k :: stp_layer)) key = Some x \<longrightarrow> x_count x = 0)" for k
  let ?c = "config_Normalize cfg"
  let ?b = "base_layer h ?c"
  have mst: "l_portTx (initMST ?c m k) = l_portTx k" for m k
    by (simp add: initMST_def fold_const [where g = l_portTx])
  have pvst: "l_portTx (initPVST ?c q p k) = l_portTx k" for q p k
    by (simp add: initPVST_def fold_const [where g = l_portTx])
  have "Z (init_tx i n k)" if "Z k" for i n k
    using that init_portTx unfolding Z_def by blast
  then have loop: "Z (fold (\<lambda>i l. fold (init_tx i) (l_portNames l) l) is k)" if "Z k" for "is" k
    using that by (intro fold_inv [where P = Z])
  have "l = newLayer h ?c"
    using assms by (auto simp: new_state_def New_def split: option.splits)
  moreover have "Z (newLayer h ?c)"
    unfolding newLayer_def Let_def by (rule loop) (simp add: Z_def mst pvst split: option.split)
  ultimately have "Z l"
    by simp
  then show ?thesis
    by (auto simp: Z_def within_budget_def)
qed

interpretation stp_budget: invariant "new_state h cfg tbl" stp_step within_budget for h cfg tbl
  by unfold_locales (use new_within step_within in blast)+

section \<open>The timers of a reachable layer\<close>

text \<open>What construction fixes of the timers and the budget, through \<open>shape\<close>.\<close>

definition tuned :: "stp_layer \<Rightarrow> bool" where
  "tuned l \<longleftrightarrow> second \<le> l_helloTime l \<and> 6 * second \<le> l_maxAge l \<and> 4 * second \<le> l_forwardDelay l \<and>
     2 * (l_helloTime l + second) \<le> l_maxAge l \<and> l_maxAge l \<le> 2 * (l_forwardDelay l - second) \<and>
     1 \<le> l_txHoldCount l \<and> l_txHoldCount l \<le> 10"

text \<open>The fields construction copies from the configuration and never writes again.\<close>

definition knobs where
  "knobs (l :: stp_layer) = (l_helloTime l, l_maxAge l, l_forwardDelay l, l_txHoldCount l, l_address l,
     l_configID l, l_mst l, l_pvst l)"

lemma knobs_shape:
  assumes "shape l' = shape l"
  shows "knobs l' = knobs l"
  by (simp add: knobs_def shape_fields [OF assms])

lemma knobs_newLayer: "knobs (newLayer h cfg) = knobs (base_layer h cfg)"
proof -
  have parts: "knobs (init_instance cfg insts k l) = knobs l" "knobs (init_vlan cfg q p v l) = knobs l"
    "knobs (init_tx i n l) = knobs l" for insts k l q p v i n
    by (auto simp: knobs_def init_instance_def addTree_def init_vlan_def init_tx_def Let_def
        split: option.splits)
  have fields: "knobs (l\<lparr>l_vidToTree := v, l_treeVLANs := w\<rparr>) = knobs l" for l v w
    by (simp add: knobs_def)
  have loops: "knobs (initMST cfg m l) = knobs l" "knobs (initPVST cfg q p l) = knobs l"
    "knobs (fold (\<lambda>i l. fold (init_tx i) (l_portNames l) l) is l) = knobs l" for m l q p "is"
    by (simp_all add: initMST_def initPVST_def fold_const [where g = knobs] parts fields)
  show ?thesis
    by (simp add: newLayer_def Let_def loops split: option.split)
qed

lemma new_tuned:
  assumes "new_state h cfg tbl l"
  shows "tuned l"
proof -
  let ?c = "config_Normalize cfg"
  have v: "config_Validate tbl cfg = None" and l: "l = newLayer h ?c"
    using assms by (auto simp: new_state_def New_def split: option.splits)
  have hold: "c_TxHoldCount cfg \<le> 10"
    using v by (auto simp: config_Validate_def not_less split: if_splits option.splits)
  have "ValidateTimers cfg = None"
    using config_Validate_None(1) [OF v] .
  then have t: "second \<le> effectiveHelloTime (c_HelloTime cfg)" "6 * second \<le> effectiveMaxAge (c_MaxAge cfg)"
    "4 * second \<le> effectiveForwardDelay (c_ForwardDelay cfg)"
    "2 * (effectiveHelloTime (c_HelloTime cfg) + second) \<le> effectiveMaxAge (c_MaxAge cfg)"
    "effectiveMaxAge (c_MaxAge cfg) \<le> 2 * (effectiveForwardDelay (c_ForwardDelay cfg) - second)"
    by (auto simp: ValidateTimers_def Let_def split: option.splits if_splits)
  have "tuned (base_layer h ?c)"
    using t hold by (auto simp: tuned_def base_layer_def Let_def case_prod_beta effectiveTxHoldCount_def
        word_le_nat_alt unat_eq_0 Suc_le_eq unat_gt_0)
  then show ?thesis
    using knobs_newLayer [of h ?c] by (simp add: l tuned_def knobs_def)
qed

interpretation stp_tuned: invariant "new_state h cfg tbl" stp_step tuned for h cfg tbl
proof
  show "tuned l'" if "tuned l" "stp_step l l'" for l l'
    using that(1) knobs_shape [OF step_shape [OF that(2)]] by (simp add: tuned_def knobs_def)
qed (rule new_tuned)

end
