(* ===== verification/Bpdu_Codec.thy ===== *)
theory Bpdu_Codec
  imports Bpdu
begin

unbundle bit_operations_syntax

text \<open>
  What the BPDU codec preserves: \<open>wire_form\<close> is what is left of a BPDU after a trip over
  the wire, the round trips through both wire forms answer exactly it, and the decoders never panic
  and answer only BPDUs that survive another trip unchanged.
\<close>

section \<open>Durations\<close>

text \<open>The wire counts in 1/256 s, which is a whole number of nanoseconds.\<close>

abbreviation tick :: duration where "tick \<equiv> 3906250"

lemma sdiv_nonneg: "0 \<le> a \<Longrightarrow> 0 < b \<Longrightarrow> a sdiv b = a div (b :: int)"
  by (cases "a = 0") (simp_all add: signed_divide_int_def)

lemma decodeDuration_tick: "decodeDuration u = uint u * tick"
  by (simp add: decodeDuration_def sdiv_nonneg)

lemma int64_small: "- (2 ^ 63) \<le> x \<Longrightarrow> x < 2 ^ 63 \<Longrightarrow> int64 x = x"
  by (simp add: int64_def signed_take_bit_int_eq_self_iff sint_sbintrunc' )

text \<open>Encoding drops the part below a tick, up to the 256 s the field can hold.\<close>

lemma encodeDuration_range:
  assumes "0 \<le> d" "d < 65536 * tick"
  shows "encodeDuration d = word_of_int (d div tick)"
proof (cases "d \<le> 0")
  case False
  have "int64 (d * 256) = d * 256"
    by (rule int64_small) (use assms in simp_all)
  moreover have "d * 256 div second = d div tick"
    using div_mult_mult2 [of 256 d tick] by simp
  ultimately show ?thesis
    using False by (simp add: encodeDuration_def signed_divide_int_def)
next
  case True
  then show ?thesis
    using assms by (simp add: encodeDuration_def)
qed

lemma encode_decodeDuration [simp]: "encodeDuration (decodeDuration u) = u"
proof -
  have "uint u < 65536"
    using uint_lt2p [of u] by simp
  then show ?thesis
    by (simp add: decodeDuration_tick encodeDuration_range)
qed

definition wire_time :: "duration \<Rightarrow> duration" where
  "wire_time d = decodeDuration (encodeDuration d)"

lemma wire_time_range:
  assumes "0 \<le> d" "d < 65536 * tick"
  shows "wire_time d = d - d mod tick"
proof -
  have "0 \<le> d div tick" "d div tick < 65536"
    using assms by (simp_all add: pos_imp_zdiv_nonneg_iff div_less_iff_less_mult)
  then have "uint (word_of_int (d div tick) :: u16) = d div tick"
    by (simp add: uint_word_of_int_eq take_bit_int_eq_self)
  then show ?thesis
    using assms by (simp add: wire_time_def decodeDuration_tick encodeDuration_range minus_mod_eq_div_mult)
qed

lemma wire_time_decode [simp]: "wire_time (decodeDuration u) = decodeDuration u"
  by (simp add: wire_time_def)

lemma wire_time_idem [simp]: "wire_time (wire_time d) = wire_time d"
  by (simp add: wire_time_def)

section \<open>What a BPDU keeps on the wire\<close>

definition wire_body :: "bpdu \<Rightarrow> bpdu" where
  "wire_body b = zero_bpdu\<lparr>
     b_RootID := b_RootID b, b_RootPathCost := b_RootPathCost b,
     b_BridgeID := b_BridgeID b, b_PortID := b_PortID b,
     b_MessageAge := wire_time (b_MessageAge b), b_MaxAge := wire_time (b_MaxAge b),
     b_HelloTime := wire_time (b_HelloTime b), b_ForwardDelay := wire_time (b_ForwardDelay b)\<rparr>"

definition wire_record :: "msti_record \<Rightarrow> msti_record" where
  "wire_record rec =
     (let prio = (bid_Priority (r_RegionalRootID rec) AND 0xF000) OR (r_MSTID rec AND 0x0FFF) in
      rec\<lparr>r_MSTID := r_MSTID rec AND 0x0FFF,
          r_RegionalRootID := BridgeID prio (bid_Address (r_RegionalRootID rec)),
          r_BridgePriority := r_BridgePriority rec AND 0xF0,
          r_PortPriority := r_PortPriority rec AND 0xF0\<rparr>)"

definition wire_name :: "string \<Rightarrow> string" where
  "wire_name s = rev (dropWhile (\<lambda>c. c = CHR 0x00) (rev (take 32 s)))"

definition wire_cid :: "config_id \<Rightarrow> config_id" where
  "wire_cid cid = cid\<lparr>cid_Name := wire_name (cid_Name cid)\<rparr>"

definition wire_form :: "bpdu \<Rightarrow> bpdu" where
  "wire_form b =
     (case b_ConfigID b of
        Some cid \<Rightarrow> (wire_body b)\<lparr>b_Version := 3, b_Type := TypeRapid,
          b_Flags := b_Flags b AND NOT flagTopologyChangeAck, b_ConfigID := Some (wire_cid cid),
          b_RegionalRootID := b_RegionalRootID b,
          b_InternalRootPathCost := b_InternalRootPathCost b,
          b_RemainingHops := b_RemainingHops b, b_MSTIs := map wire_record (b_MSTIs b)\<rparr>
      | None \<Rightarrow>
          (case b_Type b of
             TypeConfiguration \<Rightarrow> (wire_body b)\<lparr>b_Type := TypeConfiguration,
               b_Version := (if b_Version b > 1 then 0 else b_Version b),
               b_Flags := b_Flags b AND (flagTopologyChange OR flagTopologyChangeAck)\<rparr>
           | TypeTopologyChangeNotification \<Rightarrow> zero_bpdu\<lparr>b_Type := TypeTopologyChangeNotification\<rparr>
           | TypeRapid \<Rightarrow> (wire_body b)\<lparr>b_Type := TypeRapid,
               b_Version := (if b_Version b < 2 then 2 else b_Version b),
               b_Flags := b_Flags b AND NOT flagTopologyChangeAck\<rparr>))"

section \<open>The shared body\<close>

text \<open>The writes of \<^verbatim>\<open>putBody\<close> are one block of 30 octets.\<close>

definition body_bytes :: "bpdu \<Rightarrow> byte list" where
  "body_bytes b =
     be16 (bid_Priority (b_RootID b)) @ mac_bytes (bid_Address (b_RootID b)) @
     be32 (b_RootPathCost b) @
     be16 (bid_Priority (b_BridgeID b)) @ mac_bytes (bid_Address (b_BridgeID b)) @
     be16 (b_PortID b) @ be16 (encodeDuration (b_MessageAge b)) @
     be16 (encodeDuration (b_MaxAge b)) @ be16 (encodeDuration (b_HelloTime b)) @
     be16 (encodeDuration (b_ForwardDelay b))"

lemma length_body_bytes [simp]: "length (body_bytes b) = 30"
  by (simp add: body_bytes_def)

lemma putBody_blit: "base + 38 \<le> length p \<Longrightarrow> putBody base b p = blit p (base + 8) (body_bytes b)"
  by (simp add: putBody_def Let_def blit_blit body_bytes_def)

text \<open>So \<^verbatim>\<open>readBody\<close> reads back any payload that holds that block.\<close>

lemma readBody_block:
  assumes block: "slice p (base + 8) (base + 38) = body_bytes b" and len: "base + 38 \<le> length p"
  shows "readBody base p = Some (wire_body b)"
proof -
  have read: "sub p lo hi = Some (slice (body_bytes b) (lo - (base + 8)) (hi - (base + 8)))"
    if "base + 8 \<le> lo" "lo \<le> hi" "hi \<le> base + 38" for lo hi
    using that len by (simp add: sub_def slice_slice flip: block)
  show ?thesis
    by (simp add: readBody_def read) (simp add: body_bytes_def slice_append wire_body_def wire_time_def)
qed

section \<open>Round trips without an MST body\<close>

lemmas codec_simps = Let_def putBody_blit readBody_block byte_simps

lemma decode_encode_plain:
  assumes "b_ConfigID b = None"
  shows "Decode (projr (Encode b src)) = Some (Inr (wire_form b))"
proof (cases "b_Type b")
  case TypeRapid
  then show ?thesis
    using assms
    by (cases "b_Version b < 2")
      (simp_all add: Encode_def Decode_def decodeRST_def wire_form_def codec_simps)
qed (use assms in \<open>simp_all add: Encode_def Decode_def wire_form_def zero_bpdu_def codec_simps\<close>)

text \<open>An SSTP Configuration BPDU always carries version 0.\<close>

definition sstp_form :: "bpdu \<Rightarrow> bpdu" where
  "sstp_form b = (if b_Type b = TypeConfiguration then (wire_form b)\<lparr>b_Version := 0\<rparr> else wire_form b)"

text \<open>Its writes are contiguous, so the payload is a concatenation.\<close>

definition sstp_bytes :: "byte \<Rightarrow> byte \<Rightarrow> byte \<Rightarrow> bpdu \<Rightarrow> vlan_id \<Rightarrow> byte list" where
  "sstp_bytes version wire flags b vid =
     [0xAA, 0xAA, 0x03, 0x00, 0x00, 0x0C] @ be16 0x010B @ be16 0 @ [version, wire, flags] @
     body_bytes b @ [0] @ be16 0 @ be16 2 @ be16 vid"

lemma length_sstp_bytes: "length (sstp_bytes v w fl b vid) = 50"
  by (simp add: sstp_bytes_def)

lemma EncodeSSTP_payload:
  assumes "b_ConfigID b = None" "b_Type b \<noteq> TypeTopologyChangeNotification"
  shows "f_Payload (projr (EncodeSSTP b vid src)) =
     (if b_Type b = TypeConfiguration
      then sstp_bytes 0 0 (b_Flags b AND (flagTopologyChange OR flagTopologyChangeAck)) b vid
      else sstp_bytes (if b_Version b < 2 then 2 else b_Version b) 2
             (b_Flags b AND NOT flagTopologyChangeAck) b vid)"
proof (cases "b_Type b = TypeConfiguration")
  case True
  with assms show ?thesis
    by (simp add: EncodeSSTP_def Let_def putBody_blit blit_blit length_blit blit_all sstp_bytes_def)
next
  case False
  with assms show ?thesis
    by (cases "b_Version b < 2")
      (simp_all add: EncodeSSTP_def Let_def putBody_blit blit_blit length_blit blit_all sstp_bytes_def)
qed

lemma sstp_bytes_read:
  "sstp_bytes v w fl b vid ! 0 = 0xAA" "sstp_bytes v w fl b vid ! Suc 0 = 0xAA"
  "sstp_bytes v w fl b vid ! 2 = 3" "sstp_bytes v w fl b vid ! 3 = 0"
  "sstp_bytes v w fl b vid ! 4 = 0" "sstp_bytes v w fl b vid ! 5 = 0x0C"
  "slice (sstp_bytes v w fl b vid) 6 8 = be16 0x010B" "slice (sstp_bytes v w fl b vid) 8 10 = be16 0"
  "sstp_bytes v w fl b vid ! 10 = v" "sstp_bytes v w fl b vid ! 11 = w"
  "sstp_bytes v w fl b vid ! 12 = fl"
  "slice (sstp_bytes v w fl b vid) 13 43 = body_bytes b"
  "slice (sstp_bytes v w fl b vid) 44 46 = be16 0" "slice (sstp_bytes v w fl b vid) 46 48 = be16 2"
  "slice (sstp_bytes v w fl b vid) 48 50 = be16 vid"
  by (simp_all add: sstp_bytes_def nth_append slice_def)

lemma readBody_sstp: "readBody 5 (sstp_bytes v w fl b vid) = Some (wire_body b)"
  by (rule readBody_block) (simp_all add: sstp_bytes_read length_sstp_bytes)

lemma decode_encode_sstp:
  assumes "b_ConfigID b = None"
  shows "DecodeSSTP (projr (EncodeSSTP b vid src)) =
           Some (Inr (sstp_form b, if b_Type b = TypeTopologyChangeNotification then 0 else vid))"
proof (cases "b_Type b")
  case TypeTopologyChangeNotification
  then show ?thesis
    using assms
    by (simp add: EncodeSSTP_def DecodeSSTP_def sstp_form_def wire_form_def zero_bpdu_def codec_simps)
next
  case TypeConfiguration
  then show ?thesis
    using assms EncodeSSTP_payload [of b vid src]
    by (simp add: DecodeSSTP_def sstp_bytes_read length_sstp_bytes readBody_sstp idx_Some sub_Some
        sstp_form_def wire_form_def Let_def)
next
  case TypeRapid
  then show ?thesis
    using assms EncodeSSTP_payload [of b vid src]
    by (simp add: DecodeSSTP_def sstp_bytes_read length_sstp_bytes readBody_sstp idx_Some sub_Some
        sstp_form_def wire_form_def Let_def)
qed

section \<open>The decoders never panic\<close>

lemma readBody_total: "base + 38 \<le> length p \<Longrightarrow> readBody base p \<noteq> None"
  unfolding readBody_def by (intro answers) simp_all

lemma readMSTIRecord_total: "off + 16 \<le> length p \<Longrightarrow> readMSTIRecord p off \<noteq> None"
  unfolding readMSTIRecord_def by (intro answers) simp_all

lemma readMSTIRecords_total: "off + 16 * n \<le> length p \<Longrightarrow> readMSTIRecords p off n \<noteq> None"
proof (induction n arbitrary: off)
  case (Suc n)
  show ?case
    unfolding readMSTIRecords.simps
    by (intro answers readMSTIRecord_total Suc.IH) (use Suc.prems in simp_all)
qed simp

lemma readMSTBody_total: "105 \<le> length p \<Longrightarrow> readMSTBody p b \<noteq> None"
  unfolding readMSTBody_def Let_def by (intro answers readMSTIRecords_total) simp_all

lemma decodeRST_total: "7 < length p \<Longrightarrow> decodeRST p v \<noteq> None"
  unfolding decodeRST_def Let_def
  by (intro answers readBody_total readMSTBody_total) (auto split: if_splits)

lemma Decode_total: "Decode f \<noteq> None"
proof (cases "length (f_Payload f) = 7")
  case True
  then have "decodeRST (f_Payload f) v \<noteq> None" for v
    by (simp add: decodeRST_def Let_def)
  then show ?thesis
    unfolding Decode_def Let_def by (intro answers readBody_total) (simp_all add: True)
next
  case False
  then show ?thesis
    unfolding Decode_def Let_def by (intro answers readBody_total decodeRST_total) auto
qed

lemma DecodeSSTP_total: "DecodeSSTP f \<noteq> None"
  unfolding DecodeSSTP_def Let_def by (intro answers readBody_total) auto

section \<open>The MST body\<close>

text \<open>
  A payload under construction is what has been written, padded with zeros; a write past its end
  extends it, so the MST payload is a concatenation of fields as well.
\<close>

definition record_bytes :: "msti_record \<Rightarrow> byte list" where
  "record_bytes rec =
     [r_Flags rec] @
     be16 ((bid_Priority (r_RegionalRootID rec) AND 0xF000) OR (r_MSTID rec AND 0x0FFF)) @
     mac_bytes (bid_Address (r_RegionalRootID rec)) @ be32 (r_InternalRootPathCost rec) @
     [r_BridgePriority rec AND 0xF0, r_PortPriority rec AND 0xF0, r_RemainingHops rec]"

lemma length_record_bytes [simp]: "length (record_bytes rec) = 16"
  by (simp add: record_bytes_def)

lemma putMSTIRecord_padded:
  "length bs = off \<Longrightarrow> off + 16 \<le> n \<Longrightarrow>
   putMSTIRecord off rec (padded bs n) = padded (bs @ record_bytes rec) n"
  by (simp add: putMSTIRecord_def Let_def blit_padded record_bytes_def)

lemma length_records [simp]: "length (concat (map record_bytes recs)) = 16 * length recs"
  by (induction recs) simp_all

lemma putMSTIRecords_padded:
  "length bs = off \<Longrightarrow> off + 16 * length recs \<le> n \<Longrightarrow>
   putMSTIRecords off recs (padded bs n) = padded (bs @ concat (map record_bytes recs)) n"
proof (induction recs arbitrary: bs off)
  case (Cons rec recs)
  then show ?case
    using Cons.IH [of "bs @ record_bytes rec" "off + 16"] by (simp add: putMSTIRecord_padded)
qed simp

lemma msti_prio:
  "((x AND 0xF000) OR (m AND 0x0FFF)) AND 0x0FFF = m AND (0x0FFF :: u16)"
  by (simp add: bit.conj_disj_distrib2 and.assoc)

lemma readMSTIRecord_bytes:
  assumes "drop off p = record_bytes rec @ rest"
  shows "readMSTIRecord p off = Some (wire_record rec)"
proof -
  have len: "off + 16 \<le> length p"
    using arg_cong [OF assms, of length] by (auto simp: not_le)
  have s: "slice p (off + i) (off + j) = slice (record_bytes rec @ rest) i j" for i j
    using slice_drop [of off "off + i" p "off + j"] by (simp add: assms)
  have n: "p ! (off + i) = (record_bytes rec @ rest) ! i" if "off + i < length p" for i
    using nth_drop [of off p i] len by (simp add: assms)
  have n0: "p ! off = r_Flags rec"
    using n [of 0] len by (simp add: record_bytes_def)
  show ?thesis
    using len s [of 1 3]
    by (simp add: readMSTIRecord_def byte_simps s n n0)
      (cases rec, simp add: record_bytes_def slice_append slice_Cons nth_append wire_record_def Let_def
        msti_prio and.assoc)
qed

lemma readMSTIRecords_bytes:
  "drop off p = concat (map record_bytes recs) @ rest \<Longrightarrow>
   readMSTIRecords p off (length recs) = Some (map wire_record recs)"
proof (induction recs arbitrary: off)
  case (Cons rec recs)
  have "drop (off + 16) p = concat (map record_bytes recs) @ rest"
    using Cons.prems drop_drop [of 16 off p] by (simp add: add.commute)
  moreover have "readMSTIRecord p off = Some (wire_record rec)"
    using Cons.prems by (simp add: readMSTIRecord_bytes)
  ultimately show ?case
    using Cons.IH by simp
qed simp

text \<open>The name field.\<close>

definition name_field :: "string \<Rightarrow> byte list" where
  "name_field s = name_bytes s @ replicate (32 - length (name_bytes s)) 0"

lemma length_name_bytes: "length (name_bytes s) \<le> 32"
  by (simp add: name_bytes_def)

lemma length_name_field [simp]: "length (name_field s) = 32"
  using length_name_bytes [of s] by (simp add: name_field_def)

lemma byte_of_char_0 [simp]: "byte_of_char c = 0 \<longleftrightarrow> c = CHR 0x00"
proof -
  have "byte_of_char (CHR 0x00) = 0"
    by (simp add: byte_of_char_def)
  then show ?thesis
    by (metis char_of_byte_of_char)
qed

lemma dropWhile_replicate: "P x \<Longrightarrow> dropWhile P (replicate n x @ ys) = dropWhile P ys"
  by (induction n) simp_all

lemma trim_nul_zeros: "trim_nul (bs @ replicate n 0) = trim_nul bs"
  by (simp add: trim_nul_def dropWhile_replicate)

lemma dropWhile_bytes:
  "dropWhile (\<lambda>c. c = 0) (map byte_of_char xs) = map byte_of_char (dropWhile (\<lambda>c. c = CHR 0x00) xs)"
  by (induction xs) simp_all

lemma name_trip: "map char_of_byte (trim_nul (name_field s)) = wire_name s"
proof -
  have "map char_of_byte (map byte_of_char xs) = xs" for xs
    by (induction xs) simp_all
  then show ?thesis
    by (simp add: name_field_def dropWhile_replicate name_bytes_def wire_name_def trim_nul_def
        rev_map dropWhile_bytes del: map_map)
qed

text \<open>The MST payload, field by field.\<close>

definition mst_bytes :: "config_id \<Rightarrow> bpdu \<Rightarrow> byte list" where
  "mst_bytes cid b =
     [0x42, 0x42, 0x03] @ be16 0 @ [3, 2, b_Flags b AND NOT flagTopologyChangeAck] @
     body_bytes (b\<lparr>b_BridgeID := b_RegionalRootID b\<rparr>) @ [0] @
     be16 (of_nat (64 + 16 * length (b_MSTIs b))) @ [cid_Selector cid] @
     name_field (cid_Name cid) @ be16 (cid_Revision cid) @ take 16 (cid_Digest cid) @
     be32 (b_InternalRootPathCost b) @ be16 (bid_Priority (b_BridgeID b)) @
     mac_bytes (bid_Address (b_BridgeID b)) @ [b_RemainingHops b] @
     concat (map record_bytes (b_MSTIs b))"

lemma length_mst_bytes:
  "length (cid_Digest cid) = 16 \<Longrightarrow> length (mst_bytes cid b) = 105 + 16 * length (b_MSTIs b)"
  by (simp add: mst_bytes_def)

lemma length_padded: "length bs \<le> n \<Longrightarrow> length (padded bs n) = n"
  by (simp add: padded_def)

text \<open>The regional root takes the place of the bridge identifier in the shared body.\<close>

lemma body_bytes_regional:
  assumes "length hdr = 8"
  shows "blit (blit (hdr @ body_bytes b @ rest) 20 (be16 (bid_Priority rr))) 22 (mac_bytes (bid_Address rr)) =
   hdr @ body_bytes (b\<lparr>b_BridgeID := rr\<rparr>) @ rest"
  using assms by (simp add: body_bytes_def blit_def)

lemma putMSTBody_padded:
  assumes "length bs = 39" "length (cid_Digest cid) = 16" "n = 105 + 16 * length (b_MSTIs b)"
  shows "putMSTBody cid b (padded bs n) = padded (bs @
     be16 (of_nat (64 + 16 * length (b_MSTIs b))) @ [cid_Selector cid] @
     name_field (cid_Name cid) @ be16 (cid_Revision cid) @ take 16 (cid_Digest cid) @
     be32 (b_InternalRootPathCost b) @ be16 (bid_Priority (b_BridgeID b)) @
     mac_bytes (bid_Address (b_BridgeID b)) @ [b_RemainingHops b] @
     concat (map record_bytes (b_MSTIs b))) n"
  using assms length_name_bytes [of "cid_Name cid"]
  by (simp add: putMSTBody_def Let_def blit_padded putMSTIRecords_padded name_field_def)

lemma encodeMST_payload:
  assumes "length (cid_Digest cid) = 16" "length (b_MSTIs b) \<le> 64"
  shows "f_Payload (projr (encodeMST cid b src)) = mst_bytes cid b"
proof -
  define N where "N = 105 + 16 * length (b_MSTIs b)"
  define hdr where "hdr = [0x42, 0x42, 0x03] @ be16 0 @ [3, 2, b_Flags b AND NOT flagTopologyChangeAck]"
  have hdr: "length hdr = 8"
    by (simp add: hdr_def)
  have N: "105 \<le> N"
    by (simp add: N_def)
  have "blit (blit (blit (blit (blit (replicate N 0) 0 [0x42, 0x42, 0x03]) 3 (be16 0)) 5 [3])
      6 [2]) 7 [b_Flags b AND NOT flagTopologyChangeAck] = padded hdr N"
    using N by (simp add: padded_Nil [of N] blit_padded hdr_def)
  moreover have "blit (putBody 0 b (padded hdr N)) 38 [0] = padded (hdr @ body_bytes b @ [0]) N"
    by (simp add: putBody_blit length_padded hdr blit_padded N_def)
  moreover have "blit (blit (padded (hdr @ body_bytes b @ [0]) N) 20 (be16 (bid_Priority (b_RegionalRootID b))))
      22 (mac_bytes (bid_Address (b_RegionalRootID b)))
    = padded (hdr @ body_bytes (b\<lparr>b_BridgeID := b_RegionalRootID b\<rparr>) @ [0]) N"
    using body_bytes_regional [OF hdr, of b "[0]" "b_RegionalRootID b"]
    by (simp add: blit_padded_inside length_blit hdr)
  ultimately have "f_Payload (projr (encodeMST cid b src)) =
      putMSTBody cid b (padded (hdr @ body_bytes (b\<lparr>b_BridgeID := b_RegionalRootID b\<rparr>) @ [0]) N)"
    using assms by (simp add: encodeMST_def Let_def N_def)
  also have "\<dots> = padded (mst_bytes cid b) N"
    using assms by (simp add: putMSTBody_padded hdr N_def) (simp add: mst_bytes_def hdr_def)
  finally show ?thesis
    using assms by (simp add: padded_full length_mst_bytes N_def)
qed

lemma mst_bytes_read:
  assumes "length (cid_Digest cid) = 16"
  shows "mst_bytes cid b ! 0 = 0x42" "mst_bytes cid b ! Suc 0 = 0x42" "mst_bytes cid b ! 2 = 3"
    "slice (mst_bytes cid b) 3 5 = be16 0" "mst_bytes cid b ! 5 = 3" "mst_bytes cid b ! 6 = 2"
    "mst_bytes cid b ! 7 = b_Flags b AND NOT flagTopologyChangeAck"
    "slice (mst_bytes cid b) 8 38 = body_bytes (b\<lparr>b_BridgeID := b_RegionalRootID b\<rparr>)"
    "mst_bytes cid b ! 38 = 0"
    "slice (mst_bytes cid b) 39 41 = be16 (of_nat (64 + 16 * length (b_MSTIs b)))"
    "mst_bytes cid b ! 41 = cid_Selector cid"
    "slice (mst_bytes cid b) 42 74 = name_field (cid_Name cid)"
    "slice (mst_bytes cid b) 74 76 = be16 (cid_Revision cid)"
    "slice (mst_bytes cid b) 76 92 = cid_Digest cid"
    "slice (mst_bytes cid b) 92 96 = be32 (b_InternalRootPathCost b)"
    "slice (mst_bytes cid b) 96 98 = be16 (bid_Priority (b_BridgeID b))"
    "slice (mst_bytes cid b) 98 104 = mac_bytes (bid_Address (b_BridgeID b))"
    "mst_bytes cid b ! 104 = b_RemainingHops b"
    "drop 105 (mst_bytes cid b) = concat (map record_bytes (b_MSTIs b))"
  using assms by (simp_all add: mst_bytes_def nth_append slice_append slice_Cons)

lemma decode_encodeMST:
  assumes "length (cid_Digest cid) = 16" "length (b_MSTIs b) \<le> 64" "b_ConfigID b = Some cid"
  shows "Decode (projr (encodeMST cid b src)) = Some (Inr (wire_form b))"
proof -
  note read = mst_bytes_read [OF assms(1), of b] and len = length_mst_bytes [OF assms(1), of b]
  have n: "unat (of_nat (64 + 16 * length (b_MSTIs b)) :: u16) = 64 + 16 * length (b_MSTIs b)"
    using assms(2) by (simp only: unat_of_nat) (simp add: take_bit_nat_eq_self)
  have body: "readBody 0 (mst_bytes cid b) = Some (wire_body (b\<lparr>b_BridgeID := b_RegionalRootID b\<rparr>))"
    by (rule readBody_block) (simp_all add: read len)
  have recs: "readMSTIRecords (mst_bytes cid b) 105 (length (b_MSTIs b)) = Some (map wire_record (b_MSTIs b))"
    by (rule readMSTIRecords_bytes [where rest = "[]"]) (simp add: read)
  have mst: "readMSTBody (mst_bytes cid b) x = Some (Inr (x\<lparr>
       b_RegionalRootID := b_BridgeID x, b_ConfigID := Some (wire_cid cid),
       b_InternalRootPathCost := b_InternalRootPathCost b, b_BridgeID := b_BridgeID b,
       b_RemainingHops := b_RemainingHops b, b_MSTIs := map wire_record (b_MSTIs b)\<rparr>))" for x
    by (cases "b_BridgeID b")
      (simp add: readMSTBody_def Let_def idx_Some sub_Some read len n recs name_trip wire_cid_def del: of_nat_add of_nat_mult)
  have "decodeRST (mst_bytes cid b) 3 = Some (Inr (wire_form b))"
    using assms(2,3)
    by (simp add: decodeRST_def Let_def idx_Some sub_Some read len n body mst del: of_nat_add of_nat_mult)
      (simp add: wire_form_def wire_body_def)
  then show ?thesis
    by (simp add: Decode_def Let_def encodeMST_payload assms(1,2) idx_Some sub_Some read len)
qed

text \<open>Both shapes together; the digest of a configuration identifier has 16 octets.\<close>

lemma decode_encoded:
  assumes "Encode b src = Inr f"
    and "case b_ConfigID b of None \<Rightarrow> True | Some cid \<Rightarrow> length (cid_Digest cid) = 16"
  shows "Decode f = Some (Inr (wire_form b))"
proof (cases "b_ConfigID b")
  case None
  then show ?thesis
    using decode_encode_plain [OF None, of src] assms(1) by simp
next
  case (Some cid)
  then have f: "encodeMST cid b src = Inr f"
    using assms(1) by (simp add: Encode_def)
  then have "length (b_MSTIs b) \<le> 64"
    by (simp add: encodeMST_def split: if_splits)
  with decode_encodeMST [OF _ this Some, of src] assms(2) Some f show ?thesis
    by simp
qed

section \<open>What the decoder answers survives another trip\<close>

lemma readBody_form: "readBody base p = Some b \<Longrightarrow> wire_body b = b"
  by (auto simp: readBody_def Option.bind_eq_Some_conv wire_body_def zero_bpdu_def)

lemma readBody_config: "readBody base p = Some b \<Longrightarrow> b_ConfigID b = None"
  by (auto simp: readBody_def Option.bind_eq_Some_conv zero_bpdu_def)

lemma prio_join: "(x AND 0xF000) OR (x AND 0x0FFF) = (x :: u16)"
proof -
  have "(x AND 0xF000) OR (x AND 0x0FFF) = x AND (0xF000 OR 0x0FFF)"
    by (simp only: bit.conj_disj_distrib)
  also have "(0xF000 OR 0x0FFF :: u16) = -1"
    by simp
  finally show ?thesis
    by simp
qed

lemma readMSTIRecord_form: "readMSTIRecord p off = Some rec \<Longrightarrow> wire_record rec = rec"
  by (auto simp: readMSTIRecord_def Option.bind_eq_Some_conv wire_record_def Let_def prio_join and.assoc)

lemma readMSTIRecords_form:
  "readMSTIRecords p off n = Some recs \<Longrightarrow> map wire_record recs = recs \<and> length recs = n"
  by (induction n arbitrary: off recs)
    (auto simp: Option.bind_eq_Some_conv readMSTIRecord_form)

lemma trim_nul_length: "length (trim_nul bs) \<le> length bs"
  by (simp add: trim_nul_def) (metis length_dropWhile_le length_rev)

lemma char_of_byte_0: "char_of_byte b = CHR 0x00 \<longleftrightarrow> b = 0"
  by (metis byte_of_char_0 byte_of_char_of_byte)

lemma wire_name_trim:
  assumes "length bs \<le> 32"
  shows "wire_name (map char_of_byte (trim_nul bs)) = map char_of_byte (trim_nul bs)"
proof -
  have "dropWhile (\<lambda>c. c = CHR 0x00) (map char_of_byte xs) = map char_of_byte (dropWhile (\<lambda>c. c = 0) xs)" for xs
    by (induction xs) (simp_all add: char_of_byte_0)
  moreover have "dropWhile P (dropWhile P xs) = dropWhile P xs" for P :: "byte \<Rightarrow> bool" and xs
    by (induction xs) simp_all
  ultimately show ?thesis
    using trim_nul_length [of bs] assms
    by (simp add: wire_name_def rev_map) (simp add: trim_nul_def)
qed

lemma mst_form:
  assumes "wire_body y = y" "b = y\<lparr>b_Version := v, b_Type := TypeRapid, b_Flags := fl AND NOT flagTopologyChangeAck,
      b_RegionalRootID := rr, b_ConfigID := Some cid, b_InternalRootPathCost := c, b_BridgeID := br,
      b_RemainingHops := h, b_MSTIs := recs\<rparr>" "wire_name (cid_Name cid) = cid_Name cid" "map wire_record recs = recs"
  shows "wire_form b = b\<lparr>b_Version := 3\<rparr>"
proof -
  have "y = wire_body y"
    using assms(1) by simp
  then show ?thesis
    by (subst assms(2), cases y)
      (simp add: wire_form_def wire_body_def zero_bpdu_def wire_cid_def assms(2-4) and.assoc)
qed

lemma wire_body_sel [simp]:
  "b_ConfigID (wire_body b) = None" "b_Type (wire_body b) = TypeRapid" "b_MSTIs (wire_body b) = []"
  by (simp_all add: wire_body_def zero_bpdu_def)

text \<open>
  A decoded BPDU is in wire form up to its version, and fits an encoder: at most 64 records and a
  digest of 16 octets.
\<close>

definition sendable :: "bpdu \<Rightarrow> bool" where
  "sendable b \<longleftrightarrow> wire_form b = b\<lparr>b_Version := b_Version (wire_form b)\<rparr> \<and>
     (case b_ConfigID b of None \<Rightarrow> True
      | Some cid \<Rightarrow> length (cid_Digest cid) = 16 \<and> length (b_MSTIs b) \<le> 64)"

lemma sendable_rapid:
  assumes "wire_body y = y"
  shows "sendable (y\<lparr>b_Version := v, b_Type := TypeRapid, b_Flags := fl AND NOT flagTopologyChangeAck\<rparr>)"
proof -
  have c: "b_ConfigID y = None"
    using assms by (metis wire_body_sel(1))
  have "wire_form (y\<lparr>b_Version := v, b_Type := TypeRapid, b_Flags := fl AND NOT flagTopologyChangeAck\<rparr>) =
      y\<lparr>b_Version := (if v < 2 then 2 else v), b_Type := TypeRapid, b_Flags := fl AND NOT flagTopologyChangeAck\<rparr>"
    using assms c by (simp add: wire_form_def wire_body_def and.assoc)
  then show ?thesis
    using c by (simp add: sendable_def)
qed

lemma sendable_config:
  assumes "wire_body y = y"
  shows "sendable (y\<lparr>b_Version := v, b_Type := TypeConfiguration,
           b_Flags := fl AND (flagTopologyChange OR flagTopologyChangeAck)\<rparr>)"
proof -
  have c: "b_ConfigID y = None"
    using assms by (metis wire_body_sel(1))
  have "wire_form (y\<lparr>b_Version := v, b_Type := TypeConfiguration,
           b_Flags := fl AND (flagTopologyChange OR flagTopologyChangeAck)\<rparr>) =
      y\<lparr>b_Version := (if v > 1 then 0 else v), b_Type := TypeConfiguration,
           b_Flags := fl AND (flagTopologyChange OR flagTopologyChangeAck)\<rparr>"
    using assms c by (simp add: wire_form_def wire_body_def and.assoc)
  then show ?thesis
    using c by (simp add: sendable_def)
qed

lemma sendable_tcn: "sendable (zero_bpdu\<lparr>b_Version := v, b_Type := TypeTopologyChangeNotification\<rparr>)"
  by (auto simp: sendable_def wire_form_def zero_bpdu_def)

lemma sendable_mst:
  assumes "wire_body y = y"
    and read: "readMSTBody p (y\<lparr>b_Version := v, b_Type := TypeRapid, b_Flags := fl AND NOT flagTopologyChangeAck\<rparr>) = Some (Inr b)"
    and n: "(unat (u16_of (slice p 39 41)) - 64) div 16 \<le> 64"
  shows "sendable b"
proof -
  obtain cid rr c br h recs nm where b: "b = y\<lparr>b_Version := v, b_Type := TypeRapid,
      b_Flags := fl AND NOT flagTopologyChangeAck, b_RegionalRootID := rr, b_ConfigID := Some cid,
      b_InternalRootPathCost := c, b_BridgeID := br, b_RemainingHops := h, b_MSTIs := recs\<rparr>"
    and name: "cid_Name cid = map char_of_byte (trim_nul nm)" "length nm \<le> 32"
    and recs: "readMSTIRecords p 105 ((unat (u16_of (slice p 39 41)) - 64) div 16) = Some recs"
    and digest: "length (cid_Digest cid) = 16"
    using read
    by (auto simp: readMSTBody_def Option.bind_eq_Some_conv Let_def sub_def slice_def split: if_splits)
  have "wire_form b = b\<lparr>b_Version := 3\<rparr>"
    using mst_form [OF assms(1) b] wire_name_trim [OF name(2)] readMSTIRecords_form [OF recs] name(1)
    by simp
  then show ?thesis
    using digest readMSTIRecords_form [OF recs] n b by (auto simp: sendable_def)
qed

lemma sendable_RST:
  assumes "decodeRST p v = Some (Inr b)"
  shows "sendable b"
proof -
  obtain y fl where y: "readBody 0 p = Some y" and fl: "idx p 7 = Some fl"
    using assms by (auto simp: decodeRST_def Option.bind_eq_Some_conv Let_def split: if_splits)
  let ?x = "y\<lparr>b_Version := v, b_Type := TypeRapid, b_Flags := fl AND NOT flagTopologyChangeAck\<rparr>"
  have "b = ?x \<or> readMSTBody p ?x = Some (Inr b) \<and> (unat (u16_of (slice p 39 41)) - 64) div 16 \<le> 64"
    using assms y fl
    by (auto simp: decodeRST_def Option.bind_eq_Some_conv Let_def sub_def split: if_splits)
  then show ?thesis
    using sendable_rapid [OF readBody_form [OF y]] sendable_mst [OF readBody_form [OF y]] by blast
qed

lemma sendable_decoded:
  assumes "Decode f = Some (Inr b)"
  shows "sendable b"
  using assms
  by (auto simp: Decode_def Option.bind_eq_Some_conv Let_def sendable_tcn sendable_config [simplified] readBody_form
      dest: sendable_RST split: if_splits simp del: word_and_max)

lemma sendable_roundtrip:
  assumes "sendable b"
  shows "\<exists>f. Encode b src = Inr f \<and> Decode f = Some (Inr (wire_form b))"
proof (cases "b_ConfigID b")
  case None
  have "\<exists>f. Encode b src = Inr f"
    using None by (cases "b_Type b") (simp_all add: Encode_def Let_def)
  with decode_encode_plain [OF None, of src] show ?thesis
    by auto
next
  case (Some cid)
  with assms have "length (cid_Digest cid) = 16" "length (b_MSTIs b) \<le> 64"
    by (simp_all add: sendable_def)
  with decode_encodeMST [OF this Some, of src] Some show ?thesis
    by (auto simp: Encode_def encodeMST_def Let_def)
qed

end
