(* ===== verification/Stp_Wire.thy ===== *)
theory Stp_Wire
  imports Stp_Quiet Stp_Example Bpdu_Codec
begin

text \<open>
  What the layer puts on the wire: the hello timers that ask for it, the budget that bounds it, the
  ports it leaves by, and the frames themselves, read back with the codec.
\<close>

section \<open>The hello loop\<close>

lemma hello_loop_settles: "0 < d \<Longrightarrow> hello_loop d now w = Some (settle_hello d now w)"
proof (induction d now w rule: settle_hello.induct)
  case (1 d now w)
  then show ?case
    by (subst hello_loop.simps, subst settle_hello.simps) simp
qed

lemma settle_hello_due: "0 < d \<Longrightarrow> settle_hello d now w = 0 \<or> now \<le> settle_hello d now w"
proof (induction d now w rule: settle_hello.induct)
  case (1 d now w)
  then show ?case
    by (subst (1 2) settle_hello.simps) auto
qed

lemma settle_hello_steps: "0 < d \<Longrightarrow> d dvd settle_hello d now w - w"
proof (induction d now w rule: settle_hello.induct)
  case (1 d now w)
  show ?case
  proof (cases "w \<noteq> 0 \<and> w < now")
    case True
    then have "d dvd settle_hello d now (w + d) - (w + d)"
      using 1 by simp
    then have "d dvd settle_hello d now (w + d) - (w + d) + d"
      by (rule dvd_add) simp
    then show ?thesis
      using True 1 by (subst settle_hello.simps) (simp add: algebra_simps)
  next
    case False
    then show ?thesis
      by (subst settle_hello.simps) auto
  qed
qed

text \<open>
  C21: the loop that settles a hello timer returns in every layer a validated configuration
  builds, because the hello time is positive. Where it stops, the timer is clear or no longer
  behind the clock, a whole number of hello times after where it was, and it is the value the
  model's total function computes.
\<close>

theorem hello_loop_returns:
  assumes "stp_reachable h cfg tbl l"
  shows "\<exists>w'. hello_loop (l_helloTime l) now w = Some w' \<and> w' = settle_hello (l_helloTime l) now w \<and>
    (w' = 0 \<or> now \<le> w') \<and> l_helloTime l dvd w' - w"
proof -
  have "0 < l_helloTime l"
    using stp_tuned.reachable_inv [OF assms] by (simp add: tuned_def)
  then show ?thesis
    using hello_loop_settles settle_hello_due settle_hello_steps by blast
qed

theorem hello_loop_returns_witness:
  "\<exists>w'. hello_loop (l_helloTime leaf_root) (9 * second) (2 * second) = Some w' \<and>
     w' = settle_hello (l_helloTime leaf_root) (9 * second) (2 * second) \<and> (w' = 0 \<or> 9 * second \<le> w') \<and>
     l_helloTime leaf_root dvd w' - 2 * second"
  by (rule hello_loop_returns [OF ex_states_reach(1)])



section \<open>Emissions\<close>

definition sent_by :: "stp_layer \<Rightarrow> emission \<Rightarrow> bool" where
  "sent_by l em \<longleftrightarrow> em_Port em \<in> set (l_portNames l) \<and> k_up (link_at l (em_Port em)) \<and>
     \<not> k_bpduGuardDisabled (link_at l (em_Port em))"

text \<open>A frame that one of the two encoders made of a BPDU of this layer.\<close>

definition wire_frame :: "stp_layer \<Rightarrow> frame \<Rightarrow> bool" where
  "wire_frame l f \<longleftrightarrow> (\<exists>b. (b_ConfigID b = None \<or> l_pvst l = None \<and> b_ConfigID b = l_configID l) \<and>
     ((Encode b (l_address l) = Inr f) \<or> (\<exists>vid. l_pvst l \<noteq> None \<and> EncodeSSTP b vid (l_address l) = Inr f)))"

definition good_emissions :: "stp_layer \<Rightarrow> bool" where
  "good_emissions l \<longleftrightarrow> (\<forall>em \<in> set (l_emissions l). sent_by l em \<and> wire_frame l (em_Frame em))"

lemma good_core:
  assumes "core k = core l" "l_emissions k = l_emissions l"
  shows "good_emissions k = good_emissions l"
  using shape_fields [OF core_shape [OF assms(1)]] core_links(2) [OF assms(1)]
  by (simp add: good_emissions_def sent_by_def wire_frame_def assms(2))

lemma port_flags_config [simp]: "b_ConfigID (port_flags l i n now b) = b_ConfigID b"
  by (simp add: port_flags_def Let_def SetRole_def SetProposal_def SetAgreement_def SetLearning_def
      SetForwarding_def SetTopologyChange_def set_flag_def)

lemma made_config:
  "b_ConfigID (made_bpdu l i n now) = None \<or> l_mst l \<noteq> None \<and> b_ConfigID (made_bpdu l i n now) = l_configID l"
  by (simp add: made_bpdu_def Let_def zero_bpdu_def SetTopologyChangeAck_def set_flag_def)

lemma transmitBPDU_config:
  "fst (transmitBPDU i n now l) = Some b \<Longrightarrow> b_ConfigID b = None \<or> l_mst l \<noteq> None \<and> b_ConfigID b = l_configID l"
  using made_config [of l i n now]
  by (auto simp: transmitBPDU_def makeBPDU_def zero_bpdu_def split: if_splits role.splits)

lemma frames_wire:
  assumes "frames l i n b = Inr built" "(vid, f) \<in> set built"
    "b_ConfigID b = None \<or> l_pvst l = None \<and> b_ConfigID b = l_configID l"
  shows "wire_frame l f"
  using assms(1,2) unfolding wire_frame_def frames_def Let_def
  by (intro exI [of _ b] conjI assms(3)) (auto split: if_splits sum.splits)

text \<open>One mode at a time, and the region's identifier as construction computed it.\<close>

definition one_mode :: "(byte list \<Rightarrow> byte list \<Rightarrow> byte list) \<Rightarrow> stp_layer \<Rightarrow> bool" where
  "one_mode h l \<longleftrightarrow> (l_mst l = None \<or> l_pvst l = None) \<and> l_configID l = map_option (mst_ConfigID h) (l_mst l)"

lemma one_mode_shape: "shape l' = shape l \<Longrightarrow> one_mode h l' = one_mode h l"
  using knobs_shape [of l' l] by (simp add: one_mode_def knobs_def)

lemma new_one_mode:
  assumes "new_state h cfg tbl l"
  shows "one_mode h l"
proof -
  let ?c = "config_Normalize cfg"
  have v: "config_Validate tbl cfg = None" and l: "l = newLayer h ?c"
    using assms by (auto simp: new_state_def New_def split: option.splits)
  have "one_mode h (base_layer h ?c)"
    using config_Validate_None(2) [OF v]
    by (auto simp: one_mode_def base_layer_def Let_def case_prod_beta)
  then show ?thesis
    using knobs_newLayer [of h ?c] by (simp add: l one_mode_def knobs_def)
qed

interpretation stp_mode: invariant "new_state h cfg tbl" stp_step "one_mode h" for h cfg tbl
  by unfold_locales (use new_one_mode one_mode_shape step_shape in blast)+

lemma transmitBPDU_emissions: "l_emissions (snd (transmitBPDU i n now l)) = l_emissions l"
  by (simp add: transmitBPDU_def makeBPDU_def frame_simps split: role.splits)

lemma good_send:
  assumes "good_emissions l" "l_mst l = None \<or> l_pvst l = None"
    "n \<in> set (l_portNames l)" "k_up (link_at l n)" "\<not> k_bpduGuardDisabled (link_at l n)"
  shows "good_emissions (send_port i now n l)"
proof -
  obtain msg l1 where t: "transmitBPDU i n now l = (msg, l1)"
    by (cases "transmitBPDU i n now l")
  have c: "core l1 = core l" and em: "l_emissions l1 = l_emissions l"
    using core_transmitBPDU [of i n now l] transmitBPDU_emissions [of i n now l] t by simp_all
  note sh = shape_fields [OF core_shape [OF c]]
  have g1: "good_emissions l1"
    using assms(1) good_core [OF c em] by simp
  have sent: "good_emissions (emit n built l1)" if "frames l1 i n b = Inr built" "msg = Some b" for built b
  proof -
    have "b_ConfigID b = None \<or> l_pvst l1 = None \<and> b_ConfigID b = l_configID l1"
      using transmitBPDU_config [of i n now l b] t that(2) assms(2) sh by auto
    then have "wire_frame l1 f" if "(vid, f) \<in> set built" for vid f
      using frames_wire [OF \<open>frames l1 i n b = Inr built\<close> that] by blast
    then have "\<forall>em \<in> set (l_emissions (emit n built l1)). sent_by l1 em \<and> wire_frame l1 (em_Frame em)"
      using g1 assms(3-5) sh core_links(2) [OF c]
      by (auto simp: emit_def good_emissions_def sent_by_def)
    then show ?thesis
      by (simp add: good_emissions_def sent_by_def wire_frame_def emit_def link_at_def)
  qed
  have upd: "good_emissions (upd_tx i n g (upd_port i n f k)) = good_emissions k" for g f k
    by (simp add: good_emissions_def sent_by_def wire_frame_def frame_simps)
  show ?thesis
    using g1 sent by (simp add: send_port_def t upd split: option.split sum.split)
qed

lemma good_transmit_port:
  assumes "good_emissions l" "l_mst l = None \<or> l_pvst l = None" "n \<in> set (l_portNames l)"
  shows "good_emissions (transmit_port i now n l)"
proof (cases "\<not> k_up (link_at l n) \<or> k_bpduGuardDisabled (link_at l n)")
  case True
  have "good_emissions (upd_tx i n g l) = good_emissions l" for g
    by (rule good_core) (simp_all add: frame_simps)
  with True assms(1) show ?thesis
    by (simp add: transmit_port_def Let_def)
next
  case False
  define l2 where "l2 = setHelloRequests i now n (upd_tx i n (advanceTransmitCount now) l)"
  have c: "core l2 = core l" "l_emissions l2 = l_emissions l"
    by (simp_all add: l2_def setHelloRequests_def Let_def frame_simps)
  note sh = shape_fields [OF core_shape [OF c(1)]]
  have g: "good_emissions l2"
    using good_core [OF c] assms(1) by simp
  have "good_emissions (send_port i now n l2)"
    by (rule good_send [OF g]) (use assms False sh core_links(2) [OF c(1)] in auto)
  with g False show ?thesis
    by (simp add: transmit_port_def Let_def l2_def)
qed

lemma good_transmit:
  assumes "l_emissions l = []" "l_mst l = None \<or> l_pvst l = None"
  shows "good_emissions (transmit now l)"
proof -
  let ?P = "\<lambda>k. good_emissions k \<and> core k = core l"
  have port: "?P (transmit_port i now n k)" if "?P k" "n \<in> set (l_portNames l)" for i n k
    using that good_transmit_port shape_fields [OF core_shape, of k l] assms(2) by auto
  have row: "?P (fold (transmit_port i now) (l_portNames k) k)" if "?P k" for i k
    by (rule fold_inv [where P = ?P, OF that])
      (use that port shape_fields(9) [OF core_shape, of k l] in auto)
  have "?P (transmit now l)"
    unfolding transmit_def
    by (rule fold_inv [where P = ?P]) (use row assms(1) in \<open>auto simp: good_emissions_def\<close>)
  then show ?thesis by blast
qed

lemma perform_good:
  assumes "perform ev l = (fx, l')" "l_mst l = None \<or> l_pvst l = None" "em \<in> set (fx_Emissions fx)"
  shows "sent_by l' em \<and> wire_frame l (em_Frame em)"
proof -
  obtain now k x where k: "quiet l k" "x = k \<or> x = transmit now k" "fx_Emissions fx = l_emissions x"
    and l': "l' = finishRecentRootDeadlines now x"
    using perform_transmits [OF assms(1)] assms(3) by auto
  then have x: "x = transmit now k"
    using assms(3) by (auto simp: quiet_def)
  have "l_mst k = None \<or> l_pvst k = None"
    using shape_fields [of k l] k(1) assms(2) by (simp add: quiet_def)
  then have "good_emissions x"
    unfolding x using k(1) by (intro good_transmit) (auto simp: quiet_def)
  then have *: "sent_by x em" "wire_frame x (em_Frame em)"
    using assms(3) k(3) by (auto simp: good_emissions_def)
  have sh: "shape x = shape l" "shape l' = shape x"
    using k(1) by (simp_all add: x l' quiet_def)
  have "link_at l' n = link_at x n" for n
    by (simp add: l' finishRecentRootDeadlines_def finish_port_def fold_const [where g = "\<lambda>l. link_at l n"] frame_simps)
  with * shape_fields [OF sh(1)] shape_fields(9) [OF sh(2)] show ?thesis
    by (simp add: sent_by_def wire_frame_def)
qed

text \<open>
  A frame leaves a bridge only by one of its ports, with its link up and not shut by BPDU guard
  at the end of the call that sent it.
\<close>

theorem sends_on_usable_ports:
  assumes "stp_reachable h cfg tbl l" "perform ev l = (fx, l')" "em \<in> set (fx_Emissions fx)"
  shows "em_Port em \<in> set (l_portNames l') \<and> k_up (link_at l' (em_Port em)) \<and>
    \<not> k_bpduGuardDisabled (link_at l' (em_Port em))"
  using perform_good [OF assms(2) _ assms(3)] stp_mode.reachable_inv [OF assms(1)]
  by (simp add: one_mode_def sent_by_def)

text \<open>The concrete call: a link comes up, and the port announces itself.\<close>

definition ex_link_up :: event where
  "ex_link_up = EvLink (1 * second) ''a'' True True 1000000000"

lemma ex_emits: "map em_Port (fx_Emissions (fst (perform ex_link_up leaf_bridge))) = [''a'']"
  by code_simp

lemma ex_emission:
  obtains em fx l' where "perform ex_link_up leaf_bridge = (fx, l')" "em \<in> set (fx_Emissions fx)" "em_Port em = ''a''"
proof -
  obtain fx l' where p: "perform ex_link_up leaf_bridge = (fx, l')"
    by (cases "perform ex_link_up leaf_bridge")
  with ex_emits obtain em where "em \<in> set (fx_Emissions fx)" "em_Port em = ''a''"
    by (cases "fx_Emissions fx") auto
  with p that show thesis
    by blast
qed

lemma ex_start_reach: "stp_reachable no_digest leaf_cfg ex_table leaf_bridge"
  by (rule reach_init [where init = "new_state no_digest leaf_cfg ex_table"], rule ex_new)

theorem sends_on_usable_ports_witness:
  "k_up (link_at (snd (perform ex_link_up leaf_bridge)) ''a'')"
  using ex_emission sends_on_usable_ports [OF ex_start_reach] by (metis snd_conv)



end
