(* ===== verification/Stp_Wake.thy ===== *)
theory Stp_Wake
  imports Stp_Wire Scans
begin

text \<open>
  The contract of \<^verbatim>\<open>NextWake\<close> with whoever drives the clock: it answers the least of the
  layer's pending times, and until then advancing the layer decides nothing.
\<close>

section \<open>The least pending time\<close>

interpretation wake: best_scan "\<lambda>t. if t = 0 then None else Some t"
    "\<lambda>(next, hasTimer). if hasTimer then Some (next, next) else None" wake_update
    "\<lambda>_. True" "\<lambda>_. True"
  by unfold_locales (auto simp: wake_update_def split: prod.splits option.splits if_splits)

lemma next_wake_none: "NextWake l = (t, False) \<Longrightarrow> u \<in> set (wake_times l) \<Longrightarrow> u = 0"
  using wake.scan_none [of "(0, False)" "wake_times l"] by (auto simp: NextWake_def split: if_splits)

lemma next_wake_some:
  assumes "NextWake l = (t, True)"
  shows "t \<in> set (wake_times l)" "t \<noteq> 0" "u \<in> set (wake_times l) \<Longrightarrow> u \<noteq> 0 \<Longrightarrow> t \<le> u"
  using wake.scan_some [of "(0, False)" "wake_times l" t t] assms
  by (auto simp: NextWake_def split: if_splits)



section \<open>Nothing is due before it\<close>

text \<open>
  The deadlines the layer computes from an instant and a delay are instants after the zero time,
  which the code reads as no time at all.
\<close>

definition clocked_port :: "duration \<Rightarrow> port_state \<Rightarrow> bool" where
  "clocked_port hello p \<longleftrightarrow> (p_rcvInfoValid p \<longrightarrow> p_rcvTime p + 3 * p_rcvHelloTime p \<noteq> 0) \<and>
     (p_leftBackupAt p \<noteq> 0 \<longrightarrow> 0 < p_leftBackupAt p + 2 * hello)"

definition clocked :: "stp_layer \<Rightarrow> bool" where
  "clocked l \<longleftrightarrow> list_all (\<lambda>(i, t). list_all (\<lambda>(n, p). clocked_port (l_helloTime l) p) (t_ports t)) (l_trees l)"

lemma clockedD:
  assumes "clocked l" "has_port l i n"
  shows "clocked_port (l_helloTime l) (port_at l i n)"
proof -
  obtain p where p: "port_of l i n = Some p"
    using assms(2) by blast
  then obtain t where t: "map_of (l_trees l) i = Some t" "map_of (t_ports t) n = Some p"
    by (auto simp: tree_at_def split: option.splits)
  then show ?thesis
    using assms(1) p by (auto simp: clocked_def list_all_iff port_at_def dest!: map_of_SomeD)
qed

definition pending :: "stp_layer \<Rightarrow> time \<Rightarrow> bool" where
  "pending l now \<longleftrightarrow> (\<exists>u \<in> set (wake_times l). u \<noteq> 0 \<and> u \<le> now)"

lemma pendingI:
  assumes "i \<in> set (l_treeOrder l)" "has_port l i n" "u \<in> set (wake_times_port l i (n, port_at l i n))"
    "u \<noteq> 0" "u \<le> now"
  shows "pending l now"
proof -
  have "(n, port_at l i n) \<in> set (t_ports (tree_at l i))"
    using assms(2) by (auto simp: port_at_def dest: map_of_SomeD)
  then have "u \<in> set (wake_times l)"
    using assms(1,3) unfolding wake_times_def by auto
  with assms(4,5) show ?thesis
    by (auto simp: pending_def)
qed

lemma not_pending:
  assumes "\<not> pending l now" "i \<in> set (l_treeOrder l)" "has_port l i n"
  shows "p_fwdDelayTimer (port_at l i n) = 0 \<or> now < p_fwdDelayTimer (port_at l i n)"
    "p_tcWhile (port_at l i n) = 0 \<or> now < p_tcWhile (port_at l i n)"
    "clocked l \<Longrightarrow> p_rcvInfoValid (port_at l i n) \<Longrightarrow>
       now < p_rcvTime (port_at l i n) + 3 * p_rcvHelloTime (port_at l i n)"
    "i = cistID \<Longrightarrow> edgeDelayPending l n \<Longrightarrow> now < k_edgeDelayWhile (link_at l n)"
    "clocked l \<Longrightarrow> \<not> (n = t_rootPort (tree_at l i) \<and> p_role (port_at l i n) = RoleRoot \<and>
       p_state (port_at l i n) \<noteq> StateForwarding \<and> p_leftBackupAt (port_at l i n) \<noteq> 0 \<and>
       recentBackupDeadline l i (port_at l i n) now = 0)"
proof -
  note p = pendingI [OF assms(2,3), of _ now]
  show "p_fwdDelayTimer (port_at l i n) = 0 \<or> now < p_fwdDelayTimer (port_at l i n)"
    using p [of "p_fwdDelayTimer (port_at l i n)"] assms(1) by (force simp: wake_times_port_def Let_def)
  show "p_tcWhile (port_at l i n) = 0 \<or> now < p_tcWhile (port_at l i n)"
    using p [of "p_tcWhile (port_at l i n)"] assms(1) by (force simp: wake_times_port_def Let_def)
  show "now < p_rcvTime (port_at l i n) + 3 * p_rcvHelloTime (port_at l i n)"
    if "clocked l" "p_rcvInfoValid (port_at l i n)"
    using p [of "p_rcvTime (port_at l i n) + 3 * p_rcvHelloTime (port_at l i n)"] assms(1) that
      clockedD [OF that(1) assms(3)]
    by (force simp: wake_times_port_def Let_def clocked_port_def)
  show "now < k_edgeDelayWhile (link_at l n)" if "i = cistID" "edgeDelayPending l n"
    using p [of "k_edgeDelayWhile (link_at l n)"] assms(1) that
    by (force simp: wake_times_port_def Let_def edgeDelayPending_def)
  show "\<not> (n = t_rootPort (tree_at l i) \<and> p_role (port_at l i n) = RoleRoot \<and>
       p_state (port_at l i n) \<noteq> StateForwarding \<and> p_leftBackupAt (port_at l i n) \<noteq> 0 \<and>
       recentBackupDeadline l i (port_at l i n) now = 0)" if "clocked l"
    using p [of "recentBackupDeadline l i (port_at l i n) 0"] assms(1) clockedD [OF that assms(3)]
    by (force simp: wake_times_port_def Let_def recentBackupDeadline_def recentDeadline_def clocked_port_def
        hello_of_local split: if_splits)
qed

text \<open>What the timer-driven transitions ask of a port, all answered no.\<close>

definition idle :: "stp_layer \<Rightarrow> time \<Rightarrow> bool" where
  "idle l now \<longleftrightarrow> (\<forall>i \<in> set (l_treeOrder l). \<forall>n. has_port l i n \<longrightarrow>
     (p_fwdDelayTimer (port_at l i n) = 0 \<or> now < p_fwdDelayTimer (port_at l i n)) \<and>
     (p_rcvInfoValid (port_at l i n) \<longrightarrow>
        now < p_rcvTime (port_at l i n) + 3 * p_rcvHelloTime (port_at l i n)) \<and>
     (i = cistID \<and> edgeDelayPending l n \<longrightarrow> now < k_edgeDelayWhile (link_at l n)) \<and>
     \<not> (n = t_rootPort (tree_at l i) \<and> p_role (port_at l i n) = RoleRoot \<and>
       p_state (port_at l i n) \<noteq> StateForwarding \<and> p_leftBackupAt (port_at l i n) \<noteq> 0 \<and>
       recentBackupDeadline l i (port_at l i n) now = 0))"

lemma idleD:
  assumes "idle l now" "i \<in> set (l_treeOrder l)" "has_port l i n"
  shows "p_fwdDelayTimer (port_at l i n) = 0 \<or> now < p_fwdDelayTimer (port_at l i n)"
    "p_rcvInfoValid (port_at l i n) \<Longrightarrow> now < p_rcvTime (port_at l i n) + 3 * p_rcvHelloTime (port_at l i n)"
    "i = cistID \<Longrightarrow> edgeDelayPending l n \<Longrightarrow> now < k_edgeDelayWhile (link_at l n)"
    "\<not> (n = t_rootPort (tree_at l i) \<and> p_role (port_at l i n) = RoleRoot \<and>
       p_state (port_at l i n) \<noteq> StateForwarding \<and> p_leftBackupAt (port_at l i n) \<noteq> 0 \<and>
       recentBackupDeadline l i (port_at l i n) now = 0)"
  using assms unfolding idle_def by blast+

lemma idle_unless_pending:
  assumes "\<not> pending l now" "clocked l"
  shows "idle l now"
  unfolding idle_def
proof (intro ballI allI impI)
  fix i n
  assume "i \<in> set (l_treeOrder l)" "has_port l i n"
  note np = not_pending [OF assms(1) this]
  show "(p_fwdDelayTimer (port_at l i n) = 0 \<or> now < p_fwdDelayTimer (port_at l i n)) \<and>
     (p_rcvInfoValid (port_at l i n) \<longrightarrow>
        now < p_rcvTime (port_at l i n) + 3 * p_rcvHelloTime (port_at l i n)) \<and>
     (i = cistID \<and> edgeDelayPending l n \<longrightarrow> now < k_edgeDelayWhile (link_at l n)) \<and>
     \<not> (n = t_rootPort (tree_at l i) \<and> p_role (port_at l i n) = RoleRoot \<and>
       p_state (port_at l i n) \<noteq> StateForwarding \<and> p_leftBackupAt (port_at l i n) \<noteq> 0 \<and>
       recentBackupDeadline l i (port_at l i n) now = 0)"
    using np(1) np(3) [OF assms(2)] np(4) np(5) [OF assms(2)] by blast
qed

lemma fold_id: "(\<And>x. x \<in> set xs \<Longrightarrow> f x s = s) \<Longrightarrow> fold f xs s = s"
  by (induction xs) simp_all

lemma idle_expire:
  assumes "idle l now"
  shows "expireReceivedInfo now l = (False, l)"
proof -
  have "expire_port now i n (False, l) = (False, l)" if "i \<in> set (l_treeOrder l)" for i n
    using idleD(2) [OF assms that, of n] by (cases "has_port l i n") (auto simp: expire_port_def Let_def)
  then show ?thesis
    unfolding expireReceivedInfo_def by (intro fold_id) auto
qed

lemma idle_auto_edge:
  assumes "idle l now" "cistID \<in> set (l_treeOrder l)"
  shows "advanceAutoEdge now l = (False, l)"
proof -
  have "edgeDelayPending l n \<Longrightarrow> has_port l cistID n" for n
    by (simp add: edgeDelayPending_def Let_def)
  then have "auto_edge_port now n (False, l) = (False, l)" for n
    using idleD(3) [OF assms(1,2), of n] by (auto simp: auto_edge_port_def)
  then show ?thesis
    unfolding advanceAutoEdge_def by (intro fold_id) auto
qed

lemma idle_forward:
  assumes "idle l now"
  shows "advanceForwardDelay now l = (False, l)"
proof -
  have "forward_port now d i n (False, l) = (False, l)" if "i \<in> set (l_treeOrder l)" for d i n
    using idleD(1) [OF assms that, of n] by (auto simp: forward_port_def Let_def)
  then show ?thesis
    unfolding advanceForwardDelay_def by (intro fold_id) (auto intro: fold_id)
qed

lemma clearTC_core [simp]: "core (clearExpiredTCWhile now l) = core l"
proof -
  have "core (upd_port i n (\<lambda>p. if p_tcWhile p \<noteq> 0 \<and> \<not> now < p_tcWhile p then p\<lparr>p_tcWhile := 0\<rparr> else p) l) = core l" for i n l
    by (rule core_upd_port) (simp add: core_port_def)
  then show ?thesis
    by (simp add: clearExpiredTCWhile_def core_fold)
qed

lemma core_leftBackup:
  assumes "core l' = core l"
  shows "p_leftBackupAt (port_at l' i n) = p_leftBackupAt (port_at l i n)"
proof -
  have "core_port (port_at l' i n) = core_port (port_at l i n)"
    using arg_cong [OF assms, of "\<lambda>l. port_at l i n"] by (simp add: port_at_core)
  from arg_cong [OF this, of p_leftBackupAt] show ?thesis
    by (simp add: core_port_def)
qed

lemma backup_core:
  assumes "core l' = core l"
  shows "backup_expired l' now i = backup_expired l now i"
proof -
  have h: "has_port l' i n = has_port l i n" for n
    using shape_has_port [OF core_shape [OF assms]] by blast
  show ?thesis
    unfolding backup_expired_def Let_def recentBackupDeadline_def hello_of_local
      core_trees [OF assms] core_ports(1,2) [OF assms] core_leftBackup [OF assms] h
      shape_fields(5) [OF core_shape [OF assms]] ..
qed

lemma idle_body:
  assumes "idle l now" "cistID \<in> set (l_treeOrder l)"
  shows "advance_body now l = transmit now (clearExpiredTCWhile now l)"
proof -
  have "\<not> backup_expired l now i" if "i \<in> set (l_treeOrder l)" for i
    using idleD(4) [OF assms(1) that, of "t_rootPort (tree_at l i)"] by (auto simp: backup_expired_def Let_def)
  then have "\<not> list_ex (backup_expired (clearExpiredTCWhile now l) now)
      (l_treeOrder (clearExpiredTCWhile now l))"
    using backup_core [OF clearTC_core] shape_fields(12) [OF core_shape [OF clearTC_core]]
    by (auto simp: list_ex_iff)
  then show ?thesis
    by (simp add: advance_body_def idle_expire idle_auto_edge idle_forward assms Let_def)
qed

lemma settle_frame:
  "l_trees (settleHelloTimers now l) = l_trees l" "l_links (settleHelloTimers now l) = l_links l"
  "l_flushes (settleHelloTimers now l) = l_flushes l"
  by (simp_all add: settleHelloTimers_def settle_tx_def fold_const [where g = l_trees]
      fold_const [where g = l_links] fold_const [where g = l_flushes] frame_simps)

lemma idle_settle:
  assumes "idle l now"
  shows "idle (settleHelloTimers now (l\<lparr>l_flushes := [], l_emissions := []\<rparr>)) now"
proof -
  let ?k = "settleHelloTimers now (l\<lparr>l_flushes := [], l_emissions := []\<rparr>)"
  have sh: "shape ?k = shape l"
    by simp
  have at: "tree_at ?k i = tree_at l i" "port_at ?k i n = port_at l i n" "link_at ?k n = link_at l n" for i n
    by (simp_all add: tree_at_def port_at_def link_at_def settle_frame)
  have e: "edgeDelayPending ?k n = edgeDelayPending l n" for n
    by (simp add: edgeDelayPending_def Let_def at)
  have b: "recentBackupDeadline ?k i p now = recentBackupDeadline l i p now" for i p
    by (simp add: recentBackupDeadline_def hello_of_local shape_fields(5) [OF sh])
  show ?thesis
    using assms unfolding idle_def shape_fields(12) [OF sh] at e b .
qed

lemma transmit_flushes: "l_flushes (transmit now l) = l_flushes l"
proof -
  have "l_flushes (snd (transmitBPDU i n now l)) = l_flushes l" for i n l
    by (simp add: transmitBPDU_def makeBPDU_def frame_simps split: role.splits)
  then have "l_flushes (send_port i now n l) = l_flushes l" for i n l
    by (auto simp: send_port_def emit_def frame_simps split: prod.splits option.splits sum.splits)
      (metis snd_conv)+
  then have "l_flushes (transmit_port i now n l) = l_flushes l" for i n l
    by (simp add: transmit_port_def setHelloRequests_def Let_def frame_simps)
  then show ?thesis
    by (simp add: transmit_def fold_const [where g = l_flushes])
qed

lemma finish_ports:
  "psig (port_at (finishRecentRootDeadlines now l) i n) = psig (port_at l i n)"
proof -
  have "psig (port_at (finish_port now j m l) i n) = psig (port_at l i n)" for j m l
    by (simp add: finish_port_def Let_def frame_simps clearRecentRoot_def psig_def)
  then show ?thesis
    by (simp add: finishRecentRootDeadlines_def fold_const [where g = "\<lambda>l. psig (port_at l i n)"])
qed



end
