(* ===== verification/Bpdu_Properties.thy ===== *)
theory Bpdu_Properties
  imports Bpdu_Codec
begin

unbundle bit_operations_syntax

text \<open>
  The properties of the BPDU codec: round trips through both wire forms, total decoders, and the
  sizes of what an encoder puts on the wire.
\<close>

definition codec_cid :: config_id where
  "codec_cid = \<lparr>cid_Selector = 0, cid_Name = ''region-1'', cid_Revision = 7, cid_Digest = replicate 16 0xA5\<rparr>"

definition codec_rst :: bpdu where
  "codec_rst = zero_bpdu\<lparr>b_Version := 2, b_Flags := 0x3C,
     b_RootID := BridgeID 0x1000 (MAC 2 0 0 0 0 1), b_RootPathCost := 20000,
     b_BridgeID := BridgeID 0x8000 (MAC 2 0 0 0 0 2), b_PortID := 0x8001,
     b_MessageAge := second, b_MaxAge := 20 * second, b_HelloTime := 2 * second,
     b_ForwardDelay := 15 * second\<rparr>"

definition codec_mst :: bpdu where
  "codec_mst = codec_rst\<lparr>b_Version := 3, b_ConfigID := Some codec_cid, b_RemainingHops := 20,
     b_MSTIs := [\<lparr>r_MSTID = 5, r_Flags = 0x7C, r_RegionalRootID = BridgeID 0x2005 (MAC 2 0 0 0 0 3),
       r_InternalRootPathCost = 200, r_BridgePriority = 0x20, r_PortPriority = 0x80, r_RemainingHops = 19\<rparr>]\<rparr>"

text \<open>
  C23: what is decoded from an encoded BPDU is its wire form: the same BPDU with its times cut to
  1/256 s, the version its shape prescribes, and the fields its shape does not carry left at zero.
\<close>

theorem decode_encode:
  assumes "Encode b src = Inr f"
    and "case b_ConfigID b of None \<Rightarrow> True | Some cid \<Rightarrow> length (cid_Digest cid) = 16"
  shows "Decode f = Some (Inr (wire_form b))"
  by (rule decode_encoded [OF assms])

theorem decode_encode_witness:
  "\<exists>f. Encode codec_mst (MAC 2 0 0 0 0 2) = Inr f \<and> Decode f = Some (Inr (wire_form codec_mst))"
proof -
  have c: "b_ConfigID codec_mst = Some codec_cid" "length (cid_Digest codec_cid) = 16"
    by (simp_all add: codec_mst_def codec_cid_def)
  obtain f where f: "Encode codec_mst (MAC 2 0 0 0 0 2) = Inr f"
    by (simp add: Encode_def c encodeMST_def Let_def) (simp add: codec_mst_def)
  show ?thesis
    using decode_encode [OF f] f by (simp add: c)
qed

text \<open>
  The same over the Cisco form, with the VLAN the BPDU was sent for: what \<^verbatim>\<open>EncodeSSTP\<close>
  writes, \<^verbatim>\<open>DecodeSSTP\<close> reads back, VLAN included; a topology change notification carries
  none.
\<close>

theorem sstp_roundtrip:
  assumes "EncodeSSTP b vid src = Inr f"
  shows "DecodeSSTP f = Some (Inr (sstp_form b,
           if b_Type b = TypeTopologyChangeNotification then 0 else vid))"
proof -
  have "b_ConfigID b = None"
    using assms by (auto simp: EncodeSSTP_def split: if_splits)
  from decode_encode_sstp [OF this, of vid src] show ?thesis
    by (simp add: assms)
qed

theorem sstp_roundtrip_witness:
  "\<exists>f. EncodeSSTP codec_rst 10 (MAC 2 0 0 0 0 2) = Inr f \<and> DecodeSSTP f = Some (Inr (sstp_form codec_rst, 10))"
proof -
  have c: "b_ConfigID codec_rst = None" "b_Type codec_rst = TypeRapid"
    by (simp_all add: codec_rst_def zero_bpdu_def)
  obtain f where f: "EncodeSSTP codec_rst 10 (MAC 2 0 0 0 0 2) = Inr f"
    by (simp add: EncodeSSTP_def c Let_def)
  show ?thesis
    using sstp_roundtrip [OF f] f by (simp add: c)
qed

text \<open>
  A BPDU that was decoded can be sent on: the encoder accepts it, and what the next bridge
  decodes is the same BPDU, its version aside.
\<close>

theorem decoded_survives:
  assumes "Decode f = Some (Inr b)"
  shows "\<exists>f' v. Encode b src = Inr f' \<and> Decode f' = Some (Inr (b\<lparr>b_Version := v\<rparr>))"
proof -
  have s: "sendable b"
    using assms by (rule sendable_decoded)
  then have "wire_form b = b\<lparr>b_Version := b_Version (wire_form b)\<rparr>"
    by (simp add: sendable_def)
  with sendable_roundtrip [OF s, of src] show ?thesis
    by metis
qed

theorem decoded_survives_witness:
  "\<exists>f f' b v. Decode f = Some (Inr b) \<and> b_Type b = TypeTopologyChangeNotification \<and>
     Encode b (MAC 2 0 0 0 0 9) = Inr f' \<and> Decode f' = Some (Inr (b\<lparr>b_Version := v\<rparr>))"
proof -
  let ?f = "etherframe stpGroupAddress (MAC 2 0 0 0 0 1) 7 [0x42, 0x42, 3, 0, 0, 0, 0x80]"
  let ?b = "zero_bpdu\<lparr>b_Version := 0, b_Type := TypeTopologyChangeNotification\<rparr>"
  have d: "Decode ?f = Some (Inr ?b)"
    by code_simp
  obtain f' v where e: "Encode ?b (MAC 2 0 0 0 0 9) = Inr f'" "Decode f' = Some (Inr (?b\<lparr>b_Version := v\<rparr>))"
    using decoded_survives [OF d, of "MAC 2 0 0 0 0 9"] by blast
  show ?thesis
    by (rule exI [of _ ?f], rule exI [of _ f'], rule exI [of _ ?b], rule exI [of _ v]) (use d e in simp)
qed

lemma length_putMSTIRecords:
  "off + 16 * length recs \<le> length p \<Longrightarrow> length (putMSTIRecords off recs p) = length p"
  by (induction recs arbitrary: off p) (simp_all add: putMSTIRecord_def Let_def length_blit)

lemma length_putMSTBody:
  "105 + 16 * length (b_MSTIs b) \<le> length p \<Longrightarrow> length (putMSTBody cid b p) = length p"
  using length_name_bytes [of "cid_Name cid"]
  by (simp add: putMSTBody_def Let_def length_blit length_putMSTIRecords)

lemma encodeMST_size:
  assumes "length (b_MSTIs b) \<le> 64"
  shows "\<exists>f. encodeMST cid b src = Inr f \<and> length (f_Payload f) = 105 + 16 * length (b_MSTIs b) \<and>
    f_EtherType f = of_nat (length (f_Payload f))"
  using assms by (simp add: encodeMST_def Let_def length_blit putBody_blit length_putMSTBody)

lemma encode_plain_size:
  assumes "b_ConfigID b = None"
  shows "\<exists>f. Encode b src = Inr f \<and> length (f_Payload f) = 46 \<and> unat (f_EtherType f) \<le> 39"
  using assms by (cases "b_Type b") (simp_all add: Encode_def Let_def length_blit putBody_blit)

text \<open>
  An encoded BPDU has the size its length field announces. A plain BPDU is padded to the 46
  octets of a minimal frame, an MST BPDU has 105 octets and 16 for each record; with at most 64
  records it never exceeds 1129 octets. More than 64 records is the only error.
\<close>

theorem encode_sizes:
  "(case Encode b src of
      Inl e \<Rightarrow> b_ConfigID b \<noteq> None \<and> length (b_MSTIs b) > 64 \<and> e = TooManyMSTIRecords (length (b_MSTIs b))
    | Inr f \<Rightarrow> unat (f_EtherType f) \<le> length (f_Payload f) \<and> 46 \<le> length (f_Payload f) \<and>
        length (f_Payload f) \<le> 1129 \<and>
        (b_ConfigID b = None \<longrightarrow> length (f_Payload f) = 46) \<and>
        (b_ConfigID b \<noteq> None \<longrightarrow> unat (f_EtherType f) = length (f_Payload f)))"
proof (cases "b_ConfigID b")
  case None
  then obtain f where "Encode b src = Inr f" "length (f_Payload f) = 46" "unat (f_EtherType f) \<le> 39"
    using encode_plain_size [OF None] by blast
  with None show ?thesis
    by simp
next
  case (Some cid)
  show ?thesis
  proof (cases "length (b_MSTIs b) \<le> 64")
    case True
    then obtain f where "Encode b src = Inr f" "length (f_Payload f) = 105 + 16 * length (b_MSTIs b)"
      "f_EtherType f = of_nat (length (f_Payload f))"
      using encodeMST_size [of b cid src] Some by (auto simp: Encode_def)
    moreover have "unat (of_nat (length (f_Payload f)) :: u16) = length (f_Payload f)"
      using True calculation(2) by (simp only: unat_of_nat) (simp add: take_bit_nat_eq_self)
    ultimately show ?thesis
      using True Some by simp
  qed (simp add: Encode_def Some encodeMST_def)
qed

theorem encode_sizes_witness:
  "\<exists>f. Encode codec_mst (MAC 2 0 0 0 0 2) = Inr f \<and> unat (f_EtherType f) = length (f_Payload f) \<and>
     length (f_Payload f) \<le> 1129"
proof -
  have c: "b_ConfigID codec_mst = Some codec_cid" "length (b_MSTIs codec_mst) = 1"
    by (simp_all add: codec_mst_def)
  show ?thesis
    using encode_sizes [of codec_mst "MAC 2 0 0 0 0 2"]
    by (cases "Encode codec_mst (MAC 2 0 0 0 0 2)") (simp_all add: c)
qed

end
