(* ===== verification/Bridge_Config.thy ===== *)
theory Bridge_Config
  imports Effects
begin

text \<open>
  The configuration of the relay (\<^verbatim>\<open>src/common/sim/layer/bridge/config.go\<close>): ageing,
  table bound, flooded VLANs, isolated ports and the VLAN table with its switchports; what
  \<^verbatim>\<open>Normalize\<close> and \<^verbatim>\<open>Validate\<close> make of it, and the two admission rules. A Go map is
  the list of its entries; \<^verbatim>\<open>Clone\<close> is the identity on values.
\<close>

section \<open>Switchports\<close>

record tunnel =
  tn_VID :: vlan_id
  tn_CustomerVIDs :: "vlan_id list"
  tn_TPID :: u16

definition defaultServiceTPID :: u16 where
  "defaultServiceTPID = 0x88A8"

definition EffectiveTPID :: "tunnel \<Rightarrow> u16" where
  "EffectiveTPID t = (if tn_TPID t = 0 then defaultServiceTPID else tn_TPID t)"

text \<open>The string-typed policies, with the empty string and the values \<^verbatim>\<open>Validate\<close> refuses.\<close>

datatype priority_tags =
  PriorityTagsEmpty | PriorityTagsNever | PriorityTagsIfNonzero | PriorityTagsAlways
  | PriorityTagsOther string

datatype admission =
  AdmissionEmpty | AdmitAll | TaggedOnly | UntaggedAndPriorityTaggedOnly | AdmissionOther string

record switchport =
  sw_PVID :: "vlan_id option"
  sw_Tagged :: "vlan_id list"
  sw_Untagged :: "vlan_id list"
  sw_IngressFiltering :: bool
  sw_Admission :: admission
  sw_Tunnel :: "tunnel option"
  sw_PriorityTags :: priority_tags

definition zero_switchport :: switchport where
  "zero_switchport = \<lparr>sw_PVID = None, sw_Tagged = [], sw_Untagged = [], sw_IngressFiltering = False,
     sw_Admission = AdmissionEmpty, sw_Tunnel = None, sw_PriorityTags = PriorityTagsEmpty\<rparr>"

definition CarriesVID :: "switchport \<Rightarrow> vlan_id \<Rightarrow> bool" where
  "CarriesVID s vid \<longleftrightarrow>
     (case sw_Tunnel s of
        Some t \<Rightarrow> tn_VID t = vid
      | None \<Rightarrow> vid \<in> set (sw_Tagged s) \<or> vid \<in> set (sw_Untagged s))"

definition SwitchportAdmitsFID :: "switchport \<Rightarrow> vlan_id \<Rightarrow> bool" where
  "SwitchportAdmitsFID s fid \<longleftrightarrow>
     sw_PVID s = Some fid \<or> fid \<in> set (sw_Tagged s) \<or> fid \<in> set (sw_Untagged s) \<or>
     (case sw_Tunnel s of Some t \<Rightarrow> tn_VID t = fid | None \<Rightarrow> False)"

section \<open>VLANs\<close>

record vlan_config =
  vc_Table :: "(vlan_id, string) gomap"
  vc_Switchports :: "(string, switchport) gomap"

abbreviation defined_vlan :: "vlan_config \<Rightarrow> vlan_id \<Rightarrow> bool" where
  "defined_vlan v vid \<equiv> map_of (vc_Table v) vid \<noteq> None"

text \<open>\<^verbatim>\<open>sw, ok := v.Switchports[port]\<close> leaves the zero switchport when the port is absent.\<close>

definition switchport_of :: "vlan_config \<Rightarrow> string \<Rightarrow> switchport" where
  "switchport_of v name =
     (case map_of (vc_Switchports v) name of Some sw \<Rightarrow> sw | None \<Rightarrow> zero_switchport)"

definition AdmitsVIDOnIngress :: "vlan_config \<Rightarrow> string \<Rightarrow> vlan_id \<Rightarrow> bool \<Rightarrow> bool" where
  "AdmitsVIDOnIngress v name vid tagged =
     (let sw = switchport_of v name;
          adm = (if sw_Admission sw = AdmissionEmpty then AdmitAll else sw_Admission sw) in
      if sw_Tunnel sw \<noteq> None then False
      else if adm = TaggedOnly \<and> \<not> tagged then False
      else if adm = UntaggedAndPriorityTaggedOnly \<and> tagged then False
      else if \<not> tagged \<and> sw_PVID sw \<noteq> Some vid then False
      else if sw_IngressFiltering sw \<and> vid \<notin> set (sw_Tagged sw) \<and> vid \<notin> set (sw_Untagged sw)
      then False
      else defined_vlan v vid)"

section \<open>The configuration\<close>

record bridge_config =
  bc_AgingTime :: duration
  bc_MaxEntries :: int
  bc_FloodVLANs :: "vlan_id list"
  bc_ProtectedPorts :: "string list"
  bc_ForwardBPDU :: bool
  bc_VLAN :: "vlan_config option"

definition DefaultAgingTime :: duration where
  "DefaultAgingTime = 300 * second"

definition effectiveAgingTime :: "duration \<Rightarrow> duration" where
  "effectiveAgingTime configured = (if configured = 0 then DefaultAgingTime else configured)"

definition normalize_switchport :: "switchport \<Rightarrow> switchport" where
  "normalize_switchport sw =
     sw\<lparr>sw_Admission := (if sw_Admission sw = AdmissionEmpty then AdmitAll else sw_Admission sw),
        sw_PriorityTags := (if sw_PriorityTags sw = PriorityTagsEmpty then PriorityTagsNever
                            else sw_PriorityTags sw),
        sw_Tagged := sort_compact (sw_Tagged sw),
        sw_Untagged := sort_compact (sw_Untagged sw),
        sw_Tunnel := map_option (\<lambda>t. t\<lparr>tn_TPID := EffectiveTPID t,
                                       tn_CustomerVIDs := sort_compact (tn_CustomerVIDs t)\<rparr>)
                       (sw_Tunnel sw)\<rparr>"

definition bridge_Normalize :: "bridge_config \<Rightarrow> bridge_config" where
  "bridge_Normalize c =
     c\<lparr>bc_AgingTime := (if bc_AgingTime c = 0 then DefaultAgingTime else bc_AgingTime c),
       bc_FloodVLANs := sort_compact (bc_FloodVLANs c),
       bc_ProtectedPorts := sort_compact (bc_ProtectedPorts c),
       bc_VLAN := map_option (\<lambda>v. v\<lparr>vc_Switchports :=
                    map_vals (\<lambda>_. normalize_switchport) (vc_Switchports v)\<rparr>) (bc_VLAN c)\<rparr>"

section \<open>Validation\<close>

datatype bridge_error =
    NegativeAging duration
  | NegativeMaxEntries int
  | FloodVLANRange vlan_id
  | FloodVLANUnaware vlan_id
  | FloodVLANAbsent vlan_id
  | ProtectedPortMissing string
  | ProtectedPortMember string string
  | NoVLANTable string
  | TableVLANRange vlan_id
  | SwitchportMissing string
  | SwitchportMember string string
  | UnknownAdmission string string
  | UnknownPriorityTags string string
  | TunnelWithPVID string
  | TunnelWithTagged string
  | TunnelWithUntagged string
  | TunnelVLANRange string vlan_id
  | TunnelVLANAbsent string vlan_id
  | CustomerVLANRange string vlan_id
  | PVIDRange string vlan_id
  | PVIDAbsent string vlan_id
  | TaggedRange string vlan_id
  | TaggedAbsent string vlan_id
  | UntaggedRange string vlan_id
  | UntaggedAbsent string vlan_id
  | TaggedAndUntagged string vlan_id

definition flood_vlan_error :: "bridge_config \<Rightarrow> vlan_id \<Rightarrow> bridge_error option" where
  "flood_vlan_error c vid =
     (if \<not> vlan_Valid vid then Some (FloodVLANRange vid)
      else case bc_VLAN c of
        None \<Rightarrow> Some (FloodVLANUnaware vid)
      | Some v \<Rightarrow> if \<not> defined_vlan v vid then Some (FloodVLANAbsent vid) else None)"

definition protected_port_error :: "port_table \<Rightarrow> string \<Rightarrow> bridge_error option" where
  "protected_port_error tbl name =
     (case Table_Port tbl name of
        None \<Rightarrow> Some (ProtectedPortMissing name)
      | Some p \<Rightarrow> if pt_LagParent p \<noteq> '''' then Some (ProtectedPortMember name (pt_LagParent p)) else None)"

definition validateRelay :: "bridge_config \<Rightarrow> port_table \<Rightarrow> bridge_error option" where
  "validateRelay c tbl =
     (if bc_AgingTime c < 0 then Some (NegativeAging (bc_AgingTime c))
      else if bc_MaxEntries c < 0 then Some (NegativeMaxEntries (bc_MaxEntries c))
      else or_else (first_error (flood_vlan_error c) (bc_FloodVLANs c))
             (first_error (protected_port_error tbl) (bc_ProtectedPorts c)))"

definition validateTunnel :: "vlan_config \<Rightarrow> string \<Rightarrow> switchport \<Rightarrow> tunnel \<Rightarrow> bridge_error option" where
  "validateTunnel v name sw t =
     (if sw_PVID sw \<noteq> None then Some (TunnelWithPVID name)
      else if sw_Tagged sw \<noteq> [] then Some (TunnelWithTagged name)
      else if sw_Untagged sw \<noteq> [] then Some (TunnelWithUntagged name)
      else if \<not> vlan_Valid (tn_VID t) then Some (TunnelVLANRange name (tn_VID t))
      else if \<not> defined_vlan v (tn_VID t) then Some (TunnelVLANAbsent name (tn_VID t))
      else first_error (\<lambda>vid. if \<not> vlan_Valid vid then Some (CustomerVLANRange name vid) else None)
             (tn_CustomerVIDs t))"

definition member_vlan_error ::
    "(string \<Rightarrow> vlan_id \<Rightarrow> bridge_error) \<Rightarrow> (string \<Rightarrow> vlan_id \<Rightarrow> bridge_error) \<Rightarrow>
     vlan_config \<Rightarrow> string \<Rightarrow> vlan_id \<Rightarrow> bridge_error option" where
  "member_vlan_error outside absent v name vid =
     (if \<not> vlan_Valid vid then Some (outside name vid)
      else if \<not> defined_vlan v vid then Some (absent name vid)
      else None)"

definition validateSwitchport ::
    "vlan_config \<Rightarrow> port_table \<Rightarrow> string \<Rightarrow> switchport \<Rightarrow> bridge_error option" where
  "validateSwitchport v tbl name sw =
     (case Table_Port tbl name of
        None \<Rightarrow> Some (SwitchportMissing name)
      | Some p \<Rightarrow>
          if pt_LagParent p \<noteq> '''' then Some (SwitchportMember name (pt_LagParent p))
          else
            or_else (case sw_Admission sw of AdmissionOther a \<Rightarrow> Some (UnknownAdmission a name) | _ \<Rightarrow> None)
           (or_else (case sw_PriorityTags sw of
                       PriorityTagsOther a \<Rightarrow> Some (UnknownPriorityTags a name) | _ \<Rightarrow> None)
           (or_else (case sw_Tunnel sw of Some t \<Rightarrow> validateTunnel v name sw t | None \<Rightarrow> None)
           (or_else (case sw_PVID sw of
                       Some vid \<Rightarrow> member_vlan_error PVIDRange PVIDAbsent v name vid | None \<Rightarrow> None)
           (or_else (first_error (member_vlan_error TaggedRange TaggedAbsent v name) (sw_Tagged sw))
           (or_else (first_error (member_vlan_error UntaggedRange UntaggedAbsent v name) (sw_Untagged sw))
              (first_error (\<lambda>vid. if vid \<in> set (sw_Untagged sw) then Some (TaggedAndUntagged name vid)
                                 else None) (sw_Tagged sw))))))))"

definition bridge_Validate :: "bridge_config \<Rightarrow> port_table \<Rightarrow> bridge_error option" where
  "bridge_Validate c tbl =
     or_else (validateRelay c tbl)
       (case bc_VLAN c of
          None \<Rightarrow> None
        | Some v \<Rightarrow>
            if vc_Switchports v \<noteq> [] \<and> vc_Table v = []
            then Some (NoVLANTable (hd (sortedKeys (vc_Switchports v))))
            else
              or_else (first_error (\<lambda>vid. if \<not> vlan_Valid vid then Some (TableVLANRange vid) else None)
                         (sortedKeys (vc_Table v)))
                (first_error (\<lambda>name. validateSwitchport v tbl name (switchport_of v name))
                   (sortedKeys (vc_Switchports v))))"

section \<open>Facts\<close>

lemma EffectiveTPID_nonzero [simp]: "EffectiveTPID t \<noteq> 0"
  by (simp add: EffectiveTPID_def defaultServiceTPID_def)

text \<open>\<^verbatim>\<open>Normalize\<close> changes no rule of the relay, and a second pass changes nothing.\<close>

lemma carries_normalize [simp]: "CarriesVID (normalize_switchport sw) vid = CarriesVID sw vid"
  by (cases "sw_Tunnel sw") (simp_all add: CarriesVID_def normalize_switchport_def)

lemma normalize_switchport_idem [simp]:
  "normalize_switchport (normalize_switchport sw) = normalize_switchport sw"
  by (cases "sw_Tunnel sw") (simp_all add: normalize_switchport_def, simp_all add: EffectiveTPID_def)

lemma bridge_Normalize_idem: "bridge_Normalize (bridge_Normalize c) = bridge_Normalize c"
  by (cases "bc_VLAN c") (simp_all add: bridge_Normalize_def DefaultAgingTime_def)

end
