(* ===== verification/Bridge_Fdb.thy ===== *)
theory Bridge_Fdb
  imports Bridge_Config Scans "HOL-Library.AList" "HOL-Library.Product_Lexorder"
begin

text \<open>
  The relay and its forwarding database (\<^verbatim>\<open>bridge/layer.go\<close>, \<^verbatim>\<open>seed.go\<close>,
  \<^verbatim>\<open>fdb.go\<close>). The database is a Go map, so the list of its entries: the code's loops over it
  visit the entries in an order Go does not fix, and none of the results depends on it
  (\<open>evictOldestDynamic\<close> is shown to pick the least entry whatever the order).
\<close>

section \<open>Records\<close>

text \<open>\<^verbatim>\<open>now.Sub(t)\<close> saturates at the bounds of an \<^verbatim>\<open>int64\<close>.\<close>

definition time_Sub :: "time \<Rightarrow> time \<Rightarrow> duration" where
  "time_Sub a b = max (- (2 ^ 63)) (min (2 ^ 63 - 1) (a - b))"

datatype origin = OriginEmpty | Configured | Observed | OriginOther string
datatype lifetime = LifetimeEmpty | Aging | Static | LifetimeOther string

text \<open>\<^verbatim>\<open>Entry\<close>, and \<^verbatim>\<open>Seed\<close>, which has the same fields and converts to it.\<close>

record fdb_entry =
  e_FID :: vlan_id
  e_MAC :: mac
  e_Port :: string
  e_Origin :: origin
  e_Lifetime :: lifetime
  e_LearnedAt :: time

type_synonym seed = fdb_entry
type_synonym fdb_key = "vlan_id \<times> mac"
type_synonym fdb = "(fdb_key, fdb_entry) gomap"

record fdb_counters =
  n_Learned :: u64
  n_Expired :: u64
  n_Evicted :: u64
  n_Moved :: u64

text \<open>
  What the relay asks of its neighbours: a gate is a layer that blocks ports (the spanning tree), a
  selector picks the member of a link aggregation group and keeps state \<open>'s\<close> of its own, a
  resolver knows the ports of a multicast group. A scope stands for its key, which is what
  \<^verbatim>\<open>Compare\<close> looks at.
\<close>

record gate =
  g_Learns :: "string \<Rightarrow> vlan_id \<Rightarrow> bool"
  g_Forwards :: "string \<Rightarrow> vlan_id \<Rightarrow> bool"

type_synonym scope = string

record selection =
  sel_Member :: string
  sel_OK :: bool
  sel_Bucket :: byte
  sel_Prior :: string
  sel_Cause :: string
  sel_RebalanceUnmodeled :: bool

type_synonym 's selector = "time \<Rightarrow> string \<Rightarrow> bool \<Rightarrow> frame \<Rightarrow> vlan_id \<Rightarrow> 's \<Rightarrow> selection \<times> 's"
type_synonym resolver = "time \<Rightarrow> vlan_id \<Rightarrow> frame \<Rightarrow> string list \<times> bool"

record 's bridge =
  br_cfg :: bridge_config
  br_ports :: port_table
  br_agingTime :: duration
  br_fdb :: fdb
  br_gates :: "(gate option \<times> scope) list"
  br_selector :: "'s selector option"
  br_resolver :: "resolver option"
  br_counters :: fdb_counters
  br_dynamic :: int

definition zero_counters :: fdb_counters where
  "zero_counters = \<lparr>n_Learned = 0, n_Expired = 0, n_Evicted = 0, n_Moved = 0\<rparr>"

section \<open>Construction and bindings\<close>

definition new_bridge :: "bridge_config \<Rightarrow> port_table \<Rightarrow> 's bridge" where
  "new_bridge c tbl = \<lparr>br_cfg = c, br_ports = tbl, br_agingTime = effectiveAgingTime (bc_AgingTime c),
     br_fdb = [], br_gates = [], br_selector = None, br_resolver = None,
     br_counters = zero_counters, br_dynamic = 0\<rparr>"

definition NewBridge :: "bridge_config \<Rightarrow> port_table \<Rightarrow> bridge_error + 's bridge" where
  "NewBridge c tbl =
     (case bridge_Validate c tbl of
        Some e \<Rightarrow> Inl e
      | None \<Rightarrow> Inr (new_bridge (bridge_Normalize c) tbl))"

text \<open>The first entry of the scope is replaced; a scope not seen before is appended.\<close>

fun set_gate :: "gate option \<Rightarrow> scope \<Rightarrow> (gate option \<times> scope) list \<Rightarrow> (gate option \<times> scope) list" where
  "set_gate g sc [] = [(g, sc)]"
| "set_gate g sc (e # es) = (if snd e = sc then (g, sc) # es else e # set_gate g sc es)"

definition SetGate :: "gate option \<Rightarrow> scope \<Rightarrow> 's bridge \<Rightarrow> 's bridge" where
  "SetGate g sc b = b\<lparr>br_gates := set_gate g sc (br_gates b)\<rparr>"

definition SetSelector :: "'s selector option \<Rightarrow> 's bridge \<Rightarrow> 's bridge" where
  "SetSelector sel b = b\<lparr>br_selector := sel\<rparr>"

definition SetGroupResolver :: "resolver option \<Rightarrow> 's bridge \<Rightarrow> 's bridge" where
  "SetGroupResolver r b = b\<lparr>br_resolver := r\<rparr>"

definition SetOperStatus :: "string \<Rightarrow> link_state \<Rightarrow> 's bridge \<Rightarrow> port_error + 's bridge" where
  "SetOperStatus portName state b =
     (case WithOperStatus (br_ports b) portName state of
        Inl e \<Rightarrow> Inl e
      | Inr tbl \<Rightarrow> Inr (b\<lparr>br_ports := tbl\<rparr>))"

section \<open>Seeds\<close>

datatype seed_error =
    SeedOrigin nat
  | SeedLifetime nat
  | SeedMAC nat
  | SeedPort nat
  | SeedVLANUnaware nat
  | SeedVLANRange nat
  | SeedVLANAbsent nat
  | SeedNotAdmitted nat
  | SeedDuplicate nat nat

definition validateSeedFID :: "bridge_config \<Rightarrow> nat \<Rightarrow> seed \<Rightarrow> seed_error option" where
  "validateSeedFID c i s =
     (case bc_VLAN c of
        None \<Rightarrow> if e_FID s \<noteq> 0 then Some (SeedVLANUnaware i) else None
      | Some v \<Rightarrow>
          if \<not> vlan_Valid (e_FID s) then Some (SeedVLANRange i)
          else if \<not> defined_vlan v (e_FID s) then Some (SeedVLANAbsent i)
          else case map_of (vc_Switchports v) (e_Port s) of
            None \<Rightarrow> Some (SeedNotAdmitted i)
          | Some sw \<Rightarrow> if \<not> SwitchportAdmitsFID sw (e_FID s) then Some (SeedNotAdmitted i) else None)"

text \<open>One iteration of the loop: the seed with its defaults and its logical port, or the error.\<close>

definition normalize_seed ::
    "bridge_config \<Rightarrow> port_table \<Rightarrow> (fdb_key \<rightharpoonup> nat) \<Rightarrow> nat \<Rightarrow> seed \<Rightarrow> seed_error + seed" where
  "normalize_seed c tbl seen i s =
     (let s = (if e_Origin s = OriginEmpty then s\<lparr>e_Origin := Configured\<rparr> else s);
          s = (if e_Lifetime s = LifetimeEmpty then s\<lparr>e_Lifetime := Aging\<rparr> else s) in
      if e_Origin s \<noteq> Configured \<and> e_Origin s \<noteq> Observed then Inl (SeedOrigin i)
      else if e_Lifetime s \<noteq> Aging \<and> e_Lifetime s \<noteq> Static then Inl (SeedLifetime i)
      else if e_MAC s = MAC 0 0 0 0 0 0 \<or> mac_IsGroup (e_MAC s) then Inl (SeedMAC i)
      else case Resolve tbl (e_Port s) of
        None \<Rightarrow> Inl (SeedPort i)
      | Some logical \<Rightarrow>
          let s = s\<lparr>e_Port := pt_Name logical\<rparr> in
          case validateSeedFID c i s of
            Some e \<Rightarrow> Inl e
          | None \<Rightarrow>
              case seen (e_FID s, e_MAC s) of
                Some previous \<Rightarrow> Inl (SeedDuplicate i previous)
              | None \<Rightarrow> Inr s)"

fun normalize_seeds ::
    "bridge_config \<Rightarrow> port_table \<Rightarrow> (fdb_key \<rightharpoonup> nat) \<Rightarrow> nat \<Rightarrow> seed list \<Rightarrow> seed_error + seed list" where
  "normalize_seeds c tbl seen i [] = Inr []"
| "normalize_seeds c tbl seen i (s # ss) =
     (case normalize_seed c tbl seen i s of
        Inl e \<Rightarrow> Inl e
      | Inr s' \<Rightarrow>
          case normalize_seeds c tbl (seen((e_FID s', e_MAC s') \<mapsto> i)) (i + 1) ss of
            Inl e \<Rightarrow> Inl e
          | Inr rest \<Rightarrow> Inr (s' # rest))"

abbreviation entry_key :: "fdb_entry \<Rightarrow> fdb_key" where
  "entry_key e \<equiv> (e_FID e, e_MAC e)"

definition NormalizeSeeds :: "bridge_config \<Rightarrow> port_table \<Rightarrow> seed list \<Rightarrow> seed_error + seed list" where
  "NormalizeSeeds c tbl seeds =
     (case normalize_seeds c tbl Map.empty 0 seeds of
        Inl e \<Rightarrow> Inl e
      | Inr normalized \<Rightarrow> Inr (sort_key entry_key normalized))"

section \<open>The forwarding database\<close>

definition is_dynamic :: "fdb_entry \<Rightarrow> bool" where
  "is_dynamic e \<longleftrightarrow> e_Lifetime e \<noteq> Static"

definition expired :: "'s bridge \<Rightarrow> fdb_entry \<Rightarrow> time \<Rightarrow> bool" where
  "expired b e now \<longleftrightarrow> e_Lifetime e = Aging \<and> time_Sub now (e_LearnedAt e) > br_agingTime b"

text \<open>
  \<^verbatim>\<open>delete(b.fdb, key); b.dynamic--\<close> for every entry of a kind; the loop deletes what it has
  visited, so its order is of no account.
\<close>

definition drop_dynamic :: "(fdb_key \<Rightarrow> fdb_entry \<Rightarrow> bool) \<Rightarrow> 's bridge \<Rightarrow> 's bridge" where
  "drop_dynamic gone b =
     b\<lparr>br_fdb := filter (\<lambda>(k, e). \<not> gone k e) (br_fdb b),
       br_dynamic := br_dynamic b - int (length (filter (\<lambda>(k, e). gone k e) (br_fdb b)))\<rparr>"

definition merge_target :: "flush_target \<Rightarrow> (string \<rightharpoonup> vlan_id list) \<Rightarrow> (string \<rightharpoonup> vlan_id list)" where
  "merge_target target byPort =
     (case byPort (ft_Port target) of
        None \<Rightarrow> byPort(ft_Port target \<mapsto> ft_FIDs target)
      | Some fids \<Rightarrow>
          if fids = [] \<or> ft_FIDs target = [] then byPort(ft_Port target \<mapsto> [])
          else byPort(ft_Port target \<mapsto> fids @ ft_FIDs target))"

definition targets_by_port :: "flush_target list \<Rightarrow> (string \<rightharpoonup> vlan_id list)" where
  "targets_by_port targets = fold merge_target targets Map.empty"

definition flush_hits :: "(string \<rightharpoonup> vlan_id list) \<Rightarrow> fdb_key \<Rightarrow> fdb_entry \<Rightarrow> bool" where
  "flush_hits byPort k e \<longleftrightarrow>
     is_dynamic e \<and>
     (case byPort (e_Port e) of None \<Rightarrow> False | Some fids \<Rightarrow> fids = [] \<or> fst k \<in> set fids)"

definition Flush :: "flush_target list \<Rightarrow> 's bridge \<Rightarrow> 's bridge" where
  "Flush targets b =
     (if targets = [] then b else drop_dynamic (flush_hits (targets_by_port targets)) b)"

definition evict_step :: "fdb_key \<times> fdb_entry \<Rightarrow> (fdb_key \<times> fdb_entry) option \<Rightarrow> (fdb_key \<times> fdb_entry) option" where
  "evict_step = (\<lambda>(key, e) oldest.
     if e_Lifetime e = Static then oldest
     else case oldest of
       None \<Rightarrow> Some (key, e)
     | Some (oldestKey, e0) \<Rightarrow>
         if e_LearnedAt e < e_LearnedAt e0 then Some (key, e)
         else if e_LearnedAt e = e_LearnedAt e0 \<and>
                 (e_FID e < e_FID e0 \<or> (e_FID e = e_FID e0 \<and> e_MAC e < e_MAC e0))
         then Some (key, e)
         else oldest)"

definition evictOldestDynamic :: "'s bridge \<Rightarrow> fdb_entry option \<times> 's bridge" where
  "evictOldestDynamic b =
     (case fold evict_step (br_fdb b) None of
        None \<Rightarrow> (None, b)
      | Some (oldestKey, oldest) \<Rightarrow>
          (Some oldest,
           b\<lparr>br_fdb := AList.delete oldestKey (br_fdb b),
             br_dynamic := br_dynamic b - 1,
             br_counters := (br_counters b)\<lparr>n_Evicted := n_Evicted (br_counters b) + 1\<rparr>\<rparr>))"

definition install_seed :: "seed \<Rightarrow> 's bridge \<Rightarrow> 's bridge" where
  "install_seed s b =
     (let key = entry_key s; existing = map_of (br_fdb b) key in
      if e_Lifetime s = Static then
        (let b = (if existing \<noteq> None \<and> is_dynamic (the existing)
                  then b\<lparr>br_dynamic := br_dynamic b - 1\<rparr> else b)
         in b\<lparr>br_fdb := AList.update key s (br_fdb b)\<rparr>)
      else if existing \<noteq> None \<and> e_Lifetime (the existing) = Static then b
      else case existing of
        None \<Rightarrow>
          let b = (if bc_MaxEntries (br_cfg b) > 0 \<and> br_dynamic b \<ge> bc_MaxEntries (br_cfg b)
                   then snd (evictOldestDynamic b) else b)
          in b\<lparr>br_fdb := AList.update key s (br_fdb b),
               br_dynamic := br_dynamic b + 1,
               br_counters := (br_counters b)\<lparr>n_Learned := n_Learned (br_counters b) + 1\<rparr>\<rparr>
      | Some e \<Rightarrow>
          let moved = (e_Port e \<noteq> e_Port s);
              e' = (if moved then e\<lparr>e_Port := e_Port s\<rparr> else e)\<lparr>e_LearnedAt := e_LearnedAt s\<rparr>;
              b = (if moved
                   then b\<lparr>br_counters := (br_counters b)\<lparr>n_Moved := n_Moved (br_counters b) + 1\<rparr>\<rparr>
                   else b)
          in b\<lparr>br_fdb := AList.update key e' (br_fdb b)\<rparr>)"

definition InstallSeeds :: "seed list \<Rightarrow> 's bridge \<Rightarrow> seed_error option \<times> 's bridge" where
  "InstallSeeds seeds b =
     (case NormalizeSeeds (br_cfg b) (br_ports b) seeds of
        Inl e \<Rightarrow> (Some e, b)
      | Inr normalized \<Rightarrow> (None, fold install_seed normalized b))"

definition Entries :: "'s bridge \<Rightarrow> fdb_entry list" where
  "Entries b = sort_key entry_key (map snd (br_fdb b))"

definition Forget :: "vlan_id \<Rightarrow> mac \<Rightarrow> 's bridge \<Rightarrow> bool \<times> 's bridge" where
  "Forget fid m b =
     (case map_of (br_fdb b) (fid, m) of
        None \<Rightarrow> (False, b)
      | Some e \<Rightarrow>
          let b' = b\<lparr>br_fdb := AList.delete (fid, m) (br_fdb b)\<rparr>
          in (True, if is_dynamic e then b'\<lparr>br_dynamic := br_dynamic b' - 1\<rparr> else b'))"

definition fdb_Advance :: "time \<Rightarrow> 's bridge \<Rightarrow> 's bridge" where
  "fdb_Advance now b =
     (let n = length (filter (\<lambda>(k, e). expired b e now) (br_fdb b));
          b' = drop_dynamic (\<lambda>k e. expired b e now) b
      in b'\<lparr>br_counters := (br_counters b')\<lparr>n_Expired := n_Expired (br_counters b') + of_nat n\<rparr>\<rparr>)"

end
