(* ===== verification/Bridge_Ingress.thy ===== *)
theory Bridge_Ingress
  imports Bridge_Fdb
begin

text \<open>
  Reception by the relay (\<^verbatim>\<open>bridge/ingress.go\<close>, with the records of
  \<^verbatim>\<open>bridge/result.go\<close>): port state, reserved addresses, VLAN classification, admission, the
  gates, and learning. A drop is the \<open>Inl\<close> of the result, an admitted frame the \<open>Inr\<close>. The
  trace steps, facts and consulted ports and scopes the code collects on the way explain a decision
  and are read by none; they are not modelled.
\<close>

section \<open>Results\<close>

datatype outcome = NoOutcome | Forwarded | Flooded | Dropped | Consumed | Held

datatype reason =
    NotDropped
  | PortReason port_reason
  | ReservedAddress
  | AdmissionRefused
  | IngressFilter
  | UndefinedVLAN
  | NoPVID
  | SamePort
  | NotMember
  | NoEgress
  | PortBlocked
  | Protected
  | CustomerVLAN
  | NoMember
  | OtherReason string

record egress =
  eg_Port :: string
  eg_Member :: string
  eg_Frame :: frame
  eg_PCP :: byte
  eg_Dropped :: reason

record result =
  res_Outcome :: outcome
  res_Reason :: reason
  res_Ingress :: string
  res_FID :: vlan_id
  res_Egress :: "egress list"

definition dropped_result :: result where
  "dropped_result = \<lparr>res_Outcome = Dropped, res_Reason = NotDropped, res_Ingress = '''', res_FID = 0,
     res_Egress = []\<rparr>"

record ingress =
  in_Port :: string
  in_FID :: vlan_id
  in_PCP :: byte
  in_DEI :: bool
  in_RemainingTags :: "vlan_tag list"
  in_TPID :: u16
  in_Now :: time
  in_Commit :: bool
  in_learns :: bool

definition zero_ingress :: ingress where
  "zero_ingress = \<lparr>in_Port = '''', in_FID = 0, in_PCP = 0, in_DEI = False, in_RemainingTags = [],
     in_TPID = 0, in_Now = 0, in_Commit = False, in_learns = False\<rparr>"

section \<open>Classification\<close>

definition EtherTypeDot1Q :: u16 where
  "EtherTypeDot1Q = 0x8100"

text \<open>\<^verbatim>\<open>outer.TPID == 0 || outer.TPID == EtherTypeDot1Q\<close>\<close>

definition c_tag :: "vlan_tag \<Rightarrow> bool" where
  "c_tag t \<longleftrightarrow> tag_TPID t = 0 \<or> tag_TPID t = EtherTypeDot1Q"

fun IsReserved :: "mac \<Rightarrow> bool" where
  "IsReserved (MAC a b c d e f) \<longleftrightarrow> a = 0x01 \<and> b = 0x80 \<and> c = 0xc2 \<and> d = 0 \<and> e = 0 \<and> f \<le> 0x0f"

text \<open>\<^verbatim>\<open>admitIngress\<close>: the reason of a refusal, or none.\<close>

definition admitIngress :: "admission \<Rightarrow> bool \<Rightarrow> reason" where
  "admitIngress policy isTagged =
     (let adm = (if policy = AdmissionEmpty then AdmitAll else policy) in
      case adm of
        TaggedOnly \<Rightarrow> if \<not> isTagged then AdmissionRefused else NotDropped
      | UntaggedAndPriorityTaggedOnly \<Rightarrow> if isTagged then AdmissionRefused else NotDropped
      | _ \<Rightarrow> NotDropped)"

text \<open>
  A classification is the filtering identifier recorded in the result so far with the reason of the
  drop, or the descriptor.
\<close>

type_synonym classification = "(vlan_id \<times> reason) + ingress"

definition classifyTunnel :: "vlan_config \<Rightarrow> frame \<Rightarrow> tunnel \<Rightarrow> classification" where
  "classifyTunnel v f t =
     (let base = zero_ingress\<lparr>in_TPID := EffectiveTPID t\<rparr>;
          classified = (\<lambda>i. let i = i\<lparr>in_FID := tn_VID t, in_RemainingTags := f_Tags f\<rparr>
                            in if \<not> defined_vlan v (in_FID i) then Inl (in_FID i, UndefinedVLAN)
                               else Inr i)
      in case f_Tags f of
           [] \<Rightarrow> classified base
         | outer # _ \<Rightarrow>
             if c_tag outer then
               (if tag_VID outer \<noteq> 0 \<and> tn_CustomerVIDs t \<noteq> [] \<and> tag_VID outer \<notin> set (tn_CustomerVIDs t)
                then Inl (0, CustomerVLAN)
                else classified (base\<lparr>in_PCP := tag_PCP outer, in_DEI := tag_DEI outer\<rparr>))
             else classified base)"

definition tag_form :: "frame \<Rightarrow> bool \<times> ingress" where
  "tag_form f =
     (case f_Tags f of
        [] \<Rightarrow> (False, zero_ingress)
      | outer # rest \<Rightarrow>
          if c_tag outer then
            (let i = zero_ingress\<lparr>in_PCP := tag_PCP outer, in_DEI := tag_DEI outer,
                                  in_RemainingTags := rest\<rparr>
             in if tag_VID outer \<noteq> 0 then (True, i\<lparr>in_FID := tag_VID outer\<rparr>) else (False, i))
          else (False, zero_ingress\<lparr>in_RemainingTags := f_Tags f\<rparr>))"

definition classifyOrdinary :: "vlan_config \<Rightarrow> frame \<Rightarrow> switchport \<Rightarrow> bool \<Rightarrow> classification" where
  "classifyOrdinary v f sw ok =
     (let (isTagged, i) = tag_form f;
          refusal = admitIngress (sw_Admission sw) isTagged in
      if refusal \<noteq> NotDropped then Inl (0, refusal)
      else if \<not> isTagged \<and> (\<not> ok \<or> sw_PVID sw = None) then Inl (0, NoPVID)
      else
        let i = (if isTagged then i else i\<lparr>in_FID := the (sw_PVID sw)\<rparr>) in
        if sw_IngressFiltering sw \<and> in_FID i \<notin> set (sw_Tagged sw) \<and> in_FID i \<notin> set (sw_Untagged sw)
        then Inl (in_FID i, IngressFilter)
        else if \<not> defined_vlan v (in_FID i) then Inl (in_FID i, UndefinedVLAN)
        else Inr i)"

definition classifyIngress :: "'s bridge \<Rightarrow> string \<Rightarrow> frame \<Rightarrow> classification" where
  "classifyIngress b name f =
     (case bc_VLAN (br_cfg b) of
        None \<Rightarrow> Inr zero_ingress
      | Some v \<Rightarrow>
          let sw = switchport_of v name in
          case sw_Tunnel sw of
            Some t \<Rightarrow> classifyTunnel v f t
          | None \<Rightarrow> classifyOrdinary v f sw (map_of (vc_Switchports v) name \<noteq> None))"

section \<open>Gates\<close>

definition gate_step :: "string \<Rightarrow> vlan_id \<Rightarrow> gate option \<times> scope \<Rightarrow> bool \<times> bool \<Rightarrow> bool \<times> bool" where
  "gate_step name fid = (\<lambda>(g, _) (learns, forwards).
     (case g of
        None \<Rightarrow> (learns, forwards)
      | Some g \<Rightarrow> (learns \<and> g_Learns g name fid, forwards \<and> g_Forwards g name fid)))"

definition ingressGate :: "'s bridge \<Rightarrow> string \<Rightarrow> vlan_id \<Rightarrow> bool \<times> bool" where
  "ingressGate b name fid = fold (gate_step name fid) (br_gates b) (True, True)"

section \<open>Learning\<close>

definition isFloodVLAN :: "'s bridge \<Rightarrow> vlan_id \<Rightarrow> bool" where
  "isFloodVLAN b fid \<longleftrightarrow> fid \<in> set (bc_FloodVLANs (br_cfg b))"

definition hasVLANMember :: "'s bridge \<Rightarrow> vlan_id \<Rightarrow> bool" where
  "hasVLANMember b fid \<longleftrightarrow>
     (case bc_VLAN (br_cfg b) of
        None \<Rightarrow> True
      | Some v \<Rightarrow> list_ex (\<lambda>(_, sw). CarriesVID sw fid) (vc_Switchports v))"

definition make_room :: "time \<Rightarrow> 's bridge \<Rightarrow> 's bridge" where
  "make_room now b =
     (if bc_MaxEntries (br_cfg b) > 0 \<and> br_dynamic b \<ge> bc_MaxEntries (br_cfg b) then
        (let b' = fdb_Advance now b
         in if br_dynamic b' \<ge> bc_MaxEntries (br_cfg b') then snd (evictOldestDynamic b') else b')
      else b)"

definition learnSource :: "string \<Rightarrow> vlan_id \<Rightarrow> time \<Rightarrow> mac \<Rightarrow> 's bridge \<Rightarrow> 's bridge" where
  "learnSource name fid now src b =
     (if \<not> mac_IsGroup src \<and> \<not> isFloodVLAN b fid \<and> hasVLANMember b fid then
        (let srcKey = (fid, src);
             existing = map_of (br_fdb b) srcKey;
             stale = (existing \<noteq> None \<and> expired b (the existing) now);
             b = (if stale
                  then b\<lparr>br_fdb := AList.delete srcKey (br_fdb b), br_dynamic := br_dynamic b - 1,
                         br_counters := (br_counters b)\<lparr>n_Expired := n_Expired (br_counters b) + 1\<rparr>\<rparr>
                  else b)
         in if existing = None \<or> stale then
              (let b = make_room now b
               in b\<lparr>br_fdb := AList.update srcKey
                      \<lparr>e_FID = fid, e_MAC = src, e_Port = name, e_Origin = Observed,
                       e_Lifetime = Aging, e_LearnedAt = now\<rparr> (br_fdb b),
                    br_dynamic := br_dynamic b + 1,
                    br_counters := (br_counters b)\<lparr>n_Learned := n_Learned (br_counters b) + 1\<rparr>\<rparr>)
            else if e_Lifetime (the existing) \<noteq> Static then
              (let e = the existing;
                   b = (if e_Port e \<noteq> name
                        then b\<lparr>br_counters := (br_counters b)\<lparr>n_Moved := n_Moved (br_counters b) + 1\<rparr>\<rparr>
                        else b)
               in b\<lparr>br_fdb := AList.update srcKey (e\<lparr>e_Port := name, e_LearnedAt := now\<rparr>) (br_fdb b)\<rparr>)
            else b)
      else b)"

section \<open>Ingress\<close>

definition Ingress ::
    "time \<Rightarrow> string \<Rightarrow> frame \<Rightarrow> bool \<Rightarrow> bool \<Rightarrow> 's bridge \<Rightarrow> (result + ingress) \<times> 's bridge" where
  "Ingress now name f learn commit b =
     (let receive = Table_Receive (br_ports b) name;
          res = dropped_result in
      if rr_Reason receive \<noteq> NoReason then
        (Inl (res\<lparr>res_Reason := PortReason (rr_Reason receive),
                  res_Ingress := (if pt_Name (rr_Resolved receive) = '''' then name
                                  else pt_Name (rr_Resolved receive))\<rparr>), b)
      else
        let port = pt_Name (rr_Resolved receive); res = res\<lparr>res_Ingress := port\<rparr> in
        if \<not> bc_ForwardBPDU (br_cfg b) \<and> IsReserved (f_Dst f)
        then (Inl (res\<lparr>res_Reason := ReservedAddress\<rparr>), b)
        else case classifyIngress b port f of
          Inl (fid, why) \<Rightarrow> (Inl (res\<lparr>res_FID := fid, res_Reason := why\<rparr>), b)
        | Inr i \<Rightarrow>
            let res = res\<lparr>res_FID := in_FID i\<rparr>;
                (ingressLearns, ingressForwards) = ingressGate b port (in_FID i) in
            if \<not> ingressLearns \<and> \<not> ingressForwards
            then (Inl (res\<lparr>res_Reason := PortBlocked\<rparr>), b)
            else
              let b = (if learn \<and> ingressLearns
                       then learnSource port (in_FID i) now (f_Src f) b else b) in
              if \<not> ingressForwards then (Inl (res\<lparr>res_Reason := PortBlocked\<rparr>), b)
              else (Inr (i\<lparr>in_Port := port, in_Now := now, in_Commit := commit,
                           in_learns := ingressLearns\<rparr>), b))"

definition Learn :: "ingress \<Rightarrow> frame \<Rightarrow> 's bridge \<Rightarrow> 's bridge" where
  "Learn i f b =
     (if \<not> in_learns i then b else learnSource (in_Port i) (in_FID i) (in_Now i) (f_Src f) b)"

end
