(* ===== verification/Bridge_Egress.thy ===== *)
theory Bridge_Egress
  imports Bridge_Ingress
begin

text \<open>
  Transmission by the relay (\<^verbatim>\<open>bridge/egress.go\<close>): the lookup of the destination, the decision for one
  port with the rewritten tags, replication, and frames the switch itself originates.

  The selector of a link aggregation group keeps a state of its own, \<open>'s\<close>, threaded through every
  call. \<^verbatim>\<open>res.Egress[0]\<close> at the end of \<^verbatim>\<open>replicate\<close> is an index that could be out of
  range: \<open>None\<close> is that panic.
\<close>

section \<open>Tags\<close>

definition zero_frame :: frame where
  "zero_frame = \<lparr>f_Dst = MAC 0 0 0 0 0 0, f_Src = MAC 0 0 0 0 0 0, f_Tags = [], f_EtherType = 0,
     f_Payload = []\<rparr>"

definition buildEgressFrame ::
    "'s bridge \<Rightarrow> string \<Rightarrow> vlan_id \<Rightarrow> frame \<Rightarrow> byte \<Rightarrow> bool \<Rightarrow> vlan_tag list \<Rightarrow> u16 \<Rightarrow> frame option" where
  "buildEgressFrame b name vid f pcp dei remaining tpid =
     (case bc_VLAN (br_cfg b) of
        None \<Rightarrow> Some f
      | Some v \<Rightarrow>
          case map_of (vc_Switchports v) name of
            None \<Rightarrow> None
          | Some sw \<Rightarrow>
              if \<not> CarriesVID sw vid then None
              else if sw_Tunnel sw \<noteq> None then Some (f\<lparr>f_Tags := remaining\<rparr>)
              else if vid \<in> set (sw_Tagged sw) then
                Some (f\<lparr>f_Tags := \<lparr>tag_TPID = (if tpid = 0 then EtherTypeDot1Q else tpid),
                                   tag_PCP = pcp, tag_DEI = dei, tag_VID = vid\<rparr> # remaining\<rparr>)
              else if sw_PriorityTags sw = PriorityTagsAlways \<or>
                      (sw_PriorityTags sw = PriorityTagsIfNonzero \<and> pcp \<noteq> 0) then
                Some (f\<lparr>f_Tags := \<lparr>tag_TPID = EtherTypeDot1Q, tag_PCP = pcp, tag_DEI = dei,
                                   tag_VID = 0\<rparr> # remaining\<rparr>)
              else Some (f\<lparr>f_Tags := remaining\<rparr>))"

definition OriginateFrame :: "'s bridge \<Rightarrow> string \<Rightarrow> vlan_id \<Rightarrow> frame \<Rightarrow> frame option" where
  "OriginateFrame b name vid f = buildEgressFrame b name vid f 0 False [] 0"

section \<open>The decision for one port\<close>

definition isProtected :: "'s bridge \<Rightarrow> string \<Rightarrow> bool" where
  "isProtected b name \<longleftrightarrow> name \<in> set (bc_ProtectedPorts (br_cfg b))"

definition carriesVID :: "'s bridge \<Rightarrow> string \<Rightarrow> vlan_id \<Rightarrow> bool" where
  "carriesVID b name fid \<longleftrightarrow>
     (case bc_VLAN (br_cfg b) of
        None \<Rightarrow> True
      | Some v \<Rightarrow> (case map_of (vc_Switchports v) name of None \<Rightarrow> False | Some sw \<Rightarrow> CarriesVID sw fid))"

definition egressGate :: "'s bridge \<Rightarrow> string \<Rightarrow> vlan_id \<Rightarrow> bool" where
  "egressGate b name fid =
     fold (\<lambda>(g, _) forwards. case g of None \<Rightarrow> forwards | Some g \<Rightarrow> forwards \<and> g_Forwards g name fid)
       (br_gates b) True"

definition recordEgressDrop :: "ingress \<Rightarrow> string \<Rightarrow> frame \<Rightarrow> reason \<Rightarrow> result \<Rightarrow> result" where
  "recordEgressDrop i name f why res =
     res\<lparr>res_Reason := why,
         res_Egress := res_Egress res @
           [\<lparr>eg_Port = name, eg_Member = '''', eg_Frame = f, eg_PCP = in_PCP i, eg_Dropped = why\<rparr>]\<rparr>"

text \<open>\<^verbatim>\<open>selectMember\<close>: the member, or none when the frame has to be dropped.\<close>

definition selectMember :: "'s bridge \<Rightarrow> ingress \<Rightarrow> port \<Rightarrow> frame \<Rightarrow> 's \<Rightarrow> string option \<times> 's" where
  "selectMember b i p f s =
     (if pt_Kind p \<noteq> LAG then (Some '''', s)
      else case br_selector b of
        None \<Rightarrow> (None, s)
      | Some select \<Rightarrow>
          let (sel, s') = select (in_Now i) (pt_Name p) (in_Commit i) f (in_FID i) s
          in (if sel_OK sel then Some (sel_Member sel) else None, s'))"

definition decideEgress :: "'s bridge \<Rightarrow> ingress \<Rightarrow> frame \<Rightarrow> port \<Rightarrow> 's \<Rightarrow> result \<times> 's" where
  "decideEgress b i f p s =
     (let res = dropped_result; name = pt_Name p;
          txReason = Table_Transmit (br_ports b) name (int (length (f_Payload f))) in
      if txReason = ReasonPortDown then
        (recordEgressDrop i name zero_frame (PortReason ReasonPortDown) res, s)
      else case buildEgressFrame b name (in_FID i) f (in_PCP i) (in_DEI i) (in_RemainingTags i) (in_TPID i) of
        None \<Rightarrow> (recordEgressDrop i name zero_frame NotMember res, s)
      | Some egressFrame \<Rightarrow>
          if \<not> egressGate b name (in_FID i) then
            (recordEgressDrop i name egressFrame PortBlocked res, s)
          else if isProtected b (in_Port i) \<and> isProtected b name then
            (recordEgressDrop i name egressFrame Protected res, s)
          else if txReason = ReasonMTUExceeded then
            (recordEgressDrop i name egressFrame (PortReason ReasonMTUExceeded) res, s)
          else
            (case selectMember b i p egressFrame s of
               (None, s') \<Rightarrow> (recordEgressDrop i name egressFrame NoMember res, s')
             | (Some member, s') \<Rightarrow>
                 (res\<lparr>res_Outcome := Forwarded,
                      res_Egress := [\<lparr>eg_Port = name, eg_Member = member, eg_Frame = egressFrame,
                                      eg_PCP = in_PCP i, eg_Dropped = NotDropped\<rparr>]\<rparr>, s')))"

section \<open>Replication\<close>

text \<open>
  The loop over the requested ports: names seen before and ports that are no candidates are skipped,
  a port that is down leaves no egress record, and the decisions of the others are collected.
\<close>

definition replication_candidate :: "'s bridge \<Rightarrow> ingress \<Rightarrow> string \<Rightarrow> port option" where
  "replication_candidate b i name =
     (case Table_Port (br_ports b) name of
        None \<Rightarrow> None
      | Some candidate \<Rightarrow>
          if pt_LagParent candidate \<noteq> '''' \<or> pt_Name candidate = in_Port i \<or>
             \<not> carriesVID b (pt_Name candidate) (in_FID i)
          then None else Some candidate)"

fun replication_decisions ::
    "'s bridge \<Rightarrow> ingress \<Rightarrow> frame \<Rightarrow> string list \<Rightarrow> string list \<Rightarrow> 's \<Rightarrow> result list \<times> 's" where
  "replication_decisions b i f seen [] s = ([], s)"
| "replication_decisions b i f seen (name # ports) s =
     (if name \<in> set seen then replication_decisions b i f seen ports s
      else case replication_candidate b i name of
        None \<Rightarrow> replication_decisions b i f (name # seen) ports s
      | Some candidate \<Rightarrow>
          let (decision, s1) = decideEgress b i f candidate s;
              (rest, s2) = replication_decisions b i f (name # seen) ports s1
          in (if res_Reason decision = PortReason ReasonPortDown then rest else decision # rest, s2))"

definition mergeEgressDecision :: "result \<Rightarrow> result \<Rightarrow> result" where
  "mergeEgressDecision res decision = res\<lparr>res_Egress := res_Egress res @ res_Egress decision\<rparr>"

definition replicate_frame ::
    "'s bridge \<Rightarrow> result \<Rightarrow> ingress \<Rightarrow> frame \<Rightarrow> string list \<Rightarrow> reason \<Rightarrow> 's \<Rightarrow> (result \<times> 's) option" where
  "replicate_frame b res i f ports emptyReason s =
     (let noCandidateReason = (if ports = [] then emptyReason else NoEgress);
          (decisions, s') = replication_decisions b i f [] ports s in
      if decisions = [] then Some (res\<lparr>res_Reason := noCandidateReason\<rparr>, s')
      else
        let res = fold (\<lambda>d res. mergeEgressDecision res d) decisions res in
        if list_ex (\<lambda>d. res_Outcome d = Forwarded) decisions
        then Some (res\<lparr>res_Outcome := Flooded\<rparr>, s')
        else case res_Egress res of
          [] \<Rightarrow> None
        | first # _ \<Rightarrow> Some (res\<lparr>res_Reason := eg_Dropped first\<rparr>, s'))"

section \<open>Egress\<close>

definition fdb_hit :: "'s bridge \<Rightarrow> ingress \<Rightarrow> mac \<Rightarrow> string option" where
  "fdb_hit b i dst =
     (if isFloodVLAN b (in_FID i) then None
      else case map_of (br_fdb b) (in_FID i, dst) of
        None \<Rightarrow> None
      | Some e \<Rightarrow> if expired b e (in_Now i) then None else Some (e_Port e))"

definition start_result :: "ingress \<Rightarrow> result" where
  "start_result i = dropped_result\<lparr>res_Ingress := in_Port i, res_FID := in_FID i\<rparr>"

definition Egress :: "'s bridge \<Rightarrow> ingress \<Rightarrow> frame \<Rightarrow> 's \<Rightarrow> (result \<times> 's) option" where
  "Egress b i f s =
     (let res = start_result i;
          flood = (\<lambda>_ :: unit. replicate_frame b res i f (map pt_Name (tb_ports (br_ports b))) NoEgress s) in
      if mac_IsGroup (f_Dst f) then
        (case br_resolver b of
           None \<Rightarrow> flood ()
         | Some resolve \<Rightarrow>
             (let (ports, decided) = resolve (in_Now i) (in_FID i) f in
              if decided then
                replicate_frame b res i f ports
                  (if ports = [] then OtherReason ''unregistered'' else NoEgress) s
              else flood ()))
      else
        case fdb_hit b i (f_Dst f) of
          None \<Rightarrow> flood ()
        | Some hitPort \<Rightarrow>
            if hitPort = '''' then flood ()
            else if hitPort = in_Port i then Some (res\<lparr>res_Reason := SamePort\<rparr>, s)
            else
              let destPort = (case Table_Port (br_ports b) hitPort of Some p \<Rightarrow> p | None \<Rightarrow> zero_port);
                  (decision, s') = decideEgress b i f destPort s;
                  res = mergeEgressDecision res decision
              in Some (res\<lparr>res_Outcome := res_Outcome decision, res_Reason := res_Reason decision\<rparr>, s'))"

definition EgressTo ::
    "'s bridge \<Rightarrow> ingress \<Rightarrow> frame \<Rightarrow> string list \<Rightarrow> reason \<Rightarrow> 's \<Rightarrow> (result \<times> 's) option" where
  "EgressTo b i f ports emptyReason s = replicate_frame b (start_result i) i f ports emptyReason s"

end
