(* ===== verification/Port_Facts.thy ===== *)
theory Port_Facts
  imports Ports
begin

text \<open>
  What a port table promises its users: names are unique and never empty, lookup by name agrees with
  the list, a member names a group that is in the table, and a group is no member. The builder
  establishes it and a change of link state keeps it.
\<close>

definition wf_table :: "port_table \<Rightarrow> bool" where
  "wf_table t \<longleftrightarrow>
     distinct (map pt_Name (tb_ports t)) \<and>
     (\<forall>n p. tb_byName t n = Some p \<longleftrightarrow> p \<in> set (tb_ports t) \<and> pt_Name p = n) \<and>
     (\<forall>p \<in> set (tb_ports t). pt_Name p \<noteq> '''' \<and>
        (pt_LagParent p \<noteq> '''' \<longrightarrow> pt_Kind p \<noteq> LAG \<and>
           (\<exists>q \<in> set (tb_ports t). pt_Name q = pt_LagParent p \<and> pt_Kind q = LAG)))"

text \<open>A logical port is one that is no member of a group.\<close>

definition logical :: "port_table \<Rightarrow> string \<Rightarrow> bool" where
  "logical t name \<longleftrightarrow> (\<exists>p. Table_Port t name = Some p \<and> pt_Name p = name \<and> pt_LagParent p = '''')"

lemma wf_lookup:
  assumes "wf_table t" "Table_Port t n = Some p"
  shows "p \<in> set (tb_ports t)" "pt_Name p = n" "n \<noteq> ''''"
  using assms by (auto simp: wf_table_def Table_Port_def)

lemma wf_parent:
  assumes "wf_table t" "Table_Port t n = Some p" "pt_LagParent p \<noteq> ''''"
  obtains q where "Table_Port t (pt_LagParent p) = Some q" "pt_Kind q = LAG" "pt_LagParent q = ''''"
proof -
  have "p \<in> set (tb_ports t)"
    using wf_lookup [OF assms(1,2)] by simp
  then obtain q where q: "q \<in> set (tb_ports t)" "pt_Name q = pt_LagParent p" "pt_Kind q = LAG"
    using assms(1,3) unfolding wf_table_def by blast
  then have "Table_Port t (pt_LagParent p) = Some q"
    using assms(1) unfolding wf_table_def Table_Port_def by blast
  moreover have "pt_LagParent q = ''''"
    using q assms(1) unfolding wf_table_def by blast
  ultimately show thesis
    using that q by blast
qed

text \<open>A name resolves to a logical port, itself or its group.\<close>

lemma wf_resolve:
  assumes "wf_table t" "Resolve t name = Some p"
  shows "logical t (pt_Name p)" "Table_Port t (pt_Name p) = Some p" "pt_LagParent p = ''''"
proof -
  obtain m where m: "Table_Port t name = Some m"
    using assms(2) by (auto simp: Resolve_def split: option.splits)
  have "Table_Port t (pt_Name p) = Some p \<and> pt_LagParent p = ''''"
  proof (cases "pt_LagParent m = ''''")
    case True
    then show ?thesis
      using assms(2) m wf_lookup [OF assms(1) m] by (auto simp: Resolve_def)
  next
    case False
    then obtain q where "Table_Port t (pt_LagParent m) = Some q" "pt_LagParent q = ''''"
      using wf_parent [OF assms(1) m] by blast
    moreover from this have "p = q"
      using assms(2) m False by (simp add: Resolve_def)
    ultimately show ?thesis
      using wf_lookup(2) [OF assms(1), of "pt_LagParent m" q] by simp
  qed
  then show "logical t (pt_Name p)" "Table_Port t (pt_Name p) = Some p" "pt_LagParent p = ''''"
    by (simp_all add: logical_def)
qed

text \<open>A frame that is received is received on a logical port that forwards.\<close>

lemma wf_receive:
  assumes "wf_table t" "rr_Reason (Table_Receive t name) = NoReason"
  shows "Resolve t name = Some (rr_Resolved (Table_Receive t name))"
    and "port_Forwards (rr_Resolved (Table_Receive t name))"
    and "logical t (pt_Name (rr_Resolved (Table_Receive t name)))"
    and "Table_Port t (pt_Name (rr_Resolved (Table_Receive t name))) = Some (rr_Resolved (Table_Receive t name))"
proof -
  show r: "Resolve t name = Some (rr_Resolved (Table_Receive t name))"
    and "port_Forwards (rr_Resolved (Table_Receive t name))"
    using assms(2)
    by (auto simp: Table_Receive_def Resolve_def Let_def split: option.splits if_splits)
  show "logical t (pt_Name (rr_Resolved (Table_Receive t name)))"
    and "Table_Port t (pt_Name (rr_Resolved (Table_Receive t name))) = Some (rr_Resolved (Table_Receive t name))"
    using wf_resolve [OF assms(1) r] by simp_all
qed

section \<open>The index\<close>

lemma index_ports_snoc: "index_ports (ps @ [p]) = (index_ports ps)(pt_Name p \<mapsto> p)"
  by (simp add: index_ports_def)

lemma index_ports_iff:
  assumes "distinct (map pt_Name ps)"
  shows "index_ports ps n = Some p \<longleftrightarrow> p \<in> set ps \<and> pt_Name p = n"
  using assms
proof (induction ps rule: rev_induct)
  case Nil
  then show ?case by (simp add: index_ports_def)
next
  case (snoc q ps)
  then show ?case
    by (auto simp: index_ports_snoc image_iff)
qed

lemma find_name_iff:
  assumes "distinct (map pt_Name ps)"
  shows "find (\<lambda>p. pt_Name p = n) ps = Some p \<longleftrightarrow> p \<in> set ps \<and> pt_Name p = n"
  using assms by (induction ps) (auto simp: rev_image_eqI)

section \<open>The builder\<close>

lemma validate_ports_names:
  "validate_ports seen ps = None \<Longrightarrow>
     distinct (map pt_Name ps) \<and> set (map pt_Name ps) \<inter> set seen = {} \<and> '''' \<notin> set (map pt_Name ps)"
proof (induction seen ps rule: validate_ports.induct)
  case (2 seen p ps)
  then show ?case by (simp split: if_splits)
qed simp

lemma validate_parents_members:
  assumes "validate_parents byName ps = None" "p \<in> set ps" "pt_LagParent p \<noteq> ''''"
  shows "pt_Kind p \<noteq> LAG \<and> (\<exists>q. byName (pt_LagParent p) = Some q \<and> pt_Kind q = LAG)"
  using assms
  by (induction byName ps rule: validate_parents.induct) (auto split: if_splits option.splits)

lemma port_Normalize_sel [simp]:
  "pt_Name (port_Normalize p) = pt_Name p" "pt_LagParent (port_Normalize p) = pt_LagParent p"
  "pt_MTU (port_Normalize p) = pt_MTU p" "pt_Kind (port_Normalize p) = LAG \<longleftrightarrow> pt_Kind p = LAG"
  by (simp_all add: port_Normalize_def Let_def)

lemma normalize_names: "map pt_Name (map port_Normalize ps) = map pt_Name ps"
  by simp

lemma builder_wf:
  assumes "builder_Build bd = Inr t"
  shows "wf_table t \<and> sorted (map pt_Name (tb_ports t))"
proof -
  let ?ps = "bd_ports bd"
  have valid: "validate_ports [] ?ps = None" "validate_parents (index_ports ?ps) ?ps = None"
    and t: "t = Table_Normalize \<lparr>tb_ports = ?ps, tb_byName = index_ports ?ps\<rparr>"
    using assms by (auto simp: builder_Build_def Let_def Table_Validate_def split: option.splits)
  have names: "distinct (map pt_Name ?ps)" "'''' \<notin> set (map pt_Name ?ps)"
    using validate_ports_names [OF valid(1)] by simp_all
  show ?thesis
  proof (cases "?ps = []")
    case True
    then show ?thesis
      by (simp add: t Table_Normalize_def wf_table_def)
  next
    case False
    let ?qs = "map port_Normalize ?ps"
    have tb: "tb_ports t = sort_key pt_Name ?qs" "tb_byName t = index_ports ?qs"
      using False by (simp_all add: t Table_Normalize_def Let_def)
    have d: "distinct (map pt_Name ?qs)"
      using names(1) by (simp only: normalize_names)
    have "\<exists>q \<in> set ?qs. pt_Name q = pt_LagParent p \<and> pt_Kind q = LAG"
      and "pt_Kind p \<noteq> LAG" if "p \<in> set ?qs" "pt_LagParent p \<noteq> ''''" for p
      using that validate_parents_members [OF valid(2)] index_ports_iff [OF names(1)]
      by (auto simp: image_iff) force+
    moreover have "distinct (map pt_Name (sort_key pt_Name ?qs))"
      using d by (metis distinct_map distinct_sort set_sort)
    moreover have "\<forall>p \<in> set ?qs. pt_Name p \<noteq> ''''"
      using names(2) by force
    ultimately show ?thesis
      using index_ports_iff [OF d] by (simp add: wf_table_def tb)
  qed
qed

section \<open>A change of link state\<close>

lemma set_oper_names [simp]: "map pt_Name (set_oper_status name st ps) = map pt_Name ps"
  by (induction ps) auto

lemma set_oper_members:
  assumes "distinct (map pt_Name ps)"
  shows "set (set_oper_status name st ps) =
    (\<lambda>p. if pt_Name p = name then p\<lparr>pt_OperStatus := st\<rparr> else p) ` set ps"
  using assms
proof (induction ps)
  case (Cons p ps)
  let ?f = "\<lambda>p. if pt_Name p = name then p\<lparr>pt_OperStatus := st\<rparr> else p"
  show ?case
  proof (cases "pt_Name p = name")
    case True
    then have "\<And>q. q \<in> set ps \<Longrightarrow> ?f q = q"
      using Cons.prems by (auto simp: image_iff)
    then have "?f ` set ps = set ps"
      by (simp add: image_def)
    then show ?thesis
      using True by (simp del: if_image_distrib)
  qed (use Cons in simp)
qed simp

lemma WithOperStatus_wf:
  assumes "wf_table t" "WithOperStatus t name state = Inr t'"
  shows "wf_table t' \<and> map pt_Name (tb_ports t') = map pt_Name (tb_ports t)"
proof -
  obtain st where st: "tb_ports t' = set_oper_status name st (tb_ports t)"
    and byName: "tb_byName t' = (case find (\<lambda>p. pt_Name p = name) (tb_ports t') of
        None \<Rightarrow> index_ports (tb_ports t) | Some p \<Rightarrow> (index_ports (tb_ports t))(name \<mapsto> p))"
    using assms(2) by (auto simp: WithOperStatus_def Let_def split: if_splits option.splits link_state.splits)
  have d: "distinct (map pt_Name (tb_ports t))" "distinct (map pt_Name (tb_ports t'))"
    using assms(1) by (simp_all add: wf_table_def st)
  define f :: "port \<Rightarrow> port" where "f = (\<lambda>p. if pt_Name p = name then p\<lparr>pt_OperStatus := st\<rparr> else p)"
  have ports: "set (tb_ports t') = f ` set (tb_ports t)"
    using set_oper_members [OF d(1)] by (simp add: st f_def)
  have same: "pt_Name (f p) = pt_Name p" "pt_Kind (f p) = pt_Kind p" "pt_LagParent (f p) = pt_LagParent p"
    "pt_Name p \<noteq> name \<Longrightarrow> f p = p" for p
    by (simp_all add: f_def)
  have old: "index_ports (tb_ports t) n = Some p \<longleftrightarrow> p \<in> set (tb_ports t) \<and> pt_Name p = n" for n p
    by (rule index_ports_iff [OF d(1)])
  have found: "find (\<lambda>p. pt_Name p = name) (tb_ports t') = Some p \<longleftrightarrow> p \<in> set (tb_ports t') \<and> pt_Name p = name" for p
    by (rule find_name_iff [OF d(2)])
  have image: "f p \<in> set (tb_ports t')" if "p \<in> set (tb_ports t)" for p
    unfolding ports using that by (rule imageI)
  have others: "p \<in> set (tb_ports t') \<longleftrightarrow> p \<in> set (tb_ports t)" if "pt_Name p \<noteq> name" for p
  proof
    assume "p \<in> set (tb_ports t')"
    then obtain q where "q \<in> set (tb_ports t)" "p = f q"
      unfolding ports by blast
    then show "p \<in> set (tb_ports t)"
      using that same [of q] by (cases "pt_Name q = name") simp_all
  qed (use image [of p] same [of p] that in simp)
  have missing: "p \<notin> set (tb_ports t)" if "\<forall>q \<in> set (tb_ports t'). pt_Name q \<noteq> name" "pt_Name p = name" for p
    using that image [of p] same(1) [of p] by metis
  have "tb_byName t' n = Some p \<longleftrightarrow> p \<in> set (tb_ports t') \<and> pt_Name p = n" for n p
  proof (cases "find (\<lambda>p. pt_Name p = name) (tb_ports t')")
    case None
    then have "\<forall>q \<in> set (tb_ports t'). pt_Name q \<noteq> name"
      by (simp add: find_None_iff)
    moreover have "tb_byName t' n = Some p \<longleftrightarrow> p \<in> set (tb_ports t) \<and> pt_Name p = n"
      by (simp add: byName None old)
    ultimately show ?thesis
      by (cases "pt_Name p = name") (use missing others in blast)+
  next
    case (Some q)
    have q: "q \<in> set (tb_ports t')" "pt_Name q = name"
      using Some found by blast+
    have "tb_byName t' n = Some p \<longleftrightarrow> (if n = name then q = p else p \<in> set (tb_ports t) \<and> pt_Name p = n)"
      by (simp add: byName Some old)
    moreover have "p = q" if "p \<in> set (tb_ports t')" "pt_Name p = name"
      using found [of p] Some that by simp
    ultimately show ?thesis
      using q others by (cases "n = name") auto
  qed
  moreover have "pt_Name p \<noteq> '''' \<and> (pt_LagParent p \<noteq> '''' \<longrightarrow> pt_Kind p \<noteq> LAG \<and>
      (\<exists>q \<in> set (tb_ports t'). pt_Name q = pt_LagParent p \<and> pt_Kind q = LAG))"
    if mem: "p \<in> set (tb_ports t')" for p
  proof -
    obtain p0 where p0: "p0 \<in> set (tb_ports t)" "p = f p0"
      using mem unfolding ports by blast
    have "\<exists>q \<in> set (tb_ports t'). pt_Name q = pt_LagParent p0 \<and> pt_Kind q = LAG" if member: "pt_LagParent p0 \<noteq> ''''"
    proof -
      obtain q where "q \<in> set (tb_ports t)" "pt_Name q = pt_LagParent p0" "pt_Kind q = LAG"
        using assms(1) p0(1) member unfolding wf_table_def by blast
      then show ?thesis
        using image [of q] same [of q] by metis
    qed
    then show ?thesis
      using assms(1) p0(1) unfolding wf_table_def p0(2) same(1-3) by blast
  qed
  ultimately show ?thesis
    using d(2) by (simp add: wf_table_def st)
qed

lemma WithOperStatus_logical:
  assumes "wf_table t" "WithOperStatus t name state = Inr t'" "logical t n"
  shows "logical t' n"
proof -
  obtain st where st: "tb_ports t' = set_oper_status name st (tb_ports t)"
    using assms(2) by (auto simp: WithOperStatus_def Let_def split: if_splits option.splits link_state.splits)
  obtain p where p: "p \<in> set (tb_ports t)" "pt_Name p = n" "pt_LagParent p = ''''"
    using assms(1,3) wf_lookup by (auto simp: logical_def)
  let ?p = "if pt_Name p = name then p\<lparr>pt_OperStatus := st\<rparr> else p"
  have "?p \<in> set (tb_ports t')" "pt_Name ?p = n" "pt_LagParent ?p = ''''"
    using p set_oper_members [of "tb_ports t" name st] assms(1) by (auto simp: st wf_table_def)
  then show ?thesis
    using WithOperStatus_wf [OF assms(1,2)] unfolding logical_def wf_table_def Table_Port_def by blast
qed

end
