(* ===== verification/Bridge_Table.thy ===== *)
theory Bridge_Table
  imports Bridge_Egress Port_Facts
begin

text \<open>
  The forwarding database as an abstract table: what each operation does to the lookup, the count
  of dynamic entries and the invariant every operation keeps.
\<close>

section \<open>Entry lists\<close>

text \<open>The number of dynamic entries, which \<open>br_dynamic\<close> is to be.\<close>

definition dynamics :: "fdb \<Rightarrow> int" where
  "dynamics m = int (length (filter (\<lambda>(k, e). is_dynamic e) m))"

lemma dynamics_Nil [simp]: "dynamics [] = 0"
  by (simp add: dynamics_def)

lemma dynamics_Cons [simp]: "dynamics ((k, e) # m) = of_bool (is_dynamic e) + dynamics m"
  by (simp add: dynamics_def)

lemma dynamics_nonneg [simp]: "0 \<le> dynamics m"
  by (simp add: dynamics_def)

lemma dynamics_update:
  assumes "distinct (map fst m)"
  shows "dynamics (AList.update k e m) = dynamics m + of_bool (is_dynamic e) -
    (case map_of m k of None \<Rightarrow> 0 | Some e' \<Rightarrow> of_bool (is_dynamic e'))"
  using assms
proof (induction m)
  case (Cons x m)
  then show ?case
    by (cases x) (auto simp: map_of_eq_None_iff [THEN iffD2] image_iff)
qed simp

lemma dynamics_delete:
  assumes "distinct (map fst m)"
  shows "dynamics (AList.delete k m) = dynamics m -
    (case map_of m k of None \<Rightarrow> 0 | Some e' \<Rightarrow> of_bool (is_dynamic e'))"
  using assms
proof (induction m)
  case (Cons x m)
  then show ?case
    by (cases x) (auto simp: map_of_eq_None_iff [THEN iffD2] image_iff)
qed simp

lemma map_of_keep:
  assumes "distinct (map fst m)"
  shows "map_of (filter (\<lambda>(k, e). \<not> gone k e) m) k =
    (case map_of m k of None \<Rightarrow> None | Some e \<Rightarrow> if gone k e then None else Some e)"
  using assms
proof (induction m)
  case (Cons x m)
  then show ?case
    by (cases x) (auto simp: map_of_eq_None_iff [THEN iffD2] image_iff split: option.splits)
qed simp

lemma dynamics_keep:
  assumes "\<And>k e. gone k e \<Longrightarrow> is_dynamic e"
  shows "dynamics (filter (\<lambda>(k, e). \<not> gone k e) m) = dynamics m - int (length (filter (\<lambda>(k, e). gone k e) m))"
  using assms by (induction m) auto

lemma distinct_keep: "distinct (map fst m) \<Longrightarrow> distinct (map fst (filter P m))"
  by (simp add: distinct_map_filter)

text \<open>A key that is a dynamic entry is counted.\<close>

lemma dynamics_pos:
  "map_of m k = Some e \<Longrightarrow> is_dynamic e \<Longrightarrow> 0 < dynamics m"
  by (induction m) (auto split: if_splits intro: add_nonneg_pos simp: add_pos_nonneg)

section \<open>The invariant\<close>

text \<open>
  An entry is stored under its own key, was learned from or seeded with a station address, ages or
  is static, and points at a logical port.
\<close>

definition entry_ok :: "port_table \<Rightarrow> fdb_key \<Rightarrow> fdb_entry \<Rightarrow> bool" where
  "entry_ok tbl k e \<longleftrightarrow>
     k = entry_key e \<and> \<not> mac_IsGroup (e_MAC e) \<and> (e_Lifetime e = Aging \<or> e_Lifetime e = Static) \<and>
     logical tbl (e_Port e)"

definition fdb_ok :: "'s bridge \<Rightarrow> bool" where
  "fdb_ok b \<longleftrightarrow>
     distinct (map fst (br_fdb b)) \<and>
     (\<forall>k e. map_of (br_fdb b) k = Some e \<longrightarrow> entry_ok (br_ports b) k e) \<and>
     br_dynamic b = dynamics (br_fdb b)"

text \<open>The bound; a table without one has the limit zero.\<close>

definition fdb_bounded :: "'s bridge \<Rightarrow> bool" where
  "fdb_bounded b \<longleftrightarrow> (0 < bc_MaxEntries (br_cfg b) \<longrightarrow> br_dynamic b \<le> bc_MaxEntries (br_cfg b))"

lemma fdb_okD:
  assumes "fdb_ok b"
  shows "distinct (map fst (br_fdb b))" "br_dynamic b = dynamics (br_fdb b)"
    "map_of (br_fdb b) k = Some e \<Longrightarrow> entry_ok (br_ports b) k e"
  using assms unfolding fdb_ok_def by blast+

section \<open>Removing\<close>

lemma drop_dynamic_fields [simp]:
  "br_cfg (drop_dynamic g b) = br_cfg b" "br_ports (drop_dynamic g b) = br_ports b"
  "br_agingTime (drop_dynamic g b) = br_agingTime b" "br_gates (drop_dynamic g b) = br_gates b"
  "br_selector (drop_dynamic g b) = br_selector b" "br_resolver (drop_dynamic g b) = br_resolver b"
  "br_counters (drop_dynamic g b) = br_counters b"
  by (simp_all add: drop_dynamic_def)

lemma drop_dynamic_lookup:
  assumes "fdb_ok b"
  shows "map_of (br_fdb (drop_dynamic gone b)) k =
    (case map_of (br_fdb b) k of None \<Rightarrow> None | Some e \<Rightarrow> if gone k e then None else Some e)"
  using map_of_keep [OF fdb_okD(1) [OF assms]] by (simp add: drop_dynamic_def)

lemma drop_dynamic_ok:
  assumes "fdb_ok b" "\<And>k e. gone k e \<Longrightarrow> is_dynamic e"
  shows "fdb_ok (drop_dynamic gone b)"
proof -
  have "br_dynamic (drop_dynamic gone b) = dynamics (br_fdb (drop_dynamic gone b))"
    using dynamics_keep [of gone "br_fdb b"] assms fdb_okD(2) by (simp add: drop_dynamic_def)
  moreover have "distinct (map fst (br_fdb (drop_dynamic gone b)))"
    using fdb_okD(1) [OF assms(1)] by (simp add: drop_dynamic_def distinct_keep)
  ultimately show ?thesis
    using fdb_okD(3) [OF assms(1)]
    by (auto simp: fdb_ok_def drop_dynamic_lookup [OF assms(1)] split: option.splits if_splits)
qed

lemma drop_dynamic_less: "br_dynamic (drop_dynamic gone b) \<le> br_dynamic b"
  by (simp add: drop_dynamic_def)

lemma expired_dynamic: "expired b e now \<Longrightarrow> is_dynamic e"
  by (simp add: expired_def is_dynamic_def)

lemma flush_hits_dynamic: "flush_hits byPort k e \<Longrightarrow> is_dynamic e"
  by (simp add: flush_hits_def)

section \<open>Eviction\<close>

text \<open>
  The scan for the oldest dynamic entry keeps the least of learning time, filtering identifier and
  address seen so far.
\<close>

definition evict_rank :: "fdb_entry \<Rightarrow> time \<times> vlan_id \<times> mac" where
  "evict_rank e = (e_LearnedAt e, e_FID e, e_MAC e)"

lemma rank_less: "evict_rank e < evict_rank e' \<longleftrightarrow>
    e_LearnedAt e < e_LearnedAt e' \<or> e_LearnedAt e = e_LearnedAt e' \<and>
      (e_FID e < e_FID e' \<or> e_FID e = e_FID e' \<and> e_MAC e < e_MAC e')"
  by (auto simp: evict_rank_def less_prod_def)

interpretation evict: best_scan
  "\<lambda>(k, e). if is_dynamic e then Some (evict_rank e) else None"
  "map_option (\<lambda>(k, e). ((k, e), evict_rank e))"
  evict_step
  "\<lambda>s. case s of None \<Rightarrow> True | Some (k, e) \<Rightarrow> is_dynamic e"
  "\<lambda>_. True"
proof
  fix x :: "fdb_key \<times> fdb_entry" and s :: "(fdb_key \<times> fdb_entry) option"
  assume "case s of None \<Rightarrow> True | Some (k, e) \<Rightarrow> is_dynamic e"
  then show "case evict_step x s of None \<Rightarrow> True | Some (k, e) \<Rightarrow> is_dynamic e"
    by (auto simp: evict_step_def is_dynamic_def split: option.splits prod.splits)
next
  fix x :: "fdb_key \<times> fdb_entry" and s :: "(fdb_key \<times> fdb_entry) option"
  show "map_option (\<lambda>(k, e). ((k, e), evict_rank e)) (evict_step x s) =
      (case (case x of (k, e) \<Rightarrow> if is_dynamic e then Some (evict_rank e) else None) of
         None \<Rightarrow> map_option (\<lambda>(k, e). ((k, e), evict_rank e)) s
       | Some r \<Rightarrow> (case map_option (\<lambda>(k, e). ((k, e), evict_rank e)) s of
                     None \<Rightarrow> Some (x, r)
                   | Some (y, b) \<Rightarrow> if r < b then Some (x, r) else Some (y, b)))"
    by (cases x; cases s) (auto simp: evict_step_def is_dynamic_def rank_less)
qed

text \<open>What the scan answers; no other entry has the same rank, so the order of the map is of no account.\<close>

lemma evict_none:
  assumes "fold evict_step m None = None" "(k, e) \<in> set m"
  shows "\<not> is_dynamic e"
  using evict.scan_none [of None m] assms by force

lemma evict_some:
  assumes "fold evict_step m None = Some (k, e)"
  shows "(k, e) \<in> set m" "is_dynamic e"
    "(k', e') \<in> set m \<Longrightarrow> is_dynamic e' \<Longrightarrow> evict_rank e \<le> evict_rank e'"
proof -
  note s = evict.scan_some [of None m "(k, e)" "evict_rank e"]
  show "(k, e) \<in> set m"
    using s(1) assms by simp
  show "is_dynamic e"
    using s(2) assms by (simp split: if_splits)
  show "(k', e') \<in> set m \<Longrightarrow> is_dynamic e' \<Longrightarrow> evict_rank e \<le> evict_rank e'"
    using s(3) [of "(k', e')" "evict_rank e'"] assms by simp
qed

lemma evict_fields [simp]:
  "br_cfg (snd (evictOldestDynamic b)) = br_cfg b" "br_ports (snd (evictOldestDynamic b)) = br_ports b"
  "br_agingTime (snd (evictOldestDynamic b)) = br_agingTime b"
  "br_gates (snd (evictOldestDynamic b)) = br_gates b"
  "br_selector (snd (evictOldestDynamic b)) = br_selector b"
  "br_resolver (snd (evictOldestDynamic b)) = br_resolver b"
  by (simp_all add: evictOldestDynamic_def split: option.splits)

lemma evict_ok:
  assumes "fdb_ok b"
  shows "fdb_ok (snd (evictOldestDynamic b))"
    and "0 < br_dynamic b \<Longrightarrow> br_dynamic (snd (evictOldestDynamic b)) = br_dynamic b - 1"
proof -
  note d = fdb_okD(1) [OF assms]
  have "fdb_ok (snd (evictOldestDynamic b)) \<and>
    (0 < br_dynamic b \<longrightarrow> br_dynamic (snd (evictOldestDynamic b)) = br_dynamic b - 1)"
  proof (cases "fold evict_step (br_fdb b) None")
    case None
    then have "\<forall>(k, e) \<in> set (br_fdb b). \<not> is_dynamic e"
      using evict_none by blast
    then have "dynamics (br_fdb b) = 0"
      by (auto simp: dynamics_def filter_empty_conv)
    then show ?thesis
      using None assms fdb_okD(2) [OF assms] by (simp add: evictOldestDynamic_def)
  next
    case (Some ke)
    obtain k e where ke: "ke = (k, e)"
      by (cases ke)
    note s = evict_some [OF Some [unfolded ke]]
    have "map_of (br_fdb b) k = Some e"
      using d s(1) by (simp add: map_of_eq_Some_iff)
    then show ?thesis
      using Some ke s(2) d fdb_okD(2,3) [OF assms]
      by (auto simp: evictOldestDynamic_def fdb_ok_def dynamics_delete AList.delete_conv' AList.distinct_delete)
  qed
  then show "fdb_ok (snd (evictOldestDynamic b))"
    and "0 < br_dynamic b \<Longrightarrow> br_dynamic (snd (evictOldestDynamic b)) = br_dynamic b - 1"
    by simp_all
qed

section \<open>Storing\<close>

lemma put_ok:
  assumes "fdb_ok b" "entry_ok (br_ports b) k e"
    and "br_fdb b' = AList.update k e (br_fdb b)" "br_ports b' = br_ports b"
    and "br_dynamic b' = br_dynamic b + of_bool (is_dynamic e) -
      (case map_of (br_fdb b) k of None \<Rightarrow> 0 | Some e' \<Rightarrow> of_bool (is_dynamic e'))"
  shows "fdb_ok b'"
  using assms fdb_okD [OF assms(1)]
  by (auto simp: fdb_ok_def dynamics_update AList.update_conv' AList.distinct_update)

lemma delete_ok:
  assumes "fdb_ok b"
    and "br_fdb b' = AList.delete k (br_fdb b)" "br_ports b' = br_ports b"
    and "br_dynamic b' = br_dynamic b -
      (case map_of (br_fdb b) k of None \<Rightarrow> 0 | Some e' \<Rightarrow> of_bool (is_dynamic e'))"
  shows "fdb_ok b'"
  using assms fdb_okD [OF assms(1)]
  by (auto simp: fdb_ok_def dynamics_delete AList.delete_conv' AList.distinct_delete)

lemma ok_cong:
  assumes "br_fdb b' = br_fdb b" "br_ports b' = br_ports b" "br_dynamic b' = br_dynamic b"
  shows "fdb_ok b' \<longleftrightarrow> fdb_ok b"
  using assms by (simp add: fdb_ok_def)

lemma fdb_Advance_fields [simp]:
  "br_cfg (fdb_Advance now b) = br_cfg b" "br_ports (fdb_Advance now b) = br_ports b"
  "br_agingTime (fdb_Advance now b) = br_agingTime b" "br_gates (fdb_Advance now b) = br_gates b"
  "br_selector (fdb_Advance now b) = br_selector b" "br_resolver (fdb_Advance now b) = br_resolver b"
  "br_fdb (fdb_Advance now b) = br_fdb (drop_dynamic (\<lambda>k e. expired b e now) b)"
  "br_dynamic (fdb_Advance now b) = br_dynamic (drop_dynamic (\<lambda>k e. expired b e now) b)"
  by (simp_all add: fdb_Advance_def Let_def)

lemma fdb_Advance_ok:
  assumes "fdb_ok b"
  shows "fdb_ok (fdb_Advance now b)"
  using drop_dynamic_ok [OF assms, of "\<lambda>k e. expired b e now"] expired_dynamic
  by (subst ok_cong [where b = "drop_dynamic (\<lambda>k e. expired b e now) b"]) auto

lemma make_room_fields [simp]:
  "br_cfg (make_room now b) = br_cfg b" "br_ports (make_room now b) = br_ports b"
  "br_agingTime (make_room now b) = br_agingTime b" "br_gates (make_room now b) = br_gates b"
  "br_selector (make_room now b) = br_selector b" "br_resolver (make_room now b) = br_resolver b"
  by (simp_all add: make_room_def Let_def)

text \<open>After making room there is room.\<close>

lemma make_room_ok:
  assumes "fdb_ok b" "fdb_bounded b"
  shows "fdb_ok (make_room now b)"
    and "0 < bc_MaxEntries (br_cfg b) \<Longrightarrow> br_dynamic (make_room now b) < bc_MaxEntries (br_cfg b)"
proof -
  let ?a = "fdb_Advance now b"
  have a: "fdb_ok ?a" "br_dynamic ?a \<le> br_dynamic b"
    using fdb_Advance_ok [OF assms(1)] drop_dynamic_less [of "\<lambda>k e. expired b e now" b] by auto
  show "fdb_ok (make_room now b)"
    using a evict_ok(1) [OF a(1)] assms(1) by (simp add: make_room_def Let_def)
  show "br_dynamic (make_room now b) < bc_MaxEntries (br_cfg b)" if "0 < bc_MaxEntries (br_cfg b)"
    using a evict_ok(2) [OF a(1)] assms(2) that
    by (simp add: make_room_def Let_def fdb_bounded_def)
qed

lemma evict_lookup:
  assumes "fdb_ok b" "map_of (br_fdb b) k = None"
  shows "map_of (br_fdb (snd (evictOldestDynamic b))) k = None"
  using assms by (simp add: evictOldestDynamic_def AList.delete_conv' split: option.splits)

lemma make_room_lookup:
  assumes "fdb_ok b" "map_of (br_fdb b) k = None"
  shows "map_of (br_fdb (make_room now b)) k = None"
  using assms evict_lookup [OF fdb_Advance_ok [OF assms(1)]] drop_dynamic_lookup [OF assms(1)]
  by (simp add: make_room_def Let_def)

section \<open>Learning\<close>

lemma learnSource_fields [simp]:
  "br_cfg (learnSource name fid now src b) = br_cfg b"
  "br_ports (learnSource name fid now src b) = br_ports b"
  "br_agingTime (learnSource name fid now src b) = br_agingTime b"
  "br_gates (learnSource name fid now src b) = br_gates b"
  "br_selector (learnSource name fid now src b) = br_selector b"
  "br_resolver (learnSource name fid now src b) = br_resolver b"
  by (simp_all add: learnSource_def Let_def)

text \<open>The table without the entry of the source, when that has run out.\<close>

definition forget_expired :: "fdb_key \<Rightarrow> time \<Rightarrow> 's bridge \<Rightarrow> 's bridge" where
  "forget_expired k now b =
     (case map_of (br_fdb b) k of
        Some e \<Rightarrow>
          if expired b e now
          then b\<lparr>br_fdb := AList.delete k (br_fdb b), br_dynamic := br_dynamic b - 1,
                 br_counters := (br_counters b)\<lparr>n_Expired := n_Expired (br_counters b) + 1\<rparr>\<rparr>
          else b
      | None \<Rightarrow> b)"

lemma forget_expired_fields [simp]:
  "br_cfg (forget_expired k now b) = br_cfg b" "br_ports (forget_expired k now b) = br_ports b"
  "br_agingTime (forget_expired k now b) = br_agingTime b"
  by (simp_all add: forget_expired_def split: option.splits)

lemma forget_expired_ok:
  assumes "fdb_ok b" "fdb_bounded b"
  shows "fdb_ok (forget_expired k now b)" "fdb_bounded (forget_expired k now b)"
    "map_of (br_fdb (forget_expired k now b)) k =
      (case map_of (br_fdb b) k of None \<Rightarrow> None | Some e \<Rightarrow> if expired b e now then None else Some e)"
  using assms expired_dynamic
  by (auto simp: forget_expired_def fdb_bounded_def AList.delete_conv' split: option.splits
      intro!: delete_ok [OF assms(1), of _ k]) (force dest: expired_dynamic)+

definition learnable :: "'s bridge \<Rightarrow> vlan_id \<Rightarrow> mac \<Rightarrow> bool" where
  "learnable b fid src \<longleftrightarrow> \<not> mac_IsGroup src \<and> \<not> isFloodVLAN b fid \<and> hasVLANMember b fid"

definition learned :: "string \<Rightarrow> vlan_id \<Rightarrow> time \<Rightarrow> mac \<Rightarrow> fdb_entry" where
  "learned name fid now src = \<lparr>e_FID = fid, e_MAC = src, e_Port = name, e_Origin = Observed,
     e_Lifetime = Aging, e_LearnedAt = now\<rparr>"

definition insert_learned :: "string \<Rightarrow> vlan_id \<Rightarrow> time \<Rightarrow> mac \<Rightarrow> 's bridge \<Rightarrow> 's bridge" where
  "insert_learned name fid now src b =
     (let b = make_room now b in
      b\<lparr>br_fdb := AList.update (fid, src) (learned name fid now src) (br_fdb b),
        br_dynamic := br_dynamic b + 1,
        br_counters := (br_counters b)\<lparr>n_Learned := n_Learned (br_counters b) + 1\<rparr>\<rparr>)"

definition refresh_learned :: "string \<Rightarrow> vlan_id \<Rightarrow> time \<Rightarrow> mac \<Rightarrow> fdb_entry \<Rightarrow> 's bridge \<Rightarrow> 's bridge" where
  "refresh_learned name fid now src e b =
     (let b = (if e_Port e \<noteq> name
               then b\<lparr>br_counters := (br_counters b)\<lparr>n_Moved := n_Moved (br_counters b) + 1\<rparr>\<rparr> else b)
      in b\<lparr>br_fdb := AList.update (fid, src) (e\<lparr>e_Port := name, e_LearnedAt := now\<rparr>) (br_fdb b)\<rparr>)"

text \<open>The three outcomes of learning: a new entry, a refreshed one, or nothing.\<close>

lemma learnSource_cases:
  "learnSource name fid now src b =
    (if \<not> learnable b fid src then b
     else let b1 = forget_expired (fid, src) now b in
       case map_of (br_fdb b1) (fid, src) of
         None \<Rightarrow> insert_learned name fid now src b1
       | Some e \<Rightarrow> if e_Lifetime e = Static then b1 else refresh_learned name fid now src e b1)"
proof (cases "learnable b fid src")
  case True
  show ?thesis
  proof (cases "map_of (br_fdb b) (fid, src)")
    case None
    then show ?thesis
      using True
      by (simp add: learnSource_def learnable_def forget_expired_def insert_learned_def learned_def Let_def)
  next
    case (Some e)
    then show ?thesis
      using True
      by (simp add: learnSource_def learnable_def forget_expired_def insert_learned_def learned_def
          refresh_learned_def Let_def AList.delete_conv')
  qed
qed (auto simp: learnSource_def learnable_def)

lemma insert_learned_ok:
  assumes "fdb_ok b" "fdb_bounded b" "map_of (br_fdb b) (fid, src) = None"
    and "\<not> mac_IsGroup src" "logical (br_ports b) name"
  shows "fdb_ok (insert_learned name fid now src b)" "fdb_bounded (insert_learned name fid now src b)"
    "map_of (br_fdb (insert_learned name fid now src b)) (fid, src) = Some (learned name fid now src)"
proof -
  note room = make_room_ok [OF assms(1,2), of now] make_room_lookup [OF assms(1,3), of now]
  have e: "entry_ok (br_ports (make_room now b)) (fid, src) (learned name fid now src)"
    using assms(4,5) by (simp add: entry_ok_def learned_def)
  have d: "is_dynamic (learned name fid now src)"
    by (simp add: is_dynamic_def learned_def)
  show "fdb_ok (insert_learned name fid now src b)"
    by (rule put_ok [OF room(1) e]) (simp_all add: insert_learned_def Let_def room(3) d)
  show "fdb_bounded (insert_learned name fid now src b)"
    by (simp add: insert_learned_def Let_def fdb_bounded_def room(2) add1_zle_eq)
  show "map_of (br_fdb (insert_learned name fid now src b)) (fid, src) = Some (learned name fid now src)"
    by (simp add: insert_learned_def Let_def AList.update_conv')
qed

lemma refresh_learned_ok:
  assumes "fdb_ok b" "fdb_bounded b" "map_of (br_fdb b) (fid, src) = Some e" "e_Lifetime e \<noteq> Static"
    and "logical (br_ports b) name"
  shows "fdb_ok (refresh_learned name fid now src e b)" "fdb_bounded (refresh_learned name fid now src e b)"
    "map_of (br_fdb (refresh_learned name fid now src e b)) (fid, src) =
       Some (e\<lparr>e_Port := name, e_LearnedAt := now\<rparr>)"
proof -
  let ?e = "e\<lparr>e_Port := name, e_LearnedAt := now\<rparr>"
  have e: "entry_ok (br_ports b) (fid, src) ?e"
    using fdb_okD(3) [OF assms(1,3)] assms(5) by (simp add: entry_ok_def)
  show "fdb_ok (refresh_learned name fid now src e b)"
    by (rule put_ok [OF assms(1) e]) (simp_all add: refresh_learned_def Let_def assms(3) is_dynamic_def)
  show "fdb_bounded (refresh_learned name fid now src e b)"
    using assms(2) by (simp add: refresh_learned_def Let_def fdb_bounded_def)
  show "map_of (br_fdb (refresh_learned name fid now src e b)) (fid, src) = Some ?e"
    by (simp add: refresh_learned_def Let_def AList.update_conv')
qed

lemma learnSource_ok:
  assumes "fdb_ok b" "fdb_bounded b" "logical (br_ports b) name"
  shows "fdb_ok (learnSource name fid now src b)" "fdb_bounded (learnSource name fid now src b)"
proof -
  let ?b = "forget_expired (fid, src) now b"
  have f: "fdb_ok ?b" "fdb_bounded ?b"
    using forget_expired_ok(1,2) [OF assms(1,2)] by auto
  have "fdb_ok (learnSource name fid now src b) \<and> fdb_bounded (learnSource name fid now src b)"
    using assms f insert_learned_ok(1,2) [OF f] refresh_learned_ok(1,2) [OF f]
    by (simp add: learnSource_cases Let_def learnable_def split: option.splits)
  then show "fdb_ok (learnSource name fid now src b)" "fdb_bounded (learnSource name fid now src b)"
    by simp_all
qed

text \<open>
  What learning leaves in the table for the source itself: nothing new when it may not be learned,
  the old entry when that is static, and otherwise an entry for the port, seen now.
\<close>

lemma learnSource_lookup:
  assumes "fdb_ok b" "fdb_bounded b" "logical (br_ports b) name" "learnable b fid src"
  shows "\<exists>e. map_of (br_fdb (learnSource name fid now src b)) (fid, src) = Some e \<and>
    (if e_Lifetime e = Static then map_of (br_fdb b) (fid, src) = Some e
     else e_Port e = name \<and> e_LearnedAt e = now)"
proof -
  let ?b = "forget_expired (fid, src) now b"
  note f = forget_expired_ok [OF assms(1,2), of "(fid, src)" now]
  note eq = learnSource_cases [of name fid now src]
  have src: "\<not> mac_IsGroup src"
    using assms(4) by (simp add: learnable_def)
  show ?thesis
  proof (cases "map_of (br_fdb ?b) (fid, src)")
    case None
    then show ?thesis
      using insert_learned_ok(3) [OF f(1,2) None src] assms(3,4)
      by (simp add: eq Let_def) (simp add: learned_def)
  next
    case (Some e)
    then have "map_of (br_fdb b) (fid, src) = Some e"
      using f(3) by (simp split: option.splits if_splits)
    then show ?thesis
      using Some refresh_learned_ok(3) [OF f(1,2) Some] assms(3,4)
      by (cases "e_Lifetime e = Static") (simp_all add: eq Let_def)
  qed
qed

section \<open>Seeds\<close>

lemma normalize_seed_ok:
  assumes "normalize_seed c tbl seen i s = Inr s'" "wf_table tbl"
  shows "entry_ok tbl (entry_key s') s' \<and> seen (entry_key s') = None"
proof -
  obtain p where "Resolve tbl (e_Port s) = Some p" "e_Port s' = pt_Name p"
    "\<not> mac_IsGroup (e_MAC s')" "e_Lifetime s' = Aging \<or> e_Lifetime s' = Static"
    "seen (e_FID s', e_MAC s') = None"
    using assms(1)
    by (auto simp: normalize_seed_def Let_def split: if_splits option.splits)
  then show ?thesis
    using wf_resolve(1) [OF assms(2)] by (simp add: entry_ok_def)
qed

lemma normalize_seeds_ok:
  assumes "normalize_seeds c tbl seen i ss = Inr ss'" "wf_table tbl"
  shows "\<forall>s \<in> set ss'. entry_ok tbl (entry_key s) s"
    and "distinct (map entry_key ss')" "\<forall>s \<in> set ss'. seen (entry_key s) = None"
proof -
  have "(\<forall>s \<in> set ss'. entry_ok tbl (entry_key s) s) \<and> distinct (map entry_key ss') \<and>
      (\<forall>s \<in> set ss'. seen (entry_key s) = None)"
    using assms
  proof (induction c tbl seen i ss arbitrary: ss' rule: normalize_seeds.induct)
    case (2 c tbl seen i s ss)
    from "2.prems" obtain s' rest where s': "normalize_seed c tbl seen i s = Inr s'"
      and rest: "normalize_seeds c tbl (seen(entry_key s' \<mapsto> i)) (i + 1) ss = Inr rest" "ss' = s' # rest"
      by (auto split: sum.splits)
    note IH = "2.IH" [OF s' rest(1) "2.prems"(2)]
    have "entry_key r \<noteq> entry_key s' \<and> seen (entry_key r) = None" if "r \<in> set rest" for r
    proof -
      have "(seen(entry_key s' \<mapsto> i)) (entry_key r) = None"
        using IH that by blast
      then show ?thesis
        by (simp split: if_splits)
    qed
    moreover have "entry_ok tbl (entry_key s') s' \<and> seen (entry_key s') = None"
      by (rule normalize_seed_ok [OF s' "2.prems"(2)])
    ultimately show ?case
      using IH unfolding rest(2) by (simp only: list.set list.map distinct.simps ball_simps) force
  qed simp
  then show "\<forall>s \<in> set ss'. entry_ok tbl (entry_key s) s"
    and "distinct (map entry_key ss')" "\<forall>s \<in> set ss'. seen (entry_key s) = None"
    by simp_all
qed

lemma install_seed_fields [simp]:
  "br_cfg (install_seed s b) = br_cfg b" "br_ports (install_seed s b) = br_ports b"
  "br_agingTime (install_seed s b) = br_agingTime b"
  by (simp_all add: install_seed_def Let_def split: option.splits)

text \<open>A seed pins its address when it is static, moves or refreshes an ageing entry, or adds one.\<close>

lemma install_static:
  assumes "e_Lifetime s = Static"
  shows "br_fdb (install_seed s b) = AList.update (entry_key s) s (br_fdb b)"
    and "br_dynamic (install_seed s b) = br_dynamic b -
      (case map_of (br_fdb b) (entry_key s) of None \<Rightarrow> 0 | Some e \<Rightarrow> of_bool (is_dynamic e))"
  using assms by (simp_all add: install_seed_def Let_def split: option.splits)

lemma install_over:
  assumes "e_Lifetime s \<noteq> Static" "map_of (br_fdb b) (entry_key s) = Some e"
  shows "e_Lifetime e = Static \<Longrightarrow> install_seed s b = b"
    and "e_Lifetime e \<noteq> Static \<Longrightarrow> br_fdb (install_seed s b) =
      AList.update (entry_key s) (e\<lparr>e_Port := e_Port s, e_LearnedAt := e_LearnedAt s\<rparr>) (br_fdb b)"
    and "e_Lifetime e \<noteq> Static \<Longrightarrow> br_dynamic (install_seed s b) = br_dynamic b"
  using assms by (cases e; simp_all add: install_seed_def Let_def)+

definition seed_room :: "'s bridge \<Rightarrow> 's bridge" where
  "seed_room b =
     (if bc_MaxEntries (br_cfg b) > 0 \<and> br_dynamic b \<ge> bc_MaxEntries (br_cfg b)
      then snd (evictOldestDynamic b) else b)"

lemma seed_room_ok:
  assumes "fdb_ok b" "fdb_bounded b"
  shows "fdb_ok (seed_room b)" "br_ports (seed_room b) = br_ports b"
    and "0 < bc_MaxEntries (br_cfg b) \<Longrightarrow> br_dynamic (seed_room b) < bc_MaxEntries (br_cfg b)"
    and "map_of (br_fdb b) k = None \<Longrightarrow> map_of (br_fdb (seed_room b)) k = None"
  using assms evict_ok [OF assms(1)] evict_lookup [OF assms(1)]
  by (auto simp: seed_room_def fdb_bounded_def)

lemma install_new:
  assumes "e_Lifetime s \<noteq> Static" "map_of (br_fdb b) (entry_key s) = None"
  shows "br_fdb (install_seed s b) = AList.update (entry_key s) s (br_fdb (seed_room b))"
    and "br_dynamic (install_seed s b) = br_dynamic (seed_room b) + 1"
  using assms by (simp_all add: install_seed_def Let_def seed_room_def)

lemma install_seed_ok:
  assumes "fdb_ok b" "fdb_bounded b" "entry_ok (br_ports b) (entry_key s) s"
  shows "fdb_ok (install_seed s b) \<and> fdb_bounded (install_seed s b)"
proof (cases "e_Lifetime s = Static")
  case True
  then have "fdb_ok (install_seed s b)"
    by (intro put_ok [OF assms(1,3)]) (simp_all add: install_static is_dynamic_def split: option.splits)
  then show ?thesis
    using assms(2) install_static(2) [OF True, of b] by (auto simp: fdb_bounded_def split: option.splits)
next
  case False
  note dyn = False
  show ?thesis
  proof (cases "map_of (br_fdb b) (entry_key s)")
    case None
    note room = seed_room_ok [OF assms(1,2)] and new = install_new [OF dyn None]
    have "fdb_ok (install_seed s b)"
      by (rule put_ok [OF room(1), of "entry_key s" s])
        (use assms(3) new dyn room(2) room(4) [OF None] in \<open>simp_all add: is_dynamic_def\<close>)
    then show ?thesis
      using room(3) new(2) by (auto simp: fdb_bounded_def)
  next
    case (Some e)
    note over = install_over [OF dyn Some]
    show ?thesis
    proof (cases "e_Lifetime e = Static")
      case True
      then show ?thesis
        using assms over by simp
    next
      case False
      have "entry_ok (br_ports b) (entry_key s) (e\<lparr>e_Port := e_Port s, e_LearnedAt := e_LearnedAt s\<rparr>)"
        using fdb_okD(3) [OF assms(1) Some] assms(3) by (simp add: entry_ok_def)
      from put_ok [OF assms(1) this, of "install_seed s b"] have "fdb_ok (install_seed s b)"
        using over False Some by (simp add: is_dynamic_def)
      then show ?thesis
        using over False assms(2) by (simp add: fdb_bounded_def)
    qed
  qed
qed

lemma InstallSeeds_fields [simp]:
  "br_cfg (snd (InstallSeeds ss b)) = br_cfg b" "br_ports (snd (InstallSeeds ss b)) = br_ports b"
  by (auto simp: InstallSeeds_def split: sum.splits intro: fold_const)

lemma InstallSeeds_ok:
  assumes "fdb_ok b" "fdb_bounded b" "wf_table (br_ports b)"
  shows "fdb_ok (snd (InstallSeeds ss b)) \<and> fdb_bounded (snd (InstallSeeds ss b))"
proof (cases "normalize_seeds (br_cfg b) (br_ports b) Map.empty 0 ss")
  case (Inl e)
  then show ?thesis
    using assms by (simp add: InstallSeeds_def NormalizeSeeds_def)
next
  case (Inr ss')
  let ?I = "\<lambda>c. (fdb_ok c \<and> fdb_bounded c) \<and> br_ports c = br_ports b"
  have "?I (fold install_seed (sort_key entry_key ss') b)"
  proof (rule fold_inv)
    show "?I b"
      using assms by simp
    fix s c
    assume "s \<in> set (sort_key entry_key ss')" and I: "?I c"
    then have "entry_ok (br_ports c) (entry_key s) s"
      using normalize_seeds_ok(1) [OF Inr assms(3)] by simp
    with I show "?I (install_seed s c)"
      using install_seed_ok [of c s] by simp
  qed
  then show ?thesis
    by (simp add: InstallSeeds_def NormalizeSeeds_def Inr)
qed

section \<open>Flushing\<close>

text \<open>Merging the targets port by port keeps what they cover together.\<close>

lemma targets_by_port_covers:
  "(\<exists>fids. targets_by_port ts p = Some fids \<and> (fids = [] \<or> f \<in> set fids)) \<longleftrightarrow> covers ts p f"
proof (induction ts rule: rev_induct)
  case (snoc t ts)
  have step: "targets_by_port (ts @ [t]) = merge_target t (targets_by_port ts)"
    by (simp add: targets_by_port_def)
  show ?case
  proof (cases "ft_Port t = p")
    case True
    then show ?thesis
      using snoc by (cases "targets_by_port ts p") (auto simp: step merge_target_def target_covers_def)
  next
    case False
    then have "targets_by_port (ts @ [t]) p = targets_by_port ts p"
      by (auto simp: step merge_target_def split: option.splits)
    then show ?thesis
      using snoc False by (auto simp: target_covers_def)
  qed
qed (simp add: targets_by_port_def)

lemma Flush_fields [simp]:
  "br_cfg (Flush ts b) = br_cfg b" "br_ports (Flush ts b) = br_ports b"
  by (simp_all add: Flush_def)

lemma Flush_ok:
  assumes "fdb_ok b" "fdb_bounded b"
  shows "fdb_ok (Flush ts b) \<and> fdb_bounded (Flush ts b)"
  using assms drop_dynamic_ok [OF assms(1), of "flush_hits (targets_by_port ts)"] flush_hits_dynamic
    drop_dynamic_less [of "flush_hits (targets_by_port ts)" b]
  by (auto simp: Flush_def fdb_bounded_def)

lemma Flush_lookup:
  assumes "fdb_ok b"
  shows "map_of (br_fdb (Flush ts b)) k =
    (case map_of (br_fdb b) k of
       None \<Rightarrow> None
     | Some e \<Rightarrow> if is_dynamic e \<and> covers ts (e_Port e) (fst k) then None else Some e)"
proof (cases "ts = []")
  case False
  have hits: "flush_hits (targets_by_port ts) k e \<longleftrightarrow> is_dynamic e \<and> covers ts (e_Port e) (fst k)" for e
    using targets_by_port_covers [of ts "e_Port e" "fst k"]
    by (auto simp: flush_hits_def split: option.splits)
  show ?thesis
    using drop_dynamic_lookup [OF assms, of "flush_hits (targets_by_port ts)" k] False
    by (cases "map_of (br_fdb b) k") (simp_all add: Flush_def hits)
qed (auto simp: Flush_def split: option.splits)

section \<open>Forgetting\<close>

lemma Forget_ok:
  assumes "fdb_ok b" "fdb_bounded b"
  shows "fdb_ok (snd (Forget fid m b)) \<and> fdb_bounded (snd (Forget fid m b))"
proof (cases "map_of (br_fdb b) (fid, m)")
  case (Some e)
  then have "fdb_ok (snd (Forget fid m b))"
    by (intro delete_ok [OF assms(1), of _ "(fid, m)"]) (simp_all add: Forget_def Let_def)
  then show ?thesis
    using assms Some by (auto simp: Forget_def Let_def fdb_bounded_def)
qed (use assms in \<open>simp add: Forget_def\<close>)

lemma Forget_ports [simp]: "br_ports (snd (Forget fid m b)) = br_ports b"
  by (simp add: Forget_def Let_def split: option.splits)

end
