(* ===== verification/Bridge_Run.thy ===== *)
theory Bridge_Run
  imports Bridge_Table Transitions
begin

text \<open>
  The relay as a transition system: the calls a switch makes, on a relay and the ingress descriptors
  it has handed out so far (\<^verbatim>\<open>Learn\<close> takes one of these back), and the invariant of its
  forwarding database.
\<close>

section \<open>An admitted frame\<close>

text \<open>What is known of the descriptor and of the relay when \<^verbatim>\<open>Ingress\<close> admits a frame.\<close>

lemma Ingress_admits:
  assumes "Ingress now name f learn commit b = (Inr i, b')"
  shows "rr_Reason (Table_Receive (br_ports b) name) = NoReason"
    and "in_Port i = pt_Name (rr_Resolved (Table_Receive (br_ports b) name))"
    and "bc_ForwardBPDU (br_cfg b) \<or> \<not> IsReserved (f_Dst f)"
    and "\<exists>i0. classifyIngress b (in_Port i) f = Inr i0 \<and>
      i = i0\<lparr>in_Port := in_Port i, in_Now := now, in_Commit := commit, in_learns := in_learns i\<rparr>"
    and "ingressGate b (in_Port i) (in_FID i) = (in_learns i, True)"
    and "b' = (if learn \<and> in_learns i then learnSource (in_Port i) (in_FID i) now (f_Src f) b else b)"
  using assms
  by (auto simp: Ingress_def Let_def split: if_splits sum.splits prod.splits)

lemma Ingress_refuses:
  assumes "Ingress now name f learn commit b = (Inl r, b')"
  shows "b' = b \<or>
    (\<exists>fid. b' = learnSource (pt_Name (rr_Resolved (Table_Receive (br_ports b) name))) fid now (f_Src f) b \<and>
       rr_Reason (Table_Receive (br_ports b) name) = NoReason)"
  using assms
  by (auto simp: Ingress_def Let_def split: if_splits sum.splits prod.splits)

lemma Ingress_fields [simp]:
  "br_cfg (snd (Ingress now name f learn commit b)) = br_cfg b"
  "br_ports (snd (Ingress now name f learn commit b)) = br_ports b"
  "br_agingTime (snd (Ingress now name f learn commit b)) = br_agingTime b"
  "br_gates (snd (Ingress now name f learn commit b)) = br_gates b"
  by (auto simp: Ingress_def Let_def split: if_splits sum.splits prod.splits)

section \<open>The transition system\<close>

type_synonym 's relay = "'s bridge \<times> ingress set"

inductive relay_step :: "'s relay \<Rightarrow> 's relay \<Rightarrow> bool" where
  seed: "relay_step (b, D) (snd (InstallSeeds ss b), D)"
| admit: "Ingress now name f learn commit b = (Inr i, b') \<Longrightarrow> relay_step (b, D) (b', insert i D)"
| refuse: "Ingress now name f learn commit b = (Inl r, b') \<Longrightarrow> relay_step (b, D) (b', D)"
| learn: "i \<in> D \<Longrightarrow> relay_step (b, D) (Learn i f b, D)"
| flush: "relay_step (b, D) (Flush ts b, D)"
| forget: "relay_step (b, D) (snd (Forget fid m b), D)"
| advance: "relay_step (b, D) (fdb_Advance now b, D)"
| oper: "SetOperStatus name state b = Inr b' \<Longrightarrow> relay_step (b, D) (b', D)"
| gate: "relay_step (b, D) (SetGate g sc b, D)"
| selector: "relay_step (b, D) (SetSelector sel b, D)"
| resolver: "relay_step (b, D) (SetGroupResolver r b, D)"

inductive_cases relay_stepE: "relay_step s s'"

text \<open>A relay \<^verbatim>\<open>New\<close> returns over a table the port builder made.\<close>

definition relay_init :: "bridge_config \<Rightarrow> port_table \<Rightarrow> 's relay \<Rightarrow> bool" where
  "relay_init c tbl = (\<lambda>(b, D). NewBridge c tbl = Inr b \<and> (\<exists>bd. builder_Build bd = Inr tbl) \<and> D = {})"

definition bridge_reachable :: "bridge_config \<Rightarrow> port_table \<Rightarrow> 's bridge \<Rightarrow> bool" where
  "bridge_reachable c tbl b \<longleftrightarrow> (\<exists>D. reach (relay_init c tbl) relay_step (b, D))"

section \<open>The invariant\<close>

definition relay_ok :: "'s relay \<Rightarrow> bool" where
  "relay_ok = (\<lambda>(b, D).
     wf_table (br_ports b) \<and> fdb_ok b \<and> fdb_bounded b \<and> (\<forall>i \<in> D. logical (br_ports b) (in_Port i)))"

lemma new_bridge_ok: "fdb_ok (new_bridge c tbl) \<and> fdb_bounded (new_bridge c tbl)"
  by (simp add: new_bridge_def fdb_ok_def fdb_bounded_def)

lemma learned_ok:
  assumes "relay_ok (b, D)" "logical (br_ports b) name"
  shows "relay_ok (learnSource name fid now src b, D)"
  using assms learnSource_ok [of b name fid now src] by (simp add: relay_ok_def)

lemma receive_logical:
  assumes "relay_ok (b, D)" "rr_Reason (Table_Receive (br_ports b) name) = NoReason"
  shows "logical (br_ports b) (pt_Name (rr_Resolved (Table_Receive (br_ports b) name)))"
  using assms wf_receive(3) by (simp add: relay_ok_def)

lemma admit_ok:
  assumes "relay_ok (b, D)" "Ingress now name f learn commit b = (Inr i, b')"
  shows "relay_ok (b', insert i D)"
proof -
  note a = Ingress_admits [OF assms(2)]
  have l: "logical (br_ports b) (in_Port i)"
    using receive_logical [OF assms(1) a(1)] a(2) by simp
  then have "relay_ok (b', D)"
    using learned_ok [OF assms(1)] assms(1) a(6) by simp
  moreover have "br_ports b' = br_ports b"
    using a(6) by simp
  ultimately show ?thesis
    using l by (simp add: relay_ok_def)
qed

lemma refuse_ok:
  assumes "relay_ok (b, D)" "Ingress now name f learn commit b = (Inl r, b')"
  shows "relay_ok (b', D)"
  using Ingress_refuses [OF assms(2)] learned_ok [OF assms(1)] receive_logical [OF assms(1)] assms(1)
  by blast

lemma oper_ok:
  assumes "relay_ok (b, D)" "SetOperStatus name state b = Inr b'"
  shows "relay_ok (b', D)"
proof -
  obtain tbl where tbl: "WithOperStatus (br_ports b) name state = Inr tbl" "b' = b\<lparr>br_ports := tbl\<rparr>"
    using assms(2) by (auto simp: SetOperStatus_def split: sum.splits)
  have wf: "wf_table (br_ports b)"
    using assms(1) by (simp add: relay_ok_def)
  note keep = WithOperStatus_logical [OF wf tbl(1)]
  have "entry_ok (br_ports b) k e \<Longrightarrow> entry_ok tbl k e" for k e
    using keep by (auto simp: entry_ok_def)
  then show ?thesis
    using assms(1) WithOperStatus_wf [OF wf tbl(1)] keep
    by (auto simp: relay_ok_def tbl(2) fdb_ok_def fdb_bounded_def)
qed

text \<open>The bindings of a relay do not matter to its table.\<close>

lemma binding_ok:
  assumes "br_cfg b' = br_cfg b" "br_ports b' = br_ports b" "br_fdb b' = br_fdb b" "br_dynamic b' = br_dynamic b"
  shows "relay_ok (b', D) \<longleftrightarrow> relay_ok (b, D)"
  using assms by (simp add: relay_ok_def fdb_ok_def fdb_bounded_def)

lemma relay_step_ok:
  assumes "relay_ok s" "relay_step s s'"
  shows "relay_ok s'"
  using assms(2)
proof cases
  case (learn i D b f)
  then have "logical (br_ports b) (in_Port i)"
    using assms(1) by (simp add: relay_ok_def)
  then show ?thesis
    using learn assms(1) by (auto simp: Learn_def intro: learned_ok)
next
  case (seed b D ss)
  then show ?thesis
    using assms(1) InstallSeeds_ok [of b ss] by (simp add: relay_ok_def)
next
  case (admit now name f learn commit b i b' D)
  then show ?thesis
    using assms(1) admit_ok by blast
next
  case (refuse now name f learn commit b r b' D)
  then show ?thesis
    using assms(1) refuse_ok by blast
next
  case (flush b D ts)
  then show ?thesis
    using assms(1) Flush_ok [of b ts] by (simp add: relay_ok_def)
next
  case (forget b D fid m)
  then show ?thesis
    using assms(1) Forget_ok [of b fid m] by (simp add: relay_ok_def)
next
  case (oper name state b b' D)
  then show ?thesis
    using assms(1) oper_ok by blast
next
  case (gate b D g sc)
  then show ?thesis
    using assms(1) binding_ok [of "SetGate g sc b" b D] by (simp add: SetGate_def)
next
  case (selector b D sel)
  then show ?thesis
    using assms(1) binding_ok [of "SetSelector sel b" b D] by (simp add: SetSelector_def)
next
  case (resolver b D r)
  then show ?thesis
    using assms(1) binding_ok [of "SetGroupResolver r b" b D] by (simp add: SetGroupResolver_def)
next
  case (advance b D now)
  then have "fdb_ok (fdb_Advance now b)"
    using assms(1) fdb_Advance_ok [of b now] by (simp add: relay_ok_def)
  then show ?thesis
    using advance assms(1) drop_dynamic_less [of "\<lambda>k e. expired b e now" b]
    by (auto simp: relay_ok_def fdb_bounded_def)
qed

interpretation relay: invariant "relay_init c tbl" relay_step relay_ok for c tbl
proof
  show "relay_ok s" if "relay_init c tbl s" for s :: "'s relay"
    using that new_bridge_ok builder_wf
    by (auto simp: relay_init_def relay_ok_def NewBridge_def new_bridge_def split: option.splits) 
qed (rule relay_step_ok)

lemma bridge_reachable_ok:
  assumes "bridge_reachable c tbl b"
  shows "wf_table (br_ports b)" "fdb_ok b" "fdb_bounded b"
  using assms relay.reachable_inv by (auto simp: bridge_reachable_def relay_ok_def)

end
