(* ===== verification/Bridge_Forward.thy ===== *)
theory Bridge_Forward
  imports Bridge_Run
begin

text \<open>
  What a forwarding decision is worth: the specification \<open>may_send\<close> of the ports a frame may leave
  by, and the lemmas that \<open>decideEgress\<close>, replication and \<open>Egress\<close> keep to it.
\<close>

section \<open>The specification\<close>

definition gates_forward :: "'s bridge \<Rightarrow> string \<Rightarrow> vlan_id \<Rightarrow> bool" where
  "gates_forward b name fid \<longleftrightarrow> (\<forall>g sc. (Some g, sc) \<in> set (br_gates b) \<longrightarrow> g_Forwards g name fid)"

definition may_send :: "'s bridge \<Rightarrow> ingress \<Rightarrow> frame \<Rightarrow> string \<Rightarrow> bool" where
  "may_send b i f name \<longleftrightarrow>
     name \<noteq> in_Port i \<and>
     (\<exists>p. Table_Port (br_ports b) name = Some p \<and> pt_LagParent p = '''' \<and> port_Forwards p \<and>
        (0 < pt_MTU p \<longrightarrow> int (length (f_Payload f)) \<le> pt_MTU p)) \<and>
     carriesVID b name (in_FID i) \<and> gates_forward b name (in_FID i) \<and>
     \<not> (isProtected b (in_Port i) \<and> isProtected b name)"

lemma egressGate_forward: "egressGate b name fid \<longleftrightarrow> gates_forward b name fid"
proof -
  have "fold (\<lambda>(g, sc) forwards. case g of None \<Rightarrow> forwards | Some g \<Rightarrow> forwards \<and> g_Forwards g name fid) gs acc \<longleftrightarrow>
      acc \<and> (\<forall>g sc. (Some g, sc) \<in> set gs \<longrightarrow> g_Forwards g name fid)" for gs :: "(gate option \<times> scope) list" and acc
    by (induction gs arbitrary: acc) (auto split: option.splits)
  then show ?thesis
    by (simp add: egressGate_def gates_forward_def)
qed

lemma ingressGate_forward: "snd (ingressGate b name fid) \<longleftrightarrow> gates_forward b name fid"
proof -
  have "snd (fold (gate_step name fid) gs acc) \<longleftrightarrow>
      snd acc \<and> (\<forall>g sc. (Some g, sc) \<in> set gs \<longrightarrow> g_Forwards g name fid)" for gs acc
    by (induction gs arbitrary: acc) (auto simp: gate_step_def split: option.splits prod.splits)
  then show ?thesis
    by (simp add: ingressGate_def gates_forward_def)
qed

lemma ingressGate_learn:
  "fst (ingressGate b name fid) \<longleftrightarrow> (\<forall>g sc. (Some g, sc) \<in> set (br_gates b) \<longrightarrow> g_Learns g name fid)"
proof -
  have "fst (fold (gate_step name fid) gs acc) \<longleftrightarrow>
      fst acc \<and> (\<forall>g sc. (Some g, sc) \<in> set gs \<longrightarrow> g_Learns g name fid)" for gs acc
    by (induction gs arbitrary: acc) (auto simp: gate_step_def split: option.splits prod.splits)
  then show ?thesis
    by (simp add: ingressGate_def)
qed

text \<open>A gate that denies a port denies it to the relay.\<close>

lemma gated:
  assumes "(Some g, sc) \<in> set (br_gates b)"
  shows "\<not> g_Forwards g n fid \<Longrightarrow> \<not> gates_forward b n fid"
    and "\<not> g_Learns g n fid \<Longrightarrow> \<not> fst (ingressGate b n fid)"
    and "\<not> g_Forwards g n fid \<Longrightarrow> \<not> snd (ingressGate b n fid)"
  using assms by (auto simp: gates_forward_def ingressGate_learn ingressGate_forward)

lemma build_carries:
  "buildEgressFrame b name vid f pcp dei rem tpid = None \<longleftrightarrow> \<not> carriesVID b name vid"
  by (simp add: buildEgressFrame_def carriesVID_def split: option.splits)

text \<open>The frame the relay puts on the wire of a port.\<close>

abbreviation out_frame :: "'s bridge \<Rightarrow> ingress \<Rightarrow> frame \<Rightarrow> string \<Rightarrow> frame option" where
  "out_frame b i f name \<equiv>
     buildEgressFrame b name (in_FID i) f (in_PCP i) (in_DEI i) (in_RemainingTags i) (in_TPID i)"

section \<open>One port\<close>

lemma transmit_none:
  assumes "Table_Port t name = Some p" "Table_Transmit t name n = NoReason"
  shows "port_Forwards p" "0 < pt_MTU p \<Longrightarrow> n \<le> pt_MTU p"
  using assms by (auto simp: Table_Transmit_def split: if_splits)

lemma transmit_plain:
  assumes "Table_Port t name = Some p" "pt_Kind p \<noteq> LAG"
  shows "Table_Transmit t name n = NoReason \<longleftrightarrow> port_Forwards p \<and> (0 < pt_MTU p \<longrightarrow> n \<le> pt_MTU p)"
  using assms by (auto simp: Table_Transmit_def)

text \<open>A decision records exactly one egress, for its port; it is a transmission or has a reason.\<close>

lemma decide_cases:
  obtains (sent) member frame where
      "res_Outcome (fst (decideEgress b i f p s)) = Forwarded"
      "res_Reason (fst (decideEgress b i f p s)) = NotDropped"
      "res_Egress (fst (decideEgress b i f p s)) =
         [\<lparr>eg_Port = pt_Name p, eg_Member = member, eg_Frame = frame, eg_PCP = in_PCP i, eg_Dropped = NotDropped\<rparr>]"
      "Table_Transmit (br_ports b) (pt_Name p) (int (length (f_Payload f))) = NoReason"
      "out_frame b i f (pt_Name p) = Some frame"
      "gates_forward b (pt_Name p) (in_FID i)"
      "\<not> (isProtected b (in_Port i) \<and> isProtected b (pt_Name p))"
  | (dropped) frame why where
      "res_Outcome (fst (decideEgress b i f p s)) = Dropped"
      "res_Reason (fst (decideEgress b i f p s)) = why" "why \<noteq> NotDropped"
      "res_Egress (fst (decideEgress b i f p s)) =
         [\<lparr>eg_Port = pt_Name p, eg_Member = '''', eg_Frame = frame, eg_PCP = in_PCP i, eg_Dropped = why\<rparr>]"
proof -
  let ?d = "decideEgress b i f p s"
  let ?tx = "Table_Transmit (br_ports b) (pt_Name p) (int (length (f_Payload f)))"
  have drop: thesis
    if "fst ?d = recordEgressDrop i (pt_Name p) fr why dropped_result" "why \<noteq> NotDropped" for fr why
    using that by (intro dropped) (simp_all add: recordEgressDrop_def dropped_result_def)
  show thesis
  proof (cases "?tx = ReasonPortDown")
    case True
    then show thesis
      by (intro drop [of zero_frame "PortReason ReasonPortDown"]) (simp_all add: decideEgress_def)
  next
    case up: False
    show thesis
    proof (cases "out_frame b i f (pt_Name p)")
      case None
      then show thesis
        using up by (intro drop [of zero_frame NotMember]) (simp_all add: decideEgress_def Let_def)
    next
      case (Some fr)
      show thesis
      proof (cases "egressGate b (pt_Name p) (in_FID i) \<and>
          \<not> (isProtected b (in_Port i) \<and> isProtected b (pt_Name p)) \<and> ?tx \<noteq> ReasonMTUExceeded")
        case False
        then consider "\<not> egressGate b (pt_Name p) (in_FID i)"
          | "egressGate b (pt_Name p) (in_FID i)" "isProtected b (in_Port i) \<and> isProtected b (pt_Name p)"
          | "egressGate b (pt_Name p) (in_FID i)" "\<not> (isProtected b (in_Port i) \<and> isProtected b (pt_Name p))"
            "?tx = ReasonMTUExceeded"
          by blast
        then show thesis
        proof cases
          case 1
          then show thesis
            using up Some by (intro drop [of fr PortBlocked]) (simp_all add: decideEgress_def Let_def)
        next
          case 2
          then show thesis
            using up Some by (intro drop [of fr Protected]) (simp_all add: decideEgress_def Let_def)
        next
          case 3
          then show thesis
            using up Some
            by (intro drop [of fr "PortReason ReasonMTUExceeded"]) (auto simp: decideEgress_def Let_def)
        qed
      next
        case ok: True
        then have tx: "?tx = NoReason"
          using up by (cases ?tx) simp_all
        obtain m s1 where m: "selectMember b i p fr s = (m, s1)"
          by fastforce
        show thesis
        proof (cases m)
          case None
          then show thesis
            using up Some ok m by (intro drop [of fr NoMember]) (auto simp: decideEgress_def Let_def)
        next
          case (Some member)
          then show thesis
            using up \<open>out_frame b i f (pt_Name p) = Some fr\<close> ok m tx
            by (intro sent) (auto simp: decideEgress_def Let_def egressGate_forward dropped_result_def)
        qed
      qed
    qed
  qed
qed

lemma decide_one: "\<exists>e. res_Egress (fst (decideEgress b i f p s)) = [e] \<and> eg_Port e = pt_Name p \<and>
    (eg_Dropped e = NotDropped \<longleftrightarrow> res_Outcome (fst (decideEgress b i f p s)) = Forwarded)"
  by (rule decide_cases [of b i f p s]) simp_all

lemma decide_sent:
  assumes "e \<in> set (res_Egress (fst (decideEgress b i f p s)))" "eg_Dropped e = NotDropped"
    and "Table_Port (br_ports b) (pt_Name p) = Some p" "pt_LagParent p = ''''" "pt_Name p \<noteq> in_Port i"
  shows "may_send b i f (eg_Port e) \<and> out_frame b i f (eg_Port e) = Some (eg_Frame e)"
proof (rule decide_cases [of b i f p s])
  fix member frame
  assume egr: "res_Egress (fst (decideEgress b i f p s)) =
      [\<lparr>eg_Port = pt_Name p, eg_Member = member, eg_Frame = frame, eg_PCP = in_PCP i, eg_Dropped = NotDropped\<rparr>]"
    and tx: "Table_Transmit (br_ports b) (pt_Name p) (int (length (f_Payload f))) = NoReason"
    and fr: "out_frame b i f (pt_Name p) = Some frame" and g: "gates_forward b (pt_Name p) (in_FID i)"
    and prot: "\<not> (isProtected b (in_Port i) \<and> isProtected b (pt_Name p))"
  have "eg_Port e = pt_Name p" "eg_Frame e = frame"
    using assms(1) egr by simp_all
  moreover have "carriesVID b (pt_Name p) (in_FID i)"
    using fr build_carries [of b "pt_Name p" "in_FID i" f "in_PCP i" "in_DEI i" "in_RemainingTags i" "in_TPID i"]
    by simp
  ultimately show ?thesis
    using transmit_none [OF assms(3) tx] assms(3-5) fr g prot by (simp add: may_send_def)
qed (use assms(1,2) in auto)

text \<open>For a port that is no aggregation group the decision is the specification.\<close>

lemma decide_complete:
  assumes "may_send b i f name" "Table_Port (br_ports b) name = Some p" "pt_Name p = name" "pt_Kind p \<noteq> LAG"
  shows "res_Outcome (fst (decideEgress b i f p s)) = Forwarded"
proof -
  have tx: "Table_Transmit (br_ports b) name (int (length (f_Payload f))) = NoReason"
    using assms transmit_plain [OF assms(2,4)] by (auto simp: may_send_def)
  obtain fr where "out_frame b i f name = Some fr"
    using assms(1) build_carries [of b name "in_FID i" f "in_PCP i" "in_DEI i" "in_RemainingTags i" "in_TPID i"]
    by (auto simp: may_send_def)
  then show ?thesis
    using assms tx by (auto simp: decideEgress_def Let_def may_send_def egressGate_forward selectMember_def)
qed

section \<open>Replication\<close>

definition decision_port :: "result \<Rightarrow> string" where
  "decision_port d = eg_Port (hd (res_Egress d))"

lemma decision_port_decide [simp]: "decision_port (fst (decideEgress b i f p s)) = pt_Name p"
  using decide_one [of b i f p s] by (auto simp: decision_port_def)

lemma candidate_facts:
  assumes "replication_candidate b i name = Some p" "wf_table (br_ports b)"
  shows "Table_Port (br_ports b) name = Some p" "pt_Name p = name" "pt_LagParent p = ''''"
    "pt_Name p \<noteq> in_Port i"
  using assms wf_lookup(2) [OF assms(2)]
  by (auto simp: replication_candidate_def split: option.splits if_splits)

lemma candidate_may_send:
  assumes "may_send b i f name" "wf_table (br_ports b)"
  shows "\<exists>p. replication_candidate b i name = Some p"
  using assms wf_lookup(2) [OF assms(2)]
  by (auto simp: replication_candidate_def may_send_def)

text \<open>One step of the loop: the decision for the first port, unless it is skipped or down.\<close>

lemma replication_Cons:
  "replication_decisions b i f seen (name # ports) s =
    (if name \<in> set seen then replication_decisions b i f seen ports s
     else case replication_candidate b i name of
       None \<Rightarrow> replication_decisions b i f (name # seen) ports s
     | Some p \<Rightarrow>
         (let d = fst (decideEgress b i f p s);
              r = replication_decisions b i f (name # seen) ports (snd (decideEgress b i f p s))
          in (if res_Reason d = PortReason ReasonPortDown then fst r else d # fst r, snd r)))"
  by (simp add: case_prod_beta Let_def split: option.splits)

lemma replication_sound:
  assumes "wf_table (br_ports b)" "d \<in> set (fst (replication_decisions b i f seen ports s))"
  shows "\<exists>p s1. Table_Port (br_ports b) (pt_Name p) = Some p \<and> pt_LagParent p = '''' \<and>
    pt_Name p \<noteq> in_Port i \<and> pt_Name p \<in> set ports - set seen \<and> d = fst (decideEgress b i f p s1)"
  using assms(2)
proof (induction ports arbitrary: seen s)
  case (Cons name ports)
  consider "name \<in> set seen" | "name \<notin> set seen" "replication_candidate b i name = None"
    | p where "name \<notin> set seen" "replication_candidate b i name = Some p"
    by fastforce
  then show ?case
  proof cases
    case 1
    then have "d \<in> set (fst (replication_decisions b i f seen ports s))"
      using Cons.prems unfolding replication_Cons by simp
    from Cons.IH [OF this] show ?thesis
      by auto
  next
    case 2
    then have "d \<in> set (fst (replication_decisions b i f (name # seen) ports s))"
      using Cons.prems unfolding replication_Cons by simp
    from Cons.IH [OF this] show ?thesis
      by auto
  next
    case 3
    note p = candidate_facts [OF 3(2) assms(1)]
    from 3 consider "d = fst (decideEgress b i f p s)"
      | "d \<in> set (fst (replication_decisions b i f (name # seen) ports (snd (decideEgress b i f p s))))"
      using Cons.prems unfolding replication_Cons by (auto simp: Let_def split: if_splits)
    then show ?thesis
    proof cases
      case 1
      then show ?thesis
        using p 3 by auto
    next
      case 2
      from Cons.IH [OF this] show ?thesis
        by auto
    qed
  qed
qed simp

text \<open>Each port is decided at most once.\<close>

lemma replication_distinct:
  assumes "wf_table (br_ports b)"
  shows "distinct (map decision_port (fst (replication_decisions b i f seen ports s)))"
proof (induction ports arbitrary: seen s)
  case (Cons name ports)
  have "pt_Name p \<notin> decision_port ` set (fst (replication_decisions b i f (name # seen) ports s1))"
    if "replication_candidate b i name = Some p" for p s1
  proof
    assume "pt_Name p \<in> decision_port ` set (fst (replication_decisions b i f (name # seen) ports s1))"
    then obtain d where d: "d \<in> set (fst (replication_decisions b i f (name # seen) ports s1))"
      "decision_port d = pt_Name p"
      by (metis imageE)
    from replication_sound [OF assms d(1)] have "decision_port d \<noteq> name"
      by auto
    then show False
      using d(2) candidate_facts(2) [OF that assms] by simp
  qed
  then show ?case
    using Cons unfolding replication_Cons by (auto simp: Let_def split: option.splits)
qed simp

text \<open>Every requested port that may send is sent to.\<close>

lemma replication_complete:
  assumes "wf_table (br_ports b)" "may_send b i f n" "Table_Port (br_ports b) n = Some p" "pt_Kind p \<noteq> LAG"
    and "n \<in> set ports" "n \<notin> set seen"
  shows "\<exists>d \<in> set (fst (replication_decisions b i f seen ports s)). res_Outcome d = Forwarded \<and> decision_port d = n"
  using assms(5,6)
proof (induction ports arbitrary: seen s)
  case (Cons name ports)
  show ?case
  proof (cases "name = n")
    case True
    obtain q where q: "replication_candidate b i n = Some q"
      using candidate_may_send [OF assms(2,1)] by blast
    then have qp: "q = p" "pt_Name p = n"
      using candidate_facts [OF q assms(1)] assms(3) by simp_all
    have fwd: "res_Outcome (fst (decideEgress b i f p s)) = Forwarded"
      using decide_complete [OF assms(2,3) qp(2) assms(4)] .
    have "res_Reason (fst (decideEgress b i f p s)) \<noteq> PortReason ReasonPortDown"
      using fwd by (rule_tac decide_cases [of b i f p s]) simp_all
    then show ?thesis
      using fwd q qp True Cons.prems unfolding replication_Cons by (simp add: Let_def)
  next
    case False
    then have n: "n \<in> set ports" "n \<notin> set (name # seen)" "n \<notin> set seen"
      using Cons.prems by auto
    show ?thesis
      using Cons.IH [OF n(1,2)] Cons.IH [OF n(1,3)] unfolding replication_Cons
      by (simp add: Let_def split: option.splits)
  qed
qed simp

lemma merged_egress:
  "res_Egress (fold (\<lambda>d res. mergeEgressDecision res d) ds res) = res_Egress res @ concat (map res_Egress ds)"
  by (induction ds arbitrary: res) (simp_all add: mergeEgressDecision_def)

text \<open>The records a replication leaves are those of its decisions.\<close>

lemma decisions_single:
  assumes "wf_table (br_ports b)" "d \<in> set (fst (replication_decisions b i f seen ports s))"
  shows "res_Egress d = [hd (res_Egress d)]"
    and "eg_Dropped (hd (res_Egress d)) = NotDropped \<longleftrightarrow> res_Outcome d = Forwarded"
proof -
  obtain p s1 where "d = fst (decideEgress b i f p s1)"
    using replication_sound [OF assms] by blast
  then show "res_Egress d = [hd (res_Egress d)]"
    and "eg_Dropped (hd (res_Egress d)) = NotDropped \<longleftrightarrow> res_Outcome d = Forwarded"
    using decide_one [of b i f p s1] by auto
qed

lemma replicate_egress:
  fixes b :: "'s bridge" and i f ports s
  assumes "wf_table (br_ports b)" "res_Egress res = []"
  defines "ds \<equiv> fst (replication_decisions b i f [] ports s)"
  shows "\<exists>r s'. replicate_frame b res i f ports why s = Some (r, s') \<and>
    res_Egress r = map (\<lambda>d. hd (res_Egress d)) ds"
proof -
  have "concat (map res_Egress ds) = concat (map (\<lambda>d. [hd (res_Egress d)]) ds)"
    using decisions_single(1) [OF assms(1)] unfolding ds_def
    by (intro arg_cong [where f = concat] map_cong) auto
  then have eg: "res_Egress (fold (\<lambda>d res. mergeEgressDecision res d) ds res) = map (\<lambda>d. hd (res_Egress d)) ds"
    using assms(2) by (simp add: merged_egress)
  show ?thesis
  proof (cases ds)
    case Nil
    then show ?thesis
      using assms(2) by (simp add: replicate_frame_def Let_def case_prod_beta ds_def)
  next
    case (Cons d rest)
    then show ?thesis
      using eg by (simp add: replicate_frame_def Let_def case_prod_beta ds_def [symmetric])
  qed
qed

lemma replicate_safe:
  assumes "wf_table (br_ports b)" "res_Egress res = []" "replicate_frame b res i f ports why s = Some (r, s')"
  shows "distinct (map eg_Port (res_Egress r)) \<and>
    (\<forall>e \<in> set (res_Egress r). eg_Dropped e = NotDropped \<longrightarrow>
       may_send b i f (eg_Port e) \<and> out_frame b i f (eg_Port e) = Some (eg_Frame e))"
proof -
  let ?ds = "fst (replication_decisions b i f [] ports s)"
  have eg: "res_Egress r = map (\<lambda>d. hd (res_Egress d)) ?ds"
    using replicate_egress [OF assms(1,2), of i f ports why s] assms(3) by auto
  have "map eg_Port (res_Egress r) = map decision_port ?ds"
    by (simp add: eg decision_port_def)
  then have "distinct (map eg_Port (res_Egress r))"
    using replication_distinct [OF assms(1), of i f "[]" ports s] by simp
  moreover have "may_send b i f (eg_Port e) \<and> out_frame b i f (eg_Port e) = Some (eg_Frame e)"
    if e: "e \<in> set (res_Egress r)" "eg_Dropped e = NotDropped" for e
  proof -
    obtain d where d: "d \<in> set ?ds" "e = hd (res_Egress d)"
      using e(1) eg by auto
    obtain p s1 where p: "Table_Port (br_ports b) (pt_Name p) = Some p" "pt_LagParent p = ''''"
      "pt_Name p \<noteq> in_Port i" "d = fst (decideEgress b i f p s1)"
      using replication_sound [OF assms(1) d(1)] by blast
    have "e \<in> set (res_Egress (fst (decideEgress b i f p s1)))"
      using decisions_single(1) [OF assms(1) d(1)] d(2) p(4) by (metis list.set_intros(1))
    from decide_sent [OF this e(2) p(1-3)] show ?thesis .
  qed
  ultimately show ?thesis
    by blast
qed

lemma replicate_reaches:
  assumes "wf_table (br_ports b)" "res_Egress res = []" "replicate_frame b res i f ports why s = Some (r, s')"
    and "may_send b i f n" "Table_Port (br_ports b) n = Some p" "pt_Kind p \<noteq> LAG" "n \<in> set ports"
  shows "\<exists>e \<in> set (res_Egress r). eg_Port e = n \<and> eg_Dropped e = NotDropped"
proof -
  let ?ds = "fst (replication_decisions b i f [] ports s)"
  have eg: "res_Egress r = map (\<lambda>d. hd (res_Egress d)) ?ds"
    using replicate_egress [OF assms(1,2), of i f ports why s] assms(3) by auto
  obtain d where d: "d \<in> set ?ds" "res_Outcome d = Forwarded" "decision_port d = n"
    using replication_complete [OF assms(1,4-7), of "[]" s] by auto
  then show ?thesis
    using decisions_single(2) [OF assms(1) d(1)] by (auto simp: eg decision_port_def)
qed

section \<open>Egress\<close>

lemma start_no_egress [simp]: "res_Egress (start_result i) = []"
  by (simp add: start_result_def dropped_result_def)

lemma Egress_cases:
  assumes "Egress b i f s = Some (r, s')"
  obtains (copies) ports why where "replicate_frame b (start_result i) i f ports why s = Some (r, s')"
  | (same) "fdb_hit b i (f_Dst f) = Some (in_Port i)" "r = (start_result i)\<lparr>res_Reason := SamePort\<rparr>"
  | (hit) port where "fdb_hit b i (f_Dst f) = Some port" "port \<noteq> ''''" "port \<noteq> in_Port i"
      "res_Egress r = res_Egress (fst (decideEgress b i f
         (case Table_Port (br_ports b) port of Some p \<Rightarrow> p | None \<Rightarrow> zero_port) s))"
  using assms that
  by (auto simp: Egress_def Let_def case_prod_beta mergeEgressDecision_def
      split: if_splits option.splits)

lemma fdb_hit_port:
  assumes "fdb_ok b" "fdb_hit b i m = Some port"
  obtains p where "Table_Port (br_ports b) port = Some p" "pt_Name p = port" "pt_LagParent p = ''''"
proof -
  obtain e where "map_of (br_fdb b) (in_FID i, m) = Some e" "e_Port e = port"
    using assms(2) by (auto simp: fdb_hit_def split: if_splits option.splits)
  then have "logical (br_ports b) port"
    using fdb_okD(3) [OF assms(1)] by (fastforce simp: entry_ok_def)
  then show thesis
    using that by (auto simp: logical_def)
qed

lemma relay_sends:
  assumes "bridge_reachable c tbl b" "Egress b i f s = Some (r, s')"
  shows "distinct (map eg_Port (res_Egress r)) \<and>
    (\<forall>e \<in> set (res_Egress r). eg_Dropped e = NotDropped \<longrightarrow>
       may_send b i f (eg_Port e) \<and> out_frame b i f (eg_Port e) = Some (eg_Frame e))"
  using assms(2)
proof (cases rule: Egress_cases)
  case (copies ports why)
  then show ?thesis
    using replicate_safe [OF bridge_reachable_ok(1) [OF assms(1)] start_no_egress] by simp
next
  case (hit port)
  obtain p where p: "Table_Port (br_ports b) port = Some p" "pt_Name p = port" "pt_LagParent p = ''''"
    using fdb_hit_port [OF bridge_reachable_ok(2) [OF assms(1)] hit(1)] by blast
  then have "res_Egress r = res_Egress (fst (decideEgress b i f p s))"
    using hit(4) by simp
  then show ?thesis
    using decide_one [of b i f p s] decide_sent [of _ b i f p s] p hit(3) by auto
qed simp

end
