(* ===== verification/Bridge_Properties.thy ===== *)
theory Bridge_Properties
  imports Bridge_Forward
begin

text \<open>
  The properties of the relay: its forwarding database, what may leave by which port, learning, VLAN
  admission, tags across a link, flushing, eviction and counters.
\<close>

section \<open>An example\<close>

text \<open>
  A relay with the VLANs 10 and 20: two access ports of VLAN 10, a trunk of both, and a table of two
  dynamic entries.
\<close>

definition br_port :: "string \<Rightarrow> port" where
  "br_port n = zero_port\<lparr>pt_Name := n, pt_AdminStatus := Up, pt_OperStatus := Up, pt_MTU := 1500\<rparr>"

definition br_builder :: builder where
  "br_builder = fold (\<lambda>n. builder_Add (br_port n)) [''p1'', ''p2'', ''p3''] NewBuilder"

definition br_table :: port_table where
  "br_table = (case builder_Build br_builder of Inr t \<Rightarrow> t | Inl _ \<Rightarrow> empty_table)"

definition access10 :: switchport where
  "access10 = zero_switchport\<lparr>sw_PVID := Some 10, sw_Untagged := [10], sw_IngressFiltering := True\<rparr>"

definition trunk :: switchport where
  "trunk = zero_switchport\<lparr>sw_Tagged := [10, 20], sw_Admission := TaggedOnly\<rparr>"

definition br_vlans :: vlan_config where
  "br_vlans = \<lparr>vc_Table = [(10, ''ten''), (20, ''twenty'')],
     vc_Switchports = [(''p1'', access10), (''p2'', access10), (''p3'', trunk)]\<rparr>"

definition br_config :: bridge_config where
  "br_config = \<lparr>bc_AgingTime = 0, bc_MaxEntries = 2, bc_FloodVLANs = [], bc_ProtectedPorts = [],
     bc_ForwardBPDU = False, bc_VLAN = Some br_vlans\<rparr>"

definition br_new :: "unit bridge" where
  "br_new = new_bridge (bridge_Normalize br_config) br_table"

abbreviation station :: "byte \<Rightarrow> mac" where
  "station n \<equiv> MAC 2 0 0 0 0 n"

definition br_frame :: "byte \<Rightarrow> byte \<Rightarrow> frame" where
  "br_frame src dst = \<lparr>f_Dst = station dst, f_Src = station src, f_Tags = [], f_EtherType = 0x0800,
     f_Payload = replicate 46 0\<rparr>"

lemma br_table_built: "builder_Build br_builder = Inr br_table"
proof -
  have "\<not> isl (builder_Build br_builder)"
    by code_simp
  then show ?thesis
    by (cases "builder_Build br_builder") (simp_all add: br_table_def)
qed

lemma br_new_valid: "NewBridge br_config br_table = Inr br_new"
proof -
  have "bridge_Validate br_config br_table = None"
    by code_simp
  then show ?thesis
    by (simp add: NewBridge_def br_new_def)
qed

lemma br_new_reachable: "bridge_reachable br_config br_table br_new"
proof -
  have "relay_init br_config br_table (br_new, {})"
    using br_new_valid br_table_built by (auto simp: relay_init_def)
  then show ?thesis
    by (auto simp: bridge_reachable_def intro: reach_init)
qed

definition br_in :: "ingress" where
  "br_in = (case fst (Ingress 1000 ''p1'' (br_frame 1 2) True True br_new) of Inr i \<Rightarrow> i | Inl _ \<Rightarrow> zero_ingress)"

definition br_learned :: "unit bridge" where
  "br_learned = snd (Ingress 1000 ''p1'' (br_frame 1 2) True True br_new)"

lemma br_admits: "Ingress 1000 ''p1'' (br_frame 1 2) True True br_new = (Inr br_in, br_learned)"
proof -
  have "\<not> isl (fst (Ingress 1000 ''p1'' (br_frame 1 2) True True br_new))"
    by code_simp
  then show ?thesis
    by (cases "fst (Ingress 1000 ''p1'' (br_frame 1 2) True True br_new)")
      (simp_all add: br_in_def br_learned_def prod_eq_iff)
qed

lemma br_learned_reachable: "bridge_reachable br_config br_table br_learned"
  using br_new_reachable relay_step.admit [OF br_admits] unfolding bridge_reachable_def
  by (blast intro: reach_step)

section \<open>The forwarding database\<close>

text \<open>
  C9: whatever calls a relay has seen, every entry of its database is stored under its own VLAN and
  address, never a group address, and points at a port of the table that is no member of a group;
  the dynamic entries are counted, and a table with a bound never holds more of them.
\<close>

theorem fdb_invariant:
  assumes "bridge_reachable c tbl b"
  shows "(\<forall>k e. map_of (br_fdb b) k = Some e \<longrightarrow> entry_ok (br_ports b) k e) \<and>
    br_dynamic b = dynamics (br_fdb b) \<and>
    (0 < bc_MaxEntries (br_cfg b) \<longrightarrow> dynamics (br_fdb b) \<le> bc_MaxEntries (br_cfg b))"
  using bridge_reachable_ok(2,3) [OF assms] by (auto simp: fdb_ok_def fdb_bounded_def)

theorem fdb_invariant_witness:
  "map_of (br_fdb br_learned) (10, station 1) \<noteq> None \<and> dynamics (br_fdb br_learned) \<le> 2"
proof -
  have "map_of (br_fdb br_learned) (10, station 1) \<noteq> None" "bc_MaxEntries (br_cfg br_learned) = 2"
    by code_simp+
  then show ?thesis
    using fdb_invariant [OF br_learned_reachable] by auto
qed

section \<open>Forwarding\<close>

text \<open>
  C10: no frame leaves by the port it came in on, by two copies on one port, or by a port that is down,
  a member of a group, outside the VLAN, closed by a gate, isolated from the ingress port, or whose
  MTU the frame exceeds; and what leaves is the frame with the tags of that port.
\<close>

theorem egress_safe:
  assumes "bridge_reachable c tbl b" "Egress b i f s = Some (r, s')"
  shows "distinct (map eg_Port (res_Egress r)) \<and>
    (\<forall>e \<in> set (res_Egress r). eg_Dropped e = NotDropped \<longrightarrow>
       may_send b i f (eg_Port e) \<and> out_frame b i f (eg_Port e) = Some (eg_Frame e))"
  using relay_sends [OF assms] by blast

theorem egress_safe_witness:
  "\<exists>r s'. Egress br_learned br_in (br_frame 1 2) () = Some (r, s') \<and>
     map eg_Port (res_Egress r) = [''p2'', ''p3''] \<and> may_send br_learned br_in (br_frame 1 2) ''p2''"
proof -
  have "map_option (\<lambda>(r, s'). map (\<lambda>e. (eg_Port e, eg_Dropped e)) (res_Egress r))
      (Egress br_learned br_in (br_frame 1 2) ()) = Some [(''p2'', NotDropped), (''p3'', NotDropped)]"
    by code_simp
  then obtain r s' where r: "Egress br_learned br_in (br_frame 1 2) () = Some (r, s')"
    "map (\<lambda>e. (eg_Port e, eg_Dropped e)) (res_Egress r) = [(''p2'', NotDropped), (''p3'', NotDropped)]"
    by auto
  then obtain e rest where e: "res_Egress r = e # rest" "eg_Port e = ''p2''" "eg_Dropped e = NotDropped"
    "map eg_Port rest = [''p3'']"
    by (auto simp: map_eq_Cons_conv)
  then have "may_send br_learned br_in (br_frame 1 2) ''p2''"
    using egress_safe [OF br_learned_reachable r(1)] by simp
  then show ?thesis
    using r(1) e by auto
qed



lemma decide_nonempty [simp]: "res_Egress (fst (decideEgress b i f p s)) \<noteq> []"
  using decide_one [of b i f p s] by auto

lemma replication_one:
  assumes "d \<in> set (fst (replication_decisions b i f seen ports s))"
  shows "res_Egress d \<noteq> []"
  using assms
proof (induction ports arbitrary: seen s)
  case (Cons name ports)
  from Cons.prems show ?case
    unfolding replication_Cons
    by (auto simp: Let_def dest: Cons.IH split: if_splits option.splits)
qed simp

lemma replicate_total: "replicate_frame b res i f ports why s \<noteq> None"
proof (cases "fst (replication_decisions b i f [] ports s)")
  case Nil
  then show ?thesis
    by (simp add: replicate_frame_def Let_def case_prod_beta)
next
  case (Cons d ds)
  then have "res_Egress d \<noteq> []"
    using replication_one [of d b i f "[]" ports s] by simp
  then show ?thesis
    using Cons merged_egress [of "d # ds" res]
    by (simp add: replicate_frame_def Let_def case_prod_beta split: list.splits)
qed

lemma Egress_total: "Egress b i f s \<noteq> None"
  using replicate_total by (auto simp: Egress_def Let_def case_prod_beta split: option.splits)

section \<open>Learning\<close>

lemma admitted_facts:
  assumes "bridge_reachable c tbl b" "Ingress now name f learn commit b = (Inr i, b')"
  shows "bridge_reachable c tbl b'" "logical (br_ports b) (in_Port i)" "in_Now i = now"
proof -
  obtain D where "reach (relay_init c tbl) relay_step (b, D)"
    using assms(1) by (auto simp: bridge_reachable_def)
  then have "reach (relay_init c tbl) relay_step (b', insert i D)"
    using reach_step relay_step.admit [OF assms(2)] by fast
  then show "bridge_reachable c tbl b'"
    by (auto simp: bridge_reachable_def)
  note a = Ingress_admits [OF assms(2)]
  show "logical (br_ports b) (in_Port i)"
    using wf_receive(3) [OF bridge_reachable_ok(1) [OF assms(1)] a(1)] a(2) by simp
  show "in_Now i = now"
    using a(4) by (metis ingress.simps ingress.select_convs(7) ingress.surjective)
qed



text \<open>
  C33: flushing refines removing a set of pairs from the abstract table: an entry goes exactly when it
  is dynamic and its port and VLAN are covered by the list, however the list repeats or splits its
  targets; static entries and all others stay as they are.
\<close>

theorem flush_refines:
  assumes "bridge_reachable c tbl b"
  shows "map_of (br_fdb (Flush ts b)) k =
    (case map_of (br_fdb b) k of
       None \<Rightarrow> None
     | Some e \<Rightarrow> if is_dynamic e \<and> covers ts (e_Port e) (e_FID e) then None else Some e)"
proof (cases "map_of (br_fdb b) k")
  case (Some e)
  have "fst k = e_FID e"
    using fdb_okD(3) [OF bridge_reachable_ok(2) [OF assms] Some] by (simp add: entry_ok_def)
  then show ?thesis
    using Flush_lookup [OF bridge_reachable_ok(2) [OF assms], of ts k] Some by simp
qed (use Flush_lookup [OF bridge_reachable_ok(2) [OF assms], of ts k] in simp)

theorem flush_refines_witness:
  "map_of (br_fdb (Flush [\<lparr>ft_Port = ''p1'', ft_FIDs = [20]\<rparr>, \<lparr>ft_Port = ''p1'', ft_FIDs = [10]\<rparr>] br_learned))
     (10, station 1) = None"
proof -
  have "(case map_of (br_fdb br_learned) (10, station 1) of None \<Rightarrow> True
      | Some e \<Rightarrow> is_dynamic e \<and> covers [\<lparr>ft_Port = ''p1'', ft_FIDs = [20]\<rparr>, \<lparr>ft_Port = ''p1'', ft_FIDs = [10]\<rparr>]
          (e_Port e) (e_FID e))"
    by code_simp
  then show ?thesis
    using flush_refines [OF br_learned_reachable,
        of "[\<lparr>ft_Port = ''p1'', ft_FIDs = [20]\<rparr>, \<lparr>ft_Port = ''p1'', ft_FIDs = [10]\<rparr>]" "(10, station 1)"]
    by (auto split: option.splits)
qed

text \<open>
  Eviction takes the dynamic entry that was learned first, the lower VLAN and address among
  equals, so the victim does not depend on the order the map is visited in; it takes none only when
  there is none.
\<close>

theorem eviction_oldest:
  assumes "bridge_reachable c tbl b" "evictOldestDynamic b = (victim, b')"
  shows "case victim of
      None \<Rightarrow> br_dynamic b = 0 \<and> b' = b
    | Some e \<Rightarrow> map_of (br_fdb b) (entry_key e) = Some e \<and> is_dynamic e \<and>
        (\<forall>k e'. map_of (br_fdb b) k = Some e' \<and> is_dynamic e' \<longrightarrow> evict_rank e \<le> evict_rank e') \<and>
        map_of (br_fdb b') = (map_of (br_fdb b))(entry_key e := None)"
proof -
  note ok = bridge_reachable_ok(2) [OF assms(1)]
  note d = fdb_okD(1) [OF ok]
  show ?thesis
  proof (cases "fold evict_step (br_fdb b) None")
    case None
    then have "\<forall>(k, e) \<in> set (br_fdb b). \<not> is_dynamic e"
      using evict_none by blast
    then have "dynamics (br_fdb b) = 0"
      by (auto simp: dynamics_def filter_empty_conv)
    then show ?thesis
      using None assms(2) fdb_okD(2) [OF ok] by (auto simp: evictOldestDynamic_def)
  next
    case (Some ke)
    obtain k e where ke: "ke = (k, e)"
      by (cases ke)
    note s = evict_some [OF Some [unfolded ke]]
    have e: "map_of (br_fdb b) k = Some e"
      using d s(1) by (simp add: map_of_eq_Some_iff)
    then have k: "k = entry_key e"
      using fdb_okD(3) [OF ok] by (simp add: entry_ok_def)
    have v: "victim = Some e" "br_fdb b' = AList.delete k (br_fdb b)"
      using assms(2) Some ke by (auto simp: evictOldestDynamic_def)
    have "evict_rank e \<le> evict_rank e'" if "map_of (br_fdb b) k' = Some e'" "is_dynamic e'" for k' e'
      using s(3) [OF map_of_SomeD [OF that(1)] that(2)] .
    then show ?thesis
      using e s(2) by (auto simp: v k AList.delete_conv')
  qed
qed

theorem eviction_oldest_witness:
  "\<exists>e b'. evictOldestDynamic br_learned = (Some e, b') \<and> e_MAC e = station 1 \<and>
     (\<forall>k e'. map_of (br_fdb br_learned) k = Some e' \<and> is_dynamic e' \<longrightarrow> evict_rank e \<le> evict_rank e')"
proof -
  have "map_option e_MAC (fst (evictOldestDynamic br_learned)) = Some (station 1)"
    by code_simp
  then obtain e b' where v: "evictOldestDynamic br_learned = (Some e, b')" "e_MAC e = station 1"
    by (cases "evictOldestDynamic br_learned") auto
  then show ?thesis
    using eviction_oldest [OF br_learned_reachable v(1)] by auto
qed

section \<open>VLAN admission and tags\<close>

text \<open>The VLAN a frame claims, when it is tagged.\<close>

definition claimed_vlan :: "frame \<Rightarrow> vlan_id option" where
  "claimed_vlan f = (if fst (tag_form f) then Some (in_FID (snd (tag_form f))) else None)"

lemma admit_none:
  "admitIngress policy tagged = NotDropped \<longleftrightarrow>
     \<not> ((if policy = AdmissionEmpty then AdmitAll else policy) = TaggedOnly \<and> \<not> tagged) \<and>
     \<not> ((if policy = AdmissionEmpty then AdmitAll else policy) = UntaggedAndPriorityTaggedOnly \<and> tagged)"
  by (cases policy) (simp_all add: admitIngress_def)

lemma classifies:
  "(\<exists>j. X = Inr j \<and> in_FID j = vid) \<longleftrightarrow> (case X of Inl _ \<Rightarrow> False | Inr j \<Rightarrow> in_FID j = vid)"
  for X :: classification
  by (cases X) simp_all

text \<open>When an ordinary port classifies a frame into a VLAN.\<close>

lemma ordinary_classifies:
  assumes "tag_form f = (tagged, i)"
  shows "(\<exists>j. classifyOrdinary v f sw ok = Inr j \<and> in_FID j = vid) \<longleftrightarrow>
    admitIngress (sw_Admission sw) tagged = NotDropped \<and>
    (if tagged then in_FID i = vid else ok \<and> sw_PVID sw = Some vid) \<and>
    \<not> (sw_IngressFiltering sw \<and> vid \<notin> set (sw_Tagged sw) \<and> vid \<notin> set (sw_Untagged sw)) \<and>
    defined_vlan v vid"
proof (cases tagged)
  case True
  then show ?thesis
    unfolding classifies classifyOrdinary_def assms Let_def prod.case by (auto split: if_splits)
next
  case False
  then show ?thesis
    unfolding classifies classifyOrdinary_def assms Let_def prod.case
    by (cases "sw_PVID sw") (auto split: if_splits)
qed

text \<open>
  C36: the admission rule the configuration answers is the one reception applies: on a port without a
  tunnel a frame is classified into a VLAN exactly when it claims that VLAN or none, and
  \<^verbatim>\<open>AdmitsVIDOnIngress\<close> says yes.
\<close>

theorem ingress_admission:
  assumes "bc_VLAN (br_cfg b) = Some v" "sw_Tunnel (switchport_of v name) = None"
  shows "(\<exists>i. classifyIngress b name f = Inr i \<and> in_FID i = vid) \<longleftrightarrow>
    (claimed_vlan f = None \<or> claimed_vlan f = Some vid) \<and>
    AdmitsVIDOnIngress v name vid (claimed_vlan f \<noteq> None)"
proof -
  let ?sw = "switchport_of v name"
  obtain tagged i where t: "tag_form f = (tagged, i)"
    by fastforce
  have present: "sw_PVID ?sw = Some vid \<Longrightarrow> map_of (vc_Switchports v) name \<noteq> None"
    by (auto simp: switchport_of_def zero_switchport_def split: option.splits)
  have "classifyIngress b name f = classifyOrdinary v f ?sw (map_of (vc_Switchports v) name \<noteq> None)"
    by (simp add: classifyIngress_def assms)
  then show ?thesis
    using present assms(2)
    by (cases tagged) (auto simp: ordinary_classifies [OF t] admit_none AdmitsVIDOnIngress_def claimed_vlan_def Let_def t)
qed

theorem ingress_admission_witness:
  "(\<exists>i. classifyIngress br_new ''p1'' (br_frame 1 2) = Inr i \<and> in_FID i = 10) \<and>
   \<not> (\<exists>i. classifyIngress br_new ''p3'' (br_frame 1 2) = Inr i \<and> in_FID i = 10)"
proof -
  obtain v where v: "bc_VLAN (br_cfg br_new) = Some v"
    by (simp add: br_new_def new_bridge_def bridge_Normalize_def br_config_def)
  then have "v = the (bc_VLAN (br_cfg br_new))"
    by simp
  moreover have "sw_Tunnel (switchport_of (the (bc_VLAN (br_cfg br_new))) ''p1'') = None"
    "sw_Tunnel (switchport_of (the (bc_VLAN (br_cfg br_new))) ''p3'') = None"
    "claimed_vlan (br_frame 1 2) = None"
    "AdmitsVIDOnIngress (the (bc_VLAN (br_cfg br_new))) ''p1'' 10 False"
    "\<not> AdmitsVIDOnIngress (the (bc_VLAN (br_cfg br_new))) ''p3'' 10 False"
    by code_simp+
  ultimately show ?thesis
    using ingress_admission [OF v, of "''p1''"] ingress_admission [OF v, of "''p3''"] by simp
qed



section \<open>Counters\<close>

text \<open>What the lifecycle counters leave unexplained, modulo $2^{64}$.\<close>

definition balance :: "'s bridge \<Rightarrow> u64" where
  "balance b = n_Learned (br_counters b) - n_Expired (br_counters b) - n_Evicted (br_counters b) -
     of_int (br_dynamic b)"

lemma balance_evict [simp]: "balance (snd (evictOldestDynamic b)) = balance b"
  by (simp add: balance_def evictOldestDynamic_def split: option.splits)

lemma balance_Advance [simp]: "balance (fdb_Advance now b) = balance b"
  by (simp add: balance_def fdb_Advance_def Let_def drop_dynamic_def)

lemma balance_room [simp]: "balance (make_room now b) = balance b"
  by (simp add: make_room_def Let_def)

lemma balance_insert: "balance (insert_learned name fid now src b) = balance b"
proof -
  have "balance (insert_learned name fid now src b) = balance (make_room now b)"
    by (simp add: balance_def insert_learned_def Let_def algebra_simps)
  then show ?thesis
    by simp
qed

lemma balance_refresh: "balance (refresh_learned name fid now src e b) = balance b"
  by (simp add: refresh_learned_def balance_def Let_def)

lemma balance_forget: "balance (forget_expired k now b) = balance b"
  by (simp add: forget_expired_def balance_def split: option.splits)

lemma balance_learn [simp]: "balance (learnSource name fid now src b) = balance b"
  by (simp add: learnSource_cases Let_def balance_insert balance_refresh balance_forget split: option.splits)

text \<open>
  The counters account for every dynamic entry. Receiving, learning later and ageing keep the
  number learned equal to the number present, expired and evicted, up to what was removed by hand.
\<close>

theorem counters_account:
  "balance (snd (Ingress now name f learn commit b)) = balance b \<and>
   balance (Learn i f b) = balance b \<and> balance (fdb_Advance now b) = balance b"
proof -
  have "balance (snd (Ingress now name f learn commit b)) = balance b"
  proof (cases "Ingress now name f learn commit b")
    case (Pair x b')
    show ?thesis
    proof (cases x)
      case (Inl r)
      then show ?thesis
        using Ingress_refuses [of now name f learn commit b r b'] Pair by auto
    next
      case (Inr i)
      then show ?thesis
        using Ingress_admits(6) [of now name f learn commit b i b'] Pair by simp
    qed
  qed
  then show ?thesis
    by (simp add: Learn_def)
qed

section \<open>Validated VLANs\<close>

lemma validated_vlan:
  assumes "bridge_Validate c tbl = None" "bc_VLAN c = Some v" "defined_vlan v vid"
  shows "vlan_Valid vid"
proof -
  have "vid \<in> set (sortedKeys (vc_Table v))"
    using assms(3) by (auto dest!: map_of_SomeD intro: rev_image_eqI)
  then show ?thesis
    using assms(1,2) by (auto simp: bridge_Validate_def split: if_splits)
qed

text \<open>The calls do not change the configuration.\<close>

lemma relay_step_cfg: "relay_step s s' \<Longrightarrow> br_cfg (fst s') = br_cfg (fst s)"
proof (induction rule: relay_step.induct)
  case (admit now name f learn commit b i b' D)
  then show ?case
    using Ingress_fields(1) [of now name f learn commit b] by simp
next
  case (refuse now name f learn commit b r b' D)
  then show ?case
    using Ingress_fields(1) [of now name f learn commit b] by simp
qed (auto simp: Learn_def Forget_def Let_def SetOperStatus_def SetGate_def SetSelector_def
    SetGroupResolver_def split: option.splits sum.splits)

definition configured :: "bridge_config \<Rightarrow> port_table \<Rightarrow> 's relay \<Rightarrow> bool" where
  "configured c tbl s \<longleftrightarrow> br_cfg (fst s) = bridge_Normalize c \<and> bridge_Validate c tbl = None"

interpretation relay_config: invariant "relay_init c tbl" relay_step "configured c tbl" for c tbl
proof
  show "configured c tbl s" if "relay_init c tbl s" for s :: "'s relay"
    using that by (auto simp: relay_init_def configured_def NewBridge_def new_bridge_def split: option.splits)
  show "configured c tbl s'" if "configured c tbl s" "relay_step s s'" for s s' :: "'s relay"
    using that(1) relay_step_cfg [OF that(2)] by (simp add: configured_def)
qed

lemma bridge_reachable_cfg:
  assumes "bridge_reachable c tbl b"
  shows "br_cfg b = bridge_Normalize c" "bridge_Validate c tbl = None"
proof -
  obtain D where "reach (relay_init c tbl) relay_step (b, D)"
    using assms by (auto simp: bridge_reachable_def)
  then have "configured c tbl (b, D)"
    by (rule relay_config.reachable_inv)
  then show "br_cfg b = bridge_Normalize c" "bridge_Validate c tbl = None"
    by (simp_all add: configured_def)
qed

lemma classify_defined:
  assumes "bc_VLAN (br_cfg b) = Some v" "classifyIngress b name f = Inr i"
  shows "defined_vlan v (in_FID i)"
proof (cases "sw_Tunnel (switchport_of v name)")
  case None
  then show ?thesis
    using assms(2) ordinary_classifies [of f "fst (tag_form f)" "snd (tag_form f)" v "switchport_of v name"
        "map_of (vc_Switchports v) name \<noteq> None" "in_FID i"] assms(1)
    by (auto simp: classifyIngress_def)
next
  case (Some t)
  then show ?thesis
    using assms by (auto simp: classifyIngress_def classifyTunnel_def Let_def split: list.splits if_splits)
qed

text \<open>
  C38: a relay built from an accepted configuration only ever works on VLANs it may: the VLAN of an
  admitted frame is in the table and between 1 and 4094, and is 0 on a relay without VLANs.
\<close>

theorem admitted_vlan:
  assumes "bridge_reachable c tbl b" "Ingress now name f learn commit b = (Inr i, b')"
  shows "case bc_VLAN c of
      None \<Rightarrow> in_FID i = 0
    | Some v \<Rightarrow> defined_vlan v (in_FID i) \<and> 1 \<le> in_FID i \<and> in_FID i \<le> 4094"
proof -
  note cfg = bridge_reachable_cfg [OF assms(1)]
  obtain i0 where i0: "classifyIngress b (in_Port i) f = Inr i0" "in_FID i = in_FID i0"
    using Ingress_admits(4) [OF assms(2)] by (metis ingress.simps(17) ingress.surjective ingress.update_convs ingress.select_convs)
  show ?thesis
  proof (cases "bc_VLAN c")
    case None
    then show ?thesis
      using i0 cfg(1) by (auto simp: classifyIngress_def bridge_Normalize_def zero_ingress_def)
  next
    case (Some v)
    then have "defined_vlan v (in_FID i0)"
      using classify_defined [OF _ i0(1)] cfg(1) by (fastforce simp: bridge_Normalize_def)
    then show ?thesis
      using validated_vlan [OF cfg(2) Some] i0(2) Some by (simp add: vlan_Valid_def)
  qed
qed

theorem admitted_vlan_witness:
  "case bc_VLAN br_config of None \<Rightarrow> False | Some v \<Rightarrow> defined_vlan v (in_FID br_in) \<and> in_FID br_in \<le> 4094"
  using admitted_vlan [OF br_new_reachable br_admits] by (simp add: br_config_def)

end
