(* ===== verification/Bridge_Stp.thy ===== *)
theory Bridge_Stp
  imports Bridge_Properties Stp_Properties Stp_Flush
begin

text \<open>
  The relay and the spanning tree together, as the switch binds them: the layer's
  \<^verbatim>\<open>Learns\<close> and \<^verbatim>\<open>Forwards\<close> are the gate of the relay
  (\<^verbatim>\<open>device/vswitch\<close> calls \<^verbatim>\<open>SetGate\<close> with the layer), and the flush list a
  call answers goes to the relay's \<^verbatim>\<open>Flush\<close>.
\<close>

definition stp_gate :: "stp_layer \<Rightarrow> gate" where
  "stp_gate l = \<lparr>g_Learns = Learns l, g_Forwards = Forwards l\<rparr>"

lemma blocked_gate:
  assumes "stp_reachable h cfg tbl l" "treeFor l fid = Some t" "t \<in> set (l_treeOrder l)" "n \<in> set (l_portNames l)"
    and "has_port l t n"
    and "p_role (port_at l t n) = RoleDisabled \<or> p_role (port_at l t n) = RoleAlternate \<or>
         p_role (port_at l t n) = RoleBackup"
  shows "\<not> Learns l n fid" "\<not> Forwards l n fid"
proof -
  have "p_state (port_at l t n) = StateDiscarding"
    using reach_port_ok [OF assms(1,3,4)] assms(6) by (auto simp: port_ok_def state_ok_def Let_def)
  then show "\<not> Learns l n fid" "\<not> Forwards l n fid"
    using assms(2,5) by (auto simp: Learns_def Forwards_def port_at_def split: option.splits)
qed

text \<open>
  A relay without VLANs over the ports \<open>a\<close> and \<open>b\<close> that has heard station 1 on \<open>a\<close>, and the same
  relay with the spanning tree of the example as its gate: there \<open>a\<close> is the root port and \<open>b\<close> has
  no link.
\<close>

definition sw_builder :: builder where
  "sw_builder = fold (\<lambda>n. builder_Add (br_port n)) [''a'', ''b''] NewBuilder"

definition sw_table :: port_table where
  "sw_table = (case builder_Build sw_builder of Inr t \<Rightarrow> t | Inl _ \<Rightarrow> empty_table)"

definition sw_config :: bridge_config where
  "sw_config = \<lparr>bc_AgingTime = 0, bc_MaxEntries = 0, bc_FloodVLANs = [], bc_ProtectedPorts = [],
     bc_ForwardBPDU = False, bc_VLAN = None\<rparr>"

definition sw_new :: "unit bridge" where
  "sw_new = new_bridge (bridge_Normalize sw_config) sw_table"

definition sw_learned :: "unit bridge" where
  "sw_learned = snd (Ingress 1000 ''a'' (br_frame 1 2) True True sw_new)"

definition sw_gated :: "unit bridge" where
  "sw_gated = SetGate (Some (stp_gate leaf_root)) ''stp'' sw_learned"

lemma sw_new_reachable: "bridge_reachable sw_config sw_table sw_new"
proof -
  have "\<not> isl (builder_Build sw_builder)" "bridge_Validate sw_config sw_table = None"
    by code_simp+
  then have "relay_init sw_config sw_table (sw_new, {})"
    by (cases "builder_Build sw_builder")
      (auto simp: relay_init_def sw_table_def NewBridge_def sw_new_def intro!: exI [of _ sw_builder])
  then show ?thesis
    by (auto simp: bridge_reachable_def intro: reach_init)
qed

lemma sw_learned_reachable: "bridge_reachable sw_config sw_table sw_learned"
proof (cases "fst (Ingress 1000 ''a'' (br_frame 1 2) True True sw_new)")
  case (Inl r)
  then have "Ingress 1000 ''a'' (br_frame 1 2) True True sw_new = (Inl r, sw_learned)"
    by (simp add: sw_learned_def prod_eq_iff)
  then show ?thesis
    using sw_new_reachable relay_step.refuse unfolding bridge_reachable_def by (blast intro: reach_step)
next
  case (Inr i)
  then have "Ingress 1000 ''a'' (br_frame 1 2) True True sw_new = (Inr i, sw_learned)"
    by (simp add: sw_learned_def prod_eq_iff)
  then show ?thesis
    using sw_new_reachable relay_step.admit unfolding bridge_reachable_def by (blast intro: reach_step)
qed

lemma sw_gated_reachable: "bridge_reachable sw_config sw_table sw_gated"
  using sw_learned_reachable relay_step.gate unfolding bridge_reachable_def sw_gated_def
  by (blast intro: reach_step)

definition tree_summary :: "stp_layer \<Rightarrow> _" where
  "tree_summary l =
     (treeFor l 0, has_port l cistID ''b'', l_flushes l, tree_fids l cistID, has_port l cistID ''a'',
      p_tcActive (port_at l cistID ''a''), k_edge (link_at l ''a''))"

lemma leaf_root_tree: "tree_summary leaf_root = (Some cistID, True, [], [], True, True, False)"
  by code_simp

lemma sw_learned_facts:
  "(map_option e_Port (map_of (br_fdb sw_learned) (0, station 1)),
    map_option is_dynamic (map_of (br_fdb sw_learned) (0, station 1))) = (Some ''a'', Some True)"
  by code_simp

text \<open>
  A port the spanning tree blocks carries no traffic of the tree's VLANs. With the layer installed
  as a gate, no frame of a VLAN leaves by a port whose role in that VLAN's tree is Disabled, Alternate
  or Backup, and a frame that arrives on it is dropped and teaches the relay nothing.
\<close>

theorem blocked_port_silent:
  assumes "stp_reachable h cfg tbl l" "treeFor l fid = Some t" "t \<in> set (l_treeOrder l)" "n \<in> set (l_portNames l)"
    and "has_port l t n"
    and "p_role (port_at l t n) = RoleDisabled \<or> p_role (port_at l t n) = RoleAlternate \<or>
         p_role (port_at l t n) = RoleBackup"
    and "bridge_reachable c tbl' b" "(Some (stp_gate l), sc) \<in> set (br_gates b)"
  shows "(in_FID i = fid \<and> Egress b i f s = Some (r, s') \<longrightarrow>
      (\<forall>e \<in> set (res_Egress r). eg_Port e = n \<longrightarrow> eg_Dropped e \<noteq> NotDropped)) \<and>
    (pt_Name (rr_Resolved (Table_Receive (br_ports b) name)) = n \<and>
       classifyIngress b n f = Inr j \<and> in_FID j = fid \<longrightarrow>
     (\<exists>why. Ingress now name f learn commit b = (Inl why, b)))"
proof -
  have gate: "\<not> g_Learns (stp_gate l) n fid" "\<not> g_Forwards (stp_gate l) n fid"
    using blocked_gate [OF assms(1-6)] by (simp_all add: stp_gate_def)
  note closed = gated [OF assms(8)]
  have "eg_Dropped e \<noteq> NotDropped"
    if "in_FID i = fid" "Egress b i f s = Some (r, s')" "e \<in> set (res_Egress r)" "eg_Port e = n" for e
    using relay_sends [OF assms(7) that(2)] closed(1) [OF gate(2)] that(1,3,4) by (auto simp: may_send_def)
  moreover have "\<exists>why. Ingress now name f learn commit b = (Inl why, b)"
    if "pt_Name (rr_Resolved (Table_Receive (br_ports b) name)) = n"
      "classifyIngress b n f = Inr j" "in_FID j = fid"
    using that closed(2) [OF gate(1)] closed(3) [OF gate(2)]
    by (auto simp: Ingress_def Let_def case_prod_beta)
  ultimately show ?thesis
    by blast
qed

theorem blocked_port_silent_witness:
  "\<exists>why. Ingress 3000 ''b'' (br_frame 1 2) True True sw_gated = (Inl why, sw_gated)"
proof -
  have "pt_Name (rr_Resolved (Table_Receive (br_ports sw_learned) ''b'')) = ''b''"
    "(case classifyIngress sw_learned ''b'' (br_frame 1 2) of Inl _ \<Rightarrow> False | Inr j \<Rightarrow> in_FID j = 0)"
    by code_simp+
  then obtain j where "pt_Name (rr_Resolved (Table_Receive (br_ports sw_gated) ''b'')) = ''b''"
    "classifyIngress sw_gated ''b'' (br_frame 1 2) = Inr j \<and> in_FID j = 0"
    by (auto simp: sw_gated_def SetGate_def classifyIngress_def split: sum.splits)
  moreover have "(Some (stp_gate leaf_root), ''stp'') \<in> set (br_gates sw_gated)"
  proof -
    have "br_gates sw_learned = []"
      by code_simp
    then show ?thesis
      by (simp add: sw_gated_def SetGate_def)
  qed
  ultimately show ?thesis
    using blocked_port_silent [OF ex_states_reach(1), of 0 cistID "''b''" sw_config sw_table sw_gated "''stp''"
        undefined "br_frame 1 2" "()" undefined undefined "''b''" j 3000 True True]
      leaf_root_facts leaf_root_tree sw_gated_reachable by (auto simp: tree_summary_def)
qed

text \<open>
  C34: a topology change makes the relay forget what it must and nothing else. When a change arrives on
  a port, flushing the list the spanning tree answers removes from the relay exactly the dynamic
  entries on the other active, non-edge ports of that tree, for the VLANs of the tree.
\<close>

theorem topology_change_forgets:
  assumes "bridge_reachable c tbl b" "l_flushes l = []"
  shows "map_of (br_fdb (Flush (l_flushes (propagateTopologyChange t origin now l)) b)) k =
    (case map_of (br_fdb b) k of
       None \<Rightarrow> None
     | Some e \<Rightarrow>
         if is_dynamic e \<and> e_Port e \<in> set (l_portNames l) \<and> e_Port e \<noteq> origin \<and> has_port l t (e_Port e) \<and>
           p_tcActive (port_at l t (e_Port e)) \<and> \<not> k_edge (link_at l (e_Port e)) \<and>
           (tree_fids l t = [] \<or> e_FID e \<in> set (tree_fids l t))
         then None else Some e)"
proof (cases "map_of (br_fdb b) k")
  case (Some e)
  have "fst k = e_FID e"
    using fdb_okD(3) [OF bridge_reachable_ok(2) [OF assms(1)] Some] by (simp add: entry_ok_def)
  moreover have "covers (l_flushes (propagateTopologyChange t origin now l)) p f \<longleftrightarrow>
      p \<in> set (l_portNames l) \<and> spreads_to l t origin p \<and> (tree_fids l t = [] \<or> f \<in> set (tree_fids l t))" for p f
    using assms(2) by (simp add: propagateTopologyChange_def propagate_covers)
  ultimately show ?thesis
    using Flush_lookup [OF bridge_reachable_ok(2) [OF assms(1)], of _ k] Some
    by (simp add: spreads_to_def)
qed (use Flush_lookup [OF bridge_reachable_ok(2) [OF assms(1)], of _ k] in simp)

theorem topology_change_forgets_witness:
  "map_of (br_fdb sw_learned) (0, station 1) \<noteq> None \<and>
   map_of (br_fdb (Flush (l_flushes (propagateTopologyChange cistID ''b'' 5000 leaf_root)) sw_learned))
     (0, station 1) = None"
  using topology_change_forgets [OF sw_learned_reachable, of leaf_root cistID "''b''" 5000 "(0, station 1)"]
    leaf_root_tree leaf_root_facts sw_learned_facts by (auto simp: tree_summary_def)

end
