(* ===== verification/Ip.thy ===== *)
theory Ip
  imports Net Bytes
begin

unbundle bit_operations_syntax

text \<open>
  The IP header codec (\<^verbatim>\<open>src/common/net/ip/ip.go\<close>): addresses as \<^verbatim>\<open>net/netip\<close> has
  them, the header with its two family parts, decoding, encoding and the header checksum. A slice or
  index out of range is the answer \<open>None\<close>; an error is \<open>Inl\<close>.
\<close>

section \<open>Words of 64 bits\<close>

definition be64 :: "u64 \<Rightarrow> byte list" where
  "be64 v = be32 (ucast (drop_bit 32 v)) @ be32 (ucast v)"

definition u64_of :: "byte list \<Rightarrow> u64" where
  "u64_of bs = (push_bit 32 (ucast (u32_of (take 4 bs))) OR ucast (u32_of (drop 4 bs)))"

lemma length_be64 [simp]: "length (be64 v) = 8"
  by (simp add: be64_def)

lemma u64_of_be64 [simp]: "u64_of (be64 v) = v"
proof -
  have "push_bit 32 (ucast (ucast (drop_bit 32 v) :: u32)) OR ucast (ucast v :: u32) = v"
    by (rule bit_word_eqI) (auto simp: bit_simps)
  then show ?thesis
    by (simp add: u64_of_def be64_def)
qed

section \<open>Addresses\<close>

text \<open>
  \<^verbatim>\<open>netip.Addr\<close>: the zero address, an IPv4 address, or an IPv6 address as its two halves with a
  zone.
\<close>

datatype ip_addr = NoAddr | Addr4 u32 | Addr6 u64 u64 string

fun Is4 :: "ip_addr \<Rightarrow> bool" where
  "Is4 (Addr4 a) = True"
| "Is4 _ = False"

fun Is6 :: "ip_addr \<Rightarrow> bool" where
  "Is6 (Addr6 hi lo z) = True"
| "Is6 _ = False"

fun Is4In6 :: "ip_addr \<Rightarrow> bool" where
  "Is4In6 (Addr6 hi lo z) = (hi = 0 \<and> drop_bit 32 lo = 0xffff)"
| "Is4In6 _ = False"

text \<open>\<^verbatim>\<open>As4\<close> panics on an address that is neither IPv4 nor IPv4 in IPv6.\<close>

fun As4 :: "ip_addr \<Rightarrow> byte list option" where
  "As4 (Addr4 a) = Some (be32 a)"
| "As4 (Addr6 hi lo z) = (if Is4In6 (Addr6 hi lo z) then Some (be32 (ucast lo)) else None)"
| "As4 NoAddr = None"

fun As16 :: "ip_addr \<Rightarrow> byte list" where
  "As16 (Addr6 hi lo z) = be64 hi @ be64 lo"
| "As16 (Addr4 a) = be64 0 @ be64 (0xffff00000000 OR ucast a)"
| "As16 NoAddr = replicate 16 0"

definition AddrFrom4 :: "byte list \<Rightarrow> ip_addr" where
  "AddrFrom4 bs = Addr4 (u32_of bs)"

definition AddrFrom16 :: "byte list \<Rightarrow> ip_addr" where
  "AddrFrom16 bs = Addr6 (u64_of (take 8 bs)) (u64_of (drop 8 bs)) ''''"

section \<open>Headers\<close>

record ip_v4 =
  v4_ID :: u16
  v4_Flags :: byte
  v4_FragmentOffset :: u16
  v4_Options :: "byte list"

record ip_v6 =
  v6_FlowLabel :: u32

record ip_header =
  ih_Src :: ip_addr
  ih_Dst :: ip_addr
  ih_HopLimit :: byte
  ih_Protocol :: byte
  ih_TrafficClass :: byte
  ih_V4 :: "ip_v4 option"
  ih_V6 :: "ip_v6 option"

definition V4HeaderLen :: nat where "V4HeaderLen = 20"
definition V6HeaderLen :: nat where "V6HeaderLen = 40"

definition ip_Version :: "ip_header \<Rightarrow> int" where
  "ip_Version h =
     (if ih_V4 h \<noteq> None \<and> ih_V6 h = None then 4
      else if ih_V6 h \<noteq> None \<and> ih_V4 h = None then 6
      else 0)"

datatype ip_error =
    IpBufferEmpty
  | IpVersion byte
  | IhlUnder byte
  | IhlExceeds nat nat
  | TotalUnderHeader nat nat
  | TotalExceeds nat nat
  | BadChecksum u16 u16
  | V6TooShort nat
  | V6PayloadExceeds nat nat
  | PartsNeither
  | PartsBoth
  | SrcNotV4 ip_addr
  | DstNotV4 ip_addr
  | OptionsLength nat
  | TotalTooLong nat
  | SrcNotV6 ip_addr
  | DstNotV6 ip_addr
  | PayloadTooLong nat

section \<open>Checksum\<close>

text \<open>The words of the header but the checksum field, added up; an odd octet left over is a panic.\<close>

fun sum_words :: "nat \<Rightarrow> byte list \<Rightarrow> u32 \<Rightarrow> u32 option" where
  "sum_words i [] acc = Some acc"
| "sum_words i [a] acc = (if i = 10 then Some acc else None)"
| "sum_words i (a # b # rest) acc =
     sum_words (i + 2) rest (if i = 10 then acc else acc + ucast (u16_of [a, b]))"

text \<open>\<^verbatim>\<open>for acc > 0xffff\<close>: adding the carry back makes the sum smaller.\<close>

lemma carry_less: "(acc :: u32) > 0xffff \<Longrightarrow> (acc AND 0xffff) + drop_bit 16 acc < acc"
proof -
  assume big: "acc > 0xffff"
  have m: "acc AND 0xffff = take_bit 16 acc"
    by (simp add: take_bit_eq_mask mask_eq_exp_minus_1)
  have s: "unat acc < 2 ^ 32"
    using unsigned_less [of acc] by simp
  have a: "unat (take_bit 16 acc) = unat acc mod 65536" "unat (drop_bit 16 acc) = unat acc div 65536"
    by (simp_all only: unsigned_take_bit_eq unsigned_drop_bit_eq)
      (simp_all add: take_bit_eq_mod drop_bit_eq_div s [simplified])
  have b: "unat acc \<ge> 65536"
    using big by (simp add: word_less_nat_alt)
  have "unat acc = unat acc div 65536 * 65536 + unat acc mod 65536"
    by simp
  then have less: "unat acc mod 65536 + unat acc div 65536 < unat acc"
    using b by linarith
  then have "unat (take_bit 16 acc + drop_bit 16 acc) = unat acc mod 65536 + unat acc div 65536"
    using s by (subst unat_add_lem [THEN iffD1]) (simp_all add: a)
  with less show ?thesis
    by (simp add: m word_less_nat_alt)
qed

function fold_carry :: "u32 \<Rightarrow> u32" where
  "fold_carry acc =
     (if acc > 0xffff then fold_carry ((acc AND 0xffff) + drop_bit 16 acc) else acc)"
  by pat_completeness auto
termination
  by (relation "measure unat") (auto simp: word_less_nat_alt [symmetric] dest: carry_less)

declare fold_carry.simps [simp del]

definition v4Checksum :: "byte list \<Rightarrow> u16 option" where
  "v4Checksum header = do {
     acc \<leftarrow> sum_words 0 header 0;
     Some (NOT (ucast (fold_carry acc)))
   }"

section \<open>Decoding\<close>

type_synonym ip_packet = "ip_header \<times> byte list"

definition decodeV4 :: "byte list \<Rightarrow> (ip_error + ip_packet) option" where
  "decodeV4 b = do {
     b0 \<leftarrow> idx b 0;
     let ihl = b0 AND 0x0f in
     if ihl < 5 then Some (Inl (IhlUnder ihl)) else
     let headerLen = unat ihl * 4 in
     if length b < headerLen then Some (Inl (IhlExceeds headerLen (length b))) else do {
     tl \<leftarrow> sub b 2 4;
     let totalLen = unat (u16_of tl) in
     if totalLen < headerLen then Some (Inl (TotalUnderHeader totalLen headerLen))
     else if totalLen > length b then Some (Inl (TotalExceeds totalLen (length b))) else do {
     ck \<leftarrow> sub b 10 12;
     hdr \<leftarrow> sub b 0 headerLen;
     expected \<leftarrow> v4Checksum hdr;
     if u16_of ck \<noteq> expected then Some (Inl (BadChecksum (u16_of ck) expected)) else do {
     options \<leftarrow> (if headerLen > V4HeaderLen then sub b V4HeaderLen headerLen else Some []);
     fw \<leftarrow> sub b 6 8;
     let fragWord = u16_of fw in do {
     src \<leftarrow> sub b 12 16;
     dst \<leftarrow> sub b 16 20;
     hop \<leftarrow> idx b 8;
     proto \<leftarrow> idx b 9;
     tc \<leftarrow> idx b 1;
     ident \<leftarrow> sub b 4 6;
     payload \<leftarrow> sub b headerLen totalLen;
     Some (Inr (\<lparr>ih_Src = AddrFrom4 src, ih_Dst = AddrFrom4 dst, ih_HopLimit = hop,
       ih_Protocol = proto, ih_TrafficClass = tc,
       ih_V4 = Some \<lparr>v4_ID = u16_of ident, v4_Flags = ucast (drop_bit 13 fragWord),
         v4_FragmentOffset = fragWord AND 0x1fff, v4_Options = options\<rparr>,
       ih_V6 = None\<rparr>, payload))
     }}}}}"

definition decodeV6 :: "byte list \<Rightarrow> (ip_error + ip_packet) option" where
  "decodeV6 b =
     (if length b < V6HeaderLen then Some (Inl (V6TooShort (length b))) else do {
     pl \<leftarrow> sub b 4 6;
     let payloadLen = unat (u16_of pl) in
     if length b < V6HeaderLen + payloadLen
     then Some (Inl (V6PayloadExceeds payloadLen (length b - V6HeaderLen))) else do {
     fw \<leftarrow> sub b 0 4;
     let firstWord = u32_of fw in do {
     src \<leftarrow> sub b 8 24;
     dst \<leftarrow> sub b 24 40;
     hop \<leftarrow> idx b 7;
     proto \<leftarrow> idx b 6;
     payload \<leftarrow> sub b V6HeaderLen (V6HeaderLen + payloadLen);
     Some (Inr (\<lparr>ih_Src = AddrFrom16 src, ih_Dst = AddrFrom16 dst, ih_HopLimit = hop,
       ih_Protocol = proto, ih_TrafficClass = ucast (drop_bit 20 firstWord AND 0xff),
       ih_V4 = None, ih_V6 = Some \<lparr>v6_FlowLabel = firstWord AND 0x000fffff\<rparr>\<rparr>, payload))
     }}})"

definition ip_Decode :: "byte list \<Rightarrow> (ip_error + ip_packet) option" where
  "ip_Decode b =
     (if length b < 1 then Some (Inl IpBufferEmpty) else do {
      b0 \<leftarrow> idx b 0;
      let version = drop_bit 4 b0 in
      if version = 4 then decodeV4 b
      else if version = 6 then decodeV6 b
      else Some (Inl (IpVersion version))
      })"

section \<open>Encoding\<close>

definition encodeV4 :: "ip_header \<Rightarrow> ip_v4 \<Rightarrow> byte list \<Rightarrow> (ip_error + byte list) option" where
  "encodeV4 h v4 payload =
     (if \<not> Is4 (ih_Src h) then Some (Inl (SrcNotV4 (ih_Src h)))
      else if \<not> Is4 (ih_Dst h) then Some (Inl (DstNotV4 (ih_Dst h)))
      else let optLen = length (v4_Options v4) in
      if optLen mod 4 \<noteq> 0 \<or> optLen > 40 then Some (Inl (OptionsLength optLen))
      else let headerLen = V4HeaderLen + optLen; totalLen = headerLen + length payload in
      if totalLen > 65535 then Some (Inl (TotalTooLong totalLen)) else
      let out = replicate totalLen 0;
          out = blit out 0 [push_bit 4 4 OR of_nat (headerLen div 4)];
          out = blit out 1 [ih_TrafficClass h];
          out = blit out 2 (be16 (of_nat totalLen));
          out = blit out 4 (be16 (v4_ID v4));
          fragWord = push_bit 13 (ucast (v4_Flags v4 AND 0x07)) OR (v4_FragmentOffset v4 AND 0x1fff);
          out = blit out 6 (be16 fragWord);
          out = blit out 8 [ih_HopLimit h];
          out = blit out 9 [ih_Protocol h] in do {
      srcBytes \<leftarrow> As4 (ih_Src h);
      let out = blit out 12 srcBytes in do {
      dstBytes \<leftarrow> As4 (ih_Dst h);
      let out = blit out 16 dstBytes;
          out = (if optLen > 0 then blit out V4HeaderLen (v4_Options v4) else out) in do {
      hdr \<leftarrow> sub out 0 headerLen;
      ck \<leftarrow> v4Checksum hdr;
      let out = blit out 10 (be16 ck) in
      Some (Inr (blit out headerLen payload))
      }}})"

definition encodeV6 :: "ip_header \<Rightarrow> ip_v6 \<Rightarrow> byte list \<Rightarrow> (ip_error + byte list) option" where
  "encodeV6 h v6 payload =
     (if \<not> Is6 (ih_Src h) \<or> Is4In6 (ih_Src h) then Some (Inl (SrcNotV6 (ih_Src h)))
      else if \<not> Is6 (ih_Dst h) \<or> Is4In6 (ih_Dst h) then Some (Inl (DstNotV6 (ih_Dst h)))
      else if length payload > 65535 then Some (Inl (PayloadTooLong (length payload)))
      else
      let totalLen = V6HeaderLen + length payload;
          out = replicate totalLen 0;
          firstWord = push_bit 28 6 OR push_bit 20 (ucast (ih_TrafficClass h)) OR
            (v6_FlowLabel v6 AND 0x000fffff);
          out = blit out 0 (be32 firstWord);
          out = blit out 4 (be16 (of_nat (length payload)));
          out = blit out 6 [ih_Protocol h];
          out = blit out 7 [ih_HopLimit h];
          out = blit out 8 (As16 (ih_Src h));
          out = blit out 24 (As16 (ih_Dst h))
      in Some (Inr (blit out V6HeaderLen payload)))"

definition ip_Encode :: "ip_header \<Rightarrow> byte list \<Rightarrow> (ip_error + byte list) option" where
  "ip_Encode h payload =
     (case (ih_V4 h, ih_V6 h) of
        (None, None) \<Rightarrow> Some (Inl PartsNeither)
      | (Some v4, Some v6) \<Rightarrow> Some (Inl PartsBoth)
      | (Some v4, None) \<Rightarrow> encodeV4 h v4 payload
      | (None, Some v6) \<Rightarrow> encodeV6 h v6 payload)"

end
