(* ===== verification/Ip_Codec.thy ===== *)
theory Ip_Codec
  imports Ip
begin

unbundle bit_operations_syntax

text \<open>
  What the IP codec preserves: the octets an encoded header has, that decoding them, with whatever
  follows, answers the header in its wire form and the payload, that a decoded packet encodes to the
  octets it was read from, and that neither direction panics.
\<close>

section \<open>Fields\<close>

lemma masks:
  "(7 :: byte) = mask 3" "(0x1fff :: u16) = mask 13" "(0x0f :: byte) = mask 4" "(0xff :: u32) = mask 8"
  "(0xfffff :: u32) = mask 20"
  by (simp_all add: mask_eq_exp_minus_1)

lemma frag_split:
  fixes w :: u16
  assumes "w = push_bit 13 (ucast (fl AND (7 :: byte))) OR (off AND 0x1fff)"
  shows "ucast (drop_bit 13 w) = fl AND 7" "w AND 0x1fff = off AND 0x1fff"
  unfolding assms masks by (rule bit_word_eqI, auto simp: bit_simps)+

lemma frag_join:
  "push_bit 13 (ucast ((ucast (drop_bit 13 w) :: byte) AND 7)) OR (w AND 0x1fff) = (w :: u16)"
  unfolding masks by (rule bit_word_eqI) (auto simp: bit_simps)

lemma low_bits: "take_bit n w = w \<Longrightarrow> bit (w :: 'a::len word) i \<Longrightarrow> i < n"
  by (metis bit_take_bit_iff)

lemma flow_split:
  fixes w :: u32
  assumes "w = push_bit 28 v OR push_bit 20 (ucast (tc :: byte)) OR (flow AND 0xfffff)"
    and v: "take_bit 4 v = v"
  shows "ucast (drop_bit 20 w AND 0xff) = tc" "w AND 0xfffff = flow AND 0xfffff" "drop_bit 28 w = v"
  unfolding assms(1) masks
  by (rule bit_word_eqI, auto simp: bit_simps dest: bit_imp_le_length low_bits [OF v])+

lemma flow_join:
  assumes "drop_bit 28 w = (v :: u32)"
  shows "push_bit 28 v OR push_bit 20 (ucast (ucast (drop_bit 20 w AND 0xff) :: byte)) OR
    (w AND 0xfffff) = w"
  unfolding assms [symmetric] masks
proof (rule bit_word_eqI)
  fix n
  assume "n < LENGTH(32)"
  then consider "n < 20" | "20 \<le> n" "n < 28" | "28 \<le> n" "n < 32"
    by fastforce
  then show "bit (push_bit 28 (drop_bit 28 w) OR
      push_bit 20 (ucast (ucast (drop_bit 20 w AND mask 8) :: byte)) OR (w AND mask 20)) n = bit w n"
    by cases (auto simp: bit_simps)
qed

lemma be64_of:
  assumes "length bs = 8"
  shows "be64 (u64_of bs) = bs"
proof -
  have "ucast (drop_bit 32 (push_bit 32 (ucast x) OR ucast y :: u64)) = x"
    "ucast (push_bit 32 (ucast x) OR ucast y :: u64) = y" for x y :: u32
    by (rule bit_word_eqI, auto simp: bit_simps dest: bit_imp_le_length)+
  then show ?thesis
    using assms by (simp add: be64_def u64_of_def be32_of_list)
qed

lemma version_split:
  assumes "k \<le> 15"
  shows "drop_bit 4 (push_bit 4 4 OR of_nat k :: byte) = 4" "(push_bit 4 4 OR of_nat k :: byte) AND 0x0f = of_nat k"
proof -
  have "k \<in> set [0..<16]"
    using assms by simp
  then show "drop_bit 4 (push_bit 4 4 OR of_nat k :: byte) = 4" "(push_bit 4 4 OR of_nat k :: byte) AND 0x0f = of_nat k"
    by (auto simp: upt_rec)
qed

lemma version_join: "drop_bit 4 a = (v :: byte) \<Longrightarrow> push_bit 4 v OR (a AND 0x0f) = a"
  unfolding masks
  by (rule bit_word_eqI) (auto simp: bit_simps not_less)

section \<open>Version 4\<close>

text \<open>The first ten octets, the addresses and the options; between them comes the checksum.\<close>

definition v4_front :: "ip_header \<Rightarrow> ip_v4 \<Rightarrow> nat \<Rightarrow> byte list" where
  "v4_front h v4 plen =
     [push_bit 4 4 OR of_nat (5 + length (v4_Options v4) div 4), ih_TrafficClass h] @
     be16 (of_nat (20 + length (v4_Options v4) + plen)) @ be16 (v4_ID v4) @
     be16 (push_bit 13 (ucast (v4_Flags v4 AND 0x07)) OR (v4_FragmentOffset v4 AND 0x1fff)) @
     [ih_HopLimit h, ih_Protocol h]"

lemma length_v4_front [simp]: "length (v4_front h v4 n) = 10"
  by (simp add: v4_front_def)

definition v4_back :: "ip_header \<Rightarrow> ip_v4 \<Rightarrow> u32 \<Rightarrow> u32 \<Rightarrow> byte list" where
  "v4_back h v4 s d = be32 s @ be32 d @ v4_Options v4"

lemma length_v4_back [simp]: "length (v4_back h v4 s d) = 8 + length (v4_Options v4)"
  by (simp add: v4_back_def)

text \<open>The checksum skips its own field.\<close>

lemma sum_words_skip:
  assumes "length xs = 10"
  shows "sum_words 0 (xs @ a # b # ys) acc = sum_words 0 (xs @ c # d # ys) acc"
  using assms by (auto simp: length_Suc_conv numeral_eq_Suc)

lemma checksum_skip:
  "length xs = 10 \<Longrightarrow> v4Checksum (xs @ be16 u @ ys) = v4Checksum (xs @ [0, 0] @ ys)"
  unfolding v4Checksum_def be16_def by (simp, subst sum_words_skip [where c = 0 and d = 0]) simp_all

lemma sum_words_total: "even (length xs) \<Longrightarrow> sum_words i xs acc \<noteq> None"
  by (induction i xs acc rule: sum_words.induct) auto

lemma checksum_total: "even (length xs) \<Longrightarrow> v4Checksum xs \<noteq> None"
  using sum_words_total [of xs 0 0] by (cases "sum_words 0 xs 0") (simp_all add: v4Checksum_def)

lemma replicate_2: "replicate 2 x = [x, x]"
  by (simp add: numeral_2_eq_2)

lemma padded_prefix: "k \<le> length bs \<Longrightarrow> length bs \<le> n \<Longrightarrow> sub (padded bs n) 0 k = Some (take k bs)"
  by (simp add: sub_def slice_def padded_def)

lemma encodeV4_octets:
  assumes "ih_Src h = Addr4 s" "ih_Dst h = Addr4 d" "length (v4_Options v4) mod 4 = 0"
    "length (v4_Options v4) \<le> 40" "20 + length (v4_Options v4) + length payload \<le> 65535"
    and "v4Checksum (v4_front h v4 (length payload) @ [0, 0] @ v4_back h v4 s d) = Some ck"
  shows "encodeV4 h v4 payload =
    Some (Inr (v4_front h v4 (length payload) @ be16 ck @ v4_back h v4 s d @ payload))"
proof -
  let ?opts = "v4_Options v4"
  let ?n = "20 + length ?opts + length payload"
  let ?bs = "v4_front h v4 (length payload) @ [0, 0] @ v4_back h v4 s d"
  have len: "length ?bs = 20 + length ?opts"
    by simp
  have k: "(20 + length ?opts) div 4 = 5 + length ?opts div 4"
    by (simp add: div_add1_eq)
  define frag where "frag = push_bit 13 (ucast (v4_Flags v4 AND 0x07)) OR (v4_FragmentOffset v4 AND 0x1fff)"
  define b0 where "b0 = (push_bit 4 4 OR of_nat (5 + length ?opts div 4) :: byte)"
  define tl where "tl = (of_nat ?n :: u16)"
  have front: "v4_front h v4 (length payload) =
      [b0, ih_TrafficClass h] @ be16 tl @ be16 (v4_ID v4) @ be16 frag @ [ih_HopLimit h, ih_Protocol h]"
    by (simp add: v4_front_def b0_def tl_def frag_def)
  let ?w = "\<lambda>out. blit (blit (blit (blit (blit (blit (blit (blit (blit out 0 [b0]) 1 [ih_TrafficClass h])
      2 (be16 tl)) 4 (be16 (v4_ID v4))) 6 (be16 frag)) 8 [ih_HopLimit h]) 9 [ih_Protocol h])
      12 (be32 s)) 16 (be32 d)"
  have w: "?w (replicate ?n 0) = padded (v4_front h v4 (length payload) @ [0, 0] @ be32 s @ be32 d) ?n"
    unfolding front padded_Nil [of ?n]
    by (simp add: blit_padded replicate_2)
  have o: "(if 0 < length ?opts then blit (?w (replicate ?n 0)) 20 ?opts else ?w (replicate ?n 0)) = padded ?bs ?n"
    unfolding w v4_back_def
    by (simp add: blit_padded)
  have hdr: "sub (padded ?bs ?n) 0 (20 + length ?opts) = Some ?bs"
    using padded_prefix [of "20 + length ?opts" ?bs ?n] len by simp
  have c: "blit (blit (padded ?bs ?n) 10 (be16 ck)) (20 + length ?opts) payload =
      v4_front h v4 (length payload) @ be16 ck @ v4_back h v4 s d @ payload"
    by (simp add: blit_padded_inside blit_padded) (simp add: blit_def padded_def)
  show ?thesis
    using assms(3-5)
    unfolding encodeV4_def V4HeaderLen_def Let_def assms(1,2) k As4.simps Is4.simps Option.bind.simps(2)
      b0_def [symmetric] frag_def [symmetric] tl_def [symmetric] o hdr assms(6) c
    by simp
qed

lemma sub_append:
  "n = length xs \<Longrightarrow> sub (xs @ ys) 0 n = Some xs"
  "lo = length xs \<Longrightarrow> hi = lo + length ys \<Longrightarrow> sub (xs @ ys @ zs) lo hi = Some ys"
  by (simp_all add: sub_def slice_def)

text \<open>What a decoder that accepts a packet reads.\<close>

lemma decodeV4_octets:
  assumes "length s = 4" "length d = 4" "length opts = 4 * k" "k \<le> 10"
    and b0: "b0 AND 0x0f = of_nat (5 + k)"
    and tl: "u16_of [t0, t1] = of_nat (20 + 4 * k + length payload)" "20 + 4 * k + length payload \<le> 65535"
    and ck: "v4Checksum ([b0, tc, t0, t1, i0, i1, g0, g1, hop, proto, c0, c1] @ s @ d @ opts) =
      Some (u16_of [c0, c1])"
  shows "decodeV4 ([b0, tc, t0, t1, i0, i1, g0, g1, hop, proto, c0, c1] @ s @ d @ opts @ payload @ pad) =
    Some (Inr (\<lparr>ih_Src = AddrFrom4 s, ih_Dst = AddrFrom4 d, ih_HopLimit = hop, ih_Protocol = proto,
      ih_TrafficClass = tc,
      ih_V4 = Some \<lparr>v4_ID = u16_of [i0, i1], v4_Flags = ucast (drop_bit 13 (u16_of [g0, g1])),
        v4_FragmentOffset = u16_of [g0, g1] AND 0x1fff, v4_Options = opts\<rparr>,
      ih_V6 = None\<rparr>, payload))" (is "decodeV4 ?b = _")
proof -
  have ihl: "unat (of_nat (5 + k) :: byte) = 5 + k" "\<not> (of_nat (5 + k) :: byte) < 5"
  proof -
    have "k \<in> set [0..<11]"
      using assms(4) by simp
    then show "unat (of_nat (5 + k) :: byte) = 5 + k" "\<not> (of_nat (5 + k) :: byte) < 5"
      by (auto simp: upt_rec)
  qed
  have total: "unat (u16_of [t0, t1]) = 20 + 4 * k + length payload"
    using tl by (simp add: unat_of_nat take_bit_nat_eq_self del: u16_of.simps of_nat_add)
  have i: "idx ?b 0 = Some b0" "idx ?b 8 = Some hop" "idx ?b 9 = Some proto" "idx ?b 1 = Some tc"
    by (simp_all add: idx_def)
  have f: "sub ?b 2 4 = Some [t0, t1]" "sub ?b 10 12 = Some [c0, c1]" "sub ?b 6 8 = Some [g0, g1]"
    "sub ?b 4 6 = Some [i0, i1]"
    by (simp_all add: sub_def slice_def)
  have a: "sub ?b 12 16 = Some s" "sub ?b 16 20 = Some d"
    using assms(1,2) by (simp_all add: sub_def slice_def)
  let ?head = "[b0, tc, t0, t1, i0, i1, g0, g1, hop, proto, c0, c1] @ s @ d"
  have b: "?b = (?head @ opts) @ payload @ pad" "?b = ?head @ opts @ payload @ pad"
    by simp_all
  have h: "sub ?b 0 ((5 + k) * 4) =
      Some ([b0, tc, t0, t1, i0, i1, g0, g1, hop, proto, c0, c1] @ s @ d @ opts)"
    unfolding b(1) by (subst sub_append(1)) (use assms(1-3) in simp_all)
  have p: "sub ?b ((5 + k) * 4) (20 + 4 * k + length payload) = Some payload"
    unfolding b(1) by (rule sub_append(2)) (use assms(1-3) in simp_all)
  have o: "(if 20 < (5 + k) * 4 then sub ?b 20 ((5 + k) * 4) else Some []) = Some opts"
    unfolding b(2) by (subst sub_append(2)) (use assms(1-3) in auto)
  have len: "length ?b = 20 + 4 * k + length payload + length pad"
    using assms(1-3) by simp
  show ?thesis
    unfolding decodeV4_def V4HeaderLen_def Let_def Option.bind.simps(2) i f a b0 ihl(1) total h p o ck len
    using ihl(2) by simp
qed

text \<open>The header as it is read back: what does not fit its field is cut off, zones are not carried.\<close>

fun wire_addr :: "ip_addr \<Rightarrow> ip_addr" where
  "wire_addr (Addr6 hi lo z) = Addr6 hi lo ''''"
| "wire_addr a = a"

definition wire_header :: "ip_header \<Rightarrow> ip_header" where
  "wire_header h =
     h\<lparr>ih_Src := wire_addr (ih_Src h), ih_Dst := wire_addr (ih_Dst h),
       ih_V4 := map_option (\<lambda>v. v\<lparr>v4_Flags := v4_Flags v AND 7,
         v4_FragmentOffset := v4_FragmentOffset v AND 0x1fff\<rparr>) (ih_V4 h),
       ih_V6 := map_option (\<lambda>v. v\<lparr>v6_FlowLabel := v6_FlowLabel v AND 0xfffff\<rparr>) (ih_V6 h)\<rparr>"

lemma u16_of_split: "u16_of [ucast (drop_bit 8 v), ucast v] = v"
  using u16_of_be16 [of v] by (simp add: be16_def del: u16_of.simps)

lemma encodeV4_Inr:
  assumes "encodeV4 h v4 payload = Some (Inr bs)"
  obtains s d ck where "ih_Src h = Addr4 s" "ih_Dst h = Addr4 d" "length (v4_Options v4) mod 4 = 0"
    "length (v4_Options v4) \<le> 40" "20 + length (v4_Options v4) + length payload \<le> 65535"
    "v4Checksum (v4_front h v4 (length payload) @ [0, 0] @ v4_back h v4 s d) = Some ck"
    "bs = v4_front h v4 (length payload) @ be16 ck @ v4_back h v4 s d @ payload"
proof -
  have c: "Is4 (ih_Src h)" "Is4 (ih_Dst h)" "length (v4_Options v4) mod 4 = 0"
    "length (v4_Options v4) \<le> 40" "20 + length (v4_Options v4) + length payload \<le> 65535"
    using assms by (auto simp: encodeV4_def V4HeaderLen_def Let_def split: if_splits)
  then obtain s d where a: "ih_Src h = Addr4 s" "ih_Dst h = Addr4 d"
    by (metis Is4.elims(2))
  have "even (length (v4_front h v4 (length payload) @ [0, 0] @ v4_back h v4 s d))"
    using c(3) by (simp add: mod_eq_0_iff_dvd) (metis dvd_trans even_numeral)
  then obtain ck where ck: "v4Checksum (v4_front h v4 (length payload) @ [0, 0] @ v4_back h v4 s d) = Some ck"
    using checksum_total by blast
  show thesis
    using that [OF a c(3-5) ck] encodeV4_octets [OF a c(3-5) ck] assms by simp
qed

lemma decode_encodeV4:
  assumes "encodeV4 h v4 payload = Some (Inr bs)" "ih_V4 h = Some v4" "ih_V6 h = None"
  shows "ip_Decode (bs @ pad) = Some (Inr (wire_header h, payload))"
proof -
  obtain s d ck where a: "ih_Src h = Addr4 s" "ih_Dst h = Addr4 d" and
    n: "length (v4_Options v4) mod 4 = 0" "length (v4_Options v4) \<le> 40"
      "20 + length (v4_Options v4) + length payload \<le> 65535" and
    ck: "v4Checksum (v4_front h v4 (length payload) @ [0, 0] @ v4_back h v4 s d) = Some ck" and
    bs: "bs = v4_front h v4 (length payload) @ be16 ck @ v4_back h v4 s d @ payload"
    by (rule encodeV4_Inr [OF assms(1)])
  define k where "k = length (v4_Options v4) div 4"
  have k: "length (v4_Options v4) = 4 * k" "k \<le> 10"
    using n(1,2) by (auto simp: k_def)
  define b0 where "b0 = (push_bit 4 4 OR of_nat (5 + k) :: byte)"
  define frag where "frag = push_bit 13 (ucast (v4_Flags v4 AND 0x07)) OR (v4_FragmentOffset v4 AND 0x1fff)"
  define tl where "tl = (of_nat (20 + 4 * k + length payload) :: u16)"
  let ?hi = "\<lambda>v. ucast (drop_bit 8 v) :: byte" and ?lo = "\<lambda>v. ucast v :: byte"
  let ?head = "[b0, ih_TrafficClass h, ?hi tl, ?lo tl, ?hi (v4_ID v4), ?lo (v4_ID v4), ?hi frag, ?lo frag,
    ih_HopLimit h, ih_Protocol h, ?hi ck, ?lo ck]"
  have front: "v4_front h v4 (length payload) @ be16 ck = ?head"
    using k(1) by (simp add: v4_front_def b0_def tl_def frag_def be16_def del: of_nat_add)
  have octets: "bs @ pad = ?head @ be32 s @ be32 d @ v4_Options v4 @ payload @ pad"
    unfolding bs v4_back_def append_assoc [symmetric] front [symmetric] by simp
  have "v4Checksum (?head @ be32 s @ be32 d @ v4_Options v4) = Some (u16_of [?hi ck, ?lo ck])"
    using ck checksum_skip [of "v4_front h v4 (length payload)" ck "v4_back h v4 s d"] u16_of_split [of ck]
    unfolding v4_back_def append_assoc [symmetric] front [symmetric] by simp
  moreover have b0: "b0 AND 0x0f = of_nat (5 + k)" "drop_bit 4 b0 = 4"
    using version_split [of "5 + k"] k(2) by (simp_all add: b0_def del: of_nat_add)
  ultimately have "decodeV4 (bs @ pad) = Some (Inr (wire_header h, payload))"
    unfolding octets
    using decodeV4_octets [of "be32 s" "be32 d" "v4_Options v4" k b0 "?hi tl" "?lo tl" payload
        "ih_TrafficClass h" "?hi (v4_ID v4)" "?lo (v4_ID v4)" "?hi frag" "?lo frag" "ih_HopLimit h"
        "ih_Protocol h" "?hi ck" "?lo ck" pad] k n(3) frag_split [OF frag_def]
    by (simp add: u16_of_split tl_def wire_header_def assms(2,3) a AddrFrom4_def
        del: u16_of.simps of_nat_add append_Cons)
  then show ?thesis
    using b0(2) by (simp add: ip_Decode_def octets idx_def)
qed

section \<open>Version 6\<close>

definition v6_first :: "ip_header \<Rightarrow> ip_v6 \<Rightarrow> u32" where
  "v6_first h v6 = push_bit 28 6 OR push_bit 20 (ucast (ih_TrafficClass h)) OR (v6_FlowLabel v6 AND 0x000fffff)"

definition v6_octets :: "ip_header \<Rightarrow> ip_v6 \<Rightarrow> nat \<Rightarrow> byte list" where
  "v6_octets h v6 plen =
     be32 (v6_first h v6) @ be16 (of_nat plen) @ [ih_Protocol h, ih_HopLimit h] @
     As16 (ih_Src h) @ As16 (ih_Dst h)"

lemma length_As16 [simp]: "length (As16 a) = 16"
  by (cases a) simp_all

lemma length_v6_octets [simp]: "length (v6_octets h v6 n) = 40"
  by (simp add: v6_octets_def)

lemma encodeV6_octets:
  assumes "Is6 (ih_Src h) \<and> \<not> Is4In6 (ih_Src h)" "Is6 (ih_Dst h) \<and> \<not> Is4In6 (ih_Dst h)"
    "length payload \<le> 65535"
  shows "encodeV6 h v6 payload = Some (Inr (v6_octets h v6 (length payload) @ payload))"
proof -
  let ?n = "40 + length payload"
  have w: "blit (blit (blit (blit (blit (blit (replicate ?n 0) 0 (be32 (v6_first h v6)))
      4 (be16 (of_nat (length payload)))) 6 [ih_Protocol h]) 7 [ih_HopLimit h]) 8 (As16 (ih_Src h)))
      24 (As16 (ih_Dst h)) = padded (v6_octets h v6 (length payload)) ?n"
    unfolding padded_Nil [of ?n] v6_octets_def by (simp add: blit_padded)
  show ?thesis
    using assms
    unfolding encodeV6_def V6HeaderLen_def Let_def v6_first_def [symmetric] w
    by (simp add: blit_padded) (simp add: padded_def)
qed

lemma encodeV6_Inr:
  assumes "encodeV6 h v6 payload = Some (Inr bs)"
  shows "Is6 (ih_Src h) \<and> \<not> Is4In6 (ih_Src h)" "Is6 (ih_Dst h) \<and> \<not> Is4In6 (ih_Dst h)"
    "length payload \<le> 65535" "bs = v6_octets h v6 (length payload) @ payload"
proof -
  show c: "Is6 (ih_Src h) \<and> \<not> Is4In6 (ih_Src h)" "Is6 (ih_Dst h) \<and> \<not> Is4In6 (ih_Dst h)"
    "length payload \<le> 65535"
    using assms by (auto simp: encodeV6_def Let_def split: if_splits)
  show "bs = v6_octets h v6 (length payload) @ payload"
    using encodeV6_octets [OF c] assms by simp
qed

lemma decodeV6_octets:
  assumes "length fw = 4" "length pl = 2" "length s = 16" "length d = 16"
    and "unat (u16_of pl) = length payload"
  shows "decodeV6 (fw @ pl @ [proto, hop] @ s @ d @ payload @ pad) =
    Some (Inr (\<lparr>ih_Src = AddrFrom16 s, ih_Dst = AddrFrom16 d, ih_HopLimit = hop, ih_Protocol = proto,
      ih_TrafficClass = ucast (drop_bit 20 (u32_of fw) AND 0xff), ih_V4 = None,
      ih_V6 = Some \<lparr>v6_FlowLabel = u32_of fw AND 0x000fffff\<rparr>\<rparr>, payload))" (is "decodeV6 ?b = _")
proof -
  have b: "?b = (fw @ pl @ [proto, hop]) @ s @ (d @ payload @ pad)"
    "?b = (fw @ pl @ [proto, hop] @ s) @ d @ (payload @ pad)"
    "?b = (fw @ pl @ [proto, hop] @ s @ d) @ payload @ pad"
    by simp_all
  have f: "sub ?b 0 4 = Some fw" "sub ?b 4 6 = Some pl"
    by (rule sub_append, use assms in simp_all)+
  have "sub ?b 8 24 = Some s"
    by (subst b(1), rule sub_append(2)) (use assms in simp_all)
  moreover have "sub ?b 24 40 = Some d"
    by (subst b(2), rule sub_append(2)) (use assms in simp_all)
  moreover have "sub ?b 40 (40 + length payload) = Some payload"
    by (subst b(3), rule sub_append(2)) (use assms in simp_all)
  moreover have "idx ?b 6 = Some proto" "idx ?b 7 = Some hop"
    using assms by (simp_all add: idx_def nth_append)
  moreover have "length ?b = 40 + length payload + length pad"
    using assms by simp
  ultimately show ?thesis
    unfolding decodeV6_def V6HeaderLen_def Let_def
    using f assms(5) by simp
qed

lemma AddrFrom16_As16:
  assumes "Is6 a"
  shows "AddrFrom16 (As16 a) = wire_addr a"
  using assms by (cases a) (simp_all add: AddrFrom16_def)

lemma top_nibble: "drop_bit 4 (ucast (drop_bit 24 w) :: byte) = ucast (drop_bit 28 (w :: u32))"
  by (rule bit_word_eqI) (auto simp: bit_simps dest: bit_imp_le_length)

lemma decode_encodeV6:
  assumes "encodeV6 h v6 payload = Some (Inr bs)" "ih_V6 h = Some v6" "ih_V4 h = None"
  shows "ip_Decode (bs @ pad) = Some (Inr (wire_header h, payload))"
proof -
  note c = encodeV6_Inr [OF assms(1)]
  have pl: "unat (u16_of (be16 (of_nat (length payload)))) = length payload"
    using c(3) by (simp add: unat_of_nat take_bit_nat_eq_self)
  have first: "ucast (drop_bit 20 (v6_first h v6) AND 0xff) = ih_TrafficClass h"
    "v6_first h v6 AND 0xfffff = v6_FlowLabel v6 AND 0xfffff" "drop_bit 28 (v6_first h v6) = 6"
    using flow_split [OF v6_first_def [of h v6]] by simp_all
  have octets: "bs @ pad = be32 (v6_first h v6) @ be16 (of_nat (length payload)) @ [ih_Protocol h, ih_HopLimit h] @
      As16 (ih_Src h) @ As16 (ih_Dst h) @ payload @ pad"
    by (simp add: c(4) v6_octets_def)
  have "decodeV6 (bs @ pad) = Some (Inr (wire_header h, payload))"
    unfolding octets
    by (subst decodeV6_octets)
      (use pl first c(1,2) assms(2,3) in \<open>simp_all add: wire_header_def AddrFrom16_As16\<close>)
  moreover have "bs @ pad \<noteq> []" "drop_bit 4 ((bs @ pad) ! 0) = 6"
    using first(3) by (simp_all add: octets be32_def top_nibble)
  ultimately show ?thesis
    by (simp add: ip_Decode_def idx_def)
qed

section \<open>Encoding what was decoded\<close>

lemma decodeV4_guards:
  assumes "decodeV4 b = Some (Inr x)"
  defines "hl \<equiv> unat (b ! 0 AND 0x0f) * 4"
  shows "20 \<le> hl" "hl \<le> length b" "hl \<le> unat (u16_of (slice b 2 4))"
    "unat (u16_of (slice b 2 4)) \<le> length b" "v4Checksum (slice b 0 hl) = Some (u16_of (slice b 10 12))"
proof -
  have five: "\<not> (w :: byte) < 5 \<Longrightarrow> 5 \<le> unat w" for w
    by (simp add: word_less_nat_alt)
  show "20 \<le> hl" "hl \<le> length b" "hl \<le> unat (u16_of (slice b 2 4))"
    "unat (u16_of (slice b 2 4)) \<le> length b" "v4Checksum (slice b 0 hl) = Some (u16_of (slice b 10 12))"
    using assms(1) five [of "b ! 0 AND 0x0f"]
    unfolding hl_def decodeV4_def Let_def
    by (auto simp: bind_eq_Some_conv idx_def sub_def split: if_splits)
qed

lemma split_at: "n \<le> length xs \<Longrightarrow> \<exists>ys zs. xs = ys @ zs \<and> length ys = n"
  by (intro exI [of _ "take n xs"] exI [of _ "drop n xs"]) simp

lemma encode_decodeV4:
  assumes "decodeV4 b = Some (Inr (h, p))" "drop_bit 4 (b ! 0) = 4"
  shows "\<exists>v4. ih_V4 h = Some v4 \<and> ih_V6 h = None \<and>
    encodeV4 h v4 p = Some (Inr (take (unat (u16_of (slice b 2 4))) b))"
proof -
  note g = decodeV4_guards [OF assms(1)]
  define k where "k = unat (b ! 0 AND 0x0f) - 5"
  have hl: "unat (b ! 0 AND 0x0f) = 5 + k"
    using g(1) by (simp add: k_def)
  have "b ! 0 AND 0x0f \<le> 0x0f"
    by (rule word_and_le1)
  then have k: "k \<le> 10"
    by (simp add: k_def word_le_nat_alt)
  define tl where "tl = unat (u16_of (slice b 2 4))"
  have tl: "20 + 4 * k \<le> tl" "tl \<le> length b" "tl \<le> 65535"
  proof -
    have "unat (u16_of (slice b 2 4)) < 2 ^ LENGTH(16)"
      by (rule unsigned_less)
    then show "20 + 4 * k \<le> tl" "tl \<le> length b" "tl \<le> 65535"
      using g(3,4) hl by (simp_all add: tl_def)
  qed
  obtain head s d opts payload pad where
    b: "b = head @ s @ d @ opts @ payload @ pad" and
    n: "length head = 12" "length s = 4" "length d = 4" "length opts = 4 * k"
      "length payload = tl - (20 + 4 * k)"
  proof -
    obtain head r1 where 1: "b = head @ r1" "length head = 12"
      using split_at [of 12 b] tl by auto
    obtain s r2 where 2: "r1 = s @ r2" "length s = 4"
      using split_at [of 4 r1] tl 1 by auto
    obtain d r3 where 3: "r2 = d @ r3" "length d = 4"
      using split_at [of 4 r2] tl 1 2 by auto
    obtain opts r4 where 4: "r3 = opts @ r4" "length opts = 4 * k"
      using split_at [of "4 * k" r3] tl 1 2 3 by auto
    have "tl - (20 + 4 * k) \<le> length r4"
      using tl(2) 1 2 3 4 by simp
    then obtain payload pad where "r4 = payload @ pad" "length payload = tl - (20 + 4 * k)"
      using split_at by blast
    then show thesis
      using that 1 2 3 4 by simp
  qed
  obtain b0 tc t0 t1 i0 i1 g0 g1 hop proto c0 c1 where
    head: "head = [b0, tc, t0, t1, i0, i1, g0, g1, hop, proto, c0, c1]"
    using n(1) by (auto simp: length_Suc_conv numeral_eq_Suc)
  have b0: "b0 AND 0x0f = of_nat (5 + k)" "drop_bit 4 b0 = 4"
    using hl assms(2) by (auto simp: b head simp flip: hl)
  have plen: "20 + 4 * k + length payload = tl"
    using n(5) tl(1) by simp
  have tl': "u16_of [t0, t1] = of_nat tl"
    by (simp add: tl_def b head slice_def del: u16_of.simps)
  have ck: "v4Checksum ([b0, tc, t0, t1, i0, i1, g0, g1, hop, proto, c0, c1] @ s @ d @ opts) =
      Some (u16_of [c0, c1])"
  proof -
    have "slice b 0 (4 * (5 + k)) = head @ s @ d @ opts"
      using n by (simp add: b slice_def)
    moreover have "slice b 10 12 = [c0, c1]"
      by (simp add: b head slice_def)
    ultimately show ?thesis
      using g(5) hl by (simp add: head mult.commute del: u16_of.simps)
  qed
  have dec: "h = \<lparr>ih_Src = AddrFrom4 s, ih_Dst = AddrFrom4 d, ih_HopLimit = hop, ih_Protocol = proto,
      ih_TrafficClass = tc,
      ih_V4 = Some \<lparr>v4_ID = u16_of [i0, i1], v4_Flags = ucast (drop_bit 13 (u16_of [g0, g1])),
        v4_FragmentOffset = u16_of [g0, g1] AND 0x1fff, v4_Options = opts\<rparr>,
      ih_V6 = None\<rparr>" "p = payload"
    using assms(1) decodeV4_octets [OF n(2-4) k b0(1) _ _ ck, of payload pad] tl' tl(3)
    unfolding b head plen by auto
  define v4 where "v4 = \<lparr>v4_ID = u16_of [i0, i1], v4_Flags = ucast (drop_bit 13 (u16_of [g0, g1])),
        v4_FragmentOffset = u16_of [g0, g1] AND 0x1fff, v4_Options = opts\<rparr>"
  have front: "v4_front h v4 (length p) = [b0, tc, t0, t1, i0, i1, g0, g1, hop, proto]"
  proof -
    have "push_bit 4 4 OR of_nat (5 + k) = b0"
      using version_join [OF b0(2)] b0(1) by simp
    moreover have "be16 (of_nat tl) = [t0, t1]"
      using be16_of [of t0 t1] tl' by (simp del: u16_of.simps)
    moreover have "length opts div 4 = k" "20 + length opts + length payload = tl"
      using n(4) plen by simp_all
    ultimately show ?thesis
      by (simp add: v4_front_def v4_def dec frag_join be16_of del: u16_of.simps of_nat_add)
  qed
  have tail: "v4_back h v4 (u32_of s) (u32_of d) = s @ d @ opts"
    using n by (simp add: v4_back_def v4_def be32_of_list)
  have "v4Checksum (v4_front h v4 (length p) @ [0, 0] @ v4_back h v4 (u32_of s) (u32_of d)) = Some (u16_of [c0, c1])"
    using ck checksum_skip [of "[b0, tc, t0, t1, i0, i1, g0, g1, hop, proto]" "u16_of [c0, c1]" "s @ d @ opts"]
    by (simp add: front tail be16_of del: u16_of.simps)
  then have "encodeV4 h v4 p = Some (Inr (head @ s @ d @ opts @ payload))"
    using encodeV4_octets [of h "u32_of s" "u32_of d" v4 p "u16_of [c0, c1]"] n k tl(3) plen
    unfolding front tail be16_of by (simp add: head dec v4_def AddrFrom4_def)
  moreover have "take tl b = head @ s @ d @ opts @ payload"
    using n plen by (simp add: b)
  ultimately show ?thesis
    unfolding tl_def by (simp add: dec v4_def)
qed

lemma As16_AddrFrom16: "length s = 16 \<Longrightarrow> As16 (AddrFrom16 s) = s"
  by (simp add: AddrFrom16_def be64_of)

lemma encode_decodeV6:
  assumes "decodeV6 b = Some (Inr (h, p))" "drop_bit 4 (b ! 0) = 6"
    and "\<not> Is4In6 (ih_Src h)" "\<not> Is4In6 (ih_Dst h)"
  shows "\<exists>v6. ih_V6 h = Some v6 \<and> ih_V4 h = None \<and>
    encodeV6 h v6 p = Some (Inr (take (40 + unat (u16_of (slice b 4 6))) b))"
proof -
  define pl where "pl = unat (u16_of (slice b 4 6))"
  have len: "40 + pl \<le> length b"
    using assms(1) unfolding pl_def decodeV6_def Let_def V6HeaderLen_def
    by (auto simp: bind_eq_Some_conv sub_def split: if_splits)
  have pl: "pl \<le> 65535"
  proof -
    have "unat (u16_of (slice b 4 6)) < 2 ^ LENGTH(16)"
      by (rule unsigned_less)
    then show ?thesis
      by (simp add: pl_def)
  qed
  obtain head s d payload pad where b: "b = head @ s @ d @ payload @ pad" and
    n: "length head = 8" "length s = 16" "length d = 16" "length payload = pl"
  proof -
    obtain head r1 where 1: "b = head @ r1" "length head = 8"
      using split_at [of 8 b] len by auto
    obtain s r2 where 2: "r1 = s @ r2" "length s = 16"
      using split_at [of 16 r1] len 1 by auto
    obtain d r3 where 3: "r2 = d @ r3" "length d = 16"
      using split_at [of 16 r2] len 1 2 by auto
    obtain payload pad where "r3 = payload @ pad" "length payload = pl"
      using split_at [of pl r3] len 1 2 3 by auto
    then show thesis
      using that 1 2 3 by simp
  qed
  obtain w0 w1 w2 w3 p0 p1 proto hop where
    head: "head = [w0, w1, w2, w3, p0, p1, proto, hop]"
    using n(1) by (auto simp: length_Suc_conv numeral_eq_Suc)
  have pl': "unat (u16_of [p0, p1]) = pl"
    by (simp add: pl_def b head slice_def del: u16_of.simps)
  define fw where "fw = u32_of [w0, w1, w2, w3]"
  have top: "drop_bit 28 fw = 6"
  proof -
    have "be32 fw = [w0, w1, w2, w3]"
      by (simp add: fw_def be32_of del: u32_of.simps)
    then have "ucast (drop_bit 28 fw) = drop_bit 4 w0"
      using top_nibble [of fw] by (simp add: be32_def)
    then have "ucast (drop_bit 28 fw) = (6 :: byte)"
      using assms(2) by (simp add: b head)
    moreover have "drop_bit 28 fw = ucast (ucast (drop_bit 28 fw) :: byte)"
      by (rule bit_word_eqI) (auto simp: bit_simps dest: bit_imp_le_length)
    ultimately show ?thesis
      by simp
  qed
  have dec: "h = \<lparr>ih_Src = AddrFrom16 s, ih_Dst = AddrFrom16 d, ih_HopLimit = hop, ih_Protocol = proto,
      ih_TrafficClass = ucast (drop_bit 20 fw AND 0xff), ih_V4 = None,
      ih_V6 = Some \<lparr>v6_FlowLabel = fw AND 0x000fffff\<rparr>\<rparr>" "p = payload"
    using assms(1) decodeV6_octets [of "[w0, w1, w2, w3]" "[p0, p1]" s d payload proto hop pad] n pl'
    by (simp_all add: b head fw_def del: u16_of.simps u32_of.simps)
  define v6 where "v6 = \<lparr>v6_FlowLabel = fw AND 0x000fffff\<rparr>"
  have "v6_first h v6 = fw"
    using flow_join [OF top] by (simp add: v6_first_def v6_def dec)
  moreover have "be16 (of_nat pl) = [p0, p1]"
    unfolding pl' [symmetric] by (simp add: be16_of del: u16_of.simps)
  ultimately have "v6_octets h v6 (length p) = head @ s @ d"
    using n by (simp add: v6_octets_def dec As16_AddrFrom16 head fw_def be32_of del: u16_of.simps u32_of.simps)
  moreover have "Is6 (ih_Src h)" "Is6 (ih_Dst h)"
    by (simp_all add: dec AddrFrom16_def)
  ultimately have "encodeV6 h v6 p = Some (Inr (head @ s @ d @ payload))"
    using encodeV6_octets [of h p v6] assms(3,4) n pl by (simp add: dec(2))
  moreover have "take (40 + pl) b = head @ s @ d @ payload"
    using n by (simp add: b)
  ultimately show ?thesis
    unfolding pl_def by (simp add: dec v6_def)
qed

section \<open>No panic\<close>

lemma decodeV4_total:
  assumes "0 < length b"
  shows "decodeV4 b \<noteq> None"
proof -
  have five: "\<not> w < 5 \<Longrightarrow> 5 \<le> unat w" for w :: byte
    by (simp add: word_less_nat_alt)
  show ?thesis
    using assms unfolding decodeV4_def Let_def V4HeaderLen_def
    by (intro answers checksum_total) (auto simp: sub_def slice_def split: if_splits dest!: five)
qed

lemma decodeV6_total: "decodeV6 b \<noteq> None"
  unfolding decodeV6_def Let_def V6HeaderLen_def
  by (intro answers) (auto simp: sub_def slice_def split: if_splits)

lemma ip_Decode_total: "ip_Decode b \<noteq> None"
  unfolding ip_Decode_def Let_def
  by (intro answers decodeV4_total decodeV6_total) auto

lemma encodeV4_accepts:
  assumes "Is4 (ih_Src h)" "Is4 (ih_Dst h)" "length (v4_Options v4) mod 4 = 0"
    "length (v4_Options v4) \<le> 40" "20 + length (v4_Options v4) + length payload \<le> 65535"
  shows "\<exists>bs. encodeV4 h v4 payload = Some (Inr bs)"
proof -
  obtain s d where a: "ih_Src h = Addr4 s" "ih_Dst h = Addr4 d"
    using assms(1,2) by (metis Is4.elims(2))
  have "even (length (v4_front h v4 (length payload) @ [0, 0] @ v4_back h v4 s d))"
    using assms(3) by (simp add: mod_eq_0_iff_dvd) (metis dvd_trans even_numeral)
  then obtain ck where "v4Checksum (v4_front h v4 (length payload) @ [0, 0] @ v4_back h v4 s d) = Some ck"
    using checksum_total by blast
  then show ?thesis
    using encodeV4_octets [OF a assms(3-5)] by simp
qed

lemma encodeV4_total: "encodeV4 h v4 payload \<noteq> None"
proof (cases "Is4 (ih_Src h) \<and> Is4 (ih_Dst h) \<and> length (v4_Options v4) mod 4 = 0 \<and>
    length (v4_Options v4) \<le> 40 \<and> 20 + length (v4_Options v4) + length payload \<le> 65535")
  case True
  then show ?thesis
    using encodeV4_accepts [of h v4 payload] by auto
next
  case False
  then show ?thesis
    by (auto simp: encodeV4_def Let_def V4HeaderLen_def)
qed

lemma ip_Encode_total: "ip_Encode h payload \<noteq> None"
  using encodeV4_total by (auto simp: ip_Encode_def encodeV6_def Let_def split: option.splits)

end
