(* ===== verification/Lacp.thy ===== *)
theory Lacp
  imports Net Bytes
begin

unbundle bit_operations_syntax

text \<open>
  The LACPDU codec and the marker responder (\<^verbatim>\<open>src/common/net/lacp/lacp.go\<close>): both TLVs of an
  LACPDU at their offsets in a payload of 110 octets.
\<close>

section \<open>Values\<close>

record lacp_info =
  i_SystemPriority :: u16
  i_SystemID :: mac
  i_Key :: u16
  i_PortPriority :: u16
  i_PortID :: u16
  i_State :: byte

record lacp_pdu =
  pd_Actor :: lacp_info
  pd_Partner :: lacp_info
  pd_CollectorMaxDelay :: u16

definition zero_info :: lacp_info where
  "zero_info = \<lparr>i_SystemPriority = 0, i_SystemID = MAC 0 0 0 0 0 0, i_Key = 0, i_PortPriority = 0,
     i_PortID = 0, i_State = 0\<rparr>"

text \<open>The bits of the state octet.\<close>

definition LacpActivity :: byte where "LacpActivity = 0x01"
definition ShortTimeout :: byte where "ShortTimeout = 0x02"
definition Aggregation :: byte where "Aggregation = 0x04"
definition Synchronization :: byte where "Synchronization = 0x08"
definition Collecting :: byte where "Collecting = 0x10"
definition Distributing :: byte where "Distributing = 0x20"
definition DefaultedBit :: byte where "DefaultedBit = 0x40"
definition ExpiredBit :: byte where "ExpiredBit = 0x80"

lemmas lacp_bits = LacpActivity_def ShortTimeout_def Aggregation_def Synchronization_def
  Collecting_def Distributing_def DefaultedBit_def ExpiredBit_def

definition lacpGroupAddress :: mac where
  "lacpGroupAddress = MAC 0x01 0x80 0xc2 0x00 0x00 0x02"

definition EtherTypeSlowProtocols :: u16 where
  "EtherTypeSlowProtocols = 0x8809"

section \<open>Encoding\<close>

definition info_bytes :: "byte \<Rightarrow> lacp_info \<Rightarrow> byte list" where
  "info_bytes tlvType info =
     [tlvType, 20] @ be16 (i_SystemPriority info) @ mac_bytes (i_SystemID info) @ be16 (i_Key info) @
     be16 (i_PortPriority info) @ be16 (i_PortID info) @ [i_State info]"

text \<open>\<^verbatim>\<open>encodeInfo(payload[off:off+20], tlvType, info)\<close>\<close>

definition encodeInfo :: "nat \<Rightarrow> byte \<Rightarrow> lacp_info \<Rightarrow> byte list \<Rightarrow> byte list" where
  "encodeInfo off tlvType info p =
     (let p = blit p off [tlvType];
          p = blit p (off + 1) [20];
          p = blit p (off + 2) (be16 (i_SystemPriority info));
          p = blit p (off + 4) (mac_bytes (i_SystemID info));
          p = blit p (off + 10) (be16 (i_Key info));
          p = blit p (off + 12) (be16 (i_PortPriority info));
          p = blit p (off + 14) (be16 (i_PortID info))
      in blit p (off + 16) [i_State info])"

definition lacp_Encode :: "lacp_pdu \<Rightarrow> mac \<Rightarrow> frame" where
  "lacp_Encode pdu src =
     (let p = replicate 110 0;
          p = blit p 0 [1];
          p = blit p 1 [1];
          p = encodeInfo 2 1 (pd_Actor pdu) p;
          p = encodeInfo 22 2 (pd_Partner pdu) p;
          p = blit p 42 [3];
          p = blit p 43 [16];
          p = blit p 44 (be16 (pd_CollectorMaxDelay pdu));
          p = blit p 58 [0];
          p = blit p 59 [0]
      in \<lparr>f_Dst = lacpGroupAddress, f_Src = src, f_Tags = [], f_EtherType = EtherTypeSlowProtocols,
          f_Payload = p\<rparr>)"

section \<open>Decoding\<close>

datatype lacp_error =
    BadEtherType u16
  | LacpTooShort nat
  | BadSubtype byte
  | BadActorLength byte
  | BadPartnerLength byte
  | BadCollectorLength byte
  | BadMarkerType byte
  | BadMarkerLength byte

definition decodeInfo :: "byte list \<Rightarrow> lacp_info option" where
  "decodeInfo src = do {
     prio \<leftarrow> sub src 2 4;
     sid \<leftarrow> sub src 4 10;
     key \<leftarrow> sub src 10 12;
     pprio \<leftarrow> sub src 12 14;
     pid \<leftarrow> sub src 14 16;
     st \<leftarrow> idx src 16;
     Some \<lparr>i_SystemPriority = u16_of prio, i_SystemID = mac_of sid, i_Key = u16_of key,
           i_PortPriority = u16_of pprio, i_PortID = u16_of pid, i_State = st\<rparr>
   }"

definition lacp_Decode :: "frame \<Rightarrow> (lacp_error + lacp_pdu) option" where
  "lacp_Decode f =
     (let p = f_Payload f in
      if f_EtherType f \<noteq> EtherTypeSlowProtocols then Some (Inl (BadEtherType (f_EtherType f)))
      else if length p < 110 then Some (Inl (LacpTooShort (length p)))
      else do {
        subtype \<leftarrow> idx p 0;
        if subtype \<noteq> 1 then Some (Inl (BadSubtype subtype)) else do {
        actorLen \<leftarrow> idx p 3;
        if actorLen \<noteq> 20 then Some (Inl (BadActorLength actorLen)) else do {
        partnerLen \<leftarrow> idx p 23;
        if partnerLen \<noteq> 20 then Some (Inl (BadPartnerLength partnerLen)) else do {
        collectorLen \<leftarrow> idx p 43;
        if collectorLen \<noteq> 16 then Some (Inl (BadCollectorLength collectorLen)) else do {
        a \<leftarrow> sub p 2 22;
        actor \<leftarrow> decodeInfo a;
        b \<leftarrow> sub p 22 42;
        partner \<leftarrow> decodeInfo b;
        d \<leftarrow> sub p 44 46;
        Some (Inr \<lparr>pd_Actor = actor, pd_Partner = partner, pd_CollectorMaxDelay = u16_of d\<rparr>)
        }}}}})"

definition MarkerResponse :: "frame \<Rightarrow> mac \<Rightarrow> (lacp_error + frame) option" where
  "MarkerResponse f src =
     (let p = f_Payload f in
      if f_EtherType f \<noteq> EtherTypeSlowProtocols then Some (Inl (BadEtherType (f_EtherType f)))
      else if length p < 110 then Some (Inl (LacpTooShort (length p)))
      else do {
        subtype \<leftarrow> idx p 0;
        if subtype \<noteq> 2 then Some (Inl (BadSubtype subtype)) else do {
        tlvType \<leftarrow> idx p 2;
        if tlvType \<noteq> 1 then Some (Inl (BadMarkerType tlvType)) else do {
        tlvLength \<leftarrow> idx p 3;
        if tlvLength \<noteq> 16 then Some (Inl (BadMarkerLength tlvLength))
        else Some (Inr (f\<lparr>f_Dst := lacpGroupAddress, f_Src := src, f_Payload := blit p 2 [2]\<rparr>))
        }}})"

section \<open>Round trip\<close>

lemma length_info_bytes [simp]: "length (info_bytes t info) = 17"
  by (simp add: info_bytes_def)

lemma encodeInfo_blit: "off + 17 \<le> length p \<Longrightarrow> encodeInfo off t info p = blit p off (info_bytes t info)"
  by (simp add: encodeInfo_def Let_def blit_blit info_bytes_def)

text \<open>\<^verbatim>\<open>decodeInfo\<close> reads back any slice that starts with the block.\<close>

lemma decodeInfo_bytes: "decodeInfo (info_bytes t info @ rest) = Some info"
proof -
  obtain prio a b c d e f key pprio pid st where
    info: "info = \<lparr>i_SystemPriority = prio, i_SystemID = MAC a b c d e f, i_Key = key,
      i_PortPriority = pprio, i_PortID = pid, i_State = st\<rparr>"
    by (metis lacp_info.surjective mac.exhaust old.unit.exhaust)
  have u: "u16_of [ucast (drop_bit 8 v), ucast v] = v" for v
    using u16_of_be16 [of v] by (simp add: be16_def del: u16_of.simps)
  show ?thesis
    by (simp add: info decodeInfo_def info_bytes_def sub_def idx_def slice_def be16_def u del: u16_of.simps)
qed

lemma decodeInfo_block:
  assumes "slice p lo (lo + 17) = info_bytes t info" "lo + 17 \<le> hi"
  shows "decodeInfo (slice p lo hi) = Some info"
proof -
  have "slice p lo hi = slice p lo (lo + 17) @ slice p (lo + 17) hi"
  proof -
    have "take (17 + (hi - (lo + 17))) (drop lo p) = take 17 (drop lo p) @ take (hi - (lo + 17)) (drop (lo + 17) p)"
      by (simp add: take_add add.commute)
    then show ?thesis
      using assms(2) by (simp add: slice_def)
  qed
  then show ?thesis
    using decodeInfo_bytes assms(1) by simp
qed

lemma length_lacp_payload [simp]: "length (f_Payload (lacp_Encode pdu src)) = 110"
  by (simp add: lacp_Encode_def Let_def encodeInfo_blit byte_simps)

lemma read_prefix:
  "i < length p \<Longrightarrow> idx (p @ pad) i = idx p i"
  "hi \<le> length p \<Longrightarrow> sub (p @ pad) lo hi = sub p lo hi"
  by (auto simp: idx_def sub_def slice_def nth_append)

lemma lacp_decode_encode:
  "lacp_Decode ((lacp_Encode pdu src)\<lparr>f_Payload := f_Payload (lacp_Encode pdu src) @ pad\<rparr>) = Some (Inr pdu)"
proof -
  let ?p = "f_Payload (lacp_Encode pdu src)"
  have i: "idx ?p 0 = Some 1" "idx ?p 3 = Some 20" "idx ?p 23 = Some 20" "idx ?p 43 = Some 16"
    "sub ?p 2 22 = Some (slice ?p 2 22)" "sub ?p 22 42 = Some (slice ?p 22 42)"
    "sub ?p 44 46 = Some (be16 (pd_CollectorMaxDelay pdu))"
    by (simp_all add: lacp_Encode_def Let_def encodeInfo_blit byte_simps info_bytes_def)
  have "slice ?p 2 (2 + 17) = info_bytes 1 (pd_Actor pdu)" "slice ?p 22 (22 + 17) = info_bytes 2 (pd_Partner pdu)"
    by (simp_all add: lacp_Encode_def Let_def encodeInfo_blit byte_simps)
  then have "decodeInfo (slice ?p 2 22) = Some (pd_Actor pdu)" "decodeInfo (slice ?p 22 42) = Some (pd_Partner pdu)"
    by (auto intro: decodeInfo_block)
  moreover have "f_EtherType (lacp_Encode pdu src) = EtherTypeSlowProtocols"
    by (simp add: lacp_Encode_def Let_def)
  ultimately show ?thesis
    by (simp add: lacp_Decode_def Let_def read_prefix i)
qed

lemma decodeInfo_total: "17 \<le> length p \<Longrightarrow> decodeInfo p \<noteq> None"
  unfolding decodeInfo_def by (intro answers) simp_all

lemma lacp_Decode_total: "lacp_Decode f \<noteq> None"
  unfolding lacp_Decode_def Let_def
  by (intro answers decodeInfo_total) (auto simp: sub_def slice_def split: if_splits)

lemma MarkerResponse_total: "MarkerResponse f src \<noteq> None"
  unfolding MarkerResponse_def Let_def by (intro answers) auto

end
