(* ===== verification/Packet_Properties.thy ===== *)
theory Packet_Properties
  imports Ip_Codec Lacp Bpdu_Codec
begin

text \<open>The properties of the IP and LACP codecs, and the one every packet codec has: none panics.\<close>

section \<open>IP\<close>

definition ex_v4 :: ip_header where
  "ex_v4 = \<lparr>ih_Src = Addr4 0xC0000201, ih_Dst = Addr4 0xC0000202, ih_HopLimit = 64, ih_Protocol = 17,
     ih_TrafficClass = 0, ih_V4 = Some \<lparr>v4_ID = 7, v4_Flags = 2, v4_FragmentOffset = 0,
       v4_Options = [1, 1, 1, 0]\<rparr>, ih_V6 = None\<rparr>"

definition ex_octets :: "byte list" where
  "ex_octets = (case ip_Encode ex_v4 [1, 2, 3] of Some (Inr bs) \<Rightarrow> bs | _ \<Rightarrow> [])"

lemma ex_encodes: "ip_Encode ex_v4 [1, 2, 3] = Some (Inr ex_octets)"
proof -
  obtain v4 where v4: "ih_V4 ex_v4 = Some v4" "length (v4_Options v4) = 4" "ih_V6 ex_v4 = None"
    "Is4 (ih_Src ex_v4)" "Is4 (ih_Dst ex_v4)"
    by (simp add: ex_v4_def)
  then obtain bs where "encodeV4 ex_v4 v4 [1, 2, 3] = Some (Inr bs)"
    using encodeV4_accepts [of ex_v4 v4 "[1, 2, 3]"] by auto
  then show ?thesis
    using v4 by (simp add: ex_octets_def ip_Encode_def)
qed

text \<open>
  C24: what the IP encoder writes the decoder reads back. Whatever follows the packet in its buffer,
  decoding an encoded header and payload answers the payload and the header, with the fields cut to
  their width on the wire and without zones.
\<close>

theorem ip_roundtrip:
  assumes "ip_Encode h payload = Some (Inr bs)"
  shows "ip_Decode (bs @ pad) = Some (Inr (wire_header h, payload))"
proof (cases "ih_V4 h")
  case None
  then obtain v6 where "ih_V6 h = Some v6" "encodeV6 h v6 payload = Some (Inr bs)"
    using assms by (auto simp: ip_Encode_def split: option.splits)
  then show ?thesis
    using decode_encodeV6 None by simp
next
  case (Some v4)
  then have "ih_V6 h = None" "encodeV4 h v4 payload = Some (Inr bs)"
    using assms by (auto simp: ip_Encode_def split: option.splits)
  then show ?thesis
    using decode_encodeV4 Some by simp
qed

theorem ip_roundtrip_witness:
  "ip_Decode (ex_octets @ [9, 9]) = Some (Inr (ex_v4, [1, 2, 3]))"
proof -
  have "wire_header ex_v4 = ex_v4"
    by (simp add: wire_header_def ex_v4_def)
  then show ?thesis
    using ip_roundtrip [OF ex_encodes, of "[9, 9]"] by simp
qed

text \<open>
  The decoder loses nothing. A packet that was decoded encodes to the very octets it was read
  from, checksum and options included; only an IPv6 packet with an IPv4-mapped address is refused
  by the encoder.
\<close>

theorem ip_reencode:
  assumes "ip_Decode b = Some (Inr (h, p))" "\<not> Is4In6 (ih_Src h)" "\<not> Is4In6 (ih_Dst h)"
  shows "\<exists>n \<le> length b. ip_Encode h p = Some (Inr (take n b))"
proof -
  have "b \<noteq> []"
    using assms(1) by (auto simp: ip_Decode_def)
  then consider "drop_bit 4 (b ! 0) = 4" "decodeV4 b = Some (Inr (h, p))"
    | "drop_bit 4 (b ! 0) = 6" "decodeV6 b = Some (Inr (h, p))"
    using assms(1) by (auto simp: ip_Decode_def idx_def Let_def split: if_splits)
  then have "\<exists>n. ip_Encode h p = Some (Inr (take n b))"
  proof cases
    case 1
    then show ?thesis
      using encode_decodeV4 by (fastforce simp: ip_Encode_def)
  next
    case 2
    then show ?thesis
      using encode_decodeV6 [OF 2(2,1) assms(2,3)] by (fastforce simp: ip_Encode_def)
  qed
  then obtain n where "ip_Encode h p = Some (Inr (take n b))"
    by blast
  moreover have "take (min n (length b)) b = take n b"
    by (simp add: min_def)
  ultimately show ?thesis
    by (intro exI [of _ "min n (length b)"]) simp
qed

theorem ip_reencode_witness:
  "\<exists>n \<le> length (ex_octets @ [9]). ip_Encode ex_v4 [1, 2, 3] = Some (Inr (take n (ex_octets @ [9])))"
proof -
  have "ip_Decode (ex_octets @ [9]) = Some (Inr (wire_header ex_v4, [1, 2, 3]))"
    using decode_encodeV4 ex_encodes by (auto simp: ip_Encode_def ex_v4_def)
  then have "ip_Decode (ex_octets @ [9]) = Some (Inr (ex_v4, [1, 2, 3]))"
    by (simp add: wire_header_def ex_v4_def)
  then show ?thesis
    by (rule ip_reencode) (simp_all add: ex_v4_def)
qed

section \<open>LACP\<close>

text \<open>
  What the LACP encoder writes the decoder reads back, from a payload of 110 octets whatever
  padding follows it.
\<close>

theorem lacp_roundtrip:
  "lacp_Decode ((lacp_Encode pdu src)\<lparr>f_Payload := f_Payload (lacp_Encode pdu src) @ pad\<rparr>) = Some (Inr pdu) \<and>
   length (f_Payload (lacp_Encode pdu src)) = 110"
  by (simp only: lacp_decode_encode length_lacp_payload simp_thms)

text \<open>
  C22: whatever octets arrive, no decoder runs into an index or a slice out of range, BPDU, SSTP, LACP,
  marker or IP: each answers a value or an error; nor does the IP encoder, whatever header it is given.
\<close>

theorem packet_codecs_never_panic:
  "Decode f \<noteq> None \<and> DecodeSSTP f \<noteq> None \<and> lacp_Decode f \<noteq> None \<and> MarkerResponse f src \<noteq> None \<and>
   ip_Decode b \<noteq> None \<and> ip_Encode h payload \<noteq> None"
  by (simp only: Decode_total DecodeSSTP_total lacp_Decode_total MarkerResponse_total ip_Decode_total
      ip_Encode_total simp_thms)

end
