(* ===== verification/Lag_Config.thy ===== *)
theory Lag_Config
  imports Effects Lacp
begin

text \<open>
  The configuration of link aggregation (\<^verbatim>\<open>src/common/sim/layer/lag/config.go\<close>): bond modes,
  the LACP settings of a group and its members, the defaults \<^verbatim>\<open>Normalize\<close> fills in and what
  \<^verbatim>\<open>Validate\<close> refuses.
\<close>

section \<open>Settings\<close>

definition defaultSystemPriority :: u16 where "defaultSystemPriority = 32768"
definition defaultPortPriority :: u16 where "defaultPortPriority = 32768"
definition fastPeriod :: duration where "fastPeriod = second"
definition slowPeriod :: duration where "slowPeriod = 30 * second"
definition timeoutMultiplier :: int where "timeoutMultiplier = 3"
definition defaultRebalanceInterval :: duration where "defaultRebalanceInterval = 10 * second"
definition minRebalanceInterval :: duration where "minRebalanceInterval = second"

lemmas lag_periods = fastPeriod_def slowPeriod_def timeoutMultiplier_def

text \<open>The string-typed modes; the empty string is \<^verbatim>\<open>ActiveBackup\<close> and \<^verbatim>\<open>Off\<close>.\<close>

datatype bond_mode = ActiveBackup | BalanceSLB | BalanceTCP | OtherMode string
datatype lacp_mode = Off | Active | Passive | OtherLACPMode string

record lag_member =
  lm_Priority :: u16
  lm_Key :: u16

record lacp_config =
  lp_Mode :: lacp_mode
  lp_Fast :: bool
  lp_SystemPriority :: u16
  lp_SystemID :: mac
  lp_Key :: u16
  lp_Fallback :: bool

record lag_group =
  lg_Mode :: bond_mode
  lg_Primary :: string
  lg_UpDelay :: duration
  lg_DownDelay :: duration
  lg_HashBasis :: u32
  lg_MinLinks :: int
  lg_RebalanceInterval :: "duration option"
  lg_LACP :: lacp_config
  lg_Members :: "(string, lag_member) gomap"

definition zero_member_cfg :: lag_member where
  "zero_member_cfg = \<lparr>lm_Priority = 0, lm_Key = 0\<rparr>"

abbreviation zero_mac :: mac where
  "zero_mac \<equiv> MAC 0 0 0 0 0 0"

definition zero_group :: lag_group where
  "zero_group = \<lparr>lg_Mode = ActiveBackup, lg_Primary = '''', lg_UpDelay = 0, lg_DownDelay = 0,
     lg_HashBasis = 0, lg_MinLinks = 0, lg_RebalanceInterval = None,
     lg_LACP = \<lparr>lp_Mode = Off, lp_Fast = False, lp_SystemPriority = 0, lp_SystemID = zero_mac,
       lp_Key = 0, lp_Fallback = False\<rparr>, lg_Members = []\<rparr>"

text \<open>\<^verbatim>\<open>Config\<close> is its only field, the map of groups.\<close>

type_synonym lag_config = "(string, lag_group) gomap"

section \<open>Defaults\<close>

definition lag_names :: "port_table \<Rightarrow> string list" where
  "lag_names tbl = sort (map pt_Name (filter (\<lambda>p. pt_Kind p = LAG) (tb_ports tbl)))"

definition member_names :: "port_table \<Rightarrow> string \<Rightarrow> string list" where
  "member_names tbl lagName = sort (map pt_Name (Members tbl lagName))"

text \<open>\<^verbatim>\<open>lagKeys[lagName] = uint16(i + 1)\<close> over the sorted names.\<close>

definition lag_keys :: "string list \<Rightarrow> (string \<rightharpoonup> u16)" where
  "lag_keys names = fold (\<lambda>(i, n) m. m(n \<mapsto> of_nat (i + 1))) (enumerate 0 names) Map.empty"

definition add_missing :: "'v \<Rightarrow> string list \<Rightarrow> (string, 'v) gomap \<Rightarrow> (string, 'v) gomap" where
  "add_missing v names m =
     fold (\<lambda>n m. if map_of m n = None then m @ [(n, v)] else m) names m"

definition normalize_lacp :: "mac \<Rightarrow> u16 \<Rightarrow> lacp_config \<Rightarrow> lacp_config" where
  "normalize_lacp systemMAC key c =
     c\<lparr>lp_SystemPriority := (if lp_SystemPriority c = 0 then defaultSystemPriority else lp_SystemPriority c),
       lp_SystemID := (if lp_SystemID c = zero_mac then systemMAC else lp_SystemID c),
       lp_Key := (if lp_Key c = 0 then key else lp_Key c)\<rparr>"

definition normalize_rebalance :: "duration option \<Rightarrow> duration option" where
  "normalize_rebalance interval =
     (case interval of
        None \<Rightarrow> Some defaultRebalanceInterval
      | Some i \<Rightarrow> if i > 0 \<and> i < minRebalanceInterval then Some minRebalanceInterval else Some i)"

definition normalize_member :: "u16 \<Rightarrow> lag_member \<Rightarrow> lag_member" where
  "normalize_member key m =
     (let m = (if lm_Priority m = 0 then m\<lparr>lm_Priority := defaultPortPriority\<rparr> else m)
      in if lm_Key m = 0 \<and> key \<noteq> 0 then m\<lparr>lm_Key := key\<rparr> else m)"

definition normalize_group :: "port_table \<Rightarrow> mac \<Rightarrow> string \<Rightarrow> lag_group \<Rightarrow> lag_group" where
  "normalize_group tbl systemMAC lagName lag =
     (let key = (case lag_keys (lag_names tbl) lagName of Some k \<Rightarrow> k | None \<Rightarrow> 0);
          lacp = normalize_lacp systemMAC key (lg_LACP lag);
          names = (if lagName \<in> set (lag_names tbl) then member_names tbl lagName else [])
      in lag\<lparr>lg_LACP := lacp,
             lg_RebalanceInterval := normalize_rebalance (lg_RebalanceInterval lag),
             lg_Members := map_vals (\<lambda>_. normalize_member (lp_Key lacp))
               (add_missing zero_member_cfg names (lg_Members lag))\<rparr>)"

definition lag_Normalize :: "port_table \<Rightarrow> mac \<Rightarrow> lag_config \<Rightarrow> lag_config" where
  "lag_Normalize tbl systemMAC c =
     map_vals (normalize_group tbl systemMAC) (add_missing zero_group (lag_names tbl) c)"

section \<open>Validation\<close>

datatype lag_error =
    LagPortAbsent string
  | NotALag string kind
  | UnknownBondMode string string
  | UnknownLACPMode string string
  | GroupSystemID string mac
  | NegativeUpDelay string duration
  | NegativeDownDelay string duration
  | NegativeRebalance string duration
  | MinLinksRange string int nat
  | PrimaryNotMember string string
  | ConfiguredNotMember string string

definition validate_group :: "port_table \<Rightarrow> string \<Rightarrow> lag_group \<Rightarrow> lag_error option" where
  "validate_group tbl lagName g =
     (case Table_Port tbl lagName of
        None \<Rightarrow> Some (LagPortAbsent lagName)
      | Some p \<Rightarrow>
          if pt_Kind p \<noteq> LAG then Some (NotALag lagName (pt_Kind p)) else
          or_else (case lg_Mode g of OtherMode m \<Rightarrow> Some (UnknownBondMode lagName m) | _ \<Rightarrow> None)
         (or_else (case lp_Mode (lg_LACP g) of
                     OtherLACPMode m \<Rightarrow> Some (UnknownLACPMode lagName m) | _ \<Rightarrow> None)
           (if mac_IsGroup (lp_SystemID (lg_LACP g))
            then Some (GroupSystemID lagName (lp_SystemID (lg_LACP g)))
            else if lg_UpDelay g < 0 then Some (NegativeUpDelay lagName (lg_UpDelay g))
            else if lg_DownDelay g < 0 then Some (NegativeDownDelay lagName (lg_DownDelay g))
            else
              or_else (case lg_RebalanceInterval g of
                         Some i \<Rightarrow> if i < 0 then Some (NegativeRebalance lagName i) else None
                       | None \<Rightarrow> None)
               (let names = map pt_Name (Members tbl lagName) in
                if lg_MinLinks g < 0 \<or> lg_MinLinks g > int (length names)
                then Some (MinLinksRange lagName (lg_MinLinks g) (length names))
                else if lg_Primary g \<noteq> '''' \<and> lg_Primary g \<notin> set names
                then Some (PrimaryNotMember lagName (lg_Primary g))
                else first_error (\<lambda>n. if n \<notin> set names then Some (ConfiguredNotMember lagName n) else None)
                       (sortedKeys (lg_Members g))))))"

definition group_of :: "lag_config \<Rightarrow> string \<Rightarrow> lag_group" where
  "group_of c name = (case map_of c name of Some g \<Rightarrow> g | None \<Rightarrow> zero_group)"

definition lag_Validate :: "port_table \<Rightarrow> lag_config \<Rightarrow> lag_error option" where
  "lag_Validate tbl c = first_error (\<lambda>name. validate_group tbl name (group_of c name)) (sortedKeys c)"

end
