(* ===== verification/Lag_State.thy ===== *)
theory Lag_State
  imports Lag_Config
begin

unbundle bit_operations_syntax

text \<open>
  The state of link aggregation (\<^verbatim>\<open>layer.go\<close>, \<^verbatim>\<open>lacp.go\<close> and \<^verbatim>\<open>transmit.go\<close> of
  \<^verbatim>\<open>src/common/sim/layer/lag\<close>): groups and members with their receive, mux and periodic
  states, and the operations on a single member. The maps of pointers are lists of entries that are
  updated in place; a group or member is named by its key.
\<close>

section \<open>Records\<close>

datatype lag_status = PortDisabled | Current | Expired | Defaulted
datatype mux_state = MuxDetached | MuxWaiting | MuxAttached | MuxCollectingDistributing | MuxStandby
datatype periodic_state = NoPeriodic | FastPeriodic | SlowPeriodic

record bucket_entry =
  bk_member :: string
  bk_assignedAt :: time
  bk_assigned :: bool

record lag_state =
  ls_name :: string
  ls_cfg :: lag_group
  ls_memberNames :: "string list"
  ls_enabledOrder :: "string list"
  ls_attachedMembers :: "string list"
  ls_partnerSysID :: mac
  ls_partnerSysPrio :: u16
  ls_partnerKey :: u16
  ls_aggregateWait :: time
  ls_lastActive :: string
  ls_buckets :: "bucket_entry list"

record member_state =
  ms_name :: string
  ms_lagName :: string
  ms_portID :: u16
  ms_cfg :: lag_member
  ms_carrier :: bool
  ms_linkUp :: bool
  ms_hasPendingLink :: bool
  ms_pendingLinkUp :: bool
  ms_linkDelayTimer :: time
  ms_aggregateWait :: time
  ms_attached :: bool
  ms_enabled :: bool
  ms_status :: lag_status
  ms_partnerDefaulted :: bool
  ms_partnerLearned :: bool
  ms_actorExpired :: bool
  ms_partner :: lacp_info
  ms_actor :: lacp_info
  ms_rxTimer :: time
  ms_periodic :: periodic_state
  ms_periodicTimer :: time
  ms_ntt :: bool
  ms_txTimes :: "time list"
  ms_txCount :: nat
  ms_lacpdusTx :: u64
  ms_lacpdusRx :: u64
  ms_badLACPDUs :: u64
  ms_needsReselect :: bool
  ms_selected :: bool
  ms_mux :: mux_state

record lag_layer =
  ly_cfg :: lag_config
  ly_ports :: port_table
  ly_systemID :: mac
  ly_now :: time
  ly_lags :: "(string, lag_state) gomap"
  ly_members :: "(string, member_state) gomap"

text \<open>
  \<^verbatim>\<open>l.lags[name]\<close> and \<^verbatim>\<open>l.members[name]\<close>; the layer only looks up names it holds, and
  the zero value stands where Go would have a nil pointer.
\<close>

definition zero_bucket :: bucket_entry where
  "zero_bucket = \<lparr>bk_member = '''', bk_assignedAt = 0, bk_assigned = False\<rparr>"

definition zero_lag :: lag_state where
  "zero_lag = \<lparr>ls_name = '''', ls_cfg = zero_group, ls_memberNames = [], ls_enabledOrder = [],
     ls_attachedMembers = [], ls_partnerSysID = zero_mac, ls_partnerSysPrio = 0, ls_partnerKey = 0,
     ls_aggregateWait = 0, ls_lastActive = '''', ls_buckets = replicate 256 zero_bucket\<rparr>"

definition zero_member :: member_state where
  "zero_member = \<lparr>ms_name = '''', ms_lagName = '''', ms_portID = 0, ms_cfg = zero_member_cfg,
     ms_carrier = False, ms_linkUp = False, ms_hasPendingLink = False, ms_pendingLinkUp = False,
     ms_linkDelayTimer = 0, ms_aggregateWait = 0, ms_attached = False, ms_enabled = False,
     ms_status = PortDisabled, ms_partnerDefaulted = False, ms_partnerLearned = False,
     ms_actorExpired = False, ms_partner = zero_info, ms_actor = zero_info, ms_rxTimer = 0,
     ms_periodic = NoPeriodic, ms_periodicTimer = 0, ms_ntt = False, ms_txTimes = [0, 0, 0],
     ms_txCount = 0, ms_lacpdusTx = 0, ms_lacpdusRx = 0, ms_badLACPDUs = 0,
     ms_needsReselect = False, ms_selected = False, ms_mux = MuxDetached\<rparr>"

definition lag_at :: "lag_layer \<Rightarrow> string \<Rightarrow> lag_state" where
  "lag_at l name = (case map_of (ly_lags l) name of Some x \<Rightarrow> x | None \<Rightarrow> zero_lag)"

definition member_at :: "lag_layer \<Rightarrow> string \<Rightarrow> member_state" where
  "member_at l name = (case map_of (ly_members l) name of Some x \<Rightarrow> x | None \<Rightarrow> zero_member)"

definition upd_lag :: "string \<Rightarrow> (lag_state \<Rightarrow> lag_state) \<Rightarrow> lag_layer \<Rightarrow> lag_layer" where
  "upd_lag name f l = l\<lparr>ly_lags := upd (ly_lags l) name f\<rparr>"

definition upd_member :: "string \<Rightarrow> (member_state \<Rightarrow> member_state) \<Rightarrow> lag_layer \<Rightarrow> lag_layer" where
  "upd_member name f l = l\<lparr>ly_members := upd (ly_members l) name f\<rparr>"

abbreviation lacp_of :: "lag_state \<Rightarrow> lacp_config" where
  "lacp_of lag \<equiv> lg_LACP (ls_cfg lag)"

abbreviation lacp_off :: "lag_state \<Rightarrow> bool" where
  "lacp_off lag \<equiv> lp_Mode (lacp_of lag) = Off"

section \<open>The state octet\<close>

abbreviation has_bit :: "byte \<Rightarrow> lacp_info \<Rightarrow> bool" where
  "has_bit b i \<equiv> i_State i AND b \<noteq> 0"

definition clear_sync :: "lacp_info \<Rightarrow> lacp_info" where
  "clear_sync i = i\<lparr>i_State := i_State i AND NOT Synchronization\<rparr>"

text \<open>The partner a member assumes when it heard none.\<close>

definition default_partner :: lacp_info where
  "default_partner = zero_info\<lparr>i_State := Synchronization OR Collecting\<rparr>"

section \<open>Partners\<close>

definition mac_Compare :: "mac \<Rightarrow> mac \<Rightarrow> int" where
  "mac_Compare a b = (if a < b then - 1 else if b < a then 1 else 0)"

definition word_Compare :: "u16 \<Rightarrow> u16 \<Rightarrow> int" where
  "word_Compare a b = (if a < b then - 1 else if b < a then 1 else 0)"

definition comparePartner :: "lacp_info \<Rightarrow> lacp_info \<Rightarrow> int" where
  "comparePartner a b =
     (if i_SystemPriority a \<noteq> i_SystemPriority b
      then word_Compare (i_SystemPriority a) (i_SystemPriority b)
      else if mac_Compare (i_SystemID a) (i_SystemID b) \<noteq> 0
      then mac_Compare (i_SystemID a) (i_SystemID b)
      else if i_Key a \<noteq> i_Key b then word_Compare (i_Key a) (i_Key b)
      else if i_PortPriority a \<noteq> i_PortPriority b
      then word_Compare (i_PortPriority a) (i_PortPriority b)
      else word_Compare (i_PortID a) (i_PortID b))"

definition sameAggregationPort :: "lacp_info \<Rightarrow> lacp_info \<Rightarrow> bool" where
  "sameAggregationPort a b \<longleftrightarrow>
     comparePartner a b = 0 \<and> i_State a AND Aggregation = i_State b AND Aggregation"

section \<open>The receive state of a member\<close>

definition recordDefault :: "member_state \<Rightarrow> member_state" where
  "recordDefault m = m\<lparr>ms_partner := default_partner, ms_partnerDefaulted := True\<rparr>"

definition disableReceive :: "member_state \<Rightarrow> member_state" where
  "disableReceive m =
     m\<lparr>ms_status := PortDisabled, ms_partner := clear_sync (ms_partner m), ms_rxTimer := 0\<rparr>"

definition expireReceive :: "time \<Rightarrow> member_state \<Rightarrow> member_state" where
  "expireReceive now m =
     m\<lparr>ms_status := Expired,
       ms_partner := (ms_partner m)\<lparr>i_State := (i_State (ms_partner m) AND NOT Synchronization) OR ShortTimeout\<rparr>,
       ms_actorExpired := True,
       ms_rxTimer := now + timeoutMultiplier * fastPeriod\<rparr>"

definition mayTx :: "lag_state \<Rightarrow> member_state \<Rightarrow> bool" where
  "mayTx lag m \<longleftrightarrow>
     (if \<not> ms_carrier m \<or> lacp_off lag then False
      else if lp_Mode (lacp_of lag) = Active then True
      else has_bit LacpActivity (ms_partner m))"

definition memberKey :: "lag_state \<Rightarrow> member_state \<Rightarrow> u16" where
  "memberKey lag m = (if lm_Key (ms_cfg m) \<noteq> 0 then lm_Key (ms_cfg m) else lp_Key (lacp_of lag))"

definition actor_state :: "lag_state \<Rightarrow> member_state \<Rightarrow> byte" where
  "actor_state lag m =
     (let s = (if lp_Mode (lacp_of lag) = Active then LacpActivity else 0);
          s = (if lp_Fast (lacp_of lag) then s OR ShortTimeout else s);
          s = s OR Aggregation;
          s = (if ms_attached m then s OR Synchronization else s);
          s = (if ms_enabled m then s OR (Collecting OR Distributing) else s);
          s = (if ms_status m = Defaulted \<or> ms_partnerDefaulted m then s OR DefaultedBit else s)
      in if ms_actorExpired m then s OR ExpiredBit else s)"

definition updateActorInfo :: "lag_state \<Rightarrow> member_state \<Rightarrow> member_state" where
  "updateActorInfo lag m =
     (let prio = (if lm_Priority (ms_cfg m) = 0 then defaultPortPriority else lm_Priority (ms_cfg m));
          actor = \<lparr>i_SystemPriority = lp_SystemPriority (lacp_of lag),
                   i_SystemID = lp_SystemID (lacp_of lag), i_Key = memberKey lag m,
                   i_PortPriority = prio, i_PortID = ms_portID m, i_State = actor_state lag m\<rparr>
      in m\<lparr>ms_ntt := (ms_ntt m \<or> ms_actor m \<noteq> actor), ms_actor := actor\<rparr>)"

section \<open>Periodic transmission\<close>

definition updatePeriodic :: "time \<Rightarrow> lag_state \<Rightarrow> member_state \<Rightarrow> member_state" where
  "updatePeriodic now lag m =
     (if \<not> mayTx lag m then m\<lparr>ms_periodic := NoPeriodic, ms_periodicTimer := 0, ms_ntt := False\<rparr>
      else
        let short = has_bit ShortTimeout (ms_partner m);
            m = (if ms_periodic m = NoPeriodic
                 then m\<lparr>ms_periodic := FastPeriodic, ms_periodicTimer := now + fastPeriod\<rparr> else m)
        in if ms_periodic m = FastPeriodic \<and> \<not> short
           then m\<lparr>ms_periodic := SlowPeriodic, ms_periodicTimer := now + slowPeriod\<rparr>
           else if (ms_periodic m = SlowPeriodic \<and> short) \<or> ms_periodicTimer m \<le> now
           then m\<lparr>ms_ntt := True, ms_periodic := (if short then FastPeriodic else SlowPeriodic),
                  ms_periodicTimer := now + (if short then fastPeriod else slowPeriod)\<rparr>
           else m)"

definition transmitWake :: "time \<Rightarrow> member_state \<Rightarrow> time" where
  "transmitWake now m =
     (if ms_txCount m = 3 \<and> ms_txTimes m ! 0 + fastPeriod > now
      then ms_txTimes m ! 0 + fastPeriod else now)"

text \<open>
  \<^verbatim>\<open>for m.txCount > 0 && ...\<close>: the times that are a second old leave, the others move down;
  the last slot keeps its value.
\<close>

fun drop_old :: "time \<Rightarrow> nat \<Rightarrow> time list \<Rightarrow> nat \<times> time list" where
  "drop_old now 0 ts = (0, ts)"
| "drop_old now (Suc c) ts =
     (if ts ! 0 + fastPeriod > now then (Suc c, ts)
      else drop_old now c (tl ts @ [last ts]))"

text \<open>The index \<^verbatim>\<open>txTimes[txCount]\<close> is written after the old times have left.\<close>

definition record_tx :: "time \<Rightarrow> member_state \<Rightarrow> member_state" where
  "record_tx now m =
     (let (c, ts) = drop_old now (ms_txCount m) (ms_txTimes m)
      in m\<lparr>ms_ntt := False, ms_txTimes := ts[c := now], ms_txCount := c + 1,
           ms_lacpdusTx := ms_lacpdusTx m + 1\<rparr>)"

definition memberSource :: "lag_layer \<Rightarrow> member_state \<Rightarrow> mac" where
  "memberSource l m =
     (let src = lp_SystemID (lacp_of (lag_at l (ms_lagName m)))
      in if src = zero_mac then ly_systemID l else src)"

definition transmit_member :: "lag_state \<Rightarrow> string \<Rightarrow> lag_layer \<times> emission list \<Rightarrow> lag_layer \<times> emission list" where
  "transmit_member lag name = (\<lambda>(l, es).
     let l = upd_member name (updatePeriodic (ly_now l) lag) l;
         m = member_at l name
     in if \<not> ms_ntt m \<or> transmitWake (ly_now l) m > ly_now l then (l, es)
        else
          let pdu = \<lparr>pd_Actor = ms_actor m, pd_Partner = ms_partner m, pd_CollectorMaxDelay = 0\<rparr>
          in (upd_member name (record_tx (ly_now l)) l,
              es @ [\<lparr>em_Port = ms_name m, em_VID = 0, em_Frame = lacp_Encode pdu (memberSource l m)\<rparr>]))"

definition transmitLag :: "string \<Rightarrow> lag_layer \<Rightarrow> lag_layer \<times> emission list" where
  "transmitLag lagName l =
     fold (transmit_member (lag_at l lagName)) (ls_memberNames (lag_at l lagName)) (l, [])"

end
