(* ===== verification/Lag_Mux.thy ===== *)
theory Lag_Mux
  imports Lag_State
begin

unbundle bit_operations_syntax

text \<open>
  Which members of a group carry traffic (\<^verbatim>\<open>updateLag\<close> of
  \<^verbatim>\<open>src/common/sim/layer/lag/lacp.go\<close> and what it calls): the selection of a partner, the
  wait of a new aggregate, attachment, collecting and distributing, and the static case without
  LACP. A function named after the code's takes the name of the group and answers the layer it
  leaves.
\<close>

section \<open>The list of enabled members\<close>

definition updateEnabledOrder :: "string list \<Rightarrow> string list \<Rightarrow> string list" where
  "updateEnabledOrder order target =
     (let kept = filter (\<lambda>n. n \<in> set target) order;
          added = filter (\<lambda>n. n \<notin> set order) target
      in kept @ sort added)"

section \<open>Selection\<close>

definition selectionCandidate :: "lag_layer \<Rightarrow> lag_state \<Rightarrow> string \<Rightarrow> bool" where
  "selectionCandidate l lag name =
     (let m = member_at l name in
      if \<not> ms_carrier m \<or> \<not> ms_partnerLearned m \<or> ms_partnerDefaulted m \<or>
         (ms_status m \<noteq> Current \<and> ms_status m \<noteq> Expired) \<or> memberKey lag m \<noteq> lp_Key (lacp_of lag)
      then False
      else if i_SystemID (ms_partner m) \<noteq> i_SystemID (ms_actor m) then True
      else case find (\<lambda>peer. peer \<noteq> name \<and>
                 i_PortID (ms_actor (member_at l peer)) = i_PortID (ms_partner m)) (ls_memberNames lag) of
             None \<Rightarrow> True
           | Some peer \<Rightarrow> name < peer)"

definition partnerInGroup :: "lacp_info \<Rightarrow> lacp_info \<Rightarrow> bool" where
  "partnerInGroup a b =
     (if \<not> has_bit Aggregation a \<or> \<not> has_bit Aggregation b then a = b
      else i_SystemPriority a = i_SystemPriority b \<and> i_SystemID a = i_SystemID b \<and> i_Key a = i_Key b)"

definition partnerMatchesStoredGroup :: "lacp_info \<Rightarrow> lag_state \<Rightarrow> bool" where
  "partnerMatchesStoredGroup info lag \<longleftrightarrow>
     i_SystemPriority info = ls_partnerSysPrio lag \<and> i_SystemID info = ls_partnerSysID lag \<and>
     i_Key info = ls_partnerKey lag"

abbreviation partner_at :: "lag_layer \<Rightarrow> string \<Rightarrow> lacp_info" where
  "partner_at l name \<equiv> ms_partner (member_at l name)"

definition lead_step :: "lag_layer \<Rightarrow> lag_state \<Rightarrow> string \<Rightarrow> string option \<Rightarrow> string option" where
  "lead_step l lag name lead =
     (if \<not> selectionCandidate l lag name then lead
      else case lead of
        None \<Rightarrow> Some name
      | Some b \<Rightarrow>
          if comparePartner (partner_at l name) (partner_at l b) < 0 \<or>
             (comparePartner (partner_at l name) (partner_at l b) = 0 \<and>
              ms_name (member_at l name) < ms_name (member_at l b))
          then Some name else lead)"

definition selection_lead :: "lag_layer \<Rightarrow> lag_state \<Rightarrow> string option" where
  "selection_lead l lag = fold (lead_step l lag) (ls_memberNames lag) None"

definition selectedMembers :: "lag_state \<Rightarrow> lag_layer \<Rightarrow> string list" where
  "selectedMembers lag l = filter (\<lambda>n. ms_selected (member_at l n)) (ls_memberNames lag)"

definition lead_target :: "lag_layer \<Rightarrow> lag_state \<Rightarrow> string \<Rightarrow> string list" where
  "lead_target l lag lead =
     (if \<not> has_bit Aggregation (partner_at l lead) then [ms_name (member_at l lead)]
      else filter (\<lambda>n. partnerInGroup (partner_at l n) (partner_at l lead) \<and>
             (selectionCandidate l lag n \<or> (\<not> ms_carrier (member_at l n) \<and> ms_selected (member_at l n))))
           (ls_memberNames lag))"

definition retained_members :: "lag_layer \<Rightarrow> lag_state \<Rightarrow> string list" where
  "retained_members l lag =
     (if ls_partnerSysID lag \<noteq> zero_mac \<or> ls_partnerKey lag \<noteq> 0
      then filter (\<lambda>n. partnerMatchesStoredGroup (partner_at l n) lag) (selectedMembers lag l)
      else [])"

definition fallback_members :: "lag_layer \<Rightarrow> lag_state \<Rightarrow> string list" where
  "fallback_members l lag =
     filter (\<lambda>n. let m = member_at l n in
               ms_carrier m \<and> ms_partnerDefaulted m \<and> ms_status m = Defaulted \<and>
               memberKey lag m = lp_Key (lacp_of lag)) (ls_memberNames lag)"

text \<open>The targets, the leading member, and whether the targets are those of the group kept so far.\<close>

definition selectionTarget :: "lag_layer \<Rightarrow> lag_state \<Rightarrow> string list \<times> string option \<times> bool" where
  "selectionTarget l lag =
     (case selection_lead l lag of
        Some lead \<Rightarrow> (lead_target l lag lead, Some lead, False)
      | None \<Rightarrow>
          if retained_members l lag \<noteq> [] then (retained_members l lag, None, True)
          else if \<not> lp_Fallback (lacp_of lag) then ([], None, False)
          else let fallback = fallback_members l lag in
            if fallback = [] then ([], None, False)
            else ([if lg_Primary (ls_cfg lag) \<noteq> '''' \<and> lg_Primary (ls_cfg lag) \<in> set fallback
                   then lg_Primary (ls_cfg lag) else Min (set fallback)], None, False))"

section \<open>Selection machine\<close>

definition reset_member :: "member_state \<Rightarrow> member_state" where
  "reset_member m =
     (if ms_needsReselect m
      then m\<lparr>ms_needsReselect := False, ms_selected := False, ms_mux := MuxDetached,
             ms_attached := False, ms_enabled := False, ms_aggregateWait := 0\<rparr>
      else m)"

definition resetReselectedMembers :: "string \<Rightarrow> lag_layer \<Rightarrow> lag_layer" where
  "resetReselectedMembers lagName l =
     fold (\<lambda>n. upd_member n reset_member) (ls_memberNames (lag_at l lagName)) l"

definition select_member :: "bool \<Rightarrow> time \<Rightarrow> member_state \<Rightarrow> member_state" where
  "select_member now_selected wait m =
     (if \<not> now_selected
      then m\<lparr>ms_selected := False, ms_mux := MuxDetached, ms_aggregateWait := 0, ms_attached := False,
             ms_enabled := False\<rparr>
      else if \<not> ms_selected m
      then m\<lparr>ms_selected := True, ms_mux := MuxWaiting, ms_aggregateWait := wait, ms_attached := False,
             ms_enabled := False\<rparr>
      else m)"

definition aggregateWaitTime :: duration where
  "aggregateWaitTime = 2 * second"

text \<open>
  One round of the loop over the members; \<open>newWait\<close> is the time the first newly selected member
  sets.
\<close>

definition selection_round :: "string list \<Rightarrow> string \<Rightarrow> lag_layer \<times> time \<Rightarrow> lag_layer \<times> time" where
  "selection_round target n = (\<lambda>(l, newWait).
     let newly = n \<in> set target \<and> \<not> ms_selected (member_at l n);
         newWait = (if newly \<and> newWait = 0 then ly_now l + aggregateWaitTime else newWait)
     in (upd_member n (select_member (n \<in> set target) newWait) l, newWait))"

definition wait_member :: "time \<Rightarrow> member_state \<Rightarrow> member_state" where
  "wait_member wait m =
     (if ms_selected m \<and> ms_mux m = MuxWaiting then m\<lparr>ms_aggregateWait := wait\<rparr> else m)"

definition store_partner :: "lag_layer \<Rightarrow> string option \<Rightarrow> bool \<Rightarrow> lag_state \<Rightarrow> lag_state" where
  "store_partner l lead isRetained lag =
     (case lead of
        Some n \<Rightarrow> lag\<lparr>ls_partnerSysID := i_SystemID (partner_at l n),
                      ls_partnerSysPrio := i_SystemPriority (partner_at l n),
                      ls_partnerKey := i_Key (partner_at l n)\<rparr>
      | None \<Rightarrow> if isRetained then lag
                else lag\<lparr>ls_partnerSysID := zero_mac, ls_partnerSysPrio := 0, ls_partnerKey := 0\<rparr>)"

definition updateSelection :: "string \<Rightarrow> lag_layer \<Rightarrow> lag_layer" where
  "updateSelection lagName l =
     (let lag = lag_at l lagName;
          (target, lead, isRetained) = selectionTarget l lag;
          l = upd_lag lagName (store_partner l lead isRetained) l;
          (l, newWait) = fold (selection_round target) (ls_memberNames lag) (l, 0)
      in if newWait \<noteq> 0
         then fold (\<lambda>n. upd_member n (wait_member newWait)) (ls_memberNames lag)
                (upd_lag lagName (\<lambda>lag. lag\<lparr>ls_aggregateWait := newWait\<rparr>) l)
         else if ls_aggregateWait lag \<noteq> 0 \<and> ls_aggregateWait lag \<le> ly_now l
         then upd_lag lagName (\<lambda>lag. lag\<lparr>ls_aggregateWait := 0\<rparr>) l
         else l)"

section \<open>Attachment\<close>

definition attach_member :: "time \<Rightarrow> member_state \<Rightarrow> member_state" where
  "attach_member now m =
     (if \<not> ms_selected m then m
      else if ms_mux m = MuxWaiting \<and> ms_aggregateWait m \<noteq> 0 \<and> ms_aggregateWait m > now
      then m\<lparr>ms_attached := False, ms_enabled := False\<rparr>
      else
        let m = (if ms_mux m = MuxWaiting then m\<lparr>ms_aggregateWait := 0, ms_mux := MuxDetached\<rparr> else m);
            mux = (if \<not> ms_carrier m then MuxDetached
                   else if \<not> ms_linkUp m then MuxStandby
                   else MuxAttached)
        in m\<lparr>ms_mux := mux, ms_attached := (mux = MuxAttached)\<rparr>)"

definition updateAttachment :: "string \<Rightarrow> lag_layer \<Rightarrow> lag_layer" where
  "updateAttachment lagName l =
     (let names = ls_memberNames (lag_at l lagName);
          l = fold (\<lambda>n. upd_member n (attach_member (ly_now l))) names l
      in if list_ex (\<lambda>n. ms_mux (member_at l n) = MuxWaiting) names then l
         else upd_lag lagName (\<lambda>lag. lag\<lparr>ls_aggregateWait := 0\<rparr>) l)"

section \<open>Collecting and distributing\<close>

definition ready :: "member_state \<Rightarrow> bool" where
  "ready m \<longleftrightarrow> ms_attached m \<and> has_bit Synchronization (ms_partner m)"

definition distribute_member :: "bool \<Rightarrow> member_state \<Rightarrow> member_state" where
  "distribute_member minLinksMet m =
     (let mux = (if ready m \<and> minLinksMet then MuxCollectingDistributing else ms_mux m)
      in m\<lparr>ms_mux := mux, ms_attached := (mux = MuxAttached \<or> mux = MuxCollectingDistributing),
           ms_enabled := (mux = MuxCollectingDistributing)\<rparr>)"

definition min_links_met :: "lag_state \<Rightarrow> nat \<Rightarrow> bool" where
  "min_links_met lag count \<longleftrightarrow> lg_MinLinks (ls_cfg lag) = 0 \<or> int count \<ge> lg_MinLinks (ls_cfg lag)"

definition updateCollectingDistributing :: "string \<Rightarrow> lag_layer \<Rightarrow> lag_layer" where
  "updateCollectingDistributing lagName l =
     (let lag = lag_at l lagName;
          names = ls_memberNames lag;
          count = length (filter (\<lambda>n. ready (member_at l n)) names);
          l = fold (\<lambda>n. upd_member n (distribute_member (min_links_met lag count))) names l;
          attached = filter (\<lambda>n. ms_attached (member_at l n)) names;
          enabled = filter (\<lambda>n. ms_enabled (member_at l n)) names
      in upd_lag lagName (\<lambda>lag. lag\<lparr>ls_attachedMembers := attached,
           ls_enabledOrder := updateEnabledOrder (ls_enabledOrder lag) enabled\<rparr>) l)"

section \<open>Without LACP\<close>

definition static_member :: "member_state \<Rightarrow> member_state" where
  "static_member m =
     m\<lparr>ms_selected := False, ms_mux := MuxDetached, ms_aggregateWait := 0, ms_attached := False,
       ms_enabled := ms_linkUp m\<rparr>"

definition updateStaticMembers :: "string \<Rightarrow> lag_layer \<Rightarrow> lag_layer" where
  "updateStaticMembers lagName l =
     (let lag = lag_at l lagName;
          names = ls_memberNames lag;
          l = fold (\<lambda>n. upd_member n static_member) names l;
          enabled = filter (\<lambda>n. ms_enabled (member_at l n)) names;
          short = \<not> min_links_met lag (length enabled);
          l = (if short then fold (\<lambda>n. upd_member n (\<lambda>m. m\<lparr>ms_enabled := False\<rparr>)) names l else l);
          enabled = (if short then [] else enabled);
          l = upd_lag lagName (\<lambda>lag. lag\<lparr>ls_enabledOrder := updateEnabledOrder (ls_enabledOrder lag) enabled,
                ls_attachedMembers := [], ls_partnerSysID := zero_mac, ls_partnerSysPrio := 0,
                ls_partnerKey := 0, ls_aggregateWait := 0\<rparr>) l
      in fold (\<lambda>n. upd_member n (updateActorInfo (lag_at l lagName))) names l)"

section \<open>The update of a group\<close>

definition lagChanged :: "string \<Rightarrow> lag_layer \<Rightarrow> lag_layer \<Rightarrow> bool" where
  "lagChanged lagName old l \<longleftrightarrow>
     ls_enabledOrder (lag_at old lagName) \<noteq> ls_enabledOrder (lag_at l lagName) \<or>
     ls_attachedMembers (lag_at old lagName) \<noteq> ls_attachedMembers (lag_at l lagName) \<or>
     list_ex (\<lambda>n. let a = member_at old n; b = member_at l n in
                ms_actor b \<noteq> ms_actor a \<or> ms_selected b \<noteq> ms_selected a \<or> ms_mux b \<noteq> ms_mux a)
       (ls_memberNames (lag_at l lagName))"

definition announce_member :: "lag_state \<Rightarrow> mux_state \<Rightarrow> member_state \<Rightarrow> member_state" where
  "announce_member lag oldMux m =
     (let m = updateActorInfo lag m
      in if ms_mux m \<noteq> oldMux \<and>
            (ms_mux m = MuxDetached \<or> ms_mux m = MuxAttached \<or> ms_mux m = MuxCollectingDistributing)
         then m\<lparr>ms_ntt := True\<rparr> else m)"

definition lacp_update :: "string \<Rightarrow> lag_layer \<Rightarrow> lag_layer" where
  "lacp_update lagName old =
     (let l = resetReselectedMembers lagName old;
          l = updateSelection lagName l;
          l = updateAttachment lagName l;
          l = updateCollectingDistributing lagName l;
          lag = lag_at l lagName
      in fold (\<lambda>n. upd_member n (announce_member lag (ms_mux (member_at old n)))) (ls_memberNames lag) l)"

definition updateLag :: "string \<Rightarrow> lag_layer \<Rightarrow> bool \<times> lag_layer" where
  "updateLag lagName old =
     (let l = (if lacp_off (lag_at old lagName) then updateStaticMembers lagName old
               else lacp_update lagName old)
      in (lagChanged lagName old l, l))"

end
