(* ===== verification/Lag_Facts.thy ===== *)
theory Lag_Facts
  imports Lag_Mux Port_Facts
begin

text \<open>
  The layer of link aggregation under its updates: lookups, the part no call changes (\<open>skeleton\<close>),
  the well-formedness that rests on it, and loops over the members of a group as one update of each
  member.
\<close>

section \<open>Lookups\<close>

definition has_member :: "lag_layer \<Rightarrow> string \<Rightarrow> bool" where
  "has_member l n \<longleftrightarrow> map_of (ly_members l) n \<noteq> None"

definition has_lag :: "lag_layer \<Rightarrow> string \<Rightarrow> bool" where
  "has_lag l n \<longleftrightarrow> map_of (ly_lags l) n \<noteq> None"

named_theorems lag_simps \<open>lookups after an update of the layer\<close>

lemma upd_member_fields [lag_simps]:
  "ly_lags (upd_member n f l) = ly_lags l" "ly_now (upd_member n f l) = ly_now l"
  "ly_cfg (upd_member n f l) = ly_cfg l" "ly_systemID (upd_member n f l) = ly_systemID l"
  "lag_at (upd_member n f l) k = lag_at l k"
  by (simp_all add: upd_member_def lag_at_def)

lemma upd_lag_fields [lag_simps]:
  "ly_members (upd_lag n f l) = ly_members l" "ly_now (upd_lag n f l) = ly_now l"
  "ly_cfg (upd_lag n f l) = ly_cfg l" "ly_systemID (upd_lag n f l) = ly_systemID l"
  "member_at (upd_lag n f l) k = member_at l k"
  by (simp_all add: upd_lag_def member_at_def)

lemma has_upd [lag_simps]:
  "has_member (upd_member n f l) k = has_member l k" "has_member (upd_lag m g l) k = has_member l k"
  "has_lag (upd_member n f l) k = has_lag l k" "has_lag (upd_lag m g l) k = has_lag l k"
  by (simp_all add: upd_member_def upd_lag_def has_member_def has_lag_def)

lemma member_at_upd [lag_simps]:
  "member_at (upd_member n f l) k = (if k = n \<and> has_member l n then f (member_at l n) else member_at l k)"
  by (auto simp: member_at_def upd_member_def has_member_def split: option.splits)

lemma lag_at_upd [lag_simps]:
  "lag_at (upd_lag n f l) k = (if k = n \<and> has_lag l n then f (lag_at l n) else lag_at l k)"
  by (auto simp: lag_at_def upd_lag_def has_lag_def split: option.splits)

section \<open>The skeleton\<close>

definition lag_frame :: "lag_state \<Rightarrow> string \<times> lag_group \<times> string list \<times> nat" where
  "lag_frame lag = (ls_name lag, ls_cfg lag, ls_memberNames lag, length (ls_buckets lag))"

definition member_frame :: "member_state \<Rightarrow> string \<times> string \<times> u16 \<times> lag_member" where
  "member_frame m = (ms_name m, ms_lagName m, ms_portID m, ms_cfg m)"

definition skeleton :: "lag_layer \<Rightarrow> _" where
  "skeleton l = (map_vals (\<lambda>_. lag_frame) (ly_lags l), map_vals (\<lambda>_. member_frame) (ly_members l))"

lemma map_vals_upd: "(\<And>x. g (f x) = g x) \<Longrightarrow> map_vals (\<lambda>_. g) (upd m k f) = map_vals (\<lambda>_. g) m"
  by (auto simp: upd_def map_vals_def)

lemma skeleton_upd:
  "(\<And>m. member_frame (f m) = member_frame m) \<Longrightarrow> skeleton (upd_member n f l) = skeleton l"
  "(\<And>lag. lag_frame (g lag) = lag_frame lag) \<Longrightarrow> skeleton (upd_lag n g l) = skeleton l"
  by (simp_all add: skeleton_def upd_member_def upd_lag_def map_vals_upd)

lemma skeleton_now [simp]: "skeleton (l\<lparr>ly_now := t\<rparr>) = skeleton l"
  by (simp add: skeleton_def)

lemma skeleton_fold:
  assumes "\<And>x s. x \<in> set xs \<Longrightarrow> skeleton (f x s) = skeleton s"
  shows "skeleton (fold f xs l) = skeleton l"
  by (rule fold_const) (use assms in blast)

lemma skeleton_lookup:
  assumes "skeleton l = skeleton l'"
  shows "map_option lag_frame (map_of (ly_lags l) n) = map_option lag_frame (map_of (ly_lags l') n)"
    and "map_option member_frame (map_of (ly_members l) n) = map_option member_frame (map_of (ly_members l') n)"
proof -
  have "map_of (fst (skeleton l)) n = map_of (fst (skeleton l')) n"
    "map_of (snd (skeleton l)) n = map_of (snd (skeleton l')) n"
    using assms by simp_all
  then show "map_option lag_frame (map_of (ly_lags l) n) = map_option lag_frame (map_of (ly_lags l') n)"
    "map_option member_frame (map_of (ly_members l) n) = map_option member_frame (map_of (ly_members l') n)"
    by (simp_all add: skeleton_def)
qed

lemma skeleton_has:
  assumes "skeleton l = skeleton l'"
  shows "has_lag l n \<longleftrightarrow> has_lag l' n" "has_member l n \<longleftrightarrow> has_member l' n"
  using skeleton_lookup [OF assms, of n] unfolding has_lag_def has_member_def by (metis option.map_disc_iff)+

lemma skeleton_at:
  assumes "skeleton l = skeleton l'"
  shows "lag_frame (lag_at l n) = lag_frame (lag_at l' n)"
    and "member_frame (member_at l n) = member_frame (member_at l' n)"
  using skeleton_lookup [OF assms, of n]
  by (auto simp: lag_at_def member_at_def split: option.splits)

lemma skeleton_sel:
  assumes "skeleton l = skeleton l'"
  shows "ls_name (lag_at l n) = ls_name (lag_at l' n)" "ls_cfg (lag_at l n) = ls_cfg (lag_at l' n)"
    "ls_memberNames (lag_at l n) = ls_memberNames (lag_at l' n)"
    "length (ls_buckets (lag_at l n)) = length (ls_buckets (lag_at l' n))"
    "ms_name (member_at l n) = ms_name (member_at l' n)"
    "ms_lagName (member_at l n) = ms_lagName (member_at l' n)"
    "ms_cfg (member_at l n) = ms_cfg (member_at l' n)"
  using skeleton_at [OF assms, of n] by (simp_all add: lag_frame_def member_frame_def)

lemma skeleton_keys:
  assumes "skeleton l = skeleton l'"
  shows "map fst (ly_lags l) = map fst (ly_lags l')" "map fst (ly_members l) = map fst (ly_members l')"
    "sortedKeys (ly_lags l) = sortedKeys (ly_lags l')" "sortedKeys (ly_members l) = sortedKeys (ly_members l')"
proof -
  show k: "map fst (ly_lags l) = map fst (ly_lags l')" "map fst (ly_members l) = map fst (ly_members l')"
    using assms by (metis skeleton_def keys_map_vals prod.inject)+
  show "sortedKeys (ly_lags l) = sortedKeys (ly_lags l')" "sortedKeys (ly_members l) = sortedKeys (ly_members l')"
    by (simp_all add: sortedKeys_def k)
qed

section \<open>Well-formed layers\<close>

text \<open>
  Every group knows its members and every member its group; the names are the keys.
\<close>

definition wf_lags :: "lag_layer \<Rightarrow> bool" where
  "wf_lags l \<longleftrightarrow>
     distinct (map fst (ly_lags l)) \<and> distinct (map fst (ly_members l)) \<and>
     (\<forall>g. has_lag l g \<longrightarrow>
        ls_name (lag_at l g) = g \<and> distinct (ls_memberNames (lag_at l g)) \<and>
        length (ls_buckets (lag_at l g)) = 256 \<and>
        (\<forall>n \<in> set (ls_memberNames (lag_at l g)).
           has_member l n \<and> ms_lagName (member_at l n) = g)) \<and>
     (\<forall>n. has_member l n \<longrightarrow>
        ms_name (member_at l n) = n \<and> has_lag l (ms_lagName (member_at l n)) \<and>
        n \<in> set (ls_memberNames (lag_at l (ms_lagName (member_at l n)))))"

lemma wf_skeleton: "skeleton l = skeleton l' \<Longrightarrow> wf_lags l \<longleftrightarrow> wf_lags l'"
  unfolding wf_lags_def by (simp add: skeleton_sel [of l l'] skeleton_has [of l l'] skeleton_keys [of l l'])

lemma wf_group:
  assumes "wf_lags l" "has_lag l g"
  shows "distinct (ls_memberNames (lag_at l g))" "length (ls_buckets (lag_at l g)) = 256" "ls_name (lag_at l g) = g"
    "n \<in> set (ls_memberNames (lag_at l g)) \<Longrightarrow> has_member l n \<and> ms_lagName (member_at l n) = g \<and> ms_name (member_at l n) = n"
  using assms by (auto simp: wf_lags_def)

lemma wf_member:
  assumes "wf_lags l" "has_member l n"
  shows "ms_name (member_at l n) = n" "has_lag l (ms_lagName (member_at l n))"
    "n \<in> set (ls_memberNames (lag_at l (ms_lagName (member_at l n))))"
  using assms by (auto simp: wf_lags_def)

text \<open>Writing back what was computed from the entry is updating the entry.\<close>

lemma upd_const: "distinct (map fst m) \<Longrightarrow> map_of m k = Some v \<Longrightarrow> upd m k (\<lambda>_. f v) = upd m k f"
  by (auto simp: upd_def map_vals_def dest!: map_of_SomeD dest: eq_key_imp_eq_value)

lemma upd_absent: "map_of m k = None \<Longrightarrow> upd m k f = m"
  by (induction m) (auto simp: upd_def map_vals_def split: if_splits)

lemma write_member: "wf_lags l \<Longrightarrow> upd_member n (\<lambda>_. f (member_at l n)) l = upd_member n f l"
  by (cases "map_of (ly_members l) n")
    (simp_all add: wf_lags_def upd_member_def member_at_def upd_const upd_absent)

lemma write_lag: "wf_lags l \<Longrightarrow> upd_lag n (\<lambda>_. f (lag_at l n)) l = upd_lag n f l"
  by (cases "map_of (ly_lags l) n") (simp_all add: wf_lags_def upd_lag_def lag_at_def upd_const upd_absent)

section \<open>Loops over members\<close>

text \<open>A loop that gives every member of a list its own update.\<close>

abbreviation each_member :: "(string \<Rightarrow> member_state \<Rightarrow> member_state) \<Rightarrow> string list \<Rightarrow> lag_layer \<Rightarrow> lag_layer" where
  "each_member F names l \<equiv> fold (\<lambda>n. upd_member n (F n)) names l"

lemma each_fields [lag_simps]:
  "ly_lags (each_member F names l) = ly_lags l" "ly_now (each_member F names l) = ly_now l"
  "ly_cfg (each_member F names l) = ly_cfg l" "ly_systemID (each_member F names l) = ly_systemID l"
  "lag_at (each_member F names l) g = lag_at l g"
  "has_member (each_member F names l) k = has_member l k" "has_lag (each_member F names l) k = has_lag l k"
  by (induction names arbitrary: l) (simp_all add: lag_simps)

lemma each_at:
  assumes "distinct names" "\<forall>n \<in> set names. has_member l n"
  shows "member_at (each_member F names l) k =
    (if k \<in> set names then F k (member_at l k) else member_at l k)"
  using assms
proof (induction names arbitrary: l)
  case (Cons n names)
  then have "\<forall>k \<in> set names. has_member (upd_member n (F n) l) k"
    by (simp add: lag_simps)
  then show ?case
    using Cons by (auto simp: lag_simps)
qed simp

lemma each_skeleton:
  assumes "\<And>n m. member_frame (F n m) = member_frame m"
  shows "skeleton (each_member F names l) = skeleton l"
  by (rule skeleton_fold) (rule skeleton_upd, rule assms)

lemma filter_members_cong:
  "(\<And>n. n \<in> set names \<Longrightarrow> P (member_at l n) = Q n) \<Longrightarrow> filter (\<lambda>n. P (member_at l n)) names = filter Q names"
  by (rule filter_cong) simp_all

section \<open>The list of enabled members\<close>

lemma enabled_order_set: "set (updateEnabledOrder order target) = set target"
  by (auto simp: updateEnabledOrder_def)

lemma enabled_order_distinct:
  "distinct order \<Longrightarrow> distinct target \<Longrightarrow> distinct (updateEnabledOrder order target)"
  by (auto simp: updateEnabledOrder_def)

text \<open>The members that stay keep their order, at the front.\<close>

lemma enabled_order_keeps:
  "filter (\<lambda>n. n \<in> set target) order = filter (\<lambda>n. n \<in> set order) (updateEnabledOrder order target)"
  by (auto simp: updateEnabledOrder_def filter_empty_conv intro!: filter_cong)

end
