(* ===== verification/Lag_Update.thy ===== *)
theory Lag_Update
  imports Lag_Facts
begin

unbundle bit_operations_syntax

text \<open>
  What an update of a group establishes (\<open>group_ok\<close>), whatever state its members were in: the list
  of enabled members is the set of them, each has its link, and under LACP is selected, attached and
  in step with a partner that all selected members share.
\<close>

section \<open>Agreement with a partner\<close>

definition same_system :: "lacp_info \<Rightarrow> lacp_info \<Rightarrow> bool" where
  "same_system a b \<longleftrightarrow>
     i_SystemPriority a = i_SystemPriority b \<and> i_SystemID a = i_SystemID b \<and> i_Key a = i_Key b"

lemma same_system_refl [simp]: "same_system a a"
  by (simp add: same_system_def)

lemma same_system_trans: "same_system a b \<Longrightarrow> same_system c b \<Longrightarrow> same_system a c"
  by (simp add: same_system_def)

lemma partnerInGroup_same: "partnerInGroup a b \<Longrightarrow> same_system a b"
  by (auto simp: partnerInGroup_def same_system_def split: if_splits)

lemma stored_same: "partnerMatchesStoredGroup a lag \<Longrightarrow> partnerMatchesStoredGroup b lag \<Longrightarrow> same_system a b"
  by (simp add: partnerMatchesStoredGroup_def same_system_def)

section \<open>What an update establishes\<close>

text \<open>A member of a group that runs LACP.\<close>

definition lacp_member_ok :: "member_state \<Rightarrow> bool" where
  "lacp_member_ok m \<longleftrightarrow>
     (ms_enabled m \<longrightarrow> ms_attached m \<and> has_bit Synchronization (ms_partner m)) \<and>
     (ms_attached m \<longrightarrow> ms_selected m \<and> ms_carrier m \<and> ms_linkUp m)"

definition group_ok :: "lag_layer \<Rightarrow> string \<Rightarrow> bool" where
  "group_ok l g \<longleftrightarrow>
     (let lag = lag_at l g; names = ls_memberNames lag in
      distinct (ls_enabledOrder lag) \<and>
      set (ls_enabledOrder lag) = {n \<in> set names. ms_enabled (member_at l n)} \<and>
      ls_attachedMembers lag = filter (\<lambda>n. ms_attached (member_at l n)) names \<and>
      (ls_enabledOrder lag = [] \<or> min_links_met lag (length (ls_enabledOrder lag))) \<and>
      (\<forall>n \<in> set names. ms_enabled (member_at l n) \<longrightarrow> ms_linkUp (member_at l n)) \<and>
      (lacp_off lag \<or>
        (\<forall>n \<in> set names. lacp_member_ok (member_at l n)) \<and>
        (\<forall>n \<in> set names. \<forall>k \<in> set names.
           ms_selected (member_at l n) \<and> ms_selected (member_at l k) \<longrightarrow>
           same_system (partner_at l n) (partner_at l k))))"

text \<open>Only these fields matter.\<close>

definition member_core :: "member_state \<Rightarrow> _" where
  "member_core m = (ms_carrier m, ms_linkUp m, ms_partner m, ms_selected m, ms_attached m, ms_enabled m)"

definition lag_core :: "lag_state \<Rightarrow> _" where
  "lag_core lag = (ls_cfg lag, ls_memberNames lag, ls_attachedMembers lag)"

lemma member_core_sel:
  assumes "member_core m = member_core m'"
  shows "ms_carrier m = ms_carrier m'" "ms_linkUp m = ms_linkUp m'" "ms_partner m = ms_partner m'"
    "ms_selected m = ms_selected m'" "ms_attached m = ms_attached m'" "ms_enabled m = ms_enabled m'"
  using assms by (simp_all add: member_core_def)

lemma group_ok_cong:
  assumes lag: "lag_core (lag_at l g) = lag_core (lag_at l' g)"
    and order: "set (ls_enabledOrder (lag_at l g)) = set (ls_enabledOrder (lag_at l' g))"
      "distinct (ls_enabledOrder (lag_at l g)) \<longleftrightarrow> distinct (ls_enabledOrder (lag_at l' g))"
    and members: "\<And>n. n \<in> set (ls_memberNames (lag_at l g)) \<Longrightarrow>
      member_core (member_at l n) = member_core (member_at l' n)"
  shows "group_ok l g = group_ok l' g"
proof -
  have s: "ls_cfg (lag_at l g) = ls_cfg (lag_at l' g)" "ls_memberNames (lag_at l g) = ls_memberNames (lag_at l' g)"
    "ls_attachedMembers (lag_at l g) = ls_attachedMembers (lag_at l' g)"
    using lag by (simp_all add: lag_core_def)
  let ?names = "ls_memberNames (lag_at l' g)"
  have m: "ms_carrier (member_at l n) = ms_carrier (member_at l' n)"
      "ms_linkUp (member_at l n) = ms_linkUp (member_at l' n)" "partner_at l n = partner_at l' n"
      "ms_selected (member_at l n) = ms_selected (member_at l' n)"
      "ms_attached (member_at l n) = ms_attached (member_at l' n)"
      "ms_enabled (member_at l n) = ms_enabled (member_at l' n)"
      "lacp_member_ok (member_at l n) = lacp_member_ok (member_at l' n)" if "n \<in> set ?names" for n
    using member_core_sel [OF members [unfolded s(2), OF that]] by (simp_all add: lacp_member_ok_def)
  have f: "filter (\<lambda>n. ms_attached (member_at l n)) ?names = filter (\<lambda>n. ms_attached (member_at l' n)) ?names"
    by (rule filter_cong) (simp_all add: m)
  have e: "{n \<in> set ?names. ms_enabled (member_at l n)} = {n \<in> set ?names. ms_enabled (member_at l' n)}"
    using m(6) by blast
  have u: "(\<forall>n \<in> set ?names. ms_enabled (member_at l n) \<longrightarrow> ms_linkUp (member_at l n)) \<longleftrightarrow>
      (\<forall>n \<in> set ?names. ms_enabled (member_at l' n) \<longrightarrow> ms_linkUp (member_at l' n))"
    "(\<forall>n \<in> set ?names. lacp_member_ok (member_at l n)) \<longleftrightarrow> (\<forall>n \<in> set ?names. lacp_member_ok (member_at l' n))"
    "(\<forall>n \<in> set ?names. \<forall>k \<in> set ?names. ms_selected (member_at l n) \<and> ms_selected (member_at l k) \<longrightarrow>
       same_system (partner_at l n) (partner_at l k)) \<longleftrightarrow>
     (\<forall>n \<in> set ?names. \<forall>k \<in> set ?names. ms_selected (member_at l' n) \<and> ms_selected (member_at l' k) \<longrightarrow>
       same_system (partner_at l' n) (partner_at l' k))"
    using m by simp_all
  have len: "distinct (ls_enabledOrder (lag_at l g)) \<Longrightarrow>
      length (ls_enabledOrder (lag_at l g)) = length (ls_enabledOrder (lag_at l' g))"
    using order by (metis distinct_card)
  have nil: "ls_enabledOrder (lag_at l g) = [] \<longleftrightarrow> ls_enabledOrder (lag_at l' g) = []"
    using order(1) by (metis set_empty)
  show ?thesis
    using order len unfolding group_ok_def Let_def s f e u min_links_met_def
    by (cases "distinct (ls_enabledOrder (lag_at l g))") (simp_all add: nil)
qed

section \<open>Without LACP\<close>

lemma updateActorInfo_core [simp]:
  "member_core (updateActorInfo lag m) = member_core m" "member_frame (updateActorInfo lag m) = member_frame m"
  "ms_enabled (updateActorInfo lag m) = ms_enabled m" "ms_attached (updateActorInfo lag m) = ms_attached m"
  "ms_linkUp (updateActorInfo lag m) = ms_linkUp m" "ms_selected (updateActorInfo lag m) = ms_selected m"
  "ms_carrier (updateActorInfo lag m) = ms_carrier m" "ms_partner (updateActorInfo lag m) = ms_partner m"
  "ms_mux (updateActorInfo lag m) = ms_mux m"
  by (simp_all add: updateActorInfo_def Let_def member_core_def member_frame_def)

lemma static_member_sel [simp]:
  "member_frame (static_member m) = member_frame m" "ms_enabled (static_member m) = ms_linkUp m"
  "ms_attached (static_member m) = False" "ms_linkUp (static_member m) = ms_linkUp m"
  by (simp_all add: static_member_def member_frame_def)

lemma static_ok:
  assumes "wf_lags l" "has_lag l g" "distinct (ls_enabledOrder (lag_at l g))" "lacp_off (lag_at l g)"
  shows "group_ok (updateStaticMembers g l) g"
proof -
  let ?lag = "lag_at l g"
  let ?names = "ls_memberNames ?lag"
  note names = wf_group(1) [OF assms(1,2)] and has = wf_group(4) [OF assms(1,2)]
  define l1 where "l1 = each_member (\<lambda>_. static_member) ?names l"
  define up where "up = filter (\<lambda>n. ms_enabled (member_at l1 n)) ?names"
  define short where "short \<longleftrightarrow> \<not> min_links_met ?lag (length up)"
  define l2 where "l2 = (if short then each_member (\<lambda>_ m. m\<lparr>ms_enabled := False\<rparr>) ?names l1 else l1)"
  define on where "on = (if short then [] else up)"
  define l3 where "l3 = upd_lag g (\<lambda>lag. lag\<lparr>ls_enabledOrder := updateEnabledOrder (ls_enabledOrder lag) on,
      ls_attachedMembers := [], ls_partnerSysID := zero_mac, ls_partnerSysPrio := 0,
      ls_partnerKey := 0, ls_aggregateWait := 0\<rparr>) l2"
  define l4 where "l4 = each_member (\<lambda>_. updateActorInfo (lag_at l3 g)) ?names l3"
  have unfold: "updateStaticMembers g l = l4"
    by (simp add: updateStaticMembers_def Let_def l1_def up_def short_def l2_def on_def l3_def l4_def)
  have m1: "ms_enabled (member_at l1 n) = ms_linkUp (member_at l n)"
      "ms_attached (member_at l1 n) = False" "ms_linkUp (member_at l1 n) = ms_linkUp (member_at l n)"
    if "n \<in> set ?names" for n
    using that names has by (simp_all add: l1_def each_at)
  have h1: "\<forall>n \<in> set ?names. has_member l1 n"
    using has by (simp add: l1_def lag_simps)
  have m2: "ms_enabled (member_at l2 n) = (n \<in> set on)" "ms_attached (member_at l2 n) = False"
      "ms_linkUp (member_at l2 n) = ms_linkUp (member_at l n)" "n \<in> set on \<Longrightarrow> ms_linkUp (member_at l n)"
    if "n \<in> set ?names" for n
    using that names h1 m1 by (auto simp: l2_def on_def up_def each_at split: if_splits)
  have h2: "\<forall>n \<in> set ?names. has_member l3 n"
    using h1 by (simp add: l3_def l2_def lag_simps)
  have m4: "ms_enabled (member_at l4 n) = (n \<in> set on)" "ms_attached (member_at l4 n) = False"
      "ms_linkUp (member_at l4 n) = ms_linkUp (member_at l n)" if "n \<in> set ?names" for n
    using that names h2 m2 by (simp_all add: l4_def each_at) (simp_all add: l3_def lag_simps)
  have hl: "has_lag l2 g" "lag_at l2 g = ?lag"
    using assms(2) by (simp_all add: l2_def l1_def lag_simps)
  have lag: "lag_at l4 g = ?lag\<lparr>ls_enabledOrder := updateEnabledOrder (ls_enabledOrder ?lag) on,
      ls_attachedMembers := [], ls_partnerSysID := zero_mac, ls_partnerSysPrio := 0,
      ls_partnerKey := 0, ls_aggregateWait := 0\<rparr>"
    using hl by (simp add: l4_def l3_def lag_simps)
  have on: "set on \<subseteq> set ?names" "distinct on" "on = [] \<or> min_links_met ?lag (length on)"
    using names by (auto simp: on_def up_def short_def)
  have dist: "distinct (updateEnabledOrder (ls_enabledOrder ?lag) on)"
    using enabled_order_distinct assms(3) on(2) by blast
  have len: "length (updateEnabledOrder (ls_enabledOrder ?lag) on) = length on"
    using dist on(2) by (metis distinct_card enabled_order_set)
  show ?thesis
    using on assms(4) m2(4) dist len unfolding unfold group_ok_def Let_def
    by (auto simp: lag enabled_order_set m4 min_links_met_def cong: filter_cong)
qed

section \<open>Selection\<close>

text \<open>What no step of the selection and mux machines changes in a member.\<close>

definition radio :: "member_state \<Rightarrow> _" where
  "radio m = (ms_carrier m, ms_linkUp m, ms_partner m, ms_status m, ms_partnerDefaulted m, ms_rxTimer m,
     ms_txTimes m, ms_txCount m, ms_hasPendingLink m, ms_linkDelayTimer m, member_frame m)"

lemma radio_sel:
  assumes "radio m = radio m'"
  shows "ms_carrier m = ms_carrier m'" "ms_linkUp m = ms_linkUp m'" "ms_partner m = ms_partner m'"
    "member_frame m = member_frame m'"
  using assms by (simp_all add: radio_def)

lemma radio_steps [simp]:
  "radio (reset_member m) = radio m" "radio (select_member b w m) = radio m"
  "radio (wait_member w m) = radio m" "radio (attach_member now m) = radio m"
  "radio (distribute_member b m) = radio m" "radio (announce_member lag x m) = radio m"
  "radio (static_member m) = radio m" "radio (updateActorInfo lag m) = radio m"
  "radio (m\<lparr>ms_enabled := e\<rparr>) = radio m"
  by (simp_all add: radio_def member_frame_def reset_member_def select_member_def wait_member_def
      attach_member_def distribute_member_def announce_member_def updateActorInfo_def static_member_def Let_def)

lemma each_radio:
  assumes "\<And>n m. radio (F n m) = radio m"
  shows "radio (member_at (each_member F names l) k) = radio (member_at l k)"
proof (induction names arbitrary: l)
  case (Cons n names)
  then show ?case
    using assms by (simp add: lag_simps)
qed simp

text \<open>The selected members are the target, and the others are detached.\<close>

definition selection_ok :: "bool \<Rightarrow> member_state \<Rightarrow> bool" where
  "selection_ok targeted m \<longleftrightarrow> ms_selected m = targeted \<and>
     (\<not> targeted \<longrightarrow> ms_mux m = MuxDetached \<and> \<not> ms_attached m \<and> \<not> ms_enabled m)"

lemma selection_rounds:
  assumes "distinct names"
  shows "\<exists>W. fst (fold (selection_round target) names (l, w)) = each_member (\<lambda>n. select_member (n \<in> set target) (W n)) names l"
  using assms
proof (induction names arbitrary: l w)
  case (Cons n names)
  let ?new = "n \<in> set target \<and> \<not> ms_selected (member_at l n)"
  let ?w = "if ?new \<and> w = 0 then ly_now l + aggregateWaitTime else w"
  let ?l = "upd_member n (select_member (n \<in> set target) ?w) l"
  have step: "selection_round target n (l, w) = (?l, ?w)"
    by (simp add: selection_round_def Let_def)
  obtain W where "fst (fold (selection_round target) names (?l, ?w)) =
      each_member (\<lambda>n. select_member (n \<in> set target) (W n)) names ?l"
    using Cons by fastforce
  moreover have "each_member (\<lambda>k. select_member (k \<in> set target) ((W(n := ?w)) k)) names ?l =
      each_member (\<lambda>n. select_member (n \<in> set target) (W n)) names ?l"
    using Cons.prems by (intro fold_cong) auto
  ultimately show ?case
    by (intro exI [of _ "W(n := ?w)"]) (simp add: step)
qed simp

lemma select_member_ok: "selection_ok targeted (select_member targeted w m)"
  by (simp add: select_member_def selection_ok_def)

lemma wait_member_ok [simp]: "selection_ok t (wait_member w m) = selection_ok t m"
  by (simp add: wait_member_def selection_ok_def)

lemma updateSelection_members:
  assumes "wf_lags l" "has_lag l g" "n \<in> set (ls_memberNames (lag_at l g))"
  shows "selection_ok (n \<in> set (fst (selectionTarget l (lag_at l g)))) (member_at (updateSelection g l) n)"
proof -
  let ?names = "ls_memberNames (lag_at l g)"
  obtain target lead ret where t: "selectionTarget l (lag_at l g) = (target, lead, ret)"
    by (metis prod_cases3)
  let ?l1 = "upd_lag g (store_partner l lead ret) l"
  obtain W where W: "fst (fold (selection_round target) ?names (?l1, 0)) =
      each_member (\<lambda>n. select_member (n \<in> set target) (W n)) ?names ?l1"
    using selection_rounds [OF wf_group(1) [OF assms(1,2)]] by blast
  let ?l2 = "each_member (\<lambda>n. select_member (n \<in> set target) (W n)) ?names ?l1"
  have h: "\<forall>k \<in> set ?names. has_member ?l1 k"
    using wf_group(4) [OF assms(1,2)] by (simp add: lag_simps)
  have 2: "selection_ok (n \<in> set target) (member_at ?l2 n)"
    using each_at [OF wf_group(1) [OF assms(1,2)] h] assms(3) by (simp add: select_member_ok)
  obtain w where f: "fold (selection_round target) ?names (?l1, 0) = (?l2, w)"
    using W by (metis prod.collapse)
  have h3: "\<forall>k \<in> set ?names. has_member (upd_lag g f ?l2) k" for f
    using h by (simp add: lag_simps)
  have "selection_ok (n \<in> set target)
      (member_at (each_member (\<lambda>_. wait_member w) ?names (upd_lag g (\<lambda>lag. lag\<lparr>ls_aggregateWait := w\<rparr>) ?l2)) n)"
    using each_at [OF wf_group(1) [OF assms(1,2)] h3] assms(3) 2 by (simp add: lag_simps)
  then show ?thesis
    using 2 by (simp add: updateSelection_def t f Let_def lag_simps)
qed

section \<open>Steps inside one group\<close>

text \<open>
  A step of group \<open>g\<close>: it leaves other groups and their members as they are, and of its own members
  the links, partners and timers.
\<close>

definition group_step :: "string \<Rightarrow> lag_layer \<Rightarrow> lag_layer \<Rightarrow> bool" where
  "group_step g l l' \<longleftrightarrow>
     skeleton l' = skeleton l \<and> ly_now l' = ly_now l \<and>
     (\<forall>k. k \<notin> set (ls_memberNames (lag_at l g)) \<longrightarrow> member_at l' k = member_at l k) \<and>
     (\<forall>h. h \<noteq> g \<longrightarrow> lag_at l' h = lag_at l h) \<and>
     (\<forall>k. radio (member_at l' k) = radio (member_at l k))"

lemma group_step_refl [simp]: "group_step g l l"
  by (simp add: group_step_def)

lemma group_step_trans: "group_step g l l' \<Longrightarrow> group_step g l' l'' \<Longrightarrow> group_step g l l''"
  using skeleton_sel(3) [of l' l g] by (simp add: group_step_def)

lemma group_stepD:
  assumes "group_step g l l'"
  shows "skeleton l' = skeleton l" "ly_now l' = ly_now l" "has_lag l' h = has_lag l h"
    "has_member l' k = has_member l k" "ls_memberNames (lag_at l' h) = ls_memberNames (lag_at l h)"
    "ls_cfg (lag_at l' h) = ls_cfg (lag_at l h)" "wf_lags l' = wf_lags l"
    "h \<noteq> g \<Longrightarrow> lag_at l' h = lag_at l h"
    "k \<notin> set (ls_memberNames (lag_at l g)) \<Longrightarrow> member_at l' k = member_at l k"
    "radio (member_at l' k) = radio (member_at l k)"
  using assms skeleton_has [of l' l] skeleton_sel(2,3) [of l' l h] wf_skeleton [of l' l]
  by (simp_all add: group_step_def)

lemma radio_frame: "radio m = radio m' \<Longrightarrow> member_frame m = member_frame m'"
  by (simp add: radio_def)

lemma each_step:
  assumes "\<And>n m. radio (F n m) = radio m" "set names \<subseteq> set (ls_memberNames (lag_at l g))"
  shows "group_step g l (each_member F names l)"
proof -
  have "member_at (each_member F names l) k = member_at l k" if "k \<notin> set names" for k
    using that by (induction names arbitrary: l) (simp_all add: lag_simps)
  moreover have "skeleton (each_member F names l) = skeleton l"
    by (rule each_skeleton) (rule radio_frame, rule assms(1))
  ultimately show ?thesis
    using assms(2) by (auto simp: group_step_def lag_simps each_radio [OF assms(1)])
qed

lemma lag_step:
  assumes "\<And>lag. lag_frame (f lag) = lag_frame lag"
  shows "group_step g l (upd_lag g f l)"
  by (simp add: group_step_def skeleton_upd(2) [OF assms] lag_simps)

lemma store_partner_frame [simp]: "lag_frame (store_partner l lead ret lag) = lag_frame lag"
  "ls_enabledOrder (store_partner l lead ret lag) = ls_enabledOrder lag"
  by (simp_all add: store_partner_def lag_frame_def split: option.splits)

lemma reset_step: "group_step g l (resetReselectedMembers g l)"
  unfolding resetReselectedMembers_def by (rule each_step) simp_all

lemma selection_step:
  assumes "wf_lags l" "has_lag l g"
  shows "group_step g l (updateSelection g l)"
    and "ls_enabledOrder (lag_at (updateSelection g l) g) = ls_enabledOrder (lag_at l g)"
proof -
  let ?names = "ls_memberNames (lag_at l g)"
  obtain target lead ret where t: "selectionTarget l (lag_at l g) = (target, lead, ret)"
    by (metis prod_cases3)
  let ?l1 = "upd_lag g (store_partner l lead ret) l"
  obtain W where W: "fst (fold (selection_round target) ?names (?l1, 0)) =
      each_member (\<lambda>n. select_member (n \<in> set target) (W n)) ?names ?l1"
    using selection_rounds [OF wf_group(1) [OF assms]] by blast
  let ?l2 = "each_member (\<lambda>n. select_member (n \<in> set target) (W n)) ?names ?l1"
  obtain w where f: "fold (selection_round target) ?names (?l1, 0) = (?l2, w)"
    using W by (metis prod.collapse)
  have 1: "group_step g l ?l1"
    by (rule lag_step) simp
  have "group_step g ?l1 ?l2"
    by (rule each_step) (simp_all add: group_stepD(5) [OF 1])
  then have 2: "group_step g l ?l2"
    using group_step_trans 1 by blast
  have 3: "group_step g l (upd_lag g (\<lambda>lag. lag\<lparr>ls_aggregateWait := x\<rparr>) ?l2)" for x
    by (rule group_step_trans [OF 2], rule lag_step) (simp add: lag_frame_def)
  have "group_step g l (each_member (\<lambda>_. wait_member w) ?names (upd_lag g (\<lambda>lag. lag\<lparr>ls_aggregateWait := w\<rparr>) ?l2))"
    by (rule group_step_trans [OF 3], rule each_step) (simp_all add: group_stepD(5) [OF 3])
  then show "group_step g l (updateSelection g l)"
    using 2 3 by (simp add: updateSelection_def t f Let_def)
  show "ls_enabledOrder (lag_at (updateSelection g l) g) = ls_enabledOrder (lag_at l g)"
    by (simp add: updateSelection_def t f Let_def lag_simps)
qed

section \<open>Attachment and distribution\<close>

lemma attachment_step: "group_step g l (updateAttachment g l)"
  "ls_enabledOrder (lag_at (updateAttachment g l) g) = ls_enabledOrder (lag_at l g)"
proof -
  let ?names = "ls_memberNames (lag_at l g)"
  let ?l = "each_member (\<lambda>_. attach_member (ly_now l)) ?names l"
  have 1: "group_step g l ?l"
    by (rule each_step) simp_all
  have "group_step g l (upd_lag g (\<lambda>lag. lag\<lparr>ls_aggregateWait := 0\<rparr>) ?l)"
    by (rule group_step_trans [OF 1], rule lag_step) (simp add: lag_frame_def)
  then show "group_step g l (updateAttachment g l)"
    using 1 by (simp add: updateAttachment_def Let_def)
  show "ls_enabledOrder (lag_at (updateAttachment g l) g) = ls_enabledOrder (lag_at l g)"
    by (simp add: updateAttachment_def Let_def lag_simps)
qed

text \<open>After the attachment nobody distributes, and who is attached is selected and has its link.\<close>

definition attached_ok :: "member_state \<Rightarrow> bool" where
  "attached_ok m \<longleftrightarrow> ms_mux m \<noteq> MuxCollectingDistributing \<and> (ms_attached m \<longleftrightarrow> ms_mux m = MuxAttached) \<and>
     (ms_attached m \<longrightarrow> ms_selected m \<and> ms_carrier m \<and> ms_linkUp m)"

lemma attach_member_ok: "selection_ok t m \<Longrightarrow> attached_ok (attach_member now m) \<and> ms_selected (attach_member now m) = ms_selected m"
  by (auto simp: attach_member_def selection_ok_def attached_ok_def Let_def)

lemma updateAttachment_members:
  assumes "wf_lags l" "has_lag l g" "n \<in> set (ls_memberNames (lag_at l g))" "selection_ok t (member_at l n)"
  shows "attached_ok (member_at (updateAttachment g l) n)"
    "ms_selected (member_at (updateAttachment g l) n) = ms_selected (member_at l n)"
proof -
  have "\<forall>k \<in> set (ls_memberNames (lag_at l g)). has_member l k"
    using wf_group(4) [OF assms(1,2)] by simp
  note e = each_at [OF wf_group(1) [OF assms(1,2)] this]
  show "attached_ok (member_at (updateAttachment g l) n)"
    "ms_selected (member_at (updateAttachment g l) n) = ms_selected (member_at l n)"
    using attach_member_ok [OF assms(4)] assms(3)
    by (simp_all add: updateAttachment_def Let_def lag_simps e)
qed

lemma distribute_sel:
  assumes "attached_ok m"
  shows "ms_enabled (distribute_member met m) \<longleftrightarrow> ready m \<and> met"
    "ms_attached (distribute_member met m) = ms_attached m"
    "lacp_member_ok (distribute_member met m)"
    "ms_selected (distribute_member met m) = ms_selected m"
  using assms by (auto simp: distribute_member_def Let_def attached_ok_def ready_def lacp_member_ok_def)

lemma distribution_step: "group_step g l (updateCollectingDistributing g l)"
proof -
  have 1: "group_step g l (each_member (\<lambda>_. distribute_member met) (ls_memberNames (lag_at l g)) l)" for met
    by (rule each_step) simp_all
  show ?thesis
    unfolding updateCollectingDistributing_def Let_def
    by (rule group_step_trans [OF 1], rule lag_step) (simp add: lag_frame_def)
qed

text \<open>What is left after the distribution: the lists are those of the members, and enough are ready.\<close>

lemma distribution_ok:
  assumes "wf_lags l" "has_lag l g" "distinct (ls_enabledOrder (lag_at l g))"
    and ok: "\<forall>n \<in> set (ls_memberNames (lag_at l g)). attached_ok (member_at l n)"
    and share: "\<forall>n \<in> set (ls_memberNames (lag_at l g)). \<forall>k \<in> set (ls_memberNames (lag_at l g)).
      ms_selected (member_at l n) \<and> ms_selected (member_at l k) \<longrightarrow> same_system (partner_at l n) (partner_at l k)"
  shows "group_ok (updateCollectingDistributing g l) g"
proof -
  let ?lag = "lag_at l g"
  let ?names = "ls_memberNames ?lag"
  note names = wf_group(1) [OF assms(1,2)]
  have has: "\<forall>k \<in> set ?names. has_member l k"
    using wf_group(4) [OF assms(1,2)] by simp
  define count where "count = length (filter (\<lambda>n. ready (member_at l n)) ?names)"
  define met where "met = min_links_met ?lag count"
  define l1 where "l1 = each_member (\<lambda>_. distribute_member met) ?names l"
  define on where "on = filter (\<lambda>n. ms_enabled (member_at l1 n)) ?names"
  define l2 where "l2 = upd_lag g (\<lambda>lag. lag\<lparr>ls_attachedMembers := filter (\<lambda>n. ms_attached (member_at l1 n)) ?names,
    ls_enabledOrder := updateEnabledOrder (ls_enabledOrder lag) on\<rparr>) l1"
  have unfold: "updateCollectingDistributing g l = l2"
    by (simp add: updateCollectingDistributing_def Let_def count_def met_def l1_def on_def l2_def)
  have m: "member_at l2 n = distribute_member met (member_at l n)" if "n \<in> set ?names" for n
    using that each_at [OF names has] by (simp add: l2_def l1_def lag_simps)
  have m1: "member_at l1 n = distribute_member met (member_at l n)" if "n \<in> set ?names" for n
    using that each_at [OF names has] by (simp add: l1_def)
  have lag: "lag_at l2 g = ?lag\<lparr>ls_attachedMembers := filter (\<lambda>n. ms_attached (member_at l1 n)) ?names,
      ls_enabledOrder := updateEnabledOrder (ls_enabledOrder ?lag) on\<rparr>"
    using assms(2) by (simp add: l2_def l1_def lag_simps)
  have same: "member_at l1 n = member_at l2 n" for n
    by (simp add: l2_def lag_simps)
  have on: "on = (if met then filter (\<lambda>n. ready (member_at l n)) ?names else [])"
    using ok by (auto simp: on_def m1 distribute_sel filter_empty_conv intro!: filter_cong)
  have met: "on = [] \<or> min_links_met ?lag (length on)"
    by (simp add: on met_def count_def)
  have dist: "distinct (updateEnabledOrder (ls_enabledOrder ?lag) on)"
    using enabled_order_distinct [OF assms(3)] names by (simp add: on)
  have len: "length (updateEnabledOrder (ls_enabledOrder ?lag) on) = length on"
    using dist names by (metis distinct_card enabled_order_set distinct_filter on_def)
  have up: "ms_linkUp (member_at l2 n)" if "n \<in> set ?names" "ms_enabled (member_at l2 n)" for n
    using that ok distribute_sel(3) [of "member_at l n" met] by (auto simp: m lacp_member_ok_def)
  have shared: "same_system (partner_at l2 n) (partner_at l2 k)"
    if "n \<in> set ?names" "k \<in> set ?names" "ms_selected (member_at l2 n)" "ms_selected (member_at l2 k)" for n k
    using that share ok radio_sel(3) [OF radio_steps(5)] by (simp add: m distribute_sel)
  have "updateEnabledOrder (ls_enabledOrder ?lag) on = [] \<longleftrightarrow> on = []"
    using len by (metis length_0_conv)
  then show ?thesis
    using dist len met up shared ok distribute_sel(3) unfolding unfold group_ok_def Let_def
    by (auto simp: lag enabled_order_set on_def same min_links_met_def m)
qed

section \<open>The target\<close>

text \<open>All targets have the same partner.\<close>

lemma target_shares:
  assumes "n \<in> set (fst (selectionTarget l lag))" "k \<in> set (fst (selectionTarget l lag))"
  shows "same_system (partner_at l n) (partner_at l k)"
proof (cases "selection_lead l lag")
  case (Some lead)
  have "same_system (partner_at l n) (partner_at l k)"
    if "partnerInGroup (partner_at l n) (partner_at l lead)" "partnerInGroup (partner_at l k) (partner_at l lead)"
    using that by (blast dest: partnerInGroup_same intro: same_system_trans)
  then show ?thesis
    using assms Some by (auto simp: selectionTarget_def lead_target_def split: if_splits)
next
  case None
  then show ?thesis
    using assms stored_same
    by (auto simp: selectionTarget_def retained_members_def Let_def split: if_splits)
qed

lemma announce_core [simp]: "member_core (announce_member lag x m) = member_core m"
  "member_frame (announce_member lag x m) = member_frame m"
  by (simp_all add: announce_member_def Let_def member_core_def member_frame_def updateActorInfo_def)

lemma announced_ok:
  assumes "wf_lags l" "has_lag l g" "group_ok l g"
  shows "group_ok (each_member (\<lambda>n. announce_member lag (X n)) (ls_memberNames (lag_at l g)) l) g"
proof -
  have "\<forall>k \<in> set (ls_memberNames (lag_at l g)). has_member l k"
    using wf_group(4) [OF assms(1,2)] by simp
  note e = each_at [OF wf_group(1) [OF assms(1,2)] this]
  have "group_ok (each_member (\<lambda>n. announce_member lag (X n)) (ls_memberNames (lag_at l g)) l) g = group_ok l g"
    by (rule group_ok_cong) (simp_all add: lag_simps e)
  then show ?thesis
    using assms(3) by simp
qed

section \<open>The update\<close>

lemma announce_step: "group_step g l (each_member (\<lambda>n. announce_member lag (X n)) (ls_memberNames (lag_at l g)) l)"
  by (rule each_step) simp_all

lemma order_distinct_step:
  "ls_enabledOrder (lag_at (resetReselectedMembers g l) h) = ls_enabledOrder (lag_at l h)"
  by (simp add: resetReselectedMembers_def lag_simps)

lemma lacp_update_ok:
  assumes "wf_lags l" "has_lag l g" "distinct (ls_enabledOrder (lag_at l g))"
  shows "group_ok (lacp_update g l) g" "group_step g l (lacp_update g l)"
proof -
  let ?names = "ls_memberNames (lag_at l g)"
  define l1 where "l1 = resetReselectedMembers g l"
  define l2 where "l2 = updateSelection g l1"
  define l3 where "l3 = updateAttachment g l2"
  define l4 where "l4 = updateCollectingDistributing g l3"
  define l5 where "l5 = each_member (\<lambda>n. announce_member (lag_at l4 g) (ms_mux (member_at l n)))
    (ls_memberNames (lag_at l4 g)) l4"
  have unfold: "lacp_update g l = l5"
    by (simp add: lacp_update_def Let_def l1_def l2_def l3_def l4_def l5_def)
  have s1: "group_step g l l1"
    by (simp add: l1_def reset_step)
  note w1 = group_stepD(7,3,5) [OF s1]
  have wf1: "wf_lags l1" "has_lag l1 g"
    using assms w1 by simp_all
  have s2: "group_step g l1 l2"
    by (simp add: l2_def selection_step [OF wf1])
  note w2 = group_stepD(7,3,5) [OF s2]
  have wf2: "wf_lags l2" "has_lag l2 g"
    using wf1 w2 by simp_all
  have s3: "group_step g l2 l3"
    by (simp add: l3_def attachment_step)
  note w3 = group_stepD(7,3,5) [OF s3]
  have wf3: "wf_lags l3" "has_lag l3 g"
    using wf2 w3 by simp_all
  have s4: "group_step g l3 l4"
    by (simp add: l4_def distribution_step)
  note w4 = group_stepD(7,3,5) [OF s4]
  have wf4: "wf_lags l4" "has_lag l4 g"
    using wf3 w4 by simp_all
  have s5: "group_step g l4 l5"
    by (simp add: l5_def announce_step)
  show "group_step g l (lacp_update g l)"
    unfolding unfold using s1 s2 s3 s4 s5 group_step_trans by blast
  have order: "distinct (ls_enabledOrder (lag_at l3 g))"
    unfolding l3_def attachment_step(2) l2_def selection_step(2) [OF wf1]
    using assms(3) by (simp add: l1_def order_distinct_step)
  have names: "ls_memberNames (lag_at l3 g) = ?names" "ls_memberNames (lag_at l2 g) = ?names"
    "ls_memberNames (lag_at l1 g) = ?names"
    using w1(3) w2(3) w3(3) by simp_all
  let ?target = "set (fst (selectionTarget l1 (lag_at l1 g)))"
  have sel: "selection_ok (n \<in> ?target) (member_at l2 n)" if "n \<in> set ?names" for n
    using updateSelection_members [OF wf1, of n] that names by (simp add: l2_def)
  have att: "attached_ok (member_at l3 n)" "ms_selected (member_at l3 n) = (n \<in> ?target)"
    if "n \<in> set ?names" for n
    using updateAttachment_members [OF wf2 _ sel [OF that]] that names sel [OF that]
    by (simp_all add: l3_def selection_ok_def)
  have "partner_at l3 n = partner_at l1 n" for n
    using radio_sel(3) [OF group_stepD(10) [OF s2, of n]] radio_sel(3) [OF group_stepD(10) [OF s3, of n]] by simp
  then have "group_ok l4 g"
    unfolding l4_def
    by (intro distribution_ok [OF wf3 order])
      (simp_all add: names att target_shares [of _ l1 "lag_at l1 g"])
  then show "group_ok (lacp_update g l) g"
    unfolding unfold l5_def by (rule announced_ok [OF wf4])
qed

lemma static_step: "group_step g l (updateStaticMembers g l)"
proof -
  have 1: "group_step g l (each_member (\<lambda>_. static_member) (ls_memberNames (lag_at l g)) l)"
    by (rule each_step) simp_all
  have 2: "group_step g l (if b then each_member (\<lambda>_ m. m\<lparr>ms_enabled := False\<rparr>) (ls_memberNames (lag_at l g))
      (each_member (\<lambda>_. static_member) (ls_memberNames (lag_at l g)) l)
      else each_member (\<lambda>_. static_member) (ls_memberNames (lag_at l g)) l)" for b
    by (cases b; simp add: 1; rule group_step_trans [OF 1]; rule each_step; simp add: group_stepD(5) [OF 1])
  have 3: "group_step g l (upd_lag g (\<lambda>lag. lag\<lparr>ls_enabledOrder := F lag, ls_attachedMembers := [],
      ls_partnerSysID := zero_mac, ls_partnerSysPrio := 0, ls_partnerKey := 0, ls_aggregateWait := 0\<rparr>) l')"
    if "group_step g l l'" for F l'
    by (rule group_step_trans [OF that], rule lag_step) (simp add: lag_frame_def)
  show ?thesis
    unfolding updateStaticMembers_def Let_def
    by (rule group_step_trans [OF 3 [OF 2]], rule each_step) (simp_all add: group_stepD(5) [OF 3 [OF 2]])
qed

lemma updateLag_ok:
  assumes "wf_lags l" "has_lag l g" "distinct (ls_enabledOrder (lag_at l g))"
  shows "group_ok (snd (updateLag g l)) g" "group_step g l (snd (updateLag g l))"
  using lacp_update_ok [OF assms] static_ok [OF assms] static_step
  by (auto simp: updateLag_def Let_def)

text \<open>Other groups do not notice.\<close>

lemma group_ok_other:
  assumes "wf_lags l" "has_lag l g" "has_lag l h" "group_step g l l'" "h \<noteq> g"
  shows "group_ok l' h = group_ok l h"
proof (rule group_ok_cong)
  show "lag_core (lag_at l' h) = lag_core (lag_at l h)"
    "set (ls_enabledOrder (lag_at l' h)) = set (ls_enabledOrder (lag_at l h))"
    "distinct (ls_enabledOrder (lag_at l' h)) = distinct (ls_enabledOrder (lag_at l h))"
    using group_stepD(8) [OF assms(4,5)] by simp_all
  fix n
  assume "n \<in> set (ls_memberNames (lag_at l' h))"
  then have "ms_lagName (member_at l n) = h"
    using group_stepD(5) [OF assms(4)] wf_group(4) [OF assms(1,3)] by simp
  then have "n \<notin> set (ls_memberNames (lag_at l g))"
    using wf_group(4) [OF assms(1,2)] assms(5) by auto
  then show "member_core (member_at l' n) = member_core (member_at l n)"
    using group_stepD(9) [OF assms(4)] by simp
qed

end
