(* ===== verification/Lag_Events.thy ===== *)
theory Lag_Events
  imports Lag_Mux "HOL-Library.Monad_Syntax"
begin

unbundle bit_operations_syntax

text \<open>
  The calls of the link aggregation layer (\<^verbatim>\<open>layer.go\<close> and \<^verbatim>\<open>marker.go\<close> of
  \<^verbatim>\<open>src/common/sim/layer/lag\<close>): construction, link changes, received LACPDUs and markers,
  time, the next wake-up and the status it reports. Each answers the layer it leaves and its
  effects.
\<close>

section \<open>Construction\<close>

definition new_member :: "string \<Rightarrow> lag_group \<Rightarrow> string \<Rightarrow> member_state" where
  "new_member lagName g name =
     disableReceive (recordDefault (zero_member\<lparr>ms_name := name, ms_lagName := lagName,
       ms_cfg := (case map_of (lg_Members g) name of Some c \<Rightarrow> c | None \<Rightarrow> zero_member_cfg),
       ms_needsReselect := True, ms_mux := MuxDetached\<rparr>))"

definition new_lag :: "port_table \<Rightarrow> string \<Rightarrow> lag_group \<Rightarrow> lag_state" where
  "new_lag tbl name g = zero_lag\<lparr>ls_name := name, ls_cfg := g, ls_memberNames := member_names tbl name\<rparr>"

text \<open>\<^verbatim>\<open>layer.members[memName] = ms\<close>\<close>

definition put :: "('k, 'v) gomap \<Rightarrow> 'k \<Rightarrow> 'v \<Rightarrow> ('k, 'v) gomap" where
  "put m k v = (if map_of m k = None then m @ [(k, v)] else upd m k (\<lambda>_. v))"

definition add_group :: "lag_config \<Rightarrow> port_table \<Rightarrow> string \<Rightarrow> lag_layer \<Rightarrow> lag_layer" where
  "add_group c tbl name l =
     fold (\<lambda>n l. l\<lparr>ly_members := put (ly_members l) n (new_member name (group_of c name) n)\<rparr>)
       (member_names tbl name)
       (l\<lparr>ly_lags := put (ly_lags l) name (new_lag tbl name (group_of c name))\<rparr>)"

definition number_member :: "nat \<times> string \<Rightarrow> lag_layer \<Rightarrow> lag_layer" where
  "number_member = (\<lambda>(i, n) l.
     upd_member n (\<lambda>m. updateActorInfo (lag_at l (ms_lagName m)) (m\<lparr>ms_portID := of_nat (i + 1)\<rparr>)) l)"

definition lag_newLayer :: "lag_config \<Rightarrow> port_table \<Rightarrow> mac \<Rightarrow> lag_layer" where
  "lag_newLayer c tbl systemID =
     (let l = \<lparr>ly_cfg = c, ly_ports = tbl, ly_systemID = systemID, ly_now = 0, ly_lags = [], ly_members = []\<rparr>;
          l = fold (add_group c tbl) (sortedKeys c) l
      in fold number_member (enumerate 0 (sortedKeys (ly_members l))) l)"

definition lag_New :: "lag_config \<Rightarrow> port_table \<Rightarrow> mac \<Rightarrow> lag_error + lag_layer" where
  "lag_New c tbl systemID =
     (let norm = lag_Normalize tbl systemID c in
      case lag_Validate tbl norm of
        Some e \<Rightarrow> Inl e
      | None \<Rightarrow> Inr (lag_newLayer norm tbl systemID))"

section \<open>Link changes\<close>

text \<open>\<^verbatim>\<open>updateLag\<close> then \<^verbatim>\<open>transmitLag\<close>, with the group named when it changed.\<close>

definition update_and_transmit :: "string \<Rightarrow> lag_layer \<Rightarrow> lag_layer \<times> effects" where
  "update_and_transmit lagName l =
     (let (changed, l) = updateLag lagName l;
          (l, es) = transmitLag lagName l
      in (l, \<lparr>fx_Emissions = es, fx_Flush = [], fx_Changed = (if changed then [lagName] else [])\<rparr>))"

definition mergeEffects :: "effects \<Rightarrow> effects \<Rightarrow> effects" where
  "mergeEffects a b =
     \<lparr>fx_Emissions = fx_Emissions a @ fx_Emissions b, fx_Flush = [],
      fx_Changed = sort_compact (fx_Changed a @ fx_Changed b)\<rparr>"

definition setCarrier :: "time \<Rightarrow> string \<Rightarrow> bool \<Rightarrow> lag_layer \<Rightarrow> lag_layer \<times> effects" where
  "setCarrier now member up l =
     (let lagName = ms_lagName (member_at l member); lag = lag_at l lagName in
      if lacp_off lag then (l, no_effects)
      else if \<not> up then update_and_transmit lagName (upd_member member disableReceive l)
      else update_and_transmit lagName
             (upd_member member (\<lambda>m. expireReceive now (updatePeriodic now lag m)) l))"

definition applyLinkChange :: "string \<Rightarrow> lag_layer \<Rightarrow> lag_layer \<times> effects" where
  "applyLinkChange member l =
     (let m = member_at l member in
      if ms_linkUp m = ms_carrier m then (l, no_effects)
      else update_and_transmit (ms_lagName m)
             (upd_member member (\<lambda>m. m\<lparr>ms_linkUp := ms_carrier m\<rparr>) l))"

definition lag_LinkChange :: "time \<Rightarrow> string \<Rightarrow> bool \<Rightarrow> lag_layer \<Rightarrow> lag_layer \<times> effects" where
  "lag_LinkChange now member up l =
     (let l = l\<lparr>ly_now := now\<rparr> in
      if map_of (ly_members l) member = None then (l, no_effects)
      else
        let lag = lag_at l (ms_lagName (member_at l member));
            (l, fx) = (if ms_carrier (member_at l member) \<noteq> up
                       then setCarrier now member up (upd_member member (\<lambda>m. m\<lparr>ms_carrier := up\<rparr>) l)
                       else (l, no_effects));
            delay = (if up then lg_UpDelay (ls_cfg lag) else lg_DownDelay (ls_cfg lag));
            m = member_at l member
        in if delay = 0 then
             (let (l, fx') = applyLinkChange member
                    (upd_member member (\<lambda>m. m\<lparr>ms_hasPendingLink := False, ms_linkDelayTimer := 0\<rparr>) l)
              in (l, mergeEffects fx fx'))
           else if ms_hasPendingLink m \<and> ms_pendingLinkUp m = up then (l, fx)
           else if ms_linkUp m = up \<and> \<not> ms_hasPendingLink m then (l, fx)
           else if ms_linkUp m = up \<and> ms_hasPendingLink m \<and> ms_pendingLinkUp m \<noteq> up
           then (upd_member member (\<lambda>m. m\<lparr>ms_hasPendingLink := False, ms_linkDelayTimer := 0\<rparr>) l, fx)
           else (upd_member member (\<lambda>m. m\<lparr>ms_hasPendingLink := True, ms_pendingLinkUp := up,
                   ms_linkDelayTimer := now + delay\<rparr>) l, fx))"

section \<open>Received LACPDUs\<close>

text \<open>A member whose port lost its link and whose partner now speaks on another member.\<close>

definition has_moved :: "string \<Rightarrow> lacp_pdu \<Rightarrow> member_state \<Rightarrow> bool" where
  "has_moved member pdu other \<longleftrightarrow>
     ms_name other \<noteq> member \<and> ms_status other = PortDisabled \<and>
     i_SystemID (ms_partner other) = i_SystemID (pd_Actor pdu) \<and>
     i_PortID (ms_partner other) = i_PortID (pd_Actor pdu)"

definition forget_partner :: "member_state \<Rightarrow> member_state" where
  "forget_partner other =
     disableReceive ((recordDefault (other\<lparr>ms_needsReselect := True, ms_partnerLearned := False\<rparr>))
       \<lparr>ms_actorExpired := False\<rparr>)"

definition moved_round ::
    "string \<Rightarrow> lacp_pdu \<Rightarrow> string \<Rightarrow> lag_layer \<times> string list \<Rightarrow> lag_layer \<times> string list" where
  "moved_round member pdu name = (\<lambda>(l, affected).
     if has_moved member pdu (member_at l name)
     then (upd_member name forget_partner l, ms_lagName (member_at l name) # affected)
     else (l, affected))"

definition echoState :: byte where
  "echoState = LacpActivity OR ShortTimeout OR Synchronization OR Aggregation"

definition mask_state :: "byte \<Rightarrow> lacp_info \<Rightarrow> lacp_info" where
  "mask_state k i = i\<lparr>i_State := i_State i AND k\<rparr>"

definition recordPDU :: "time \<Rightarrow> bool \<Rightarrow> lacp_pdu \<Rightarrow> member_state \<Rightarrow> member_state" where
  "recordPDU now fast pdu m =
     (let m = (if \<not> sameAggregationPort (ms_partner m) (pd_Actor pdu)
               then m\<lparr>ms_needsReselect := True\<rparr> else m);
          m = (if mask_state echoState (ms_actor m) \<noteq> mask_state echoState (pd_Partner pdu)
               then m\<lparr>ms_ntt := True\<rparr> else m);
          m = m\<lparr>ms_partner := clear_sync (pd_Actor pdu)\<rparr>;
          activelyMaintained = has_bit LacpActivity (pd_Actor pdu) \<or>
            (has_bit LacpActivity (ms_actor m) \<and> has_bit LacpActivity (pd_Partner pdu));
          m = (if activelyMaintained \<and> has_bit Synchronization (pd_Actor pdu) \<and>
                  (\<not> has_bit Aggregation (pd_Actor pdu) \<or> sameAggregationPort (ms_actor m) (pd_Partner pdu))
               then m\<lparr>ms_partner := (ms_partner m)\<lparr>i_State := i_State (ms_partner m) OR Synchronization\<rparr>\<rparr>
               else m)
      in m\<lparr>ms_partnerDefaulted := False, ms_partnerLearned := True, ms_status := Current,
           ms_actorExpired := False,
           ms_rxTimer := now + timeoutMultiplier * (if fast then fastPeriod else slowPeriod)\<rparr>)"

definition settle_group :: "string \<Rightarrow> lag_layer \<times> effects \<Rightarrow> lag_layer \<times> effects" where
  "settle_group lagName = (\<lambda>(l, fx).
     let (l, fx') = update_and_transmit lagName l
     in (l, fx\<lparr>fx_Emissions := fx_Emissions fx @ fx_Emissions fx',
               fx_Changed := fx_Changed fx @ fx_Changed fx'\<rparr>))"

definition lag_Receive :: "time \<Rightarrow> string \<Rightarrow> lacp_pdu \<Rightarrow> lag_layer \<Rightarrow> lag_layer \<times> effects" where
  "lag_Receive now member pdu l =
     (let l = l\<lparr>ly_now := now\<rparr> in
      if map_of (ly_members l) member = None then (l, no_effects)
      else
        let l = upd_member member (\<lambda>m. m\<lparr>ms_lacpdusRx := ms_lacpdusRx m + 1\<rparr>) l;
            m = member_at l member;
            lag = lag_at l (ms_lagName m)
        in if \<not> ms_carrier m \<or> lacp_off lag then (l, no_effects)
           else
             let (l, affected) = fold (moved_round (ms_name m) pdu) (sortedKeys (ly_members l)) (l, [ls_name lag]);
                 l = upd_member member (recordPDU now (lp_Fast (lacp_of lag)) pdu) l
             in fold settle_group (sort (remdups affected)) (l, no_effects))"

section \<open>Time\<close>

text \<open>
  The loop that lets the receive timer run out, as it is written: a member that is neither current
  nor expired with a timer that ran out would stay in it.
\<close>

definition expired_step :: "member_state \<Rightarrow> member_state" where
  "expired_step m =
     (case ms_status m of
        Current \<Rightarrow> expireReceive (ms_rxTimer m) m
      | Expired \<Rightarrow>
          (recordDefault (if \<not> sameAggregationPort (ms_partner m) default_partner
             then m\<lparr>ms_needsReselect := True\<rparr> else m))
          \<lparr>ms_status := Defaulted, ms_actorExpired := False, ms_rxTimer := 0\<rparr>
      | _ \<Rightarrow> m)"

definition rx_due :: "time \<Rightarrow> member_state \<Rightarrow> bool" where
  "rx_due now m \<longleftrightarrow> ms_rxTimer m \<noteq> 0 \<and> ms_rxTimer m \<le> now"

partial_function (option) rx_loop :: "time \<Rightarrow> member_state \<Rightarrow> member_state option" where
  "rx_loop now m = (if rx_due now m then rx_loop now (expired_step m) else Some m)"

declare rx_loop.simps [code]

definition advance_link :: "time \<Rightarrow> string \<Rightarrow> lag_layer \<times> effects \<Rightarrow> lag_layer \<times> effects" where
  "advance_link now name = (\<lambda>(l, fx).
     let m = member_at l name in
     if ms_hasPendingLink m \<and> ms_linkDelayTimer m \<noteq> 0 \<and> ms_linkDelayTimer m \<le> now
     then let (l, fx') = applyLinkChange name
                (upd_member name (\<lambda>m. m\<lparr>ms_hasPendingLink := False, ms_linkDelayTimer := 0\<rparr>) l)
          in (l, fx\<lparr>fx_Emissions := fx_Emissions fx @ fx_Emissions fx',
                    fx_Changed := fx_Changed fx @ fx_Changed fx'\<rparr>)
     else (l, fx))"

definition advance_rx :: "time \<Rightarrow> string \<Rightarrow> lag_layer \<times> bool \<Rightarrow> (lag_layer \<times> bool) option" where
  "advance_rx now name = (\<lambda>(l, update).
     let m = member_at l name in
     if \<not> ms_carrier m then Some (l, update)
     else do {
       m' \<leftarrow> rx_loop now m;
       Some (upd_member name (\<lambda>_. m') l, update \<or> rx_due now m)
     })"

fun fold_option :: "('a \<Rightarrow> 's \<Rightarrow> 's option) \<Rightarrow> 'a list \<Rightarrow> 's \<Rightarrow> 's option" where
  "fold_option f [] s = Some s"
| "fold_option f (x # xs) s = Option.bind (f x s) (fold_option f xs)"

definition advance_group :: "time \<Rightarrow> string \<Rightarrow> lag_layer \<times> effects \<Rightarrow> (lag_layer \<times> effects) option" where
  "advance_group now lagName = (\<lambda>(l, fx).
     let lag = lag_at l lagName in
     if lacp_off lag then Some (l, fx)
     else do {
       (l, update) \<leftarrow> fold_option (advance_rx now) (ls_memberNames lag)
         (l, ls_aggregateWait lag \<noteq> 0 \<and> ls_aggregateWait lag \<le> now);
       let (changed, l) = (if update then updateLag lagName l else (False, l));
           (l, es) = transmitLag lagName l
       in Some (l, fx\<lparr>fx_Emissions := fx_Emissions fx @ es,
                     fx_Changed := fx_Changed fx @ (if changed then [lagName] else [])\<rparr>)
     })"

definition lag_Advance :: "time \<Rightarrow> lag_layer \<Rightarrow> (lag_layer \<times> effects) option" where
  "lag_Advance now l =
     (let l = l\<lparr>ly_now := now\<rparr>;
          (l, fx) = fold (advance_link now) (sortedKeys (ly_members l)) (l, no_effects)
      in do {
        (l, fx) \<leftarrow> fold_option (advance_group now) (sortedKeys (ly_lags l)) (l, fx);
        Some (l, fx\<lparr>fx_Changed := sort (remdups (fx_Changed fx))\<rparr>)
      })"

definition lag_wake_update :: "time \<Rightarrow> time \<Rightarrow> time option \<Rightarrow> time option" where
  "lag_wake_update now t next =
     (if t = 0 then next
      else let t = (if now \<noteq> 0 \<and> t < now then now else t)
           in case next of None \<Rightarrow> Some t | Some n \<Rightarrow> if t < n then Some t else Some n)"

definition member_wakes :: "lag_layer \<Rightarrow> member_state \<Rightarrow> time list" where
  "member_wakes l m =
     (if ms_hasPendingLink m then [ms_linkDelayTimer m] else []) @
     (let lag = lag_at l (ms_lagName m) in
      if ms_carrier m \<and> \<not> lacp_off lag
      then ms_rxTimer m #
        (if mayTx lag m
         then ms_periodicTimer m # (if ms_ntt m then [transmitWake (ly_now l) m] else [])
         else [])
      else [])"

definition lag_NextWake :: "lag_layer \<Rightarrow> time option" where
  "lag_NextWake l =
     fold (lag_wake_update (ly_now l))
       (concat (map (\<lambda>(_, m). member_wakes l m) (ly_members l)) @
        concat (map (\<lambda>(_, lag). if lacp_off lag then [] else [ls_aggregateWait lag]) (ly_lags l))) None"

section \<open>Status\<close>

datatype pending_cause = PendingLinkDelay | PendingPartnerExpired | PendingUnsynchronized | PendingAggregateWait

record pending =
  pe_Member :: string
  pe_Cause :: pending_cause
  pe_At :: time

definition pendingEntry :: "member_state \<Rightarrow> pending option" where
  "pendingEntry m =
     (if ms_mux m = MuxWaiting
      then Some \<lparr>pe_Member = ms_name m, pe_Cause = PendingAggregateWait, pe_At = ms_aggregateWait m\<rparr>
      else if ms_hasPendingLink m
      then Some \<lparr>pe_Member = ms_name m, pe_Cause = PendingLinkDelay, pe_At = ms_linkDelayTimer m\<rparr>
      else if ms_status m = Expired
      then Some \<lparr>pe_Member = ms_name m, pe_Cause = PendingPartnerExpired, pe_At = ms_rxTimer m\<rparr>
      else if ms_attached m \<and> \<not> has_bit Synchronization (ms_partner m)
      then Some \<lparr>pe_Member = ms_name m, pe_Cause = PendingUnsynchronized, pe_At = ms_rxTimer m\<rparr>
      else None)"

record lag_info =
  li_Mode :: bond_mode
  li_Enabled :: "string list"
  li_Attached :: "string list"
  li_PartnerSystemID :: mac
  li_PartnerSystemPriority :: u16
  li_PartnerKey :: u16
  li_Up :: bool
  li_pending :: "pending list"

definition lag_Info :: "lag_layer \<Rightarrow> string \<Rightarrow> lag_info" where
  "lag_Info l lagName =
     (case map_of (ly_lags l) lagName of
        None \<Rightarrow> \<lparr>li_Mode = ActiveBackup, li_Enabled = [], li_Attached = [], li_PartnerSystemID = zero_mac,
                 li_PartnerSystemPriority = 0, li_PartnerKey = 0, li_Up = False, li_pending = []\<rparr>
      | Some lag \<Rightarrow>
          \<lparr>li_Mode = lg_Mode (ls_cfg lag), li_Enabled = ls_enabledOrder lag,
           li_Attached = ls_attachedMembers lag, li_PartnerSystemID = ls_partnerSysID lag,
           li_PartnerSystemPriority = ls_partnerSysPrio lag, li_PartnerKey = ls_partnerKey lag,
           li_Up = (ls_enabledOrder lag \<noteq> []),
           li_pending = List.map_filter (\<lambda>n. pendingEntry (member_at l n)) (ls_memberNames lag)\<rparr>)"

record member_info =
  mi_LinkUp :: bool
  mi_Enabled :: bool
  mi_Attached :: bool
  mi_Actor :: lacp_info
  mi_Partner :: lacp_info
  mi_Status :: "lag_status option"
  mi_LACPDUsTx :: u64
  mi_LACPDUsRx :: u64
  mi_BadLACPDUs :: u64

text \<open>The zero value has the empty string as its status, which is none of the declared ones.\<close>

definition lag_PortInfo :: "lag_layer \<Rightarrow> string \<Rightarrow> member_info" where
  "lag_PortInfo l member =
     (case map_of (ly_members l) member of
        None \<Rightarrow> \<lparr>mi_LinkUp = False, mi_Enabled = False, mi_Attached = False, mi_Actor = zero_info,
                 mi_Partner = zero_info, mi_Status = None, mi_LACPDUsTx = 0, mi_LACPDUsRx = 0,
                 mi_BadLACPDUs = 0\<rparr>
      | Some m \<Rightarrow>
          \<lparr>mi_LinkUp = ms_linkUp m, mi_Enabled = ms_enabled m, mi_Attached = ms_attached m,
           mi_Actor = ms_actor m, mi_Partner = ms_partner m, mi_Status = Some (ms_status m),
           mi_LACPDUsTx = ms_lacpdusTx m, mi_LACPDUsRx = ms_lacpdusRx m, mi_BadLACPDUs = ms_badLACPDUs m\<rparr>)"

definition lag_BadLACPDU :: "string \<Rightarrow> lag_layer \<Rightarrow> lag_layer" where
  "lag_BadLACPDU member l = upd_member member (\<lambda>m. m\<lparr>ms_badLACPDUs := ms_badLACPDUs m + 1\<rparr>) l"

definition ReceiveMarker :: "string \<Rightarrow> frame \<Rightarrow> lag_layer \<Rightarrow> effects option" where
  "ReceiveMarker member f l =
     (case map_of (ly_members l) member of
        None \<Rightarrow> Some no_effects
      | Some m \<Rightarrow> do {
          answer \<leftarrow> MarkerResponse f (memberSource l m);
          case answer of
            Inl _ \<Rightarrow> Some no_effects
          | Inr response \<Rightarrow>
              Some (no_effects\<lparr>fx_Emissions := [\<lparr>em_Port = member, em_VID = 0, em_Frame = response\<rparr>]\<rparr>)
        })"

end
