(* ===== verification/Lag_Select.thy ===== *)
theory Lag_Select
  imports Lag_State Ip Bridge_Fdb
begin

unbundle bit_operations_syntax

text \<open>
  The choice of the member that carries a frame (\<^verbatim>\<open>Select\<close> and \<^verbatim>\<open>Peek\<close> of
  \<^verbatim>\<open>src/common/sim/layer/lag/layer.go\<close> and the hashes of \<^verbatim>\<open>hash.go\<close>): active backup,
  balancing by source address and VLAN, and balancing by flow.
\<close>

section \<open>Hashes\<close>

text \<open>\<^verbatim>\<open>hash/fnv\<close> \<^verbatim>\<open>New32a\<close>: the offset basis, then each octet xored in and multiplied.\<close>

definition fnv32a :: "byte list \<Rightarrow> u32" where
  "fnv32a bs = fold (\<lambda>b h. (h XOR ucast b) * 16777619) bs 2166136261"

definition hashSLB :: "u32 \<Rightarrow> mac \<Rightarrow> vlan_id \<Rightarrow> u32" where
  "hashSLB basis src vid = fnv32a (be32 basis @ mac_bytes src @ be16 vid)"

record tcp_hash_input =
  hi_ipDecoded :: bool
  hi_ipSrc :: ip_addr
  hi_ipDst :: ip_addr
  hi_ipProtocol :: byte
  hi_transport4 :: "byte list"
  hi_hasTransport :: bool

definition no_hash_input :: tcp_hash_input where
  "no_hash_input = \<lparr>hi_ipDecoded = False, hi_ipSrc = NoAddr, hi_ipDst = NoAddr, hi_ipProtocol = 0,
     hi_transport4 = [0, 0, 0, 0], hi_hasTransport = False\<rparr>"

definition EtherTypeIPv4 :: u16 where "EtherTypeIPv4 = 0x0800"
definition EtherTypeIPv6 :: u16 where "EtherTypeIPv6 = 0x86DD"

definition inspectTCPHashInput :: "frame \<Rightarrow> tcp_hash_input option" where
  "inspectTCPHashInput f =
     (if f_EtherType f \<noteq> EtherTypeIPv4 \<and> f_EtherType f \<noteq> EtherTypeIPv6 then Some no_hash_input
      else do {
        answer \<leftarrow> ip_Decode (f_Payload f);
        case answer of
          Inl _ \<Rightarrow> Some no_hash_input
        | Inr (hdr, payload) \<Rightarrow>
            let input = no_hash_input\<lparr>hi_ipDecoded := True, hi_ipSrc := ih_Src hdr,
                  hi_ipDst := ih_Dst hdr, hi_ipProtocol := ih_Protocol hdr\<rparr>
            in if (ih_Protocol hdr = 6 \<or> ih_Protocol hdr = 17) \<and> length payload \<ge> 4
               then do {
                 ports \<leftarrow> sub payload 0 4;
                 Some (input\<lparr>hi_transport4 := ports, hi_hasTransport := True\<rparr>)
               }
               else Some input
      })"

text \<open>\<^verbatim>\<open>Addr.AsSlice\<close>\<close>

fun AsSlice :: "ip_addr \<Rightarrow> byte list" where
  "AsSlice NoAddr = []"
| "AsSlice (Addr4 a) = be32 a"
| "AsSlice (Addr6 hi lo z) = be64 hi @ be64 lo"

definition hashTCP :: "u32 \<Rightarrow> frame \<Rightarrow> u32 option" where
  "hashTCP basis f = do {
     input \<leftarrow> inspectTCPHashInput f;
     Some (fnv32a (be32 basis @ mac_bytes (f_Src f) @ mac_bytes (f_Dst f) @ be16 (f_EtherType f) @
       (if hi_ipDecoded input
        then AsSlice (hi_ipSrc input) @ AsSlice (hi_ipDst input) @ [hi_ipProtocol input] @
          (if hi_hasTransport input then hi_transport4 input else [])
        else [])))
   }"

section \<open>Selections\<close>

datatype selection_cause =
  NoCause | CauseKept | CauseFirstUse | CauseReassigned | CausePrimary | CauseLastActive | CauseFirstEnabled

record lag_selection =
  se_Member :: string
  se_OK :: bool
  se_Bucket :: byte
  se_Prior :: string
  se_Cause :: selection_cause
  se_RebalanceUnmodeled :: bool

definition no_selection :: lag_selection where
  "no_selection = \<lparr>se_Member = '''', se_OK = False, se_Bucket = 0, se_Prior = '''', se_Cause = NoCause,
     se_RebalanceUnmodeled = False\<rparr>"

definition rebalanceUnmodeled :: "lag_state \<Rightarrow> time \<Rightarrow> time \<Rightarrow> bool" where
  "rebalanceUnmodeled lag assignedAt now =
     (case lg_RebalanceInterval (ls_cfg lag) of
        None \<Rightarrow> False
      | Some interval \<Rightarrow>
          if interval \<le> 0 \<or> assignedAt = 0 then False
          else if length (ls_enabledOrder lag) < 2 then False
          else assignedAt + interval \<le> now)"

text \<open>The outcome, and the group with the choice committed when \<open>commit\<close> holds.\<close>

definition balancedSelect :: "lag_state \<Rightarrow> time \<Rightarrow> u32 \<Rightarrow> bool \<Rightarrow> lag_selection \<times> lag_state" where
  "balancedSelect lag now hash commit =
     (case ls_enabledOrder lag of
        [] \<Rightarrow> (no_selection, lag)
      | front # rest \<Rightarrow>
          let bucket = ucast (hash AND 0xff) :: byte;
              entry = ls_buckets lag ! unat bucket
          in if bk_assigned entry \<and> bk_member entry \<in> set (front # rest)
             then (\<lparr>se_Member = bk_member entry, se_OK = True, se_Bucket = bucket,
                     se_Prior = bk_member entry, se_Cause = CauseKept,
                     se_RebalanceUnmodeled = rebalanceUnmodeled lag (bk_assignedAt entry) now\<rparr>, lag)
             else
               (\<lparr>se_Member = front, se_OK = True, se_Bucket = bucket,
                  se_Prior = (if bk_assigned entry then bk_member entry else ''''),
                  se_Cause = (if bk_assigned entry then CauseReassigned else CauseFirstUse),
                  se_RebalanceUnmodeled = False\<rparr>,
                if commit
                then lag\<lparr>ls_enabledOrder := rest @ [front],
                         ls_buckets := (ls_buckets lag)[unat bucket :=
                           \<lparr>bk_member = front, bk_assignedAt = now, bk_assigned = True\<rparr>]\<rparr>
                else lag))"

definition activeBackupSelect :: "lag_state \<Rightarrow> bool \<Rightarrow> lag_selection \<times> lag_state" where
  "activeBackupSelect lag commit =
     (if ls_enabledOrder lag = [] then (no_selection, lag)
      else
        let enabled = set (ls_enabledOrder lag);
            primary = lg_Primary (ls_cfg lag);
            (member, cause) =
              (if primary \<noteq> '''' \<and> primary \<in> enabled then (primary, CausePrimary)
               else if ls_lastActive lag \<noteq> '''' \<and> ls_lastActive lag \<in> enabled
               then (ls_lastActive lag, CauseLastActive)
               else (Min enabled, CauseFirstEnabled))
        in (\<lparr>se_Member = member, se_OK = True, se_Bucket = 0, se_Prior = ls_lastActive lag,
              se_Cause = cause, se_RebalanceUnmodeled = False\<rparr>,
            if commit then lag\<lparr>ls_lastActive := member\<rparr> else lag))"

text \<open>
  \<^verbatim>\<open>selectMember\<close>, on the group; a hash that would panic is \<open>None\<close>.
\<close>

definition select_in :: "lag_state \<Rightarrow> time \<Rightarrow> frame \<Rightarrow> vlan_id \<Rightarrow> bool \<Rightarrow> (lag_selection \<times> lag_state) option" where
  "select_in lag now f vid commit =
     (case lg_Mode (ls_cfg lag) of
        BalanceSLB \<Rightarrow>
          Some (balancedSelect lag now (hashSLB (lg_HashBasis (ls_cfg lag)) (f_Src f) vid) commit)
      | BalanceTCP \<Rightarrow>
          if lacp_off lag \<or> ls_attachedMembers lag = [] then
            (if \<not> lp_Fallback (lacp_of lag) then Some (no_selection, lag)
             else Some (activeBackupSelect lag commit))
          else do {
            hash \<leftarrow> hashTCP (lg_HashBasis (ls_cfg lag)) f;
            Some (balancedSelect lag now hash commit)
          }
      | _ \<Rightarrow> Some (activeBackupSelect lag commit))"

definition lag_selectMember ::
    "time \<Rightarrow> string \<Rightarrow> frame \<Rightarrow> vlan_id \<Rightarrow> bool \<Rightarrow> lag_layer \<Rightarrow> (lag_selection \<times> lag_layer) option" where
  "lag_selectMember now lagName f vid commit l =
     (case map_of (ly_lags l) lagName of
        None \<Rightarrow> Some (no_selection, l)
      | Some lag \<Rightarrow> do {
          (sel, lag') \<leftarrow> select_in lag now f vid commit;
          Some (sel, upd_lag lagName (\<lambda>_. lag') l)
        })"

definition lag_Select :: "time \<Rightarrow> string \<Rightarrow> frame \<Rightarrow> vlan_id \<Rightarrow> lag_layer \<Rightarrow> (lag_selection \<times> lag_layer) option" where
  "lag_Select now lagName f vid l = lag_selectMember now lagName f vid True l"

definition lag_Peek :: "time \<Rightarrow> string \<Rightarrow> frame \<Rightarrow> vlan_id \<Rightarrow> lag_layer \<Rightarrow> (lag_selection \<times> lag_layer) option" where
  "lag_Peek now lagName f vid l = lag_selectMember now lagName f vid False l"

end
