(* ===== verification/Lag_Settle.thy ===== *)
theory Lag_Settle
  imports Lag_Update Lag_Events Lag_Select
begin

unbundle bit_operations_syntax

text \<open>
  Updating a group and transmitting keeps every other group as it is (\<open>groups_but\<close> names the groups
  that wait for their update).
\<close>

section \<open>Changes inside a group\<close>

definition local_to :: "string \<Rightarrow> lag_layer \<Rightarrow> lag_layer \<Rightarrow> bool" where
  "local_to g l l' \<longleftrightarrow>
     skeleton l' = skeleton l \<and>
     (\<forall>k. k \<notin> set (ls_memberNames (lag_at l g)) \<longrightarrow> member_at l' k = member_at l k) \<and>
     (\<forall>h. h \<noteq> g \<longrightarrow> lag_at l' h = lag_at l h)"

lemma local_to_trans: "local_to g l l' \<Longrightarrow> local_to g l' l'' \<Longrightarrow> local_to g l l''"
  using skeleton_sel(3) [of l' l g] by (simp add: local_to_def)

lemma group_step_local: "group_step g l l' \<Longrightarrow> local_to g l l'"
  by (simp add: group_step_def local_to_def)

lemma local_member:
  assumes "wf_lags l" "has_member l n" "\<And>m. member_frame (f m) = member_frame m" "g = ms_lagName (member_at l n)"
  shows "local_to g l (upd_member n f l)"
  using wf_member(3) [OF assms(1,2)] skeleton_upd(1) [OF assms(3)] assms(4)
  by (auto simp: local_to_def lag_simps)

lemma local_ok_other:
  assumes "wf_lags l" "has_lag l g" "local_to g l l'" "h \<noteq> g"
  shows "group_ok l' h = group_ok l h"
proof (rule group_ok_cong)
  have sk: "skeleton l' = skeleton l"
    using assms(3) by (simp add: local_to_def)
  have same: "lag_at l' h = lag_at l h"
    using assms(3,4) by (simp add: local_to_def)
  then show "lag_core (lag_at l' h) = lag_core (lag_at l h)"
    "set (ls_enabledOrder (lag_at l' h)) = set (ls_enabledOrder (lag_at l h))"
    "distinct (ls_enabledOrder (lag_at l' h)) = distinct (ls_enabledOrder (lag_at l h))"
    by simp_all
  fix n
  assume "n \<in> set (ls_memberNames (lag_at l' h))"
  then have n: "n \<in> set (ls_memberNames (lag_at l h))"
    by (simp add: same)
  have "has_lag l h"
  proof (rule ccontr)
    assume "\<not> has_lag l h"
    then show False
      using n by (simp add: has_lag_def lag_at_def zero_lag_def)
  qed
  then have "ms_lagName (member_at l n) = h"
    using wf_group(4) [OF assms(1)] n by simp
  then have "n \<notin> set (ls_memberNames (lag_at l g))"
    using wf_group(4) [OF assms(1,2)] assms(4) by auto
  then show "member_core (member_at l' n) = member_core (member_at l n)"
    using assms(3) by (simp add: local_to_def)
qed

section \<open>Groups that are settled\<close>

definition groups_but :: "string set \<Rightarrow> lag_layer \<Rightarrow> bool" where
  "groups_but S l \<longleftrightarrow> wf_lags l \<and> (\<forall>h. distinct (ls_enabledOrder (lag_at l h))) \<and> (\<forall>h. h \<notin> S \<longrightarrow> group_ok l h)"

lemma group_ok_distinct: "group_ok l h \<Longrightarrow> distinct (ls_enabledOrder (lag_at l h))"
  by (simp add: group_ok_def Let_def)

lemma groups_butD:
  assumes "groups_but S l"
  shows "wf_lags l" "distinct (ls_enabledOrder (lag_at l h))" "h \<notin> S \<Longrightarrow> group_ok l h"
  using assms by (simp_all add: groups_but_def)

lemma groups_but_mono: "groups_but S l \<Longrightarrow> S \<subseteq> T \<Longrightarrow> groups_but T l"
  by (auto simp: groups_but_def)

lemma now_lookup [lag_simps]:
  "lag_at (l\<lparr>ly_now := t\<rparr>) g = lag_at l g" "member_at (l\<lparr>ly_now := t\<rparr>) n = member_at l n"
  "has_lag (l\<lparr>ly_now := t\<rparr>) g = has_lag l g" "has_member (l\<lparr>ly_now := t\<rparr>) n = has_member l n"
  by (simp_all add: lag_at_def member_at_def has_lag_def has_member_def)

lemma groups_but_now [simp]: "groups_but S (l\<lparr>ly_now := t\<rparr>) = groups_but S l"
  by (simp add: groups_but_def group_ok_def wf_lags_def lag_simps)

lemma groups_but_touch:
  assumes "groups_but S l" "has_member l n" "\<And>m. member_frame (f m) = member_frame m"
  shows "groups_but (insert (ms_lagName (member_at l n)) S) (upd_member n f l)"
proof -
  note wf = groups_butD(1) [OF assms(1)]
  note loc = local_member [OF wf assms(2,3) refl]
  have "wf_lags (upd_member n f l)"
    using wf wf_skeleton skeleton_upd(1) [OF assms(3)] by blast
  then show ?thesis
    using assms(1) local_ok_other [OF wf wf_member(2) [OF wf assms(2)] loc]
    by (simp add: groups_but_def lag_simps)
qed

lemma groups_but_core:
  assumes "groups_but S l" "\<And>m. member_frame (f m) = member_frame m" "\<And>m. member_core (f m) = member_core m"
  shows "groups_but S (upd_member n f l)"
proof -
  have "wf_lags (upd_member n f l)"
    using groups_butD(1) [OF assms(1)] wf_skeleton skeleton_upd(1) [OF assms(2)] by blast
  moreover have "group_ok (upd_member n f l) h = group_ok l h" for h
    by (rule group_ok_cong) (simp_all add: lag_simps assms(3))
  ultimately show ?thesis
    using assms(1) by (simp add: groups_but_def lag_simps)
qed

text \<open>Without LACP the carrier of a member does not matter, only its delayed link.\<close>

lemma groups_but_off:
  assumes "groups_but S l" "has_member l n" "lacp_off (lag_at l (ms_lagName (member_at l n)))"
  shows "groups_but S (upd_member n (\<lambda>m. m\<lparr>ms_carrier := up\<rparr>) l)"
proof -
  let ?l = "upd_member n (\<lambda>m. m\<lparr>ms_carrier := up\<rparr>) l"
  let ?g = "ms_lagName (member_at l n)"
  have frame: "member_frame (m\<lparr>ms_carrier := up\<rparr>) = member_frame m" for m
    by (simp add: member_frame_def)
  have t: "groups_but (insert ?g S) ?l"
    by (rule groups_but_touch [OF assms(1,2) frame])
  have m: "ms_enabled (member_at ?l k) = ms_enabled (member_at l k)"
    "ms_attached (member_at ?l k) = ms_attached (member_at l k)"
    "ms_linkUp (member_at ?l k) = ms_linkUp (member_at l k)" for k
    by (auto simp: lag_simps)
  have "group_ok ?l ?g" if "group_ok l ?g"
    using that assms(3) unfolding group_ok_def Let_def m upd_member_fields by simp
  then show ?thesis
    using t assms(1) unfolding groups_but_def by (metis insert_iff)
qed

section \<open>Transmitting\<close>

text \<open>What transmitting leaves alone.\<close>

definition tx_step :: "string \<Rightarrow> lag_layer \<Rightarrow> lag_layer \<Rightarrow> bool" where
  "tx_step g l l' \<longleftrightarrow>
     skeleton l' = skeleton l \<and> ly_now l' = ly_now l \<and> (\<forall>h. lag_at l' h = lag_at l h) \<and>
     (\<forall>k. k \<notin> set (ls_memberNames (lag_at l g)) \<longrightarrow> member_at l' k = member_at l k) \<and>
     (\<forall>k. member_core (member_at l' k) = member_core (member_at l k))"

lemma updatePeriodic_core [simp]:
  "member_core (updatePeriodic now lag m) = member_core m" "member_frame (updatePeriodic now lag m) = member_frame m"
  "ms_txTimes (updatePeriodic now lag m) = ms_txTimes m" "ms_txCount (updatePeriodic now lag m) = ms_txCount m"
  "ms_rxTimer (updatePeriodic now lag m) = ms_rxTimer m" "ms_status (updatePeriodic now lag m) = ms_status m"
  by (auto simp: updatePeriodic_def Let_def member_core_def member_frame_def)

lemma record_tx_core [simp]:
  "member_core (record_tx now m) = member_core m" "member_frame (record_tx now m) = member_frame m"
  "ms_rxTimer (record_tx now m) = ms_rxTimer m" "ms_status (record_tx now m) = ms_status m"
  by (simp_all add: record_tx_def case_prod_beta member_core_def member_frame_def)

lemma transmit_member_step:
  assumes "n \<in> set (ls_memberNames (lag_at l g))"
  shows "tx_step g l (fst (transmit_member lag n (l, es)))"
proof -
  have "skeleton (upd_member n (updatePeriodic t lag) l') = skeleton l'"
    "skeleton (upd_member n (record_tx t) l') = skeleton l'" for t l'
    by (rule skeleton_upd, simp)+
  then show ?thesis
    using assms by (auto simp: transmit_member_def Let_def tx_step_def lag_simps)
qed

lemma transmit_members_step:
  assumes "set names \<subseteq> set (ls_memberNames (lag_at l g))"
  shows "tx_step g l (fst (fold (transmit_member lag) names (l, es)))"
  using assms
proof (induction names arbitrary: l es)
  case (Cons n names)
  obtain l1 es1 where t: "transmit_member lag n (l, es) = (l1, es1)"
    by fastforce
  then have 1: "tx_step g l l1"
    using transmit_member_step [of n l g lag es] Cons.prems by simp
  then have "ls_memberNames (lag_at l1 g) = ls_memberNames (lag_at l g)"
    by (simp add: tx_step_def)
  then have "tx_step g l1 (fst (fold (transmit_member lag) names (l1, es1)))"
    using Cons by simp
  with 1 show ?case
    by (simp add: tx_step_def t)
qed (simp add: tx_step_def)

lemma transmitLag_step: "tx_step g l (fst (transmitLag g l))"
  unfolding transmitLag_def by (rule transmit_members_step) simp

lemma tx_step_groups:
  assumes "tx_step g l l'" "groups_but S l"
  shows "groups_but S l'"
proof -
  have "wf_lags l'"
    using groups_butD(1) [OF assms(2)] wf_skeleton assms(1) unfolding tx_step_def by blast
  moreover have "group_ok l' h = group_ok l h" for h
    by (rule group_ok_cong) (use assms(1) in \<open>simp_all add: tx_step_def\<close>)
  ultimately show ?thesis
    using assms by (simp add: groups_but_def tx_step_def)
qed

lemma groups_but_update:
  assumes "groups_but S l" "has_lag l g"
  shows "groups_but (S - {g}) (snd (updateLag g l))"
proof -
  note wf = groups_butD(1) [OF assms(1)]
  note ok = updateLag_ok [OF wf assms(2) groups_butD(2) [OF assms(1)]]
  have "group_ok (snd (updateLag g l)) h" if "h \<notin> S - {g}" for h
    using ok(1) local_ok_other [OF wf assms(2) group_step_local [OF ok(2)]] groups_butD(3) [OF assms(1)] that
    by (cases "h = g") auto
  moreover have "distinct (ls_enabledOrder (lag_at (snd (updateLag g l)) h))" for h
    using group_ok_distinct [OF ok(1)] group_stepD(8) [OF ok(2)] groups_butD(2) [OF assms(1)]
    by (cases "h = g") simp_all
  ultimately show ?thesis
    using wf group_stepD(7) [OF ok(2)] by (simp add: groups_but_def)
qed

lemma groups_but_settle:
  assumes "groups_but S l" "has_lag l g"
  shows "groups_but (S - {g}) (fst (update_and_transmit g l))"
  using tx_step_groups [OF transmitLag_step groups_but_update [OF assms]]
  by (simp add: update_and_transmit_def case_prod_beta)

lemma settle_skeleton:
  assumes "groups_but S l" "has_lag l g"
  shows "skeleton (fst (update_and_transmit g l)) = skeleton l"
proof -
  have "group_step g l (snd (updateLag g l))"
    using updateLag_ok [OF groups_butD(1) assms(2) groups_butD(2)] assms(1) by blast
  then show ?thesis
    using transmitLag_step [of g "snd (updateLag g l)"]
    by (simp add: update_and_transmit_def case_prod_beta tx_step_def group_step_def)
qed

end
