(* ===== verification/Lag_Run.thy ===== *)
theory Lag_Run
  imports Lag_Settle Transitions
begin

unbundle bit_operations_syntax

text \<open>
  The invariant of link aggregation under every call: all groups are sound, and every member keeps
  its timers in a sensible state (\<open>timers_ok\<close>), that is, the receive timer only runs while there is a
  partner to lose, and the record of transmission times is never overrun.
\<close>

section \<open>Timers\<close>

definition member_timers :: "member_state \<Rightarrow> bool" where
  "member_timers m \<longleftrightarrow> length (ms_txTimes m) = 3 \<and> ms_txCount m \<le> 3 \<and>
     (ms_rxTimer m = 0 \<or> ms_status m = Current \<or> ms_status m = Expired)"

definition timers_ok :: "lag_layer \<Rightarrow> bool" where
  "timers_ok l \<longleftrightarrow> (\<forall>n. member_timers (member_at l n))"

lemma zero_member_timers [simp]: "member_timers zero_member"
  by (simp add: member_timers_def zero_member_def)

lemma radio_timers: "radio m = radio m' \<Longrightarrow> member_timers m = member_timers m'"
  by (simp add: radio_def member_timers_def)

lemma timers_touch:
  "timers_ok l \<Longrightarrow> (\<And>m. member_timers m \<Longrightarrow> member_timers (f m)) \<Longrightarrow> timers_ok (upd_member n f l)"
  by (simp add: timers_ok_def lag_simps)

lemma timers_now [simp]: "timers_ok (l\<lparr>ly_now := t\<rparr>) = timers_ok l"
  by (simp add: timers_ok_def lag_simps)

lemma drop_old_sizes:
  assumes "drop_old now c ts = (c', ts')" "ts \<noteq> []"
  shows "c' \<le> c" "length ts' = length ts"
  using assms
proof (induction now c ts rule: drop_old.induct)
  case (2 now c ts)
  {
    case 1
    then show ?case using "2.IH"(1) by (auto split: if_splits)
  next
    case 2
    then show ?case using "2.IH"(2) by (auto split: if_splits)
  }
qed auto

text \<open>A transmission that is due finds a free slot.\<close>

lemma drop_old_free:
  assumes "drop_old now (ms_txCount m) (ms_txTimes m) = (c, ts)" "\<not> transmitWake now m > now" "member_timers m"
  shows "c \<le> 2" "length ts = 3"
proof -
  have ne: "ms_txTimes m \<noteq> []"
    using assms(3) by (auto simp: member_timers_def)
  show "length ts = 3"
    using drop_old_sizes [OF assms(1) ne] assms(3) by (simp add: member_timers_def)
  show "c \<le> 2"
  proof (cases "ms_txCount m = 3")
    case True
    then have due: "\<not> ms_txTimes m ! 0 + fastPeriod > now"
      using assms(2) by (auto simp: transmitWake_def split: if_splits)
    have "drop_old now 2 (tl (ms_txTimes m) @ [last (ms_txTimes m)]) = (c, ts)"
      using assms(1) True due by (simp add: eval_nat_numeral)
    then show ?thesis
      using drop_old_sizes(1) by fastforce
  next
    case False
    then show ?thesis
      using drop_old_sizes(1) [OF assms(1) ne] assms(3) by (simp add: member_timers_def)
  qed
qed

lemma updatePeriodic_timers [simp]: "member_timers (updatePeriodic now lag m) = member_timers m"
  by (simp add: member_timers_def)

lemma record_tx_timers:
  assumes "member_timers m" "\<not> transmitWake now m > now"
  shows "member_timers (record_tx now m)"
proof -
  obtain c ts where d: "drop_old now (ms_txCount m) (ms_txTimes m) = (c, ts)"
    by fastforce
  show ?thesis
    using drop_old_free [OF d assms(2,1)] assms(1) by (simp add: record_tx_def d member_timers_def)
qed

lemma transmit_member_timers:
  assumes "timers_ok l"
  shows "timers_ok (fst (transmit_member lag n (l, es)))"
  using assms record_tx_timers
  by (auto simp: transmit_member_def Let_def timers_ok_def lag_simps)

lemma transmitLag_timers: "timers_ok l \<Longrightarrow> timers_ok (fst (transmitLag g l))"
  unfolding transmitLag_def
  by (rule fold_inv [where P = "\<lambda>s. timers_ok (fst s)"]) (auto simp: transmit_member_timers)

lemma updateLag_timers:
  assumes "groups_but S l" "has_lag l g" "timers_ok l"
  shows "timers_ok (snd (updateLag g l))"
proof -
  have "group_step g l (snd (updateLag g l))"
    using updateLag_ok [OF groups_butD(1) assms(2) groups_butD(2)] assms(1) by blast
  then show ?thesis
    using assms(3) radio_timers [OF group_stepD(10)] by (simp add: timers_ok_def)
qed

section \<open>The invariant under the parts of a call\<close>

definition lag_inv :: "string set \<Rightarrow> lag_layer \<Rightarrow> bool" where
  "lag_inv S l \<longleftrightarrow> groups_but S l \<and> timers_ok l"

lemma inv_now [simp]: "lag_inv S (l\<lparr>ly_now := t\<rparr>) = lag_inv S l"
  by (simp add: lag_inv_def)

lemma inv_mono: "lag_inv S l \<Longrightarrow> S \<subseteq> T \<Longrightarrow> lag_inv T l"
  using groups_but_mono by (auto simp: lag_inv_def)

lemma inv_settle:
  assumes "lag_inv S l" "has_lag l g"
  shows "lag_inv (S - {g}) (fst (update_and_transmit g l))"
  using groups_but_settle [of S l g] updateLag_timers [of S l g] transmitLag_timers assms
  by (simp add: lag_inv_def update_and_transmit_def case_prod_beta)

lemma inv_touch:
  assumes "lag_inv S l" "has_member l n" "\<And>m. member_frame (f m) = member_frame m"
    "\<And>m. member_timers m \<Longrightarrow> member_timers (f m)"
  shows "lag_inv (insert (ms_lagName (member_at l n)) S) (upd_member n f l)"
  using groups_but_touch [of S l n f] timers_touch [of l f n] assms by (simp add: lag_inv_def)

lemma inv_core:
  assumes "lag_inv S l" "\<And>m. member_frame (f m) = member_frame m" "\<And>m. member_core (f m) = member_core m"
    "\<And>m. member_timers m \<Longrightarrow> member_timers (f m)"
  shows "lag_inv S (upd_member n f l)"
  using groups_but_core [of S l f n] timers_touch [of l f n] assms by (simp add: lag_inv_def)

text \<open>Touching a member and settling its group.\<close>

lemma inv_touch_settle:
  assumes "lag_inv {} l" "has_member l n" "\<And>m. member_frame (f m) = member_frame m"
    "\<And>m. member_timers m \<Longrightarrow> member_timers (f m)"
  shows "lag_inv {} (fst (update_and_transmit (ms_lagName (member_at l n)) (upd_member n f l)))"
proof -
  let ?g = "ms_lagName (member_at l n)"
  have "has_lag (upd_member n f l) ?g"
    using wf_member(2) assms(1,2) by (simp add: lag_inv_def groups_but_def lag_simps)
  from inv_settle [OF inv_touch [OF assms] this] show ?thesis
    by simp
qed

lemma touch_skeleton:
  assumes "lag_inv S l" "has_member l n" "\<And>m. member_frame (f m) = member_frame m"
  shows "skeleton (fst (update_and_transmit (ms_lagName (member_at l n)) (upd_member n f l))) = skeleton l"
proof -
  let ?g = "ms_lagName (member_at l n)"
  have g: "groups_but S l"
    using assms(1) by (simp add: lag_inv_def)
  have "has_lag (upd_member n f l) ?g"
    using wf_member(2) [OF groups_butD(1) [OF g] assms(2)] by (simp add: lag_simps)
  from settle_skeleton [OF groups_but_touch [OF g assms(2,3)] this] show ?thesis
    using skeleton_upd(1) [OF assms(3)] by simp
qed

section \<open>Link changes\<close>

lemma link_fields [simp]:
  "member_frame (m\<lparr>ms_linkUp := u\<rparr>) = member_frame m" "member_timers (m\<lparr>ms_linkUp := u\<rparr>) = member_timers m"
  "member_frame (m\<lparr>ms_carrier := u\<rparr>) = member_frame m" "member_timers (m\<lparr>ms_carrier := u\<rparr>) = member_timers m"
  "member_frame (m\<lparr>ms_hasPendingLink := b, ms_linkDelayTimer := t\<rparr>) = member_frame m"
  "member_core (m\<lparr>ms_hasPendingLink := b, ms_linkDelayTimer := t\<rparr>) = member_core m"
  "member_timers (m\<lparr>ms_hasPendingLink := b, ms_linkDelayTimer := t\<rparr>) = member_timers m"
  "member_frame (m\<lparr>ms_hasPendingLink := b, ms_pendingLinkUp := u, ms_linkDelayTimer := t\<rparr>) = member_frame m"
  "member_core (m\<lparr>ms_hasPendingLink := b, ms_pendingLinkUp := u, ms_linkDelayTimer := t\<rparr>) = member_core m"
  "member_timers (m\<lparr>ms_hasPendingLink := b, ms_pendingLinkUp := u, ms_linkDelayTimer := t\<rparr>) = member_timers m"
  "member_frame (disableReceive m) = member_frame m" "member_frame (expireReceive now m) = member_frame m"
  by (simp_all add: member_frame_def member_core_def member_timers_def disableReceive_def expireReceive_def)

lemma receive_timers [simp]:
  "member_timers m \<Longrightarrow> member_timers (disableReceive m)" "member_timers m \<Longrightarrow> member_timers (expireReceive now m)"
  by (simp_all add: member_timers_def disableReceive_def expireReceive_def)

lemma applyLinkChange_inv:
  assumes "lag_inv {} l" "has_member l n"
  shows "lag_inv {} (fst (applyLinkChange n l))" "skeleton (fst (applyLinkChange n l)) = skeleton l"
  using inv_touch_settle [OF assms, of "\<lambda>m. m\<lparr>ms_linkUp := ms_carrier m\<rparr>"]
    touch_skeleton [OF assms, of "\<lambda>m. m\<lparr>ms_linkUp := ms_carrier m\<rparr>"] assms(1)
  by (simp_all add: applyLinkChange_def Let_def)

lemma inv_again_settle:
  assumes "lag_inv {ms_lagName (member_at l n)} l" "has_member l n" "\<And>m. member_frame (f m) = member_frame m"
    "\<And>m. member_timers m \<Longrightarrow> member_timers (f m)"
  shows "lag_inv {} (fst (update_and_transmit (ms_lagName (member_at l n)) (upd_member n f l)))"
proof -
  let ?g = "ms_lagName (member_at l n)"
  have "has_lag (upd_member n f l) ?g"
    using wf_member(2) assms(1,2) by (simp add: lag_inv_def groups_but_def lag_simps)
  from inv_settle [OF inv_touch [OF assms] this] show ?thesis
    by simp
qed

lemma setCarrier_inv:
  assumes "lag_inv {} l" "has_member l n" and l1_def: "l1 = upd_member n (\<lambda>m. m\<lparr>ms_carrier := up\<rparr>) l"
  shows "lag_inv {} (fst (setCarrier now n up l1))" "skeleton (fst (setCarrier now n up l1)) = skeleton l"
proof -
  have g: "ms_lagName (member_at l1 n) = ms_lagName (member_at l n)" "has_member l1 n"
    "lag_at l1 h = lag_at l h" for h
    using assms(2) by (simp_all add: l1_def lag_simps)
  have 1: "lag_inv {ms_lagName (member_at l1 n)} l1"
    using inv_touch [OF assms(1,2), of "\<lambda>m. m\<lparr>ms_carrier := up\<rparr>"] by (simp add: l1_def g(1) [unfolded l1_def])
  have off: "lag_inv {} l1" if "lacp_off (lag_at l (ms_lagName (member_at l n)))"
    using groups_but_off [of "{}" l n] timers_touch [of l "\<lambda>m. m\<lparr>ms_carrier := up\<rparr>" n] assms(1,2) that
    by (simp add: lag_inv_def l1_def)
  have sk: "skeleton l1 = skeleton l"
    by (simp add: l1_def skeleton_upd(1))
  have s: "lag_inv {} (fst (update_and_transmit (ms_lagName (member_at l1 n)) (upd_member n f l1)))"
    "skeleton (fst (update_and_transmit (ms_lagName (member_at l1 n)) (upd_member n f l1))) = skeleton l"
    if "\<And>m. member_frame (f m) = member_frame m" "\<And>m. member_timers m \<Longrightarrow> member_timers (f m)" for f
    using inv_again_settle [OF 1 g(2) that] touch_skeleton [OF 1 g(2) that(1)] sk by simp_all
  show "lag_inv {} (fst (setCarrier now n up l1))" "skeleton (fst (setCarrier now n up l1)) = skeleton l"
    using off s [of disableReceive] sk
      s [of "\<lambda>m. expireReceive now (updatePeriodic now (lag_at l1 (ms_lagName (member_at l1 n))) m)"]
    by (simp_all add: setCarrier_def Let_def g)
qed

lemma LinkChange_inv:
  assumes "lag_inv {} l"
  shows "lag_inv {} (fst (lag_LinkChange now n up l))" "skeleton (fst (lag_LinkChange now n up l)) = skeleton l"
proof -
  let ?l = "l\<lparr>ly_now := now\<rparr>"
  let ?c = "\<lambda>m. m\<lparr>ms_carrier := up\<rparr>"
  obtain l1 fx where c: "(if ms_carrier (member_at ?l n) \<noteq> up then setCarrier now n up (upd_member n ?c ?l)
      else (?l, no_effects)) = (l1, fx)"
    by (metis prod.collapse)
  have inv: "lag_inv {} ?l"
    using assms by simp
  have "lag_inv {} (fst (lag_LinkChange now n up l)) \<and> skeleton (fst (lag_LinkChange now n up l)) = skeleton l"
  proof (cases "has_member l n")
    case True
    then have hm: "has_member ?l n"
      by (simp add: lag_simps)
    have 1: "lag_inv {} l1" "skeleton l1 = skeleton ?l"
      using setCarrier_inv [OF inv hm refl, where up = up and now = now] inv c by (auto split: if_splits)
    have h1: "has_member l1 n"
      using skeleton_has(2) [OF 1(2)] hm by simp
    have t: "lag_inv {} (upd_member n (\<lambda>m. m\<lparr>ms_hasPendingLink := b, ms_linkDelayTimer := t\<rparr>) l1)"
      "lag_inv {} (upd_member n (\<lambda>m. m\<lparr>ms_hasPendingLink := b, ms_pendingLinkUp := u, ms_linkDelayTimer := t\<rparr>) l1)"
      "skeleton (upd_member n (\<lambda>m. m\<lparr>ms_hasPendingLink := b, ms_linkDelayTimer := t\<rparr>) l1) = skeleton l1"
      "skeleton (upd_member n (\<lambda>m. m\<lparr>ms_hasPendingLink := b, ms_pendingLinkUp := u, ms_linkDelayTimer := t\<rparr>) l1) = skeleton l1"
      for b u t
      by (rule inv_core [OF 1(1)] skeleton_upd(1), simp_all)+
    have a: "lag_inv {} (fst (applyLinkChange n (upd_member n (\<lambda>m. m\<lparr>ms_hasPendingLink := False, ms_linkDelayTimer := 0\<rparr>) l1)))"
      "skeleton (fst (applyLinkChange n (upd_member n (\<lambda>m. m\<lparr>ms_hasPendingLink := False, ms_linkDelayTimer := 0\<rparr>) l1))) = skeleton l1"
    proof -
      have "has_member (upd_member n (\<lambda>m. m\<lparr>ms_hasPendingLink := False, ms_linkDelayTimer := 0\<rparr>) l1) n"
        using h1 by (simp add: lag_simps)
      from applyLinkChange_inv [OF t(1) this] show "lag_inv {} (fst (applyLinkChange n (upd_member n (\<lambda>m. m\<lparr>ms_hasPendingLink := False, ms_linkDelayTimer := 0\<rparr>) l1)))"
        "skeleton (fst (applyLinkChange n (upd_member n (\<lambda>m. m\<lparr>ms_hasPendingLink := False, ms_linkDelayTimer := 0\<rparr>) l1))) = skeleton l1"
        using t(3) by simp_all
    qed
    show ?thesis
      using True 1 t a unfolding lag_LinkChange_def Let_def c
      by (auto simp: has_member_def case_prod_beta)
  next
    case False
    then show ?thesis
      using inv by (simp add: lag_LinkChange_def has_member_def)
  qed
  then show "lag_inv {} (fst (lag_LinkChange now n up l))" "skeleton (fst (lag_LinkChange now n up l)) = skeleton l"
    by simp_all
qed

section \<open>Received LACPDUs\<close>

lemma moved_fields [simp]:
  "member_frame (forget_partner m) = member_frame m" "member_timers m \<Longrightarrow> member_timers (forget_partner m)"
  "member_frame (recordPDU now fast pdu m) = member_frame m"
  "member_timers m \<Longrightarrow> member_timers (recordPDU now fast pdu m)"
  by (simp_all add: forget_partner_def recordPDU_def Let_def member_frame_def member_timers_def
      disableReceive_def recordDefault_def)

lemma moved_inv:
  assumes "lag_inv (set A) l" "\<forall>g \<in> set A. has_lag l g" "\<forall>n \<in> set names. has_member l n"
    and "fold (moved_round member pdu) names (l, A) = (l', A')"
  shows "lag_inv (set A') l' \<and> skeleton l' = skeleton l \<and> (\<forall>g \<in> set A'. has_lag l' g) \<and> set A \<subseteq> set A'"
  using assms
proof (induction names arbitrary: l A)
  case (Cons n names)
  obtain l1 A1 where r: "moved_round member pdu n (l, A) = (l1, A1)"
    by fastforce
  have wf: "wf_lags l"
    using Cons.prems(1) by (simp add: lag_inv_def groups_but_def)
  have n: "has_member l n" "has_lag l (ms_lagName (member_at l n))"
    using Cons.prems(3) wf_member(2) [OF wf] by simp_all
  have 1: "lag_inv (set A1) l1" "skeleton l1 = skeleton l" "\<forall>g \<in> set A1. has_lag l1 g" "set A \<subseteq> set A1"
    using r Cons.prems(1,2) n inv_touch [OF Cons.prems(1) n(1), of forget_partner]
    by (auto simp: moved_round_def lag_simps skeleton_upd(1) split: if_splits)
  have "\<forall>k \<in> set names. has_member l1 k"
    using Cons.prems(3) skeleton_has(2) [OF 1(2)] by simp
  from Cons.IH [OF 1(1,3) this] show ?case
    using 1 Cons.prems(4) r by (auto simp: r)
qed auto

lemma settle_groups_inv:
  assumes "lag_inv (set gs \<union> S) l" "\<forall>g \<in> set gs. has_lag l g"
  shows "lag_inv (S - set gs) (fst (fold settle_group gs (l, fx))) \<and>
    skeleton (fst (fold settle_group gs (l, fx))) = skeleton l"
  using assms
proof (induction gs arbitrary: l fx S)
  case (Cons g gs)
  obtain l1 fx1 where s: "settle_group g (l, fx) = (l1, fx1)"
    by fastforce
  then have l1: "l1 = fst (update_and_transmit g l)"
    by (auto simp: settle_group_def case_prod_beta Let_def)
  have 1: "lag_inv (set (g # gs) \<union> S - {g}) l1" "skeleton l1 = skeleton l"
    using inv_settle [OF Cons.prems(1), of g] settle_skeleton [of "set (g # gs) \<union> S" l g] Cons.prems
    by (simp_all add: l1 lag_inv_def)
  have "lag_inv (set gs \<union> (S - {g})) l1"
    by (rule inv_mono [OF 1(1)]) auto
  moreover have "\<forall>h \<in> set gs. has_lag l1 h"
    using Cons.prems(2) skeleton_has(1) [OF 1(2)] by simp
  ultimately have "lag_inv (S - {g} - set gs) (fst (fold settle_group gs (l1, fx1))) \<and>
      skeleton (fst (fold settle_group gs (l1, fx1))) = skeleton l1"
    by (rule Cons.IH)
  moreover have "S - {g} - set gs = S - set (g # gs)"
    by auto
  ultimately show ?case
    using 1(2) by (simp add: s)
qed simp

lemma keys_have:
  "n \<in> set (sortedKeys (ly_members l)) \<Longrightarrow> has_member l n"
  "g \<in> set (sortedKeys (ly_lags l)) \<Longrightarrow> has_lag l g"
  by (auto simp: has_member_def has_lag_def map_of_eq_None_iff)

lemma Receive_inv:
  assumes "lag_inv {} l"
  shows "lag_inv {} (fst (lag_Receive now n pdu l))" "skeleton (fst (lag_Receive now n pdu l)) = skeleton l"
proof -
  let ?l = "upd_member n (\<lambda>m. m\<lparr>ms_lacpdusRx := ms_lacpdusRx m + 1\<rparr>) (l\<lparr>ly_now := now\<rparr>)"
  have sk: "skeleton ?l = skeleton l"
    by (subst skeleton_upd(1)) (simp_all add: member_frame_def)
  have inv: "lag_inv {} ?l"
    by (rule inv_core) (use assms in \<open>simp_all add: member_frame_def member_core_def member_timers_def\<close>)
  have "lag_inv {} (fst (lag_Receive now n pdu l)) \<and> skeleton (fst (lag_Receive now n pdu l)) = skeleton l"
  proof (cases "has_member l n")
    case True
    let ?m = "member_at ?l n"
    let ?lag = "lag_at ?l (ms_lagName ?m)"
    have h: "has_member ?l n"
      using True by (simp add: lag_simps)
    have wf: "wf_lags ?l"
      using inv by (simp add: lag_inv_def groups_but_def)
    have g: "has_lag ?l (ms_lagName ?m)" "ls_name ?lag = ms_lagName ?m"
      using wf_member(2) [OF wf h] wf_group(3) [OF wf] by simp_all
    obtain l1 A where f: "fold (moved_round (ms_name ?m) pdu) (sortedKeys (ly_members ?l)) (?l, [ls_name ?lag]) = (l1, A)"
      by fastforce
    have 1: "lag_inv (set A) l1" "skeleton l1 = skeleton ?l" "\<forall>g \<in> set A. has_lag l1 g" "ms_lagName ?m \<in> set A"
      using moved_inv [OF _ _ _ f] inv_mono [OF inv] keys_have(1) [of _ ?l] g by auto
    have h1: "has_member l1 n" "ms_lagName (member_at l1 n) = ms_lagName ?m"
      using skeleton_has(2) [OF 1(2)] skeleton_sel(6) [OF 1(2)] h by simp_all
    let ?l2 = "upd_member n (recordPDU now (lp_Fast (lacp_of ?lag)) pdu) l1"
    have 2: "lag_inv (set A) ?l2"
      using inv_touch [OF 1(1) h1(1), of "recordPDU now (lp_Fast (lacp_of ?lag)) pdu"] 1(4) h1(2)
      by (simp add: insert_absorb)
    have sk2: "skeleton ?l2 = skeleton l1"
      by (rule skeleton_upd(1)) simp
    have "lag_inv {} (fst (fold settle_group (sort (remdups A)) (?l2, no_effects))) \<and>
      skeleton (fst (fold settle_group (sort (remdups A)) (?l2, no_effects))) = skeleton ?l2"
      using settle_groups_inv [of "sort (remdups A)" "{}" ?l2] 2 1(3) by (simp add: lag_simps)
    moreover obtain m0 where "map_of (ly_members l) n = Some m0"
      using True by (auto simp: has_member_def)
    ultimately show ?thesis
      using inv sk sk2 1(2) unfolding lag_Receive_def Let_def f by simp
  next
    case False
    then show ?thesis
      using assms by (simp add: lag_Receive_def has_member_def)
  qed
  then show "lag_inv {} (fst (lag_Receive now n pdu l))" "skeleton (fst (lag_Receive now n pdu l)) = skeleton l"
    by simp_all
qed

section \<open>Time\<close>

text \<open>The loop over the receive timer runs at most twice.\<close>

definition rx_settle :: "time \<Rightarrow> member_state \<Rightarrow> member_state" where
  "rx_settle now m =
     (if \<not> rx_due now m then m
      else let m' = expired_step m in if rx_due now m' then expired_step m' else m')"

lemma expired_step_cases:
  "ms_status m = Current \<Longrightarrow> ms_status (expired_step m) = Expired"
  "ms_status m = Expired \<Longrightarrow> ms_rxTimer (expired_step m) = 0"
  by (simp_all add: expired_step_def expireReceive_def)

lemma rx_due_zero [simp]: "ms_rxTimer m = 0 \<Longrightarrow> \<not> rx_due now m"
  by (simp add: rx_due_def)

lemma rx_loop_stops: "\<not> rx_due now m \<Longrightarrow> rx_loop now m = Some m"
  by (subst rx_loop.simps) simp

lemma rx_loop_turns: "rx_due now m \<Longrightarrow> rx_loop now m = rx_loop now (expired_step m)"
  by (subst rx_loop.simps) simp

lemma rx_loop_settles:
  assumes "member_timers m"
  shows "rx_loop now m = Some (rx_settle now m)"
proof (cases "rx_due now m")
  case False
  then show ?thesis
    by (simp add: rx_loop_stops rx_settle_def)
next
  case True
  then consider "ms_status m = Current" | "ms_status m = Expired"
    using assms by (auto simp: member_timers_def rx_due_def)
  then show ?thesis
  proof cases
    case 1
    then have stop: "\<not> rx_due now (expired_step (expired_step m))"
      by (simp add: expired_step_cases)
    show ?thesis
      using rx_loop_turns [OF True] rx_loop_turns [of now "expired_step m"] rx_loop_stops [OF stop]
        rx_loop_stops [of now "expired_step m"] True
      by (cases "rx_due now (expired_step m)") (simp_all add: rx_settle_def Let_def)
  next
    case 2
    then have stop: "\<not> rx_due now (expired_step m)"
      by (simp add: expired_step_cases)
    show ?thesis
      using rx_loop_turns [OF True] rx_loop_stops [OF stop] True stop by (simp add: rx_settle_def Let_def)
  qed
qed

lemma expired_step_fields [simp]:
  "member_frame (expired_step m) = member_frame m" "member_timers m \<Longrightarrow> member_timers (expired_step m)"
  by (auto simp: expired_step_def member_frame_def member_timers_def expireReceive_def recordDefault_def
      split: lag_status.splits)

lemma rx_settle_fields [simp]:
  "member_frame (rx_settle now m) = member_frame m" "member_timers m \<Longrightarrow> member_timers (rx_settle now m)"
  by (simp_all add: rx_settle_def Let_def)

text \<open>A round over the members of a group touches the group when a timer ran out.\<close>

lemma advance_rx_inv:
  assumes "lag_inv (if u then {g} else {}) l" "has_member l n" "ms_lagName (member_at l n) = g"
  shows "\<exists>l' u'. advance_rx now n (l, u) = Some (l', u') \<and> lag_inv (if u' then {g} else {}) l' \<and>
    skeleton l' = skeleton l \<and> (u \<longrightarrow> u')"
proof (cases "ms_carrier (member_at l n)")
  case True
  let ?m = "member_at l n"
  have wf: "wf_lags l"
    using assms(1) by (simp add: lag_inv_def groups_but_def)
  have "member_timers ?m"
    using assms(1) by (simp add: lag_inv_def timers_ok_def)
  then have step: "advance_rx now n (l, u) = Some (upd_member n (rx_settle now) l, u \<or> rx_due now ?m)"
    using True write_member [OF wf, of n "rx_settle now"]
    by (simp add: advance_rx_def Let_def rx_loop_settles)
  have sk: "skeleton (upd_member n (rx_settle now) l) = skeleton l"
    by (rule skeleton_upd(1)) simp
  have "lag_inv (if u \<or> rx_due now ?m then {g} else {}) (upd_member n (rx_settle now) l)"
  proof (cases "u \<or> rx_due now ?m")
    case True
    have "lag_inv {g} l"
      by (rule inv_mono [OF assms(1)]) auto
    from inv_touch [OF this assms(2), of "rx_settle now"] show ?thesis
      using True assms(3) by simp
  next
    case False
    then have "upd_member n (rx_settle now) l = upd_member n (\<lambda>m. m) l"
      using write_member [OF wf, of n "rx_settle now"] write_member [OF wf, of n "\<lambda>m. m"]
      by (simp add: rx_settle_def)
    moreover have "upd_member n (\<lambda>m. m) l = l"
      by (simp add: upd_member_def)
    ultimately show ?thesis
      using False assms(1) by simp
  qed
  with step sk show ?thesis
    by simp
next
  case False
  then show ?thesis
    using assms(1) by (simp add: advance_rx_def)
qed

lemma advance_members_inv:
  assumes "lag_inv (if u then {g} else {}) l" "\<forall>n \<in> set names. has_member l n \<and> ms_lagName (member_at l n) = g"
  shows "\<exists>l' u'. fold_option (advance_rx now) names (l, u) = Some (l', u') \<and>
    lag_inv (if u' then {g} else {}) l' \<and> skeleton l' = skeleton l"
  using assms
proof (induction names arbitrary: l u)
  case (Cons n names)
  obtain l1 u1 where 1: "advance_rx now n (l, u) = Some (l1, u1)" "lag_inv (if u1 then {g} else {}) l1"
    "skeleton l1 = skeleton l"
    using advance_rx_inv [OF Cons.prems(1), of n now] Cons.prems(2) by auto
  have "\<forall>k \<in> set names. has_member l1 k \<and> ms_lagName (member_at l1 k) = g"
    using Cons.prems(2) skeleton_has(2) [OF 1(3)] skeleton_sel(6) [OF 1(3)] by simp
  from Cons.IH [OF 1(2) this] show ?case
    using 1 by auto
qed simp

lemma inv_transmit: "lag_inv S l \<Longrightarrow> lag_inv S (fst (transmitLag g l))"
  using tx_step_groups [OF transmitLag_step] transmitLag_timers by (simp add: lag_inv_def)

lemma inv_update:
  assumes "lag_inv S l" "has_lag l g"
  shows "lag_inv (S - {g}) (snd (updateLag g l))" "skeleton (snd (updateLag g l)) = skeleton l"
proof -
  have gb: "groups_but S l" and t: "timers_ok l"
    using assms(1) by (simp_all add: lag_inv_def)
  show "lag_inv (S - {g}) (snd (updateLag g l))"
    using groups_but_update [OF gb assms(2)] updateLag_timers [OF gb assms(2) t] by (simp add: lag_inv_def)
  show "skeleton (snd (updateLag g l)) = skeleton l"
    using updateLag_ok(2) [OF groups_butD(1) [OF gb] assms(2) groups_butD(2) [OF gb]] group_stepD(1) by blast
qed

lemma transmit_skeleton: "skeleton (fst (transmitLag g l)) = skeleton l"
  using transmitLag_step [of g l] by (simp add: tx_step_def)

lemma advance_group_inv:
  assumes "lag_inv {} l" "has_lag l g"
  shows "\<exists>l' fx'. advance_group now g (l, fx) = Some (l', fx') \<and> lag_inv {} l' \<and> skeleton l' = skeleton l"
proof (cases "lacp_off (lag_at l g)")
  case False
  let ?names = "ls_memberNames (lag_at l g)"
  define u where "u \<longleftrightarrow> ls_aggregateWait (lag_at l g) \<noteq> 0 \<and> ls_aggregateWait (lag_at l g) \<le> now"
  have wf: "wf_lags l"
    using assms(1) by (simp add: lag_inv_def groups_but_def)
  have "\<forall>n \<in> set ?names. has_member l n \<and> ms_lagName (member_at l n) = g"
    using wf_group(4) [OF wf assms(2)] by simp
  moreover have "lag_inv (if u then {g} else {}) l"
    by (rule inv_mono [OF assms(1)]) simp
  ultimately obtain l1 u1 where 1: "fold_option (advance_rx now) ?names (l, u) = Some (l1, u1)"
    "lag_inv (if u1 then {g} else {}) l1" "skeleton l1 = skeleton l"
    using advance_members_inv by blast
  obtain ch l2 where 2: "(if u1 then updateLag g l1 else (False, l1)) = (ch, l2)"
    by fastforce
  have h1: "has_lag l1 g"
    using assms(2) skeleton_has(1) [OF 1(3)] by simp
  have i2: "lag_inv {} l2" "skeleton l2 = skeleton l"
    using inv_update [OF 1(2) h1] 1(2,3) 2 by (auto split: if_splits)
  have "advance_group now g (l, fx) = Some (fst (transmitLag g l2),
      fx\<lparr>fx_Emissions := fx_Emissions fx @ snd (transmitLag g l2),
         fx_Changed := fx_Changed fx @ (if ch then [g] else [])\<rparr>)"
    using False unfolding advance_group_def Let_def u_def [symmetric] case_prod_conv
    by (simp add: 1(1) 2 del: if_split) (simp add: case_prod_beta)
  then show ?thesis
    using inv_transmit [OF i2(1)] transmit_skeleton i2(2) by simp
next
  case True
  then show ?thesis
    using assms(1) by (simp add: advance_group_def)
qed

lemma advance_groups_inv:
  assumes "lag_inv {} l" "\<forall>g \<in> set gs. has_lag l g"
  shows "\<exists>l' fx'. fold_option (advance_group now) gs (l, fx) = Some (l', fx') \<and> lag_inv {} l' \<and> skeleton l' = skeleton l"
  using assms
proof (induction gs arbitrary: l fx)
  case (Cons g gs)
  obtain l1 fx1 where 1: "advance_group now g (l, fx) = Some (l1, fx1)" "lag_inv {} l1" "skeleton l1 = skeleton l"
    using advance_group_inv [OF Cons.prems(1), of g now fx] Cons.prems(2) by auto
  have "\<forall>h \<in> set gs. has_lag l1 h"
    using Cons.prems(2) skeleton_has(1) [OF 1(3)] by simp
  from Cons.IH [OF 1(2) this] show ?case
    using 1 by auto
qed simp

lemma advance_link_inv:
  assumes "lag_inv {} l" "has_member l n"
  shows "lag_inv {} (fst (advance_link now n (l, fx)))" "skeleton (fst (advance_link now n (l, fx))) = skeleton l"
proof -
  let ?l = "upd_member n (\<lambda>m. m\<lparr>ms_hasPendingLink := False, ms_linkDelayTimer := 0\<rparr>) l"
  have 1: "lag_inv {} ?l" "skeleton ?l = skeleton l" "has_member ?l n"
    by (rule inv_core [OF assms(1)] skeleton_upd(1), simp_all) (simp_all add: lag_simps assms(2) skeleton_upd(1))
  show "lag_inv {} (fst (advance_link now n (l, fx)))" "skeleton (fst (advance_link now n (l, fx))) = skeleton l"
    using applyLinkChange_inv [OF 1(1,3)] 1(2) assms(1)
    by (simp_all add: advance_link_def Let_def case_prod_beta)
qed

lemma advance_links_inv:
  assumes "lag_inv {} l"
  shows "lag_inv {} (fst (fold (advance_link now) (sortedKeys (ly_members l)) (l\<lparr>ly_now := now\<rparr>, no_effects)))"
    "skeleton (fst (fold (advance_link now) (sortedKeys (ly_members l)) (l\<lparr>ly_now := now\<rparr>, no_effects))) = skeleton l"
proof -
  let ?l = "l\<lparr>ly_now := now\<rparr>"
  let ?P = "\<lambda>s :: lag_layer \<times> effects. lag_inv {} (fst s) \<and> skeleton (fst s) = skeleton l"
  have "?P (fold (advance_link now) (sortedKeys (ly_members l)) (?l, no_effects))"
  proof (rule fold_inv [where P = ?P])
    show "?P (?l, no_effects)"
      using assms by simp
    fix n s
    assume n: "n \<in> set (sortedKeys (ly_members l))" and s: "?P s"
    have "has_member (fst s) n"
      using keys_have(1) [OF n] skeleton_has(2) [of "fst s" l] s by simp
    then show "?P (advance_link now n s)"
      using advance_link_inv [of "fst s" n now "snd s"] s by simp
  qed
  then show "lag_inv {} (fst (fold (advance_link now) (sortedKeys (ly_members l)) (?l, no_effects)))"
    "skeleton (fst (fold (advance_link now) (sortedKeys (ly_members l)) (?l, no_effects))) = skeleton l"
    by simp_all
qed

lemma Advance_inv:
  assumes "lag_inv {} l"
  shows "\<exists>l' fx. lag_Advance now l = Some (l', fx) \<and> lag_inv {} l' \<and> skeleton l' = skeleton l"
proof -
  obtain l1 fx1 where f: "fold (advance_link now) (sortedKeys (ly_members l)) (l\<lparr>ly_now := now\<rparr>, no_effects) = (l1, fx1)"
    by fastforce
  have 1: "lag_inv {} l1" "skeleton l1 = skeleton l"
    using advance_links_inv [OF assms, of now] by (simp_all add: f)
  obtain l2 fx2 where 2: "fold_option (advance_group now) (sortedKeys (ly_lags l1)) (l1, fx1) = Some (l2, fx2)"
    "lag_inv {} l2" "skeleton l2 = skeleton l1"
    using advance_groups_inv [OF 1(1), of "sortedKeys (ly_lags l1)"] keys_have(2) by blast
  show ?thesis
    using 1 2 by (simp add: lag_Advance_def f)
qed

end
