(* ===== verification/Lag_Choice.thy ===== *)
theory Lag_Choice
  imports Lag_Run Ip_Codec
begin

unbundle bit_operations_syntax

text \<open>
  Choosing a member: the choice never panics, is one of the enabled members, and committing it only
  rotates the list of enabled members and fills a bucket.
\<close>

section \<open>The hash never panics\<close>

lemma inspect_total: "\<exists>r. inspectTCPHashInput f = Some r"
proof -
  obtain a where a: "ip_Decode (f_Payload f) = Some a"
    using ip_Decode_total by (metis not_None_eq)
  have "sub ps 0 4 = Some (take 4 ps)" if "length ps \<ge> 4" for ps :: "byte list"
    using that by (simp add: sub_def slice_def)
  then show ?thesis
    by (auto simp: inspectTCPHashInput_def a Let_def split: sum.splits)
qed

lemma hashTCP_total: "\<exists>h. hashTCP basis f = Some h"
  using inspect_total [of f] by (auto simp: hashTCP_def)

section \<open>What a choice is, and what committing it changes\<close>

text \<open>The group after a choice: the same members in another order, as many buckets.\<close>

definition chosen :: "bool \<Rightarrow> lag_selection \<Rightarrow> lag_state \<Rightarrow> lag_state \<Rightarrow> bool" where
  "chosen commit sel lag lag' \<longleftrightarrow>
     lag_frame lag' = lag_frame lag \<and> lag_core lag' = lag_core lag \<and>
     set (ls_enabledOrder lag') = set (ls_enabledOrder lag) \<and>
     distinct (ls_enabledOrder lag') = distinct (ls_enabledOrder lag) \<and>
     (se_OK sel \<longrightarrow> se_Member sel \<in> set (ls_enabledOrder lag)) \<and>
     (\<not> commit \<longrightarrow> lag' = lag)"

lemma balanced_chosen: "balancedSelect lag now h commit = (sel, lag') \<Longrightarrow> chosen commit sel lag lag'"
  by (auto simp: balancedSelect_def chosen_def Let_def lag_frame_def lag_core_def no_selection_def
      split: list.splits if_splits)

lemma active_chosen: "activeBackupSelect lag commit = (sel, lag') \<Longrightarrow> chosen commit sel lag lag'"
  by (auto simp: activeBackupSelect_def chosen_def Let_def lag_frame_def lag_core_def no_selection_def
      intro!: Min_in split: if_splits)

lemma nothing_chosen [simp]: "chosen commit no_selection lag lag"
  by (simp add: chosen_def no_selection_def)

lemma select_in_chosen:
  assumes "select_in lag now f vid commit = Some (sel, lag')"
  shows "chosen commit sel lag lag'"
  using assms balanced_chosen active_chosen
  by (auto simp: select_in_def split: bond_mode.splits if_splits bind_splits)

lemma select_in_total: "\<exists>r. select_in lag now f vid commit = Some r"
proof -
  obtain h where "hashTCP (lg_HashBasis (ls_cfg lag)) f = Some h"
    using hashTCP_total by blast
  then show ?thesis
    by (auto simp: select_in_def split: bond_mode.splits)
qed

definition after_choice :: "time \<Rightarrow> frame \<Rightarrow> vlan_id \<Rightarrow> bool \<Rightarrow> lag_state \<Rightarrow> lag_state" where
  "after_choice now f vid commit lag =
     (case select_in lag now f vid commit of Some (_, lag') \<Rightarrow> lag' | None \<Rightarrow> lag)"

lemma after_choice_fields [simp]:
  "lag_frame (after_choice now f vid commit lag) = lag_frame lag"
  "lag_core (after_choice now f vid commit lag) = lag_core lag"
  "set (ls_enabledOrder (after_choice now f vid commit lag)) = set (ls_enabledOrder lag)"
  "distinct (ls_enabledOrder (after_choice now f vid commit lag)) = distinct (ls_enabledOrder lag)"
  "after_choice now f vid False lag = lag"
  using select_in_chosen [of lag now f vid commit] select_in_chosen [of lag now f vid False]
  by (auto simp: after_choice_def chosen_def split: option.splits)

text \<open>The call on the layer is the choice in the group, written back.\<close>

lemma selectMember_group:
  assumes "wf_lags l" "map_of (ly_lags l) g = Some lag"
  shows "\<exists>sel. lag_selectMember now g f vid commit l = Some (sel, upd_lag g (after_choice now f vid commit) l) \<and>
    select_in lag now f vid commit = Some (sel, after_choice now f vid commit lag)"
proof -
  obtain sel lag' where s: "select_in lag now f vid commit = Some (sel, lag')"
    using select_in_total by fastforce
  then have "after_choice now f vid commit lag = lag'"
    by (simp add: after_choice_def)
  moreover have "lag_at l g = lag"
    using assms(2) by (simp add: lag_at_def)
  ultimately have "upd_lag g (\<lambda>_. lag') l = upd_lag g (after_choice now f vid commit) l"
    using write_lag [OF assms(1), of g "after_choice now f vid commit"] by simp
  then show ?thesis
    using assms(2) s \<open>after_choice now f vid commit lag = lag'\<close> by (simp add: lag_selectMember_def)
qed

lemma selectMember_total:
  assumes "wf_lags l"
  shows "\<exists>sel l'. lag_selectMember now g f vid commit l = Some (sel, l')"
proof (cases "map_of (ly_lags l) g")
  case None
  then show ?thesis
    by (simp add: lag_selectMember_def)
next
  case (Some lag)
  from selectMember_group [OF assms this] show ?thesis
    by blast
qed

lemma selectMember_chosen:
  assumes "wf_lags l" "lag_selectMember now g f vid commit l = Some (sel, l')"
  shows "l' = upd_lag g (after_choice now f vid commit) l"
    and "se_OK sel \<Longrightarrow> has_lag l g \<and> se_Member sel \<in> set (ls_enabledOrder (lag_at l g))"
proof -
  have "l' = upd_lag g (after_choice now f vid commit) l \<and>
    (se_OK sel \<longrightarrow> has_lag l g \<and> se_Member sel \<in> set (ls_enabledOrder (lag_at l g)))"
  proof (cases "map_of (ly_lags l) g")
    case None
    then show ?thesis
      using assms(2) by (auto simp: lag_selectMember_def no_selection_def upd_lag_def upd_absent)
  next
    case (Some lag)
    then show ?thesis
      using selectMember_group [OF assms(1) Some, of now f vid commit] assms(2)
        select_in_chosen [of lag now f vid commit sel]
      by (auto simp: chosen_def lag_at_def has_lag_def)
  qed
  then show "l' = upd_lag g (after_choice now f vid commit) l"
    "se_OK sel \<Longrightarrow> has_lag l g \<and> se_Member sel \<in> set (ls_enabledOrder (lag_at l g))"
    by simp_all
qed

lemma after_choice_lookup:
  "set (ls_enabledOrder (lag_at (upd_lag g (after_choice now f vid commit) l) h)) = set (ls_enabledOrder (lag_at l h))"
  "member_at (upd_lag g (after_choice now f vid commit) l) n = member_at l n"
  by (simp_all add: lag_simps)

lemma choice_inv:
  assumes "lag_inv S l"
  shows "lag_inv S (upd_lag g (after_choice now f vid commit) l)"
    and "skeleton (upd_lag g (after_choice now f vid commit) l) = skeleton l"
proof -
  let ?l = "upd_lag g (after_choice now f vid commit) l"
  show sk: "skeleton ?l = skeleton l"
    by (rule skeleton_upd(2)) simp
  have "group_ok ?l h = group_ok l h" for h
    by (rule group_ok_cong) (simp_all add: lag_simps)
  then show "lag_inv S ?l"
    using assms wf_skeleton [OF sk] by (simp add: lag_inv_def groups_but_def timers_ok_def lag_simps)
qed


section \<open>A flow keeps its member\<close>

text \<open>Which of the two rules a group applies to a frame, with the hash for the balanced one.\<close>

definition rule_of :: "lag_state \<Rightarrow> frame \<Rightarrow> vlan_id \<Rightarrow> u32 option" where
  "rule_of lag f vid =
     (case lg_Mode (ls_cfg lag) of
        BalanceSLB \<Rightarrow> Some (hashSLB (lg_HashBasis (ls_cfg lag)) (f_Src f) vid)
      | BalanceTCP \<Rightarrow>
          if lacp_off lag \<or> ls_attachedMembers lag = [] then None
          else hashTCP (lg_HashBasis (ls_cfg lag)) f
      | _ \<Rightarrow> None)"

definition refused :: "lag_state \<Rightarrow> bool" where
  "refused lag \<longleftrightarrow> lg_Mode (ls_cfg lag) = BalanceTCP \<and> (lacp_off lag \<or> ls_attachedMembers lag = []) \<and>
     \<not> lp_Fallback (lacp_of lag)"

lemma select_in_rule:
  "select_in lag now f vid commit =
    Some (if refused lag then (no_selection, lag)
          else case rule_of lag f vid of
            None \<Rightarrow> activeBackupSelect lag commit
          | Some h \<Rightarrow> balancedSelect lag now h commit)"
proof -
  obtain h where "hashTCP (lg_HashBasis (ls_cfg lag)) f = Some h"
    using hashTCP_total by blast
  then show ?thesis
    by (auto simp: select_in_def rule_of_def refused_def split: bond_mode.splits)
qed

text \<open>The frame is bound to a member: by its bucket, or by what active backup remembers.\<close>

definition bound :: "lag_state \<Rightarrow> frame \<Rightarrow> vlan_id \<Rightarrow> string \<Rightarrow> bool" where
  "bound lag f vid m \<longleftrightarrow> \<not> refused lag \<and> m \<in> set (ls_enabledOrder lag) \<and> length (ls_buckets lag) = 256 \<and>
     (case rule_of lag f vid of
        Some h \<Rightarrow> (let e = ls_buckets lag ! unat (ucast (h AND 0xff) :: byte) in bk_assigned e \<and> bk_member e = m)
      | None \<Rightarrow>
          m = (let p = lg_Primary (ls_cfg lag) in
               if p \<noteq> '''' \<and> p \<in> set (ls_enabledOrder lag) then p
               else if ls_lastActive lag \<noteq> '''' \<and> ls_lastActive lag \<in> set (ls_enabledOrder lag) then ls_lastActive lag
               else Min (set (ls_enabledOrder lag))))"

lemma bucket_index: "unat (ucast (h AND 0xff :: u32) :: byte) < 256"
  using unsigned_less [of "ucast (h AND 0xff) :: byte"] by simp

lemma bound_answer:
  assumes "bound lag f vid m"
  shows "\<exists>sel lag'. select_in lag now f vid commit = Some (sel, lag') \<and> se_OK sel \<and> se_Member sel = m"
  using assms
  by (cases "rule_of lag f vid"; cases "ls_enabledOrder lag")
    (auto simp: bound_def select_in_rule balancedSelect_def activeBackupSelect_def Let_def)

lemma same_rule:
  assumes "chosen commit sel lag lag'"
  shows "rule_of lag' f vid = rule_of lag f vid" "refused lag' = refused lag" "ls_cfg lag' = ls_cfg lag"
    "set (ls_enabledOrder lag') = set (ls_enabledOrder lag)" "length (ls_buckets lag') = length (ls_buckets lag)"
proof -
  show c: "ls_cfg lag' = ls_cfg lag" "set (ls_enabledOrder lag') = set (ls_enabledOrder lag)"
    "length (ls_buckets lag') = length (ls_buckets lag)"
    using assms by (simp_all add: chosen_def lag_core_def lag_frame_def)
  have a: "ls_attachedMembers lag' = ls_attachedMembers lag"
    using assms by (simp add: chosen_def lag_core_def)
  show "rule_of lag' f vid = rule_of lag f vid" "refused lag' = refused lag"
    unfolding rule_of_def refused_def c a by (rule refl)+
qed

text \<open>A committed choice binds the frame.\<close>

lemma chosen_bound:
  assumes "select_in lag now f vid True = Some (sel, lag')" "se_OK sel" "length (ls_buckets lag) = 256"
  shows "bound lag' f vid (se_Member sel)"
proof -
  note ch = select_in_chosen [OF assms(1)]
  have nr: "\<not> refused lag"
    using assms(1,2) by (auto simp: select_in_rule no_selection_def)
  have m: "se_Member sel \<in> set (ls_enabledOrder lag)"
    using ch assms(2) by (simp add: chosen_def)
  show ?thesis
  proof (cases "rule_of lag f vid")
    case None
    then have "activeBackupSelect lag True = (sel, lag')"
      using assms(1) nr by (simp add: select_in_rule)
    then have "ls_lastActive lag' = se_Member sel"
      "lg_Primary (ls_cfg lag) \<noteq> '''' \<and> lg_Primary (ls_cfg lag) \<in> set (ls_enabledOrder lag) \<longrightarrow>
        se_Member sel = lg_Primary (ls_cfg lag)"
      using assms(2) by (auto simp: activeBackupSelect_def no_selection_def Let_def split: if_splits)
    moreover have "Min (set (ls_enabledOrder lag)) = ''''" if "'''' \<in> set (ls_enabledOrder lag)"
    proof -
      have "Min (set (ls_enabledOrder lag)) \<le> ''''"
        using that by (intro Min_le) simp_all
      then show ?thesis
        by simp
    qed
    ultimately show ?thesis
      using nr m assms(3) by (auto simp: bound_def same_rule [OF ch] None Let_def)
  next
    case (Some h)
    then have "balancedSelect lag now h True = (sel, lag')"
      using assms(1) nr by (simp add: select_in_rule)
    then have "bk_assigned (ls_buckets lag' ! unat (ucast (h AND 0xff) :: byte)) \<and>
        bk_member (ls_buckets lag' ! unat (ucast (h AND 0xff) :: byte)) = se_Member sel"
      using assms(2,3) bucket_index [of h]
      by (auto simp: balancedSelect_def no_selection_def Let_def split: list.splits if_splits)
    then show ?thesis
      using nr m assms(3) by (simp add: bound_def same_rule [OF ch] Some Let_def)
  qed
qed

text \<open>No choice for another frame loosens it.\<close>

lemma balanced_keeps:
  assumes "balancedSelect lag now h' commit = (sel, lag')" "bk_assigned (ls_buckets lag ! b)"
    "bk_member (ls_buckets lag ! b) \<in> set (ls_enabledOrder lag)" "length (ls_buckets lag) = 256"
  shows "ls_buckets lag' ! b = ls_buckets lag ! b"
  using assms bucket_index [of h']
  by (auto simp: balancedSelect_def Let_def nth_list_update split: list.splits if_splits)

lemma bound_stays:
  assumes "bound lag f vid m"
  shows "bound (after_choice now f' vid' commit lag) f vid m"
proof -
  obtain sel lag' where s: "select_in lag now f' vid' commit = Some (sel, lag')"
    using select_in_total by fastforce
  then have l': "after_choice now f' vid' commit lag = lag'"
    by (simp add: after_choice_def)
  note ch = select_in_chosen [OF s]
  have mode: "rule_of lag f vid = None \<longleftrightarrow> rule_of lag f' vid' = None"
  proof -
    obtain h h' where "hashTCP (lg_HashBasis (ls_cfg lag)) f = Some h"
      "hashTCP (lg_HashBasis (ls_cfg lag)) f' = Some h'"
      using hashTCP_total by blast
    then show ?thesis
      by (simp add: rule_of_def split: bond_mode.splits)
  qed
  show ?thesis
  proof (cases "rule_of lag f vid")
    case None
    then have "activeBackupSelect lag commit = (sel, lag')"
      using s mode assms by (auto simp: select_in_rule bound_def)
    then have "ls_lastActive lag' = ls_lastActive lag \<or> ls_lastActive lag' = m"
      using assms None by (auto simp: activeBackupSelect_def bound_def Let_def split: if_splits)
    moreover have "Min (set (ls_enabledOrder lag)) = ''''" if "'''' \<in> set (ls_enabledOrder lag)"
      using that by (metis List.finite_set Min_le Nil_less_Cons list.exhaust not_less)
    ultimately show ?thesis
      using assms None unfolding l' by (auto simp: bound_def same_rule [OF ch] Let_def)
  next
    case (Some h)
    then obtain h' where "balancedSelect lag now h' commit = (sel, lag')"
      using s mode assms by (auto simp: select_in_rule bound_def)
    then show ?thesis
      using assms Some balanced_keeps unfolding l' by (fastforce simp: bound_def same_rule [OF ch] Let_def)
  qed
qed

end
