(* ===== verification/Lag_Reach.thy ===== *)
theory Lag_Reach
  imports Lag_Choice
begin

text \<open>
  The layer \<^verbatim>\<open>New\<close> builds satisfies the invariant, every call keeps it, and so it holds in every
  state that is reached.
\<close>

section \<open>What New builds\<close>

lemma put_fresh: "k \<notin> fst ` set m \<Longrightarrow> put m k v = m @ [(k, v)]"
  by (simp add: put_def map_of_eq_None_iff)

lemma put_all_fresh:
  assumes "distinct ks" "set ks \<inter> fst ` set m = {}"
  shows "fold (\<lambda>k m. put m k (F k)) ks m = m @ map (\<lambda>k. (k, F k)) ks"
  using assms
proof (induction ks arbitrary: m)
  case (Cons k ks)
  then have "put m k (F k) = m @ [(k, F k)]"
    by (intro put_fresh) auto
  moreover have "set ks \<inter> fst ` set (m @ [(k, F k)]) = {}"
    using Cons.prems by auto
  ultimately show ?case
    using Cons.IH [of "m @ [(k, F k)]"] Cons.prems(1) by simp
qed simp

lemma fold_members:
  "fold (\<lambda>n l. l\<lparr>ly_members := put (ly_members l) n (F n)\<rparr>) ns l =
   l\<lparr>ly_members := fold (\<lambda>n m. put m n (F n)) ns (ly_members l)\<rparr>"
  by (induction ns arbitrary: l) simp_all

lemma Members_iff:
  "n \<in> set (member_names tbl g) \<longleftrightarrow>
    (\<exists>p \<in> set (tb_ports tbl). pt_Name p = n \<and> pt_LagParent p = g) \<and>
    (\<exists>q. tb_byName tbl g = Some q \<and> pt_Kind q = LAG)"
  by (cases "tb_byName tbl g") (auto simp: member_names_def Members_def)

lemma member_names_distinct: "wf_table tbl \<Longrightarrow> distinct (member_names tbl g)"
  by (auto simp: member_names_def Members_def wf_table_def distinct_map_filter split: option.splits)

lemma member_names_disjoint:
  assumes "wf_table tbl" "n \<in> set (member_names tbl g)" "n \<in> set (member_names tbl h)"
  shows "g = h"
proof -
  obtain p q where p: "p \<in> set (tb_ports tbl)" "pt_Name p = n" "pt_LagParent p = g"
    and q: "q \<in> set (tb_ports tbl)" "pt_Name q = n" "pt_LagParent q = h"
    using assms by (auto simp: Members_iff)
  have "inj_on pt_Name (set (tb_ports tbl))"
    using assms(1) by (simp add: wf_table_def distinct_map)
  then show ?thesis
    using p q by (metis inj_onD)
qed

lemma all_members_distinct:
  assumes "wf_table tbl" "distinct gs"
  shows "distinct (concat (map (member_names tbl) gs))"
  using assms(2)
proof (induction gs)
  case (Cons g gs)
  then have "set (member_names tbl g) \<inter> set (concat (map (member_names tbl) gs)) = {}"
    using member_names_disjoint [OF assms(1)] by auto
  then show ?case
    using Cons member_names_distinct [OF assms(1)] by simp
qed simp

definition built_members :: "lag_config \<Rightarrow> port_table \<Rightarrow> string list \<Rightarrow> (string, member_state) gomap" where
  "built_members c tbl gs = concat (map (\<lambda>g. map (\<lambda>n. (n, new_member g (group_of c g) n)) (member_names tbl g)) gs)"

lemma built_keys: "map fst (built_members c tbl gs) = concat (map (member_names tbl) gs)"
  by (simp add: built_members_def map_concat comp_def)

lemma built_layer:
  assumes "wf_table tbl" "distinct (hs @ gs)"
    and "ly_lags l = map (\<lambda>g. (g, new_lag tbl g (group_of c g))) hs" "ly_members l = built_members c tbl hs"
  shows "ly_lags (fold (add_group c tbl) gs l) = map (\<lambda>g. (g, new_lag tbl g (group_of c g))) (hs @ gs) \<and>
    ly_members (fold (add_group c tbl) gs l) = built_members c tbl (hs @ gs)"
  using assms(2-)
proof (induction gs arbitrary: hs l)
  case (Cons g gs)
  let ?F = "\<lambda>n. new_member g (group_of c g) n"
  have g: "g \<notin> set hs" "distinct (hs @ [g])"
    using Cons.prems(1) by auto
  have "set (member_names tbl g) \<inter> set (concat (map (member_names tbl) hs)) = {}"
    using member_names_disjoint [OF assms(1)] g(1) by auto
  then have fresh: "set (member_names tbl g) \<inter> fst ` set (built_members c tbl hs) = {}"
    by (metis built_keys list.set_map)
  have "ly_lags (add_group c tbl g l) = map (\<lambda>g. (g, new_lag tbl g (group_of c g))) (hs @ [g])"
    using put_fresh [of g "ly_lags l"] g(1) Cons.prems(2) by (simp add: add_group_def fold_members image_image)
  moreover have "ly_members (add_group c tbl g l) = built_members c tbl (hs @ [g])"
    using put_all_fresh [OF member_names_distinct [OF assms(1)] fresh, of ?F] Cons.prems(3)
    by (simp add: add_group_def fold_members) (simp add: built_members_def)
  ultimately show ?case
    using Cons.IH [of "hs @ [g]" "add_group c tbl g l"] Cons.prems(1) by simp
qed simp

text \<open>Numbering the members changes none of what the invariant looks at.\<close>

definition same_members :: "lag_layer \<Rightarrow> lag_layer \<Rightarrow> bool" where
  "same_members l l' \<longleftrightarrow> ly_lags l' = ly_lags l \<and> map fst (ly_members l') = map fst (ly_members l) \<and>
     (\<forall>n. (has_member l' n \<longleftrightarrow> has_member l n) \<and> ms_name (member_at l' n) = ms_name (member_at l n) \<and>
       ms_lagName (member_at l' n) = ms_lagName (member_at l n) \<and>
       member_core (member_at l' n) = member_core (member_at l n) \<and>
       member_timers (member_at l' n) = member_timers (member_at l n))"

lemma touch_same:
  assumes "\<And>m. ms_name (f m) = ms_name m" "\<And>m. ms_lagName (f m) = ms_lagName m"
    "\<And>m. member_core (f m) = member_core m" "\<And>m. member_timers (f m) = member_timers m"
  shows "same_members l (upd_member n f l)"
proof -
  have "map fst (ly_members (upd_member n f l)) = map fst (ly_members l)"
    by (simp add: upd_member_def)
  then show ?thesis
    by (simp add: same_members_def lag_simps assms)
qed

lemma number_member_same: "same_members l (number_member x l)"
  unfolding number_member_def case_prod_beta
  by (rule touch_same) (simp_all add: updateActorInfo_def Let_def member_core_def member_timers_def)

lemma same_trans: "same_members l l' \<Longrightarrow> same_members l' l'' \<Longrightarrow> same_members l l''"
  by (simp add: same_members_def)

lemma numbered_same: "same_members l (fold number_member xs l)"
proof (induction xs arbitrary: l)
  case (Cons x xs)
  show ?case
    using same_trans [OF number_member_same Cons.IH] by simp
qed (simp add: same_members_def)

lemma same_inv:
  assumes "same_members l l'" "lag_inv S l"
  shows "lag_inv S l'"
proof -
  have a: "lag_at l' g = lag_at l g" "has_lag l' g = has_lag l g" for g
    using assms(1) by (simp_all add: same_members_def lag_at_def has_lag_def)
  have "group_ok l' h = group_ok l h" for h
    by (rule group_ok_cong) (use assms(1) in \<open>simp_all add: a same_members_def\<close>)
  moreover have "wf_lags l'"
    using assms by (simp add: lag_inv_def groups_but_def wf_lags_def a same_members_def)
  ultimately show ?thesis
    using assms by (simp add: lag_inv_def groups_but_def timers_ok_def a same_members_def)
qed

lemma new_member_fields [simp]:
  "ms_name (new_member g cfg n) = n" "ms_lagName (new_member g cfg n) = g"
  "ms_enabled (new_member g cfg n) = False" "ms_attached (new_member g cfg n) = False"
  "ms_selected (new_member g cfg n) = False" "member_timers (new_member g cfg n)"
  by (simp_all add: new_member_def disableReceive_def recordDefault_def zero_member_def member_timers_def)

lemma built_inv:
  assumes "wf_table tbl" "distinct gs"
    and "ly_lags l = map (\<lambda>g. (g, new_lag tbl g (group_of c g))) gs" "ly_members l = built_members c tbl gs"
    and gs: "\<And>g. g \<in> set gs \<Longrightarrow> \<exists>q. tb_byName tbl g = Some q \<and> pt_Kind q = LAG"
  shows "lag_inv {} l"
proof -
  have keys: "distinct (map fst (ly_members l))" "map fst (ly_lags l) = gs"
    using all_members_distinct [OF assms(1,2)] by (simp_all add: assms(3,4) built_keys comp_def)
  have lag: "map_of (ly_lags l) g = (if g \<in> set gs then Some (new_lag tbl g (group_of c g)) else None)" for g
    by (simp add: assms(3) map_of_map_restrict restrict_map_def)
  have mem: "map_of (ly_members l) n = Some m \<longleftrightarrow>
      (\<exists>g \<in> set gs. n \<in> set (member_names tbl g) \<and> m = new_member g (group_of c g) n)" for n m
    using map_of_eq_Some_iff [OF keys(1)] by (auto simp: assms(4) built_members_def)
  have at: "lag_at l g = (if g \<in> set gs then new_lag tbl g (group_of c g) else zero_lag)"
    "has_lag l g \<longleftrightarrow> g \<in> set gs" for g
    by (simp_all add: lag_at_def has_lag_def lag)
  have m: "has_member l n \<and> member_at l n = new_member g (group_of c g) n"
    if "g \<in> set gs" "n \<in> set (member_names tbl g)" for g n
  proof -
    have "map_of (ly_members l) n = Some (new_member g (group_of c g) n)"
      using mem that by blast
    then show ?thesis
      by (simp add: has_member_def member_at_def)
  qed
  have m': "\<exists>g \<in> set gs. n \<in> set (member_names tbl g) \<and> member_at l n = new_member g (group_of c g) n"
    if h: "has_member l n" for n
  proof -
    obtain x where x: "map_of (ly_members l) n = Some x"
      using h unfolding has_member_def by blast
    then have "member_at l n = x"
      by (simp add: member_at_def)
    with x show ?thesis
      using mem by metis
  qed
  have zero: "member_at l n = zero_member" if "\<not> has_member l n" for n
    using that by (simp add: has_member_def member_at_def)
  have fresh: "ms_enabled (member_at l n) = False" "ms_attached (member_at l n) = False"
    "ms_selected (member_at l n) = False" "member_timers (member_at l n)" for n
  proof -
    have "member_at l n = zero_member \<or> (\<exists>g cfg. member_at l n = new_member g cfg n)"
      using m' zero by blast
    then show "ms_enabled (member_at l n) = False" "ms_attached (member_at l n) = False"
      "ms_selected (member_at l n) = False" "member_timers (member_at l n)"
      by (elim disjE exE; simp; simp add: zero_member_def)+
  qed
  have group: "ls_name (lag_at l g) = g \<and> distinct (ls_memberNames (lag_at l g)) \<and>
      length (ls_buckets (lag_at l g)) = 256 \<and>
      (\<forall>n \<in> set (ls_memberNames (lag_at l g)). has_member l n \<and> ms_lagName (member_at l n) = g)"
    if "g \<in> set gs" for g
    using that m [OF that] member_names_distinct [OF assms(1)] by (simp add: at new_lag_def zero_lag_def)
  have member: "ms_name (member_at l n) = n \<and> ms_lagName (member_at l n) \<in> set gs \<and>
      n \<in> set (ls_memberNames (lag_at l (ms_lagName (member_at l n))))" if h: "has_member l n" for n
  proof -
    obtain g where "g \<in> set gs" "n \<in> set (member_names tbl g)" "member_at l n = new_member g (group_of c g) n"
      using m' [OF h] by blast
    then show ?thesis
      by (simp add: at new_lag_def)
  qed
  have "distinct (map fst (ly_lags l)) \<and> distinct (map fst (ly_members l))"
    using keys assms(2) by (simp only: simp_thms)
  moreover have "\<forall>g. has_lag l g \<longrightarrow> ls_name (lag_at l g) = g \<and> distinct (ls_memberNames (lag_at l g)) \<and>
      length (ls_buckets (lag_at l g)) = 256 \<and>
      (\<forall>n \<in> set (ls_memberNames (lag_at l g)). has_member l n \<and> ms_lagName (member_at l n) = g)"
    unfolding at(2) by (intro allI impI group)
  moreover have "\<forall>n. has_member l n \<longrightarrow> ms_name (member_at l n) = n \<and> has_lag l (ms_lagName (member_at l n)) \<and>
      n \<in> set (ls_memberNames (lag_at l (ms_lagName (member_at l n))))"
    unfolding at(2) by (intro allI impI member)
  ultimately have "wf_lags l"
    unfolding wf_lags_def by simp
  moreover have "group_ok l h" for h
    by (simp add: group_ok_def Let_def fresh lacp_member_ok_def at new_lag_def zero_lag_def)
  ultimately show ?thesis
    by (simp add: lag_inv_def groups_but_def timers_ok_def fresh group_ok_distinct)
qed

lemma validated_groups:
  assumes "lag_Validate tbl c = None" "g \<in> set (sortedKeys c)"
  shows "\<exists>q. tb_byName tbl g = Some q \<and> pt_Kind q = LAG"
proof -
  have "validate_group tbl g (group_of c g) = None"
    using assms first_error_None by (auto simp: lag_Validate_def)
  then show ?thesis
    by (auto simp: validate_group_def Table_Port_def split: option.splits if_splits)
qed

lemma New_inv:
  assumes "lag_New c tbl mac = Inr l" "builder_Build bd = Inr tbl"
  shows "lag_inv {} l"
proof -
  let ?c = "lag_Normalize tbl mac c"
  let ?l = "\<lparr>ly_cfg = ?c, ly_ports = tbl, ly_systemID = mac, ly_now = 0, ly_lags = [], ly_members = []\<rparr>"
  let ?b = "fold (add_group ?c tbl) (sortedKeys ?c) ?l"
  have wf: "wf_table tbl"
    using builder_wf [OF assms(2)] by simp
  have v: "lag_Validate tbl ?c = None" and l: "l = lag_newLayer ?c tbl mac"
    using assms(1) by (auto simp: lag_New_def Let_def split: option.splits)
  have "ly_lags ?b = map (\<lambda>g. (g, new_lag tbl g (group_of ?c g))) (sortedKeys ?c) \<and>
      ly_members ?b = built_members ?c tbl (sortedKeys ?c)"
    using built_layer [OF wf, of "[]" "sortedKeys ?c" ?l ?c] by (simp add: built_members_def)
  then have "lag_inv {} ?b"
    using built_inv [OF wf, of "sortedKeys ?c" ?b ?c] validated_groups [OF v] by simp
  then show ?thesis
    using same_inv [OF numbered_same] by (simp add: l lag_newLayer_def Let_def)
qed

section \<open>Every call keeps the invariant\<close>

text \<open>
  A call at a time, with the LACPDUs it answers; \<open>Select\<close> and \<open>Peek\<close> are one rule, told apart by
  their flag.
\<close>

inductive lag_call :: "time \<Rightarrow> lag_layer \<Rightarrow> emission list \<Rightarrow> lag_layer \<Rightarrow> bool" where
  link: "lag_LinkChange now n up l = (l', fx) \<Longrightarrow> lag_call now l (fx_Emissions fx) l'"
| receive: "lag_Receive now n pdu l = (l', fx) \<Longrightarrow> lag_call now l (fx_Emissions fx) l'"
| advance: "lag_Advance now l = Some (l', fx) \<Longrightarrow> lag_call now l (fx_Emissions fx) l'"
| choose: "lag_selectMember now g f vid commit l = Some (sel, l') \<Longrightarrow> lag_call now l [] l'"
| bad: "lag_call now l [] (lag_BadLACPDU n l)"

inductive_cases lag_callE: "lag_call now l es l'"

lemma bad_inv:
  assumes "lag_inv {} l"
  shows "lag_inv {} (lag_BadLACPDU n l)" "skeleton (lag_BadLACPDU n l) = skeleton l"
  unfolding lag_BadLACPDU_def
  by (rule inv_core [OF assms] skeleton_upd(1), simp_all add: member_frame_def member_core_def member_timers_def)+

lemma lag_call_inv:
  assumes "lag_call now l es l'" "lag_inv {} l"
  shows "lag_inv {} l' \<and> skeleton l' = skeleton l"
  using assms(1)
proof cases
  case (link n up fx)
  then show ?thesis
    using LinkChange_inv [OF assms(2), of now n up] by simp
next
  case (receive n pdu fx)
  then show ?thesis
    using Receive_inv [OF assms(2), of now n pdu] by simp
next
  case (advance fx)
  then show ?thesis
    using Advance_inv [OF assms(2), of now] by auto
next
  case (choose g f vid commit sel)
  have "wf_lags l"
    using assms(2) by (simp add: lag_inv_def groups_but_def)
  from selectMember_chosen(1) [OF this choose(2)] show ?thesis
    using choice_inv [OF assms(2)] by simp
next
  case (bad n)
  then show ?thesis
    using bad_inv [OF assms(2)] by simp
qed

definition lag_init :: "lag_config \<Rightarrow> port_table \<Rightarrow> mac \<Rightarrow> lag_layer \<Rightarrow> bool" where
  "lag_init c tbl mac l \<longleftrightarrow> lag_New c tbl mac = Inr l \<and> (\<exists>bd. builder_Build bd = Inr tbl)"

definition lag_step :: "lag_layer \<Rightarrow> lag_layer \<Rightarrow> bool" where
  "lag_step l l' \<longleftrightarrow> (\<exists>now es. lag_call now l es l')"

definition lag_reachable :: "lag_config \<Rightarrow> port_table \<Rightarrow> mac \<Rightarrow> lag_layer \<Rightarrow> bool" where
  "lag_reachable c tbl mac l \<longleftrightarrow> reach (lag_init c tbl mac) lag_step l"

interpretation groups: invariant "lag_init c tbl mac" lag_step "lag_inv {}" for c tbl mac
  by unfold_locales (use New_inv lag_call_inv in \<open>auto simp: lag_init_def lag_step_def\<close>)

lemma lag_reachable_inv: "lag_reachable c tbl mac l \<Longrightarrow> lag_inv {} l"
  unfolding lag_reachable_def by (rule groups.reachable_inv)

lemma reachable_group:
  assumes "lag_reachable c tbl mac l"
  shows "wf_lags l" "group_ok l g" "timers_ok l"
  using lag_reachable_inv [OF assms] by (simp_all add: lag_inv_def groups_but_def)

end
