(* ===== verification/Lag_Due.thy ===== *)
theory Lag_Due
  imports Lag_Reach
begin

text \<open>
  What \<^verbatim>\<open>Advance\<close> leaves: every receive timer that had run out has been dealt with, so the
  member waits for a time still to come or for nothing.
\<close>

definition rx_settled :: "time \<Rightarrow> lag_layer \<Rightarrow> string \<Rightarrow> bool" where
  "rx_settled now l n \<longleftrightarrow> (ms_carrier (member_at l n) \<longrightarrow> \<not> rx_due now (member_at l n))"

lemma rx_settled_cong:
  assumes "ms_carrier (member_at l' n) = ms_carrier (member_at l n)"
    "ms_rxTimer (member_at l' n) = ms_rxTimer (member_at l n)"
  shows "rx_settled now l' n = rx_settled now l n"
  by (simp add: rx_settled_def rx_due_def assms)

lemma rx_loop_done: "rx_loop now m = Some m' \<Longrightarrow> \<not> rx_due now m'"
proof (rule rx_loop.raw_induct [where P = "\<lambda>now _ m'. \<not> rx_due now m'", rotated])
  fix loop now m m'
  assume "\<And>now m m'. loop now m = Some m' \<Longrightarrow> \<not> rx_due now m'"
    "(if rx_due now m then loop now (expired_step m) else Some m) = Some m'"
  then show "\<not> rx_due now m'"
    by (auto split: if_splits)
qed

lemma advance_rx_settles:
  assumes "advance_rx now k (l, u) = Some (l', u')"
  shows "rx_settled now l' k" "rx_settled now l n \<Longrightarrow> rx_settled now l' n"
proof -
  have "rx_settled now l' k \<and> (rx_settled now l n \<longrightarrow> rx_settled now l' n)"
  proof (cases "ms_carrier (member_at l k)")
    case True
    then obtain m' where r: "rx_loop now (member_at l k) = Some m'" and l': "l' = upd_member k (\<lambda>_. m') l"
      using assms by (auto simp: advance_rx_def Let_def bind_eq_Some_conv)
    have "has_member l k"
      using True unfolding has_member_def member_at_def zero_member_def by (metis member_state.select_convs(5) option.simps(4))
    then show ?thesis
      using rx_loop_done [OF r] by (simp add: l' rx_settled_def lag_simps)
  next
    case False
    then show ?thesis
      using assms by (simp add: advance_rx_def rx_settled_def)
  qed
  then show "rx_settled now l' k" "rx_settled now l n \<Longrightarrow> rx_settled now l' n"
    by simp_all
qed

lemma advance_members_settle:
  assumes "fold_option (advance_rx now) names (l, u) = Some (l', u')"
  shows "n \<in> set names \<or> rx_settled now l n \<Longrightarrow> rx_settled now l' n"
  using assms
proof (induction names arbitrary: l u)
  case (Cons k names)
  then obtain l1 u1 where 1: "advance_rx now k (l, u) = Some (l1, u1)"
    and "fold_option (advance_rx now) names (l1, u1) = Some (l', u')"
    by (auto simp: bind_eq_Some_conv)
  then show ?case
    using Cons.IH [of l1 u1] Cons.prems(1) advance_rx_settles [OF 1] by auto
qed simp

lemma transmit_rx: "rx_settled now (fst (transmitLag g l)) n = rx_settled now l n"
proof -
  have "ms_rxTimer (member_at (fst (transmitLag g l)) n) = ms_rxTimer (member_at l n)"
    unfolding transmitLag_def
    by (rule fold_inv [where P = "\<lambda>s. ms_rxTimer (member_at (fst s) n) = ms_rxTimer (member_at l n)"])
      (auto simp: transmit_member_def Let_def lag_simps case_prod_beta)
  moreover have "ms_carrier (member_at (fst (transmitLag g l)) n) = ms_carrier (member_at l n)"
    using transmitLag_step [of g l] by (auto simp: tx_step_def dest: member_core_sel(1))
  ultimately show ?thesis
    by (intro rx_settled_cong)
qed

lemma update_rx:
  assumes "lag_inv S l" "has_lag l g"
  shows "rx_settled now (snd (updateLag g l)) n = rx_settled now l n"
proof -
  have "group_step g l (snd (updateLag g l))"
    using updateLag_ok(2) [of l g] assms by (simp add: lag_inv_def groups_but_def)
  from group_stepD(10) [OF this, of n] show ?thesis
    by (intro rx_settled_cong) (simp_all add: radio_def)
qed

lemma advance_group_settles:
  assumes "advance_group now g (l, fx) = Some (l', fx')" "lag_inv {} l" "has_lag l g"
  shows "rx_settled now l n \<or> \<not> lacp_off (lag_at l g) \<and> n \<in> set (ls_memberNames (lag_at l g)) \<Longrightarrow> rx_settled now l' n"
proof (cases "lacp_off (lag_at l g)")
  case True
  then show "rx_settled now l n \<or> \<not> lacp_off (lag_at l g) \<and> n \<in> set (ls_memberNames (lag_at l g)) \<Longrightarrow> rx_settled now l' n"
    using assms(1) by (simp add: advance_group_def)
next
  case False
  let ?names = "ls_memberNames (lag_at l g)"
  assume n: "rx_settled now l n \<or> \<not> lacp_off (lag_at l g) \<and> n \<in> set ?names"
  define u where "u \<longleftrightarrow> ls_aggregateWait (lag_at l g) \<noteq> 0 \<and> ls_aggregateWait (lag_at l g) \<le> now"
  have wf: "wf_lags l"
    using assms(2) by (simp add: lag_inv_def groups_but_def)
  have "\<forall>n \<in> set ?names. has_member l n \<and> ms_lagName (member_at l n) = g"
    using wf_group(4) [OF wf assms(3)] by simp
  moreover have "lag_inv (if u then {g} else {}) l"
    by (rule inv_mono [OF assms(2)]) simp
  ultimately obtain l1 u1 where 1: "fold_option (advance_rx now) ?names (l, u) = Some (l1, u1)"
    "lag_inv (if u1 then {g} else {}) l1" "skeleton l1 = skeleton l"
    using advance_members_inv by blast
  obtain ch l2 where 2: "(if u1 then updateLag g l1 else (False, l1)) = (ch, l2)"
    by fastforce
  have h1: "has_lag l1 g"
    using assms(3) skeleton_has(1) [OF 1(3)] by simp
  have "rx_settled now l1 n"
    using advance_members_settle [OF 1(1)] n by blast
  then have "rx_settled now l2 n"
    using update_rx [OF 1(2) h1, of now n] 2 by (auto split: if_splits)
  moreover have "l' = fst (transmitLag g l2)"
    using assms(1) False unfolding advance_group_def Let_def case_prod_conv u_def [symmetric]
    by (simp add: 1(1) 2 del: if_split) (auto simp: case_prod_beta)
  ultimately show "rx_settled now l' n"
    by (simp add: transmit_rx)
qed

lemma advance_groups_settle:
  assumes "fold_option (advance_group now) gs (l, fx) = Some (l', fx')" "lag_inv {} l" "\<forall>g \<in> set gs. has_lag l g"
    and "rx_settled now l n \<or>
      (\<exists>g \<in> set gs. \<not> lacp_off (lag_at l g) \<and> n \<in> set (ls_memberNames (lag_at l g)))"
  shows "rx_settled now l' n"
  using assms
proof (induction gs arbitrary: l fx)
  case (Cons g gs)
  obtain l1 fx1 where 1: "advance_group now g (l, fx) = Some (l1, fx1)" "lag_inv {} l1" "skeleton l1 = skeleton l"
    using advance_group_inv [OF Cons.prems(2), of g now fx] Cons.prems(3) by auto
  have same: "lacp_off (lag_at l1 h) = lacp_off (lag_at l h)"
    "ls_memberNames (lag_at l1 h) = ls_memberNames (lag_at l h)" "has_lag l1 h = has_lag l h" for h
    using skeleton_sel(2,3) [OF 1(3)] skeleton_has(1) [OF 1(3)] by simp_all
  have "rx_settled now l1 n \<or>
      (\<exists>h \<in> set gs. \<not> lacp_off (lag_at l1 h) \<and> n \<in> set (ls_memberNames (lag_at l1 h)))"
    using advance_group_settles [OF 1(1) Cons.prems(2), of n] Cons.prems(3,4) unfolding same by auto
  then show ?case
    using Cons.IH [of l1 fx1] Cons.prems(1,3) 1 by (simp add: same)
qed auto

lemma Advance_settles:
  assumes "lag_Advance now l = Some (l', fx)" "lag_inv {} l" "has_member l n"
    and "\<not> lacp_off (lag_at l (ms_lagName (member_at l n)))"
  shows "rx_settled now l' n"
proof -
  let ?l = "l\<lparr>ly_now := now\<rparr>"
  let ?P = "\<lambda>s :: lag_layer \<times> effects. lag_inv {} (fst s) \<and> skeleton (fst s) = skeleton l"
  obtain l1 fx1 where f: "fold (advance_link now) (sortedKeys (ly_members ?l)) (?l, no_effects) = (l1, fx1)"
    by fastforce
  have 1: "lag_inv {} l1" "skeleton l1 = skeleton l"
    using advance_links_inv [OF assms(2), of now] by (simp_all add: f [simplified])
  obtain fx2 where 2: "fold_option (advance_group now) (sortedKeys (ly_lags l1)) (l1, fx1) = Some (l', fx2)"
    using assms(1) unfolding lag_Advance_def Let_def f by (auto simp: bind_eq_Some_conv)
  let ?g = "ms_lagName (member_at l n)"
  have g: "has_lag l ?g" "n \<in> set (ls_memberNames (lag_at l ?g))"
    using wf_member(2,3) assms(2,3) by (simp_all add: lag_inv_def groups_but_def)
  have "?g \<in> set (sortedKeys (ly_lags l1))"
    using g(1) skeleton_keys(3) [OF 1(2)] by (auto simp: has_lag_def map_of_eq_None_iff)
  moreover have "\<not> lacp_off (lag_at l1 ?g) \<and> n \<in> set (ls_memberNames (lag_at l1 ?g))"
    using g(2) assms(4) skeleton_sel(2,3) [OF 1(2)] by simp
  ultimately show ?thesis
    using advance_groups_settle [OF 2 1(1)] keys_have(2) [of _ l1] by blast
qed

end
