(* ===== verification/Lag_Rate.thy ===== *)
theory Lag_Rate
  imports Lag_Reach
begin

text \<open>
  How often a member transmits. A call is a composition of updates of single members, of updates of
  a group and of transmissions (\<open>talks\<close>); the record of the last three transmission times bounds
  what such a composition sends in a second.
\<close>

section \<open>Calls as compositions\<close>

text \<open>An update of one member that leaves its place and its record of transmissions alone.\<close>

definition quiet :: "member_state \<Rightarrow> member_state \<Rightarrow> bool" where
  "quiet m m' \<longleftrightarrow> member_frame m' = member_frame m \<and> ms_txTimes m' = ms_txTimes m \<and>
     ms_txCount m' = ms_txCount m \<and> (member_timers m \<longrightarrow> member_timers m')"

inductive talks :: "lag_layer \<Rightarrow> emission list \<Rightarrow> lag_layer \<Rightarrow> bool" where
  talks_refl [simp]: "talks l [] l"
| talks_touch: "quiet (member_at l n) (f (member_at l n)) \<Longrightarrow> talks l [] (upd_member n f l)"
| talks_update: "updateLag g l = (ch, l') \<Longrightarrow> talks l [] l'"
| talks_transmit: "transmitLag g l = (l', es) \<Longrightarrow> talks l es l'"
| talks_trans: "talks l es l' \<Longrightarrow> talks l' es' l'' \<Longrightarrow> talks l (es @ es') l''"

lemma talks_more: "talks l [] l' \<Longrightarrow> talks l' es l'' \<Longrightarrow> talks l es l''"
  using talks_trans [of l "[]" l' es l''] by simp

lemma talks_settle: "update_and_transmit g l = (l', fx) \<Longrightarrow> talks l (fx_Emissions fx) l'"
  unfolding update_and_transmit_def Let_def case_prod_beta
  by (metis effects.select_convs(1) fst_conv prod.collapse snd_conv talks_more talks_transmit talks_update)

lemma talks_touch_settle:
  assumes "update_and_transmit g (upd_member n f l) = (l', fx)" "quiet (member_at l n) (f (member_at l n))"
  shows "talks l (fx_Emissions fx) l'"
  by (rule talks_more [OF talks_touch talks_settle]) (rule assms)+

lemma quiet_steps [simp]:
  "quiet m (m\<lparr>ms_linkUp := u\<rparr>)" "quiet m (m\<lparr>ms_carrier := u\<rparr>)"
  "quiet m (m\<lparr>ms_hasPendingLink := b, ms_linkDelayTimer := t\<rparr>)"
  "quiet m (m\<lparr>ms_hasPendingLink := b, ms_pendingLinkUp := u, ms_linkDelayTimer := t\<rparr>)"
  "quiet m (disableReceive m)" "quiet m (expireReceive now (updatePeriodic now lag m))"
  "quiet m (m\<lparr>ms_lacpdusRx := c\<rparr>)" "quiet m (m\<lparr>ms_badLACPDUs := c\<rparr>)"
  "quiet m (forget_partner m)" "quiet m (recordPDU now fast pdu m)" "quiet m (expired_step m)"
  by (auto simp: quiet_def member_frame_def member_timers_def disableReceive_def expireReceive_def
      forget_partner_def recordDefault_def recordPDU_def Let_def updatePeriodic_def expired_step_def
      split: lag_status.splits)

lemma quiet_refl [simp]: "quiet m m"
  by (simp add: quiet_def)

lemma quiet_trans: "quiet m m' \<Longrightarrow> quiet m' m'' \<Longrightarrow> quiet m m''"
  by (simp add: quiet_def)

lemma rx_loop_quiet:
  assumes "rx_loop now m = Some m'"
  shows "quiet m m'"
  using assms
proof (rule rx_loop.raw_induct [where P = "\<lambda>_. quiet", rotated])
  fix loop now m m'
  assume IH: "\<And>now m m'. loop now m = Some m' \<Longrightarrow> quiet m m'"
    and turn: "(if rx_due now m then loop now (expired_step m) else Some m) = Some m'"
  have "quiet m m'" if "loop now (expired_step m) = Some m'"
    by (rule quiet_trans [OF quiet_steps(11) IH [OF that]])
  then show "quiet m m'"
    using turn by (auto split: if_splits)
qed

lemma talks_link: "applyLinkChange n l = (l', fx) \<Longrightarrow> talks l (fx_Emissions fx) l'"
  by (auto simp: applyLinkChange_def Let_def dest!: talks_touch_settle split: if_splits)

lemma talks_carrier: "setCarrier now n up l = (l', fx) \<Longrightarrow> talks l (fx_Emissions fx) l'"
  by (auto simp: setCarrier_def Let_def dest!: talks_touch_settle split: if_splits)

lemma talks_LinkChange:
  assumes "lag_LinkChange now n up l = (l', fx)"
  shows "talks (l\<lparr>ly_now := now\<rparr>) (fx_Emissions fx) l'"
proof -
  let ?l = "l\<lparr>ly_now := now\<rparr>"
  let ?c = "\<lambda>m. m\<lparr>ms_carrier := up\<rparr>"
  let ?r = "if ms_carrier (member_at ?l n) \<noteq> up then setCarrier now n up (upd_member n ?c ?l)
    else (?l, no_effects)"
  obtain l1 fx1 where c: "?r = (l1, fx1)"
    by fastforce
  have 1: "talks ?l (fx_Emissions fx1) l1"
  proof (cases "ms_carrier (member_at ?l n) = up")
    case False
    then show ?thesis
      using c talks_carrier talks_more [OF talks_touch [of ?l n ?c]] by simp
  qed (use c in auto)
  let ?off = "upd_member n (\<lambda>m. m\<lparr>ms_hasPendingLink := False, ms_linkDelayTimer := 0\<rparr>) l1"
  obtain l2 fx2 where a: "applyLinkChange n ?off = (l2, fx2)"
    by fastforce
  have 2: "talks l1 [] (upd_member n (\<lambda>m. m\<lparr>ms_hasPendingLink := b, ms_linkDelayTimer := t\<rparr>) l1)"
    "talks l1 [] (upd_member n (\<lambda>m. m\<lparr>ms_hasPendingLink := b, ms_pendingLinkUp := u, ms_linkDelayTimer := t\<rparr>) l1)"
    for b u t
    by (rule talks_touch; simp)+
  have "talks ?l (fx_Emissions fx1 @ fx_Emissions fx2) l2"
    by (rule talks_trans [OF 1 talks_more [OF 2(1) talks_link [OF a]]])
  then show ?thesis
    using assms 1 talks_trans [OF 1 2(1)] talks_trans [OF 1 2(2)]
    unfolding lag_LinkChange_def Let_def c
    by (auto simp: a mergeEffects_def split: if_splits)
qed

lemma talks_moved: "talks l [] (fst (fold (moved_round n pdu) names (l, A)))"
proof (induction names arbitrary: l A)
  case (Cons k names)
  have "talks l [] (fst (moved_round n pdu k (l, A)))"
    by (simp add: moved_round_def talks_touch)
  from talks_more [OF this Cons.IH [of "fst (moved_round n pdu k (l, A))" "snd (moved_round n pdu k (l, A))"]]
  show ?case
    by simp
qed simp

text \<open>A loop that collects emissions.\<close>

lemma talks_fold:
  assumes step: "\<And>x l fx l' fx'. f x (l, fx) = (l', fx') \<Longrightarrow>
    \<exists>es. fx_Emissions fx' = fx_Emissions fx @ es \<and> talks l es l'"
    and "fold f xs (l, fx) = (l', fx')"
  shows "\<exists>es. fx_Emissions fx' = fx_Emissions fx @ es \<and> talks l es l'"
  using assms(2)
proof (induction xs arbitrary: l fx)
  case (Cons x xs)
  obtain l1 fx1 where 1: "f x (l, fx) = (l1, fx1)"
    by fastforce
  obtain es es' where "fx_Emissions fx1 = fx_Emissions fx @ es" "talks l es l1"
    "fx_Emissions fx' = fx_Emissions fx1 @ es'" "talks l1 es' l'"
    using step [OF 1] Cons.IH [of l1 fx1] Cons.prems 1 by auto
  then show ?case
    using talks_trans [of l es l1 es' l'] by auto
qed auto

lemma talks_settle_group:
  assumes "settle_group g (l, fx) = (l', fx')"
  shows "\<exists>es. fx_Emissions fx' = fx_Emissions fx @ es \<and> talks l es l'"
proof -
  obtain l1 fx1 where s: "update_and_transmit g l = (l1, fx1)"
    by fastforce
  then show ?thesis
    using assms talks_settle [OF s] by (auto simp: settle_group_def)
qed

lemma talks_Receive:
  assumes "lag_Receive now n pdu l = (l', fx)"
  shows "talks (l\<lparr>ly_now := now\<rparr>) (fx_Emissions fx) l'"
proof -
  let ?l = "l\<lparr>ly_now := now\<rparr>"
  let ?c = "upd_member n (\<lambda>m. m\<lparr>ms_lacpdusRx := ms_lacpdusRx m + 1\<rparr>) ?l"
  let ?lag = "lag_at ?c (ms_lagName (member_at ?c n))"
  have c: "talks ?l [] ?c"
    by (rule talks_touch) simp
  obtain l1 A where m: "fold (moved_round (ms_name (member_at ?c n)) pdu) (sortedKeys (ly_members ?c)) (?c, [ls_name ?lag]) = (l1, A)"
    by fastforce
  have 1: "talks ?c [] l1"
    using talks_moved [of ?c "ms_name (member_at ?c n)" pdu "sortedKeys (ly_members ?c)" "[ls_name ?lag]"] by (simp add: m)
  let ?l2 = "upd_member n (recordPDU now (lp_Fast (lacp_of ?lag)) pdu) l1"
  have 2: "talks ?l [] ?l2"
    by (rule talks_more [OF c talks_more [OF 1 talks_touch]]) simp
  obtain l3 fx3 where s: "fold settle_group (sort (remdups A)) (?l2, no_effects) = (l3, fx3)"
    by fastforce
  have "talks ?l (fx_Emissions fx3) l3"
    using talks_fold [OF talks_settle_group s] talks_more [OF 2] by auto
  then show ?thesis
    using assms c s unfolding lag_Receive_def Let_def m by (auto split: if_splits)
qed

lemma talks_advance_link:
  assumes "advance_link now n (l, fx) = (l', fx')"
  shows "\<exists>es. fx_Emissions fx' = fx_Emissions fx @ es \<and> talks l es l'"
proof -
  let ?l = "upd_member n (\<lambda>m. m\<lparr>ms_hasPendingLink := False, ms_linkDelayTimer := 0\<rparr>) l"
  obtain l1 fx1 where a: "applyLinkChange n ?l = (l1, fx1)"
    by fastforce
  have t: "talks l (fx_Emissions fx1) l1"
    by (rule talks_more [OF talks_touch talks_link [OF a]]) simp
  have "\<exists>es. fx_Emissions fx = fx_Emissions fx @ es \<and> talks l es l"
    by simp
  then show ?thesis
    using assms t by (auto simp: advance_link_def Let_def a split: if_splits)
qed

lemma talks_advance_rx:
  assumes "advance_rx now n (l, u) = Some (l', u')"
  shows "talks l [] l'"
proof (cases "ms_carrier (member_at l n)")
  case True
  then obtain m' where r: "rx_loop now (member_at l n) = Some m'" and l': "l' = upd_member n (\<lambda>_. m') l"
    using assms by (auto simp: advance_rx_def Let_def bind_eq_Some_conv)
  show ?thesis
    unfolding l' by (rule talks_touch) (rule rx_loop_quiet [OF r])
next
  case False
  then show ?thesis
    using assms by (simp add: advance_rx_def)
qed

lemma talks_advance_members: "fold_option (advance_rx now) names (l, u) = Some (l', u') \<Longrightarrow> talks l [] l'"
proof (induction names arbitrary: l u)
  case (Cons n names)
  then obtain l1 u1 where 1: "advance_rx now n (l, u) = Some (l1, u1)"
    and "fold_option (advance_rx now) names (l1, u1) = Some (l', u')"
    by (auto simp: bind_eq_Some_conv)
  then show ?case
    using talks_more [OF talks_advance_rx [OF 1] Cons.IH] by blast
qed simp

lemma talks_advance_group:
  assumes "advance_group now g (l, fx) = Some (l', fx')"
  shows "\<exists>es. fx_Emissions fx' = fx_Emissions fx @ es \<and> talks l es l'"
proof (cases "lacp_off (lag_at l g)")
  case False
  let ?u = "ls_aggregateWait (lag_at l g) \<noteq> 0 \<and> ls_aggregateWait (lag_at l g) \<le> now"
  obtain l1 u1 where 1: "fold_option (advance_rx now) (ls_memberNames (lag_at l g)) (l, ?u) = Some (l1, u1)"
    using assms False by (auto simp: advance_group_def Let_def bind_eq_Some_conv)
  obtain ch l2 where 2: "(if u1 then updateLag g l1 else (False, l1)) = (ch, l2)"
    by fastforce
  obtain l3 es where 3: "transmitLag g l2 = (l3, es)"
    by fastforce
  have "talks l1 [] l2"
    using 2 talks_update [of g l1] by (cases u1) auto
  then have "talks l es l3"
    by (rule talks_more [OF talks_advance_members [OF 1] talks_more [OF _ talks_transmit [OF 3]]])
  moreover have "l' = l3" "fx_Emissions fx' = fx_Emissions fx @ es"
    using assms False unfolding advance_group_def Let_def case_prod_conv 1 by (auto simp: 2 3)
  ultimately show ?thesis
    by blast
next
  case True
  then show ?thesis
    using assms by (auto simp: advance_group_def)
qed

lemma talks_advance_groups:
  "fold_option (advance_group now) gs (l, fx) = Some (l', fx') \<Longrightarrow>
    \<exists>es. fx_Emissions fx' = fx_Emissions fx @ es \<and> talks l es l'"
proof (induction gs arbitrary: l fx)
  case (Cons g gs)
  then obtain l1 fx1 where 1: "advance_group now g (l, fx) = Some (l1, fx1)"
    and r: "fold_option (advance_group now) gs (l1, fx1) = Some (l', fx')"
    by (auto simp: bind_eq_Some_conv)
  obtain es es' where "fx_Emissions fx1 = fx_Emissions fx @ es" "talks l es l1"
    "fx_Emissions fx' = fx_Emissions fx1 @ es'" "talks l1 es' l'"
    using talks_advance_group [OF 1] Cons.IH [OF r] by blast
  then show ?case
    using talks_trans [of l es l1 es' l'] by auto
qed auto

lemma talks_Advance:
  assumes "lag_Advance now l = Some (l', fx)"
  shows "talks (l\<lparr>ly_now := now\<rparr>) (fx_Emissions fx) l'"
proof -
  let ?l = "l\<lparr>ly_now := now\<rparr>"
  obtain l1 fx1 where 1: "fold (advance_link now) (sortedKeys (ly_members ?l)) (?l, no_effects) = (l1, fx1)"
    by fastforce
  obtain fx2 where 2: "fold_option (advance_group now) (sortedKeys (ly_lags l1)) (l1, fx1) = Some (l', fx2)"
    and e: "fx_Emissions fx = fx_Emissions fx2"
    using assms unfolding lag_Advance_def Let_def 1 by (auto simp: bind_eq_Some_conv)
  obtain es es' where "fx_Emissions fx1 = es" "talks ?l es l1"
    "fx_Emissions fx2 = fx_Emissions fx1 @ es'" "talks l1 es' l'"
    using talks_fold [OF talks_advance_link 1] talks_advance_groups [OF 2] by auto
  then show ?thesis
    using talks_trans [of ?l es l1 es' l'] e by simp
qed

text \<open>
  Every call is a composition, at its time; choosing a member and counting answer nothing and leave
  the clock alone.
\<close>

lemma call_talks:
  assumes "lag_call now l es l'" "lag_inv {} l"
  shows "talks (l\<lparr>ly_now := now\<rparr>) es l' \<or>
    es = [] \<and> (\<forall>n. quiet (member_at l n) (member_at l' n))"
  using assms(1)
proof cases
  case (link n up fx)
  then show ?thesis
    using talks_LinkChange by blast
next
  case (receive n pdu fx)
  then show ?thesis
    using talks_Receive by blast
next
  case (advance fx)
  then show ?thesis
    using talks_Advance by blast
next
  case (choose g f vid commit sel)
  have "wf_lags l"
    using assms(2) by (simp add: lag_inv_def groups_but_def)
  from selectMember_chosen(1) [OF this choose(2)] show ?thesis
    using choose(1) by (simp add: lag_simps)
next
  case (bad n)
  then show ?thesis
    by (simp add: lag_BadLACPDU_def lag_simps)
qed

section \<open>What a second allows\<close>

text \<open>The last \<open>k\<close> transmissions of a member are on record and not older than \<open>t0\<close>.\<close>

definition recent :: "time \<Rightarrow> nat \<Rightarrow> member_state \<Rightarrow> bool" where
  "recent t0 k m \<longleftrightarrow> k \<le> ms_txCount m \<and> (\<forall>i. ms_txCount m - k \<le> i \<and> i < ms_txCount m \<longrightarrow> t0 \<le> ms_txTimes m ! i)"

lemma drop_old_recent:
  assumes "drop_old now c ts = (c', ts')" "c \<le> 3" "length ts = 3" "now < t0 + fastPeriod"
    and "k \<le> c" "\<forall>i. c - k \<le> i \<and> i < c \<longrightarrow> t0 \<le> ts ! i"
  shows "k \<le> c' \<and> (\<forall>i. c' - k \<le> i \<and> i < c' \<longrightarrow> t0 \<le> ts' ! i)"
  using assms
proof (induction now c ts rule: drop_old.induct)
  case (2 now c ts)
  show ?case
  proof (cases "ts ! 0 + fastPeriod > now")
    case False
    then have "ts ! 0 < t0"
      using "2.prems"(4) by simp
    then have k: "k \<le> c"
      using "2.prems"(5,6) by (metis diff_is_0_eq le_Suc_eq le_refl not_le zero_less_Suc)
    have shift: "(tl ts @ [last ts]) ! i = ts ! Suc i" if "i < c" for i
      using that "2.prems"(2,3) by (simp add: nth_append nth_tl)
    have "\<forall>i. c - k \<le> i \<and> i < c \<longrightarrow> t0 \<le> (tl ts @ [last ts]) ! i"
      using "2.prems"(6) by (auto simp: shift)
    then show ?thesis
      using "2.IH" [OF False] "2.prems" False k by simp
  qed (use 2 in simp)
qed simp

lemma record_recent:
  assumes "recent t0 k m" "member_timers m" "\<not> transmitWake now m > now" "t0 \<le> now" "now < t0 + fastPeriod"
  shows "recent t0 (Suc k) (record_tx now m)"
proof -
  obtain c ts where d: "drop_old now (ms_txCount m) (ms_txTimes m) = (c, ts)"
    by fastforce
  have size: "c \<le> 2" "length ts = 3"
    using drop_old_free [OF d assms(3,2)] by simp_all
  have "k \<le> c \<and> (\<forall>i. c - k \<le> i \<and> i < c \<longrightarrow> t0 \<le> ts ! i)"
    by (rule drop_old_recent [OF d _ _ assms(5)])
      (use assms(1,2) in \<open>auto simp: recent_def member_timers_def\<close>)
  then show ?thesis
    using size assms(4) by (auto simp: recent_def record_tx_def d nth_list_update less_Suc_eq)
qed

lemma quiet_recent: "quiet m m' \<Longrightarrow> recent t0 k m' = recent t0 k m"
  by (simp add: quiet_def recent_def)

lemma radio_recent: "radio m' = radio m \<Longrightarrow> recent t0 k m' = recent t0 k m"
  by (simp add: radio_def recent_def)

definition count_on :: "string \<Rightarrow> emission list \<Rightarrow> nat" where
  "count_on n es = length (filter (\<lambda>e. em_Port e = n) es)"

lemma count_on_simps [simp]:
  "count_on n [] = 0" "count_on n (es @ es') = count_on n es + count_on n es'"
  "count_on n [e] = (if em_Port e = n then 1 else 0)"
  by (simp_all add: count_on_def)

text \<open>Transmissions of a composition are on the record it leaves.\<close>

definition recorded :: "time \<Rightarrow> lag_layer \<Rightarrow> emission list \<Rightarrow> lag_layer \<Rightarrow> bool" where
  "recorded t0 l es l' \<longleftrightarrow>
     (\<forall>n k. recent t0 k (member_at l n) \<longrightarrow> recent t0 (k + count_on n es) (member_at l' n))"

lemma recorded_trans: "recorded t0 l es l' \<Longrightarrow> recorded t0 l' es' l'' \<Longrightarrow> recorded t0 l (es @ es') l''"
  by (simp add: recorded_def add.assoc [symmetric])

lemma recorded_quiet: "(\<And>n k. recent t0 k (member_at l' n) = recent t0 k (member_at l n)) \<Longrightarrow> recorded t0 l [] l'"
  by (simp add: recorded_def)

lemma transmit_member_recorded:
  assumes "transmit_member lag n (l, es) = (l', es')" "timers_ok l" "has_member l n" "ms_name (member_at l n) = n"
    and "t0 \<le> ly_now l" "ly_now l < t0 + fastPeriod"
  shows "\<exists>new. es' = es @ new \<and> recorded t0 l new l'"
proof -
  let ?m = "updatePeriodic (ly_now l) lag (member_at l n)"
  let ?l = "upd_member n (updatePeriodic (ly_now l) lag) l"
  have m: "member_at ?l n = ?m"
    using assms(3) by (simp add: lag_simps)
  have timers: "member_timers (member_at l n)"
    using assms(2) by (simp add: timers_ok_def)
  have same: "recent t0 k ?m = recent t0 k (member_at l n)" for k
    by (simp add: recent_def)
  have name: "ms_name ?m = n"
    using assms(4) updatePeriodic_core(2) [of "ly_now l" lag "member_at l n"] by (simp add: member_frame_def)
  show ?thesis
  proof (cases "\<not> ms_ntt ?m \<or> transmitWake (ly_now l) ?m > ly_now l")
    case True
    then have "es' = es" "l' = ?l"
      using assms(1) m by (auto simp: transmit_member_def Let_def lag_simps)
    then show ?thesis
      using same by (auto simp: recorded_def lag_simps)
  next
    case False
    define e where "e = \<lparr>em_Port = ms_name ?m, em_VID = 0, em_Frame = lacp_Encode
      \<lparr>pd_Actor = ms_actor ?m, pd_Partner = ms_partner ?m, pd_CollectorMaxDelay = 0\<rparr> (memberSource ?l ?m)\<rparr>"
    have r: "es' = es @ [e]" "l' = upd_member n (record_tx (ly_now l)) ?l"
      using False assms(1) m by (auto simp: transmit_member_def Let_def lag_simps e_def)
    have "recent t0 (Suc k) (record_tx (ly_now l) ?m)" if "recent t0 k (member_at l n)" for k
      using record_recent [of t0 k ?m "ly_now l"] that same timers False assms(5,6) by simp
    then have "recorded t0 l [e] l'"
      using assms(3) name by (auto simp: recorded_def r lag_simps e_def)
    then show ?thesis
      using r(1) by blast
  qed
qed

lemma transmit_members_recorded:
  assumes "fold (transmit_member lag) names (l, es) = (l', es')" "timers_ok l"
    and "\<forall>n \<in> set names. has_member l n \<and> ms_name (member_at l n) = n"
    and "t0 \<le> ly_now l" "ly_now l < t0 + fastPeriod"
  shows "\<exists>new. es' = es @ new \<and> recorded t0 l new l'"
  using assms
proof (induction names arbitrary: l es)
  case (Cons n names)
  obtain l1 es1 where 1: "transmit_member lag n (l, es) = (l1, es1)"
    by fastforce
  have "ly_now l1 = ly_now l" "has_member l1 k = has_member l k" "ms_name (member_at l1 k) = ms_name (member_at l k)" for k
    using 1 record_tx_core(2) updatePeriodic_core(2)
    by (auto simp: transmit_member_def Let_def lag_simps member_frame_def split: if_splits)
  moreover have "timers_ok l1"
    using transmit_member_timers [OF Cons.prems(2), of lag n es] by (simp add: 1)
  ultimately have "\<exists>new. es' = es1 @ new \<and> recorded t0 l1 new l'"
    using Cons.prems by (intro Cons.IH) (simp_all add: 1)
  moreover have "\<exists>new. es1 = es @ new \<and> recorded t0 l new l1"
    using transmit_member_recorded [OF 1] Cons.prems by simp
  ultimately show ?case
    using recorded_trans by (metis append.assoc)
qed (auto simp: recorded_def)

lemma transmit_recorded:
  assumes "transmitLag g l = (l', es)" "lag_inv S l" "t0 \<le> ly_now l" "ly_now l < t0 + fastPeriod"
  shows "recorded t0 l es l'"
proof (cases "has_lag l g")
  case True
  have "wf_lags l" "timers_ok l"
    using assms(2) by (simp_all add: lag_inv_def groups_but_def)
  then show ?thesis
    using transmit_members_recorded [OF assms(1) [unfolded transmitLag_def] _ _ assms(3,4)] wf_group(4) [OF _ True]
    by fastforce
next
  case False
  then have "ls_memberNames (lag_at l g) = []"
    by (simp add: has_lag_def lag_at_def zero_lag_def)
  then show ?thesis
    using assms(1) by (simp add: transmitLag_def recorded_def)
qed

lemma absent_update:
  assumes "\<not> has_lag l g"
  shows "snd (updateLag g l) = l"
proof -
  have "lag_at l g = zero_lag" "upd_lag g f l = l" for f
    using assms by (simp_all add: has_lag_def lag_at_def upd_lag_def upd_absent)
  then show ?thesis
    by (simp add: updateLag_def updateStaticMembers_def Let_def zero_lag_def zero_group_def)
qed

lemma inv_touch_any:
  assumes "lag_inv UNIV l" "quiet (member_at l n) (f (member_at l n))"
  shows "lag_inv UNIV (upd_member n f l)" "skeleton (upd_member n f l) = skeleton l"
proof -
  let ?f = "\<lambda>m. if m = member_at l n then f m else m"
  have wf: "wf_lags l"
    using assms(1) by (simp add: lag_inv_def groups_but_def)
  have e: "upd_member n f l = upd_member n ?f l"
    using write_member [OF wf, of n f] write_member [OF wf, of n ?f] by simp
  have q: "member_frame (?f m) = member_frame m" "member_timers m \<Longrightarrow> member_timers (?f m)" for m
    using assms(2) by (auto simp: quiet_def)
  show "skeleton (upd_member n f l) = skeleton l"
    unfolding e by (rule skeleton_upd(1)) (rule q)
  show "lag_inv UNIV (upd_member n f l)"
  proof (cases "has_member l n")
    case True
    then show ?thesis
      unfolding e using inv_touch [OF assms(1) True, of ?f] q by simp
  next
    case False
    then show ?thesis
      using assms(1) by (simp add: has_member_def upd_member_def upd_absent)
  qed
qed

text \<open>A composition inside a second keeps the book.\<close>

lemma talks_recorded:
  assumes "talks l es l'" "lag_inv UNIV l" "t0 \<le> ly_now l" "ly_now l < t0 + fastPeriod"
  shows "lag_inv UNIV l' \<and> ly_now l' = ly_now l \<and> recorded t0 l es l'"
  using assms
proof (induction rule: talks.induct)
  case (talks_refl l)
  then show ?case
    by (simp add: recorded_def)
next
  case (talks_touch l n f)
  have "recent t0 k (member_at (upd_member n f l) j) = recent t0 k (member_at l j)" for j k
    using quiet_recent [OF talks_touch(1)] by (simp add: lag_simps)
  then show ?case
    using inv_touch_any [of l n f] talks_touch(1,2) recorded_quiet by (simp add: lag_simps)
next
  case (talks_update g l ch l')
  show ?case
  proof (cases "has_lag l g")
    case True
    have "wf_lags l" "distinct (ls_enabledOrder (lag_at l g))"
      using talks_update(2) by (simp_all add: lag_inv_def groups_but_def)
    then have s: "group_step g l l'"
      using updateLag_ok [OF _ True] talks_update(1) by (metis snd_conv)
    have "lag_inv UNIV l'"
      using inv_update(1) [OF talks_update(2) True] inv_mono talks_update(1) by (metis snd_conv subset_UNIV)
    then show ?thesis
      using group_stepD(2) [OF s] radio_recent [OF group_stepD(10) [OF s]] recorded_quiet by simp
  next
    case False
    then show ?thesis
      using absent_update [OF False] talks_update by (simp add: recorded_def)
  qed
next
  case (talks_transmit g l l' es)
  have "lag_inv UNIV l'"
    using inv_transmit [OF talks_transmit(2), of g] by (simp add: talks_transmit(1))
  moreover have "ly_now l' = ly_now l"
    using transmitLag_step [of g l] by (simp add: talks_transmit(1) tx_step_def)
  ultimately show ?case
    using transmit_recorded [OF talks_transmit(1-4)] by simp
next
  case (talks_trans l es l' es' l'')
  then show ?case
    using recorded_trans by metis
qed

section \<open>Runs\<close>

text \<open>A sequence of calls at times the set allows, with all the LACPDUs it answers.\<close>

inductive lag_run :: "time set \<Rightarrow> lag_layer \<Rightarrow> emission list \<Rightarrow> lag_layer \<Rightarrow> bool" for T where
  run_nil: "lag_run T l [] l"
| run_call: "lag_run T l es l' \<Longrightarrow> now \<in> T \<Longrightarrow> lag_call now l' es' l'' \<Longrightarrow> lag_run T l (es @ es') l''"

lemma run_recorded:
  assumes "lag_run {t0 ..< t0 + fastPeriod} l es l'" "lag_inv {} l"
  shows "lag_inv {} l' \<and> recorded t0 l es l'"
  using assms
proof (induction rule: lag_run.induct)
  case (run_call l es l' now es' l'')
  then have 1: "lag_inv {} l'" "recorded t0 l es l'"
    by simp_all
  have "recorded t0 l' es' l''"
    using call_talks [OF run_call(3) 1(1)]
  proof
    assume t: "talks (l'\<lparr>ly_now := now\<rparr>) es' l''"
    have "lag_inv UNIV (l'\<lparr>ly_now := now\<rparr>)"
      using inv_mono [OF 1(1)] by simp
    from talks_recorded [OF t this, of t0] run_call(2) show ?thesis
      by (simp add: recorded_def lag_simps)
  next
    assume q: "es' = [] \<and> (\<forall>n. quiet (member_at l' n) (member_at l'' n))"
    then show ?thesis
      by (simp add: recorded_def) (metis quiet_recent)
  qed
  then show ?case
    using lag_call_inv [OF run_call(3) 1(1)] recorded_trans [OF 1(2)] by simp
qed (simp add: recorded_def)

end
