(* ===== verification/Lag_Bridge.thy ===== *)
theory Lag_Bridge
  imports Lag_Rate Bridge_Properties
begin

text \<open>
  The layer of link aggregation as the selector of the relay, the way the switch binds them
  (\<^verbatim>\<open>lagSelector\<close> of \<^verbatim>\<open>device/vswitch/lag.go\<close>): every copy the relay sends to a group
  leaves by a member that the group enabled, and the relay changes nothing else in the layer.
\<close>

section \<open>The binding\<close>

definition cause_string :: "selection_cause \<Rightarrow> string" where
  "cause_string c =
     (case c of
        NoCause \<Rightarrow> ''''
      | CauseKept \<Rightarrow> ''kept''
      | CauseFirstUse \<Rightarrow> ''first-use''
      | CauseReassigned \<Rightarrow> ''reassigned''
      | CausePrimary \<Rightarrow> ''primary''
      | CauseLastActive \<Rightarrow> ''last-active''
      | CauseFirstEnabled \<Rightarrow> ''first-enabled'')"

definition selection_of :: "lag_selection \<Rightarrow> selection" where
  "selection_of s = \<lparr>sel_Member = se_Member s, sel_OK = se_OK s, sel_Bucket = se_Bucket s,
     sel_Prior = se_Prior s, sel_Cause = cause_string (se_Cause s),
     sel_RebalanceUnmodeled = se_RebalanceUnmodeled s\<rparr>"

text \<open>
  A panic of the choice has no counterpart in the relay's interface; \<open>selectMember_total\<close> shows that
  there is none.
\<close>

definition lag_selector :: "lag_layer selector" where
  "lag_selector now g commit f vid l =
     (case (if commit then lag_Select now g f vid l else lag_Peek now g f vid l) of
        Some (s, l') \<Rightarrow> (selection_of s, l')
      | None \<Rightarrow> (selection_of no_selection, l))"

lemma lag_selector_member:
  "lag_selector now g commit f vid l =
    (case lag_selectMember now g f vid commit l of
       Some (s, l') \<Rightarrow> (selection_of s, l') | None \<Rightarrow> (selection_of no_selection, l))"
  by (simp add: lag_selector_def lag_Select_def lag_Peek_def)

section \<open>What sending changes in the layer\<close>

definition only_chose :: "lag_layer \<Rightarrow> lag_layer \<Rightarrow> bool" where
  "only_chose l l' \<longleftrightarrow>
     (\<forall>c tbl mac. lag_reachable c tbl mac l \<longrightarrow> lag_reachable c tbl mac l') \<and> lag_inv {} l' \<and>
     (\<forall>g. set (ls_enabledOrder (lag_at l' g)) = set (ls_enabledOrder (lag_at l g))) \<and>
     (\<forall>n. member_at l' n = member_at l n)"

lemma only_chose_refl: "lag_inv {} l \<Longrightarrow> only_chose l l"
  by (simp add: only_chose_def)

lemma only_chose_trans: "only_chose l l' \<Longrightarrow> only_chose l' l'' \<Longrightarrow> only_chose l l''"
  by (simp add: only_chose_def)

lemma selector_chooses:
  assumes "lag_selector now g commit f vid l = (sel, l')" "lag_inv {} l"
  shows "only_chose l l'" "sel_OK sel \<Longrightarrow> sel_Member sel \<in> set (ls_enabledOrder (lag_at l g))"
proof -
  have wf: "wf_lags l"
    using assms(2) by (simp add: lag_inv_def groups_but_def)
  obtain s where s: "lag_selectMember now g f vid commit l = Some (s, l')" "sel = selection_of s"
    using selectMember_total [OF wf, of now g f vid commit] assms(1) by (auto simp: lag_selector_member)
  note l' = selectMember_chosen(1) [OF wf s(1)]
  have "lag_step l l'"
    using lag_call.choose [OF s(1)] by (auto simp: lag_step_def)
  then show "only_chose l l'"
    using choice_inv(1) [OF assms(2), of g now f vid commit] reach_step
    by (auto simp: only_chose_def l' after_choice_lookup lag_reachable_def)
  show "sel_OK sel \<Longrightarrow> sel_Member sel \<in> set (ls_enabledOrder (lag_at l g))"
    using selectMember_chosen(2) [OF wf s(1)] s(2) by (simp add: selection_of_def)
qed

section \<open>One port\<close>

definition carried :: "lag_layer \<Rightarrow> port \<Rightarrow> egress \<Rightarrow> bool" where
  "carried l p e \<longleftrightarrow> eg_Port e = pt_Name p \<and>
     (eg_Dropped e = NotDropped \<longrightarrow>
       (if pt_Kind p = LAG then eg_Member e \<in> set (ls_enabledOrder (lag_at l (pt_Name p))) else eg_Member e = ''''))"

lemma selected_member:
  assumes "selectMember b i p f l = (m, l')" "br_selector b = Some lag_selector" "lag_inv {} l"
  shows "only_chose l l'"
    and "m = Some n \<Longrightarrow> if pt_Kind p = LAG then n \<in> set (ls_enabledOrder (lag_at l (pt_Name p))) else n = ''''"
proof -
  obtain sel l1 where s: "lag_selector (in_Now i) (pt_Name p) (in_Commit i) f (in_FID i) l = (sel, l1)"
    by fastforce
  show "only_chose l l'"
    using assms selector_chooses(1) [OF s assms(3)] only_chose_refl [OF assms(3)]
    by (auto simp: selectMember_def s split: if_splits)
  show "if pt_Kind p = LAG then n \<in> set (ls_enabledOrder (lag_at l (pt_Name p))) else n = ''''" if "m = Some n"
    using assms(1,2) that selector_chooses(2) [OF s assms(3)]
    by (auto simp: selectMember_def s split: if_splits)
qed

lemma decide_carried:
  assumes "br_selector b = Some lag_selector" "lag_inv {} l"
  shows "only_chose l (snd (decideEgress b i f p l))"
    and "e \<in> set (res_Egress (fst (decideEgress b i f p l))) \<Longrightarrow> carried l p e"
proof -
  have "only_chose l (snd (decideEgress b i f p l)) \<and>
    (\<forall>e \<in> set (res_Egress (fst (decideEgress b i f p l))). carried l p e)"
    using only_chose_refl [OF assms(2)] selected_member [OF _ assms, of i p]
    by (auto simp: decideEgress_def Let_def recordEgressDrop_def dropped_result_def carried_def
        split: option.splits prod.splits)
  then show "only_chose l (snd (decideEgress b i f p l))"
    "e \<in> set (res_Egress (fst (decideEgress b i f p l))) \<Longrightarrow> carried l p e"
    by simp_all
qed

lemma carried_mono: "only_chose l l' \<Longrightarrow> carried l' p e \<Longrightarrow> carried l p e"
  by (auto simp: carried_def only_chose_def)

section \<open>All the copies of a frame\<close>

definition sent_well :: "lag_layer bridge \<Rightarrow> lag_layer \<Rightarrow> egress \<Rightarrow> bool" where
  "sent_well b l e \<longleftrightarrow> (\<exists>p. Table_Port (br_ports b) (eg_Port e) = Some p \<and> carried l p e)"

lemma sent_mono: "only_chose l l' \<Longrightarrow> sent_well b l' e \<Longrightarrow> sent_well b l e"
  using carried_mono unfolding sent_well_def by blast

lemma replication_carried:
  assumes "wf_table (br_ports b)" "br_selector b = Some lag_selector" "lag_inv {} l"
  shows "only_chose l (snd (replication_decisions b i f seen ports l)) \<and>
    (\<forall>d \<in> set (fst (replication_decisions b i f seen ports l)). \<forall>e \<in> set (res_Egress d). sent_well b l e)"
  using assms(3)
proof (induction ports arbitrary: seen l)
  case Nil
  then show ?case
    by (simp add: only_chose_refl)
next
  case (Cons name ports)
  consider "name \<in> set seen" | "name \<notin> set seen" "replication_candidate b i name = None"
    | p where "name \<notin> set seen" "replication_candidate b i name = Some p"
    by fastforce
  then show ?case
  proof cases
    case 1
    then show ?thesis
      using Cons.IH [OF Cons.prems, of seen] unfolding replication_Cons by simp
  next
    case 2
    then show ?thesis
      using Cons.IH [OF Cons.prems, of "name # seen"] unfolding replication_Cons by simp
  next
    case 3
    let ?d = "fst (decideEgress b i f p l)"
    let ?l = "snd (decideEgress b i f p l)"
    note p = candidate_facts [OF 3(2) assms(1)]
    have ch: "only_chose l ?l"
      by (rule decide_carried(1) [OF assms(2) Cons.prems])
    have d: "sent_well b l e" if "e \<in> set (res_Egress ?d)" for e
      using decide_carried(2) [OF assms(2) Cons.prems that] p(1,2) by (auto simp: sent_well_def carried_def)
    have "only_chose ?l (snd (replication_decisions b i f (name # seen) ports ?l)) \<and>
      (\<forall>d \<in> set (fst (replication_decisions b i f (name # seen) ports ?l)). \<forall>e \<in> set (res_Egress d). sent_well b ?l e)"
      using Cons.IH ch by (simp add: only_chose_def)
    then show ?thesis
      using 3 d only_chose_trans [OF ch] sent_mono [OF ch]
      unfolding replication_Cons by (auto simp: Let_def)
  qed
qed

lemma replicate_carried:
  assumes "wf_table (br_ports b)" "br_selector b = Some lag_selector" "lag_inv {} l"
    and "replicate_frame b res i f ports why l = Some (r, l')" "res_Egress res = []"
  shows "only_chose l l' \<and> (\<forall>e \<in> set (res_Egress r). sent_well b l e)"
proof -
  let ?ds = "fst (replication_decisions b i f [] ports l)"
  have s: "l' = snd (replication_decisions b i f [] ports l)"
    using assms(4) by (auto simp: replicate_frame_def Let_def case_prod_beta split: if_splits list.splits)
  have eg: "res_Egress r = map (\<lambda>d. hd (res_Egress d)) ?ds"
    using replicate_egress [OF assms(1,5), of i f ports why l] assms(4) by auto
  have "hd (res_Egress d) \<in> set (res_Egress d)" if "d \<in> set ?ds" for d
    using decisions_single(1) [OF assms(1) that] by (metis list.set_intros(1))
  then show ?thesis
    using replication_carried [OF assms(1-3), of i f "[]" ports] by (auto simp: s eg)
qed

lemma Egress_state:
  assumes "wf_table (br_ports b)" "br_selector b = Some lag_selector" "lag_inv {} l"
    and "Egress b i f l = Some (r, l')"
  shows "only_chose l l'"
proof -
  have c: "only_chose l l'" if "replicate_frame b (start_result i) i f ports why l = Some (r, l')" for ports why
    using replicate_carried [OF assms(1-3) that start_no_egress] by simp
  show ?thesis
    using assms(4) c only_chose_refl [OF assms(3)] decide_carried(1) [OF assms(2,3)]
    by (auto simp: Egress_def Let_def case_prod_beta split: if_splits option.splits)
qed

lemma Egress_carried:
  assumes "bridge_reachable c tbl b" "br_selector b = Some lag_selector" "lag_inv {} l"
    and "Egress b i f l = Some (r, l')"
  shows "\<forall>e \<in> set (res_Egress r). sent_well b l e"
  using assms(4)
proof (cases rule: Egress_cases)
  case (copies ports why)
  then show ?thesis
    using replicate_carried [OF bridge_reachable_ok(1) [OF assms(1)] assms(2,3) _ start_no_egress] by blast
next
  case (hit port)
  obtain p where p: "Table_Port (br_ports b) port = Some p" "pt_Name p = port"
    using fdb_hit_port [OF bridge_reachable_ok(2) [OF assms(1)] hit(1)] by blast
  then show ?thesis
    using decide_carried(2) [OF assms(2,3), of _ i f p] hit(4) by (auto simp: sent_well_def carried_def)
qed simp

end
