(* ===== verification/Lag_Example.thy ===== *)
theory Lag_Example
  imports Lag_Due Lag_Bridge
begin

text \<open>
  A group of two ports that talk LACP with one partner: both links come up, the partner answers in
  sync, and after the wait of the aggregate both members carry traffic.
\<close>

definition lg_port :: "string \<Rightarrow> port" where
  "lg_port n = (br_port n)\<lparr>pt_LagParent := ''bond''\<rparr>"

definition lg_builder :: builder where
  "lg_builder = fold builder_Add [lg_port ''a'', (br_port ''bond'')\<lparr>pt_Kind := LAG\<rparr>, lg_port ''b'', br_port ''c''] NewBuilder"

definition lg_table :: port_table where
  "lg_table = (case builder_Build lg_builder of Inr t \<Rightarrow> t | Inl _ \<Rightarrow> empty_table)"

definition lg_mac :: mac where
  "lg_mac = MAC 2 0 0 0 0 1"

definition lg_config :: lag_config where
  "lg_config = [(''bond'', zero_group\<lparr>lg_Mode := BalanceSLB, lg_MinLinks := 1,
     lg_LACP := (lg_LACP zero_group)\<lparr>lp_Mode := Passive\<rparr>\<rparr>)]"

definition lg_new :: lag_layer where
  "lg_new = (case lag_New lg_config lg_table lg_mac of
     Inr l \<Rightarrow> l
   | Inl _ \<Rightarrow> \<lparr>ly_cfg = [], ly_ports = empty_table, ly_systemID = zero_mac, ly_now = 0, ly_lags = [], ly_members = []\<rparr>)"

text \<open>The partner's LACPDU on a member, echoing what the member last said.\<close>

definition lg_pdu :: "string \<Rightarrow> u16 \<Rightarrow> lag_layer \<Rightarrow> lacp_pdu" where
  "lg_pdu n k l = \<lparr>pd_Actor = \<lparr>i_SystemPriority = 1, i_SystemID = MAC 2 0 0 0 0 9, i_Key = 5,
       i_PortPriority = 1, i_PortID = k, i_State = 0x3F\<rparr>,
     pd_Partner = ms_actor (member_at l n), pd_CollectorMaxDelay = 0\<rparr>"

definition lg_up :: lag_layer where
  "lg_up = fst (lag_LinkChange second ''b'' True (fst (lag_LinkChange second ''a'' True lg_new)))"

definition lg_hear :: "string \<Rightarrow> u16 \<Rightarrow> lag_layer \<Rightarrow> lag_layer" where
  "lg_hear n k l = fst (lag_Receive second n (lg_pdu n k l) l)"

definition lg_heard :: lag_layer where
  "lg_heard = lg_hear ''b'' 2 (lg_hear ''a'' 1 lg_up)"

definition lg_run :: lag_layer where
  "lg_run = (case lag_Advance (3 * second) lg_heard of Some (l, _) \<Rightarrow> l | None \<Rightarrow> lg_heard)"

section \<open>The states are reached\<close>

lemma lg_new_reachable: "lag_reachable lg_config lg_table lg_mac lg_new"
proof -
  have "\<not> isl (builder_Build lg_builder)" "\<not> isl (lag_New lg_config lg_table lg_mac)"
    by code_simp+
  then have "lag_init lg_config lg_table lg_mac lg_new"
    by (cases "builder_Build lg_builder"; cases "lag_New lg_config lg_table lg_mac")
      (auto simp: lag_init_def lg_new_def lg_table_def intro!: exI [of _ lg_builder])
  then show ?thesis
    by (simp add: lag_reachable_def reach_init)
qed

lemma reachable_call:
  assumes "lag_reachable c tbl mac l" "lag_call now l es l'"
  shows "lag_reachable c tbl mac l'"
  using assms unfolding lag_reachable_def by (metis lag_step_def reach_step)

lemma link_call: "lag_call now l (fx_Emissions (snd (lag_LinkChange now n up l))) (fst (lag_LinkChange now n up l))"
  by (rule lag_call.link) simp

lemma receive_call: "lag_call now l (fx_Emissions (snd (lag_Receive now n pdu l))) (fst (lag_Receive now n pdu l))"
  by (rule lag_call.receive) simp

lemma lg_heard_reachable: "lag_reachable lg_config lg_table lg_mac lg_heard"
  unfolding lg_heard_def lg_hear_def lg_up_def
  by (intro reachable_call [OF _ receive_call] reachable_call [OF _ link_call] lg_new_reachable)

lemma lg_run_reachable: "lag_reachable lg_config lg_table lg_mac lg_run"
proof -
  obtain l fx where a: "lag_Advance (3 * second) lg_heard = Some (l, fx)"
    using Advance_inv [OF lag_reachable_inv [OF lg_heard_reachable]] by blast
  then have "lg_run = l"
    by (simp add: lg_run_def)
  then show ?thesis
    using reachable_call [OF lg_heard_reachable lag_call.advance [OF a]] by simp
qed

section \<open>What they look like\<close>

definition lg_plain :: bridge_config where
  "lg_plain = \<lparr>bc_AgingTime = 0, bc_MaxEntries = 0, bc_FloodVLANs = [], bc_ProtectedPorts = [],
     bc_ForwardBPDU = False, bc_VLAN = None\<rparr>"

definition lg_relay :: "lag_layer bridge" where
  "lg_relay = SetSelector (Some lag_selector) (new_bridge (bridge_Normalize lg_plain) lg_table)"

lemma lg_relay_reachable: "bridge_reachable lg_plain lg_table lg_relay"
proof -
  have "\<not> isl (builder_Build lg_builder)" "bridge_Validate lg_plain lg_table = None"
    by code_simp+
  then have "relay_init lg_plain lg_table (new_bridge (bridge_Normalize lg_plain) lg_table, {})"
    by (cases "builder_Build lg_builder")
      (auto simp: relay_init_def lg_table_def NewBridge_def intro!: exI [of _ lg_builder])
  then show ?thesis
    unfolding bridge_reachable_def lg_relay_def by (blast intro: reach_init reach_step relay_step.selector)
qed

definition lg_ingress :: ingress where
  "lg_ingress = (case fst (Ingress second ''c'' (br_frame 1 2) True True lg_relay) of Inr i \<Rightarrow> i | Inl _ \<Rightarrow> undefined)"

definition lg_summary :: "lag_layer \<Rightarrow> _" where
  "lg_summary l =
     (ls_enabledOrder (lag_at l ''bond''), map fst (ly_lags l), lacp_off (lag_at l ''bond''), lg_Mode (ls_cfg (lag_at l ''bond'')),
      map_option (\<lambda>(r, _). map (\<lambda>e. (eg_Port e, eg_Member e, eg_Dropped e)) (res_Egress r))
        (Egress lg_relay lg_ingress (br_frame 1 2) l))"

lemma lg_run_summary: "lg_summary lg_run =
    ([''a'', ''b''], [''bond''], False, BalanceSLB, Some [(''bond'', ''a'', NotDropped)])"
  by code_simp

lemma lg_run_facts:
  "ls_enabledOrder (lag_at lg_run ''bond'') = [''a'', ''b'']" "has_lag lg_run ''bond''"
  "\<not> lacp_off (lag_at lg_run ''bond'')"
  using lg_run_summary by (auto simp: lg_summary_def has_lag_def map_of_eq_None_iff simp flip: set_map)

lemma lg_run_egress:
  "\<exists>r l' e. Egress lg_relay lg_ingress (br_frame 1 2) lg_run = Some (r, l') \<and> res_Egress r = [e] \<and>
     eg_Port e = ''bond'' \<and> eg_Member e = ''a'' \<and> eg_Dropped e = NotDropped"
  using lg_run_summary by (auto simp: lg_summary_def)

end
