(* ===== verification/Lag_Properties.thy ===== *)
theory Lag_Properties
  imports Lag_Example
begin

text \<open>The properties of link aggregation.\<close>

section \<open>Members that carry traffic\<close>



text \<open>
  C13: a group never spreads its traffic over two neighbours. With LACP, the partners of any two
  enabled members are one system with one key.
\<close>

theorem one_partner:
  assumes "lag_reachable c tbl mac l" "\<not> lacp_off (lag_at l g)"
    and "n \<in> set (ls_enabledOrder (lag_at l g))" "k \<in> set (ls_enabledOrder (lag_at l g))"
  shows "i_SystemPriority (ms_partner (member_at l n)) = i_SystemPriority (ms_partner (member_at l k)) \<and>
    i_SystemID (ms_partner (member_at l n)) = i_SystemID (ms_partner (member_at l k)) \<and>
    i_Key (ms_partner (member_at l n)) = i_Key (ms_partner (member_at l k))"
proof -
  have ok: "group_ok l g"
    by (rule reachable_group(2) [OF assms(1)])
  have "m \<in> set (ls_memberNames (lag_at l g)) \<and> ms_selected (member_at l m)"
    if "m \<in> set (ls_enabledOrder (lag_at l g))" for m
    using ok assms(2) that by (auto simp: group_ok_def Let_def lacp_member_ok_def)
  then have "same_system (ms_partner (member_at l n)) (ms_partner (member_at l k))"
    using ok assms(2-4) unfolding group_ok_def Let_def by blast
  then show ?thesis
    unfolding same_system_def .
qed

theorem one_partner_witness:
  "i_SystemID (ms_partner (member_at lg_run ''a'')) = i_SystemID (ms_partner (member_at lg_run ''b''))"
  using one_partner [OF lg_run_reachable, of "''bond''" "''a''" "''b''"] lg_run_facts by simp

section \<open>Choosing a member\<close>

text \<open>
  C14: \<^verbatim>\<open>Select\<close> and \<^verbatim>\<open>Peek\<close> never panic, agree on the answer, and
  answer a member only if the group enabled it; \<^verbatim>\<open>Peek\<close> changes nothing. Once
  \<^verbatim>\<open>Select\<close> gave a frame a member, the group gives every later frame of that flow the
  same one, whatever other frames it chooses members for in between.
\<close>

theorem choice_sound:
  assumes "lag_reachable c tbl mac l" "map_of (ly_lags l) g = Some lag"
  shows "\<exists>sel l'. lag_Select now g f vid l = Some (sel, l') \<and>
    (\<exists>sel'. lag_Peek now g f vid l = Some (sel', l) \<and> se_OK sel' = se_OK sel \<and> se_Member sel' = se_Member sel) \<and>
    (se_OK sel \<longrightarrow> se_Member sel \<in> set (ls_enabledOrder lag) \<and>
       (\<forall>others. let later = fold (\<lambda>(now, f, vid, commit). after_choice now f vid commit) others (lag_at l' g) in
          \<exists>sel' lag'. select_in later now' f vid commit = Some (sel', lag') \<and> se_OK sel' \<and>
            se_Member sel' = se_Member sel))"
proof -
  have wf: "wf_lags l"
    by (rule reachable_group(1) [OF assms(1)])
  have lag: "lag = lag_at l g" "has_lag l g"
    using assms(2) by (simp_all add: lag_at_def has_lag_def)
  obtain sel where s: "lag_selectMember now g f vid True l = Some (sel, upd_lag g (after_choice now f vid True) l)"
    "select_in lag now f vid True = Some (sel, after_choice now f vid True lag)"
    using selectMember_group [OF wf assms(2), of now f vid True] by blast
  obtain sel' where p: "lag_selectMember now g f vid False l = Some (sel', upd_lag g (after_choice now f vid False) l)"
    "select_in lag now f vid False = Some (sel', after_choice now f vid False lag)"
    using selectMember_group [OF wf assms(2), of now f vid False] by blast
  have same: "se_OK sel' = se_OK sel \<and> se_Member sel' = se_Member sel"
    using s(2) p(2)
    by (auto simp: select_in_rule balancedSelect_def activeBackupSelect_def no_selection_def Let_def
        split: if_splits option.splits list.splits)
  have "after_choice now f vid False = (\<lambda>lag. lag)"
    by (rule ext) simp
  then have "upd_lag g (after_choice now f vid False) l = l"
    by (simp add: upd_lag_def)
  moreover have "se_Member sel \<in> set (ls_enabledOrder lag)" if "se_OK sel"
    using select_in_chosen [OF s(2)] that by (simp add: chosen_def)
  moreover have "bound (fold (\<lambda>(now, f, vid, commit). after_choice now f vid commit) others
      (lag_at (upd_lag g (after_choice now f vid True) l) g)) f vid (se_Member sel)" if "se_OK sel" for others
  proof (rule fold_inv)
    show "bound (lag_at (upd_lag g (after_choice now f vid True) l) g) f vid (se_Member sel)"
      using chosen_bound [OF s(2) that] wf_group(2) [OF wf lag(2)] lag by (simp add: lag_simps)
  qed (auto simp: bound_stays)
  ultimately show ?thesis
    using s p same bound_answer unfolding lag_Select_def lag_Peek_def Let_def by fastforce
qed

theorem choice_sound_witness:
  "\<exists>sel l'. lag_Select (4 * second) ''bond'' (br_frame 1 2) 0 lg_run = Some (sel, l') \<and>
     (se_OK sel \<longrightarrow> se_Member sel \<in> {''a'', ''b''})"
proof -
  obtain lag where "map_of (ly_lags lg_run) ''bond'' = Some lag"
    using lg_run_facts(2) unfolding has_lag_def by blast
  moreover from this have "ls_enabledOrder lag = [''a'', ''b'']"
    using lg_run_facts(1) by (simp add: lag_at_def)
  ultimately show ?thesis
    using choice_sound [OF lg_run_reachable, of "''bond''" lag "4 * second" "br_frame 1 2" 0] by fastforce
qed

section \<open>The protocol in time\<close>

text \<open>
  C28: a member sends at most three LACPDUs in any second. Whatever calls the layer answers at times
  within one second, no more than three of the frames it emits leave by the same member.
\<close>

theorem three_per_second:
  assumes "lag_reachable c tbl mac l" "lag_run {t ..< t + second} l es l'"
  shows "length (filter (\<lambda>e. em_Port e = n) es) \<le> 3"
proof -
  have run: "lag_inv {} l' \<and> recorded t l es l'"
    using run_recorded [of t l es l'] assms(2) lag_reachable_inv [OF assms(1)] by (simp add: lag_periods)
  moreover have "recent t 0 (member_at l n)"
    by (simp add: recent_def)
  ultimately have "count_on n es \<le> ms_txCount (member_at l' n)"
    by (fastforce simp: recorded_def recent_def)
  moreover have "ms_txCount (member_at l' n) \<le> 3"
    using run by (simp add: lag_inv_def timers_ok_def member_timers_def)
  ultimately show ?thesis
    by (simp add: count_on_def)
qed

theorem three_per_second_witness:
  "\<exists>es. lag_run {second ..< second + second} lg_new es lg_heard \<and>
     length (filter (\<lambda>e. em_Port e = ''a'') es) \<le> 3"
proof -
  have s: "second \<in> {second ..< second + second}"
    by simp
  obtain es where "lag_run {second ..< second + second} lg_new es lg_heard"
    unfolding lg_heard_def lg_hear_def lg_up_def
    by (meson run_call [OF _ s] run_nil link_call receive_call)
  then show ?thesis
    using three_per_second [OF lg_new_reachable, of second] by blast
qed

text \<open>
  C15: \<^verbatim>\<open>Advance\<close> returns: the loop over a receive timer that ran out ends. In the
  layer it leaves, no member that has carrier and talks LACP waits for a time that has passed.
\<close>

theorem advance_returns:
  assumes "lag_reachable c tbl mac l"
  shows "\<exists>l' fx. lag_Advance now l = Some (l', fx) \<and>
    (\<forall>n g. map_of (ly_lags l') g \<noteq> None \<and> n \<in> set (ls_memberNames (lag_at l' g)) \<and> \<not> lacp_off (lag_at l' g) \<and>
       ms_carrier (member_at l' n) \<longrightarrow>
       ms_rxTimer (member_at l' n) = 0 \<or> now < ms_rxTimer (member_at l' n))"
proof -
  have inv: "lag_inv {} l"
    by (rule lag_reachable_inv [OF assms])
  obtain l' fx where a: "lag_Advance now l = Some (l', fx)" "skeleton l' = skeleton l"
    using Advance_inv [OF inv] by blast
  have "ms_rxTimer (member_at l' n) = 0 \<or> now < ms_rxTimer (member_at l' n)"
    if g: "map_of (ly_lags l') g \<noteq> None" and n: "n \<in> set (ls_memberNames (lag_at l' g))"
      "\<not> lacp_off (lag_at l' g)" "ms_carrier (member_at l' n)" for n g
  proof -
    have "has_lag l g" "n \<in> set (ls_memberNames (lag_at l g))" "\<not> lacp_off (lag_at l g)"
      using g n skeleton_has(1) [OF a(2)] skeleton_sel(2,3) [OF a(2)] unfolding has_lag_def by simp_all
    then have "has_member l n" "\<not> lacp_off (lag_at l (ms_lagName (member_at l n)))"
      using wf_group(4) [OF reachable_group(1) [OF assms]] by auto
    from Advance_settles [OF a(1) inv this] show ?thesis
      using n(3) by (auto simp: rx_settled_def rx_due_def)
  qed
  then show ?thesis
    using a(1) by blast
qed

theorem advance_returns_witness:
  "\<exists>l' fx. lag_Advance (60 * second) lg_run = Some (l', fx)"
  using advance_returns [OF lg_run_reachable, of "60 * second"] by blast

section \<open>Under the relay\<close>

text \<open>
  C40: the relay and the layer together. With the layer installed as its selector, every copy of a
  frame the relay sends to an aggregation group leaves by a member the group enabled, whose link is
  up; a copy to any other port names no member. Sending changes no member, leaves every group the
  same set of enabled members, and leaves the layer in a state it can reach.
\<close>

theorem relay_uses_members:
  assumes "lag_reachable c0 tbl0 mac l" "bridge_reachable c tbl b" "br_selector b = Some lag_selector"
    and "Egress b i f l = Some (r, l')"
  shows "lag_reachable c0 tbl0 mac l' \<and> (\<forall>n. member_at l' n = member_at l n) \<and>
    (\<forall>g. set (ls_enabledOrder (lag_at l' g)) = set (ls_enabledOrder (lag_at l g))) \<and>
    (\<forall>e \<in> set (res_Egress r). eg_Dropped e = NotDropped \<longrightarrow>
       (\<exists>p. Table_Port (br_ports b) (eg_Port e) = Some p \<and>
          (if pt_Kind p = LAG
           then eg_Member e \<in> set (ls_enabledOrder (lag_at l (eg_Port e))) \<and> ms_linkUp (member_at l (eg_Member e))
           else eg_Member e = '''')))"
proof -
  have inv: "lag_inv {} l"
    by (rule lag_reachable_inv [OF assms(1)])
  have "ms_linkUp (member_at l n)" if "n \<in> set (ls_enabledOrder (lag_at l g))" for n g
    using reachable_group(2) [OF assms(1), of g] that by (auto simp: group_ok_def Let_def)
  then have "\<forall>e \<in> set (res_Egress r). eg_Dropped e = NotDropped \<longrightarrow>
       (\<exists>p. Table_Port (br_ports b) (eg_Port e) = Some p \<and>
          (if pt_Kind p = LAG
           then eg_Member e \<in> set (ls_enabledOrder (lag_at l (eg_Port e))) \<and> ms_linkUp (member_at l (eg_Member e))
           else eg_Member e = ''''))"
    using Egress_carried [OF assms(2,3) inv assms(4)] by (fastforce simp: sent_well_def carried_def)
  then show ?thesis
    using Egress_state [OF bridge_reachable_ok(1) [OF assms(2)] assms(3) inv assms(4)] assms(1)
    by (simp add: only_chose_def)
qed

theorem relay_uses_members_witness:
  "\<exists>r l' e. Egress lg_relay lg_ingress (br_frame 1 2) lg_run = Some (r, l') \<and> e \<in> set (res_Egress r) \<and>
     eg_Port e = ''bond'' \<and> eg_Dropped e = NotDropped \<and> ms_linkUp (member_at lg_run (eg_Member e)) \<and>
     lag_reachable lg_config lg_table lg_mac l'"
proof -
  obtain r l' e where e: "Egress lg_relay lg_ingress (br_frame 1 2) lg_run = Some (r, l')" "res_Egress r = [e]"
    "eg_Port e = ''bond''" "eg_Dropped e = NotDropped"
    using lg_run_egress by blast
  have "br_selector lg_relay = Some lag_selector"
    by (simp add: lg_relay_def SetSelector_def)
  note u = relay_uses_members [OF lg_run_reachable lg_relay_reachable this e(1)]
  have "map_option pt_Kind (Table_Port (br_ports lg_relay) ''bond'') = Some LAG"
    by code_simp
  then have "ms_linkUp (member_at lg_run (eg_Member e))"
    using u e(2-4) by auto
  then show ?thesis
    using e u by auto
qed

end
