(* ===== verification/Loop_Probe.thy ===== *)
theory Loop_Probe
  imports Net Bytes
begin

text \<open>
  The loop-protection probe (\<^verbatim>\<open>src/common/sim/layer/loopprotect/probe.go\<close>): a payload of
  fourteen octets and the name of the sending port, written and read back.
\<close>

section \<open>The probe\<close>

record probe =
  pb_OriginMAC :: mac
  pb_VID :: vlan_id
  pb_Sequence :: u32
  pb_Port :: string

definition probeVersion :: byte where "probeVersion = 1"
definition probeHeaderLength :: nat where "probeHeaderLength = 14"
definition maxProbePortNameLength :: nat where "maxProbePortNameLength = 255"
definition probeEtherType :: u16 where "probeEtherType = 0x88b5"

definition probeGroupAddress :: mac where
  "probeGroupAddress = MAC 0x03 0x46 0x53 0x4c 0x50 0x00"

lemmas probe_constants = probeVersion_def probeHeaderLength_def maxProbePortNameLength_def

datatype probe_error =
    ProbeNameLength nat
  | NotProbeGroup mac
  | NotProbeEtherType u16
  | ProbeTooShort nat
  | ProbeVersion byte
  | ProbeNameEmpty
  | ProbeNamePastEnd nat nat
  | ProbeTrailing nat

section \<open>Writing\<close>

definition encode_probe :: "probe \<Rightarrow> mac \<Rightarrow> frame" where
  "encode_probe p src =
     (let name = map byte_of_char (pb_Port p);
          payload = replicate (probeHeaderLength + length name) 0;
          payload = blit payload 0 [probeVersion];
          payload = blit payload 1 (mac_bytes (pb_OriginMAC p));
          payload = blit payload 7 (be16 (pb_VID p));
          payload = blit payload 9 (be32 (pb_Sequence p));
          payload = blit payload 13 [of_nat (length name)];
          payload = blit payload probeHeaderLength name
      in \<lparr>f_Dst = probeGroupAddress, f_Src = src, f_Tags = [], f_EtherType = probeEtherType,
          f_Payload = payload\<rparr>)"

definition Encode_probe :: "probe \<Rightarrow> mac \<Rightarrow> probe_error + frame" where
  "Encode_probe p src =
     (if length (pb_Port p) = 0 \<or> length (pb_Port p) > maxProbePortNameLength
      then Inl (ProbeNameLength (length (pb_Port p)))
      else Inr (encode_probe p src))"

definition SetProbeVID :: "frame \<Rightarrow> vlan_id \<Rightarrow> frame" where
  "SetProbeVID f vid =
     (if length (f_Payload f) < probeHeaderLength then f
      else f\<lparr>f_Payload := blit (f_Payload f) 7 (be16 vid)\<rparr>)"

section \<open>Reading\<close>

definition Decode_probe :: "frame \<Rightarrow> (probe_error + probe) option" where
  "Decode_probe f =
     (let p = f_Payload f in
      if f_Dst f \<noteq> probeGroupAddress then Some (Inl (NotProbeGroup (f_Dst f)))
      else if f_EtherType f \<noteq> probeEtherType then Some (Inl (NotProbeEtherType (f_EtherType f)))
      else if length p < probeHeaderLength then Some (Inl (ProbeTooShort (length p)))
      else do {
        version \<leftarrow> idx p 0;
        if version \<noteq> probeVersion then Some (Inl (ProbeVersion version)) else do {
        origin \<leftarrow> sub p 1 7;
        vid \<leftarrow> sub p 7 9;
        seq \<leftarrow> sub p 9 13;
        n \<leftarrow> idx p 13;
        let nameLen = unat n; end = probeHeaderLength + nameLen in
        if nameLen = 0 then Some (Inl ProbeNameEmpty)
        else if end > length p then Some (Inl (ProbeNamePastEnd nameLen (length p)))
        else if end < length p then Some (Inl (ProbeTrailing (length p - end)))
        else do {
          name \<leftarrow> sub p probeHeaderLength end;
          Some (Inr \<lparr>pb_OriginMAC = mac_of origin, pb_VID = u16_of vid, pb_Sequence = u32_of seq,
                     pb_Port = map char_of_byte name\<rparr>)
        }}})"

section \<open>What a probe payload holds\<close>

definition probe_bytes :: "probe \<Rightarrow> byte list" where
  "probe_bytes p = [probeVersion] @ mac_bytes (pb_OriginMAC p) @ be16 (pb_VID p) @ be32 (pb_Sequence p) @
     [of_nat (length (pb_Port p))] @ map byte_of_char (pb_Port p)"

lemma length_probe_bytes [simp]: "length (probe_bytes p) = 14 + length (pb_Port p)"
  by (simp add: probe_bytes_def)

lemma encode_probe_bytes: "f_Payload (encode_probe p src) = probe_bytes p"
  by (simp add: encode_probe_def Let_def probe_constants probe_bytes_def blit_blit blit_all)

lemma encode_probe_frame [simp]:
  "f_Dst (encode_probe p src) = probeGroupAddress" "f_Src (encode_probe p src) = src"
  "f_Tags (encode_probe p src) = []" "f_EtherType (encode_probe p src) = probeEtherType"
  by (simp_all add: encode_probe_def Let_def)

lemma decode_probe_bytes:
  assumes "0 < length (pb_Port p)" "length (pb_Port p) \<le> 255"
    and "f_Dst f = probeGroupAddress" "f_EtherType f = probeEtherType" "f_Payload f = probe_bytes p"
  shows "Decode_probe f = Some (Inr p)"
proof -
  have "unat (of_nat (length (pb_Port p)) :: byte) = length (pb_Port p)"
    using assms(2) by (simp add: unat_of_nat take_bit_nat_eq_self)
  moreover obtain a b c d e g where "pb_OriginMAC p = MAC a b c d e g"
    by (cases "pb_OriginMAC p")
  moreover have "u16_of [ucast (drop_bit 8 v), ucast v] = v" for v
    using u16_of_be16 [of v] by (simp add: be16_def del: u16_of.simps)
  moreover have "u32_of [ucast (drop_bit 24 v), ucast (drop_bit 16 v), ucast (drop_bit 8 v), ucast v] = v" for v
    using u32_of_be32 [of v] by (simp add: be32_def del: u32_of.simps)
  ultimately show ?thesis
    using assms by (simp add: Decode_probe_def probe_bytes_def probe_constants idx_def sub_def slice_def
        be16_def be32_def comp_def del: u16_of.simps u32_of.simps)
qed

text \<open>A decoded probe is the payload it was read from.\<close>

lemma split_payload:
  assumes "14 \<le> length p"
  shows "p = [p ! 0] @ slice p 1 7 @ slice p 7 9 @ slice p 9 13 @ [p ! 13] @ slice p 14 (length p)"
proof -
  have step: "slice p lo hi @ drop hi p = drop lo p" if "lo \<le> hi" for lo hi
    using that append_take_drop_id [of "hi - lo" "drop lo p"] by (simp add: slice_def)
  have one: "[p ! i] @ drop (Suc i) p = drop i p" if "i < length p" for i
    using that by (simp add: Cons_nth_drop_Suc)
  have "slice p 14 (length p) = drop 14 p" "p \<noteq> []"
    using assms by (auto simp: slice_def)
  then show ?thesis
    using one [of 13] one [of 0] step [of 9 13] step [of 7 9] step [of 1 7] assms by simp
qed

lemma decoded_probe:
  assumes "Decode_probe f = Some (Inr p)"
  shows "f_Dst f = probeGroupAddress" "f_EtherType f = probeEtherType" "f_Payload f = probe_bytes p"
    "0 < length (pb_Port p)" "length (pb_Port p) \<le> 255"
proof -
  let ?p = "f_Payload f"
  show "f_Dst f = probeGroupAddress" "f_EtherType f = probeEtherType"
    using assms by (auto simp: Decode_probe_def Let_def split: if_splits)
  have len: "14 \<le> length ?p"
    using assms by (auto simp: Decode_probe_def Let_def probe_constants split: if_splits)
  have "Decode_probe f =
      (if ?p ! 0 \<noteq> probeVersion then Some (Inl (ProbeVersion (?p ! 0)))
       else if unat (?p ! 13) = 0 then Some (Inl ProbeNameEmpty)
       else if 14 + unat (?p ! 13) > length ?p then Some (Inl (ProbeNamePastEnd (unat (?p ! 13)) (length ?p)))
       else if 14 + unat (?p ! 13) < length ?p then Some (Inl (ProbeTrailing (length ?p - (14 + unat (?p ! 13)))))
       else Some (Inr \<lparr>pb_OriginMAC = mac_of (slice ?p 1 7), pb_VID = u16_of (slice ?p 7 9),
         pb_Sequence = u32_of (slice ?p 9 13), pb_Port = map char_of_byte (slice ?p 14 (length ?p))\<rparr>))"
  proof -
    have "idx ?p 0 = Some (?p ! 0)" "idx ?p 13 = Some (?p ! 13)" "sub ?p 1 7 = Some (slice ?p 1 7)"
      "sub ?p 7 9 = Some (slice ?p 7 9)" "sub ?p 9 13 = Some (slice ?p 9 13)"
      using len by (auto simp: idx_def sub_def)
    then show ?thesis
      using len \<open>f_Dst f = probeGroupAddress\<close> \<open>f_EtherType f = probeEtherType\<close>
      by (simp add: Decode_probe_def Let_def probeHeaderLength_def sub_def)
  qed
  then have p: "?p ! 0 = probeVersion" "length ?p = 14 + unat (?p ! 13)" "unat (?p ! 13) \<noteq> 0"
    "p = \<lparr>pb_OriginMAC = mac_of (slice ?p 1 7), pb_VID = u16_of (slice ?p 7 9),
       pb_Sequence = u32_of (slice ?p 9 13), pb_Port = map char_of_byte (slice ?p 14 (length ?p))\<rparr>"
    using assms by (simp_all split: if_splits)
  have n: "length (pb_Port p) = unat (?p ! 13)"
    using p(2,4) by (simp add: slice_def)
  have "mac_bytes (mac_of (slice ?p 1 7)) = slice ?p 1 7" "be16 (u16_of (slice ?p 7 9)) = slice ?p 7 9"
    "be32 (u32_of (slice ?p 9 13)) = slice ?p 9 13"
  proof -
    have l: "length (slice ?p 1 7) = 6" "length (slice ?p 7 9) = 2" "length (slice ?p 9 13) = 4"
      using len by (simp_all add: slice_def)
    show "mac_bytes (mac_of (slice ?p 1 7)) = slice ?p 1 7"
      using l(1) by (auto simp: length_Suc_conv numeral_eq_Suc)
    show "be16 (u16_of (slice ?p 7 9)) = slice ?p 7 9"
      using l(2) be16_of by (auto simp: length_Suc_conv numeral_eq_Suc)
    show "be32 (u32_of (slice ?p 9 13)) = slice ?p 9 13"
      using l(3) by (rule be32_of_list)
  qed
  then have "probe_bytes p = [?p ! 0] @ slice ?p 1 7 @ slice ?p 7 9 @ slice ?p 9 13 @ [?p ! 13] @ slice ?p 14 (length ?p)"
    using n p(1) by (simp add: probe_bytes_def p(4) comp_def)
  then show "?p = probe_bytes p"
    using split_payload [OF len] by simp
  have "unat (?p ! 13) < 2 ^ LENGTH(8)"
    by (rule unsigned_less)
  then show "0 < length (pb_Port p)" "length (pb_Port p) \<le> 255"
    using n p(3) by simp_all
qed

lemma SetProbeVID_bytes: "blit (probe_bytes p) 7 (be16 vid) = probe_bytes (p\<lparr>pb_VID := vid\<rparr>)"
proof -
  have "blit (xs @ ys @ zs) (length xs) ws = xs @ ws @ zs" if "length ws = length ys" for xs ys zs ws :: "byte list"
    using that by (simp add: blit_def)
  from this [of "be16 vid" "be16 (pb_VID p)" "[probeVersion] @ mac_bytes (pb_OriginMAC p)"]
  show ?thesis
    by (simp add: probe_bytes_def)
qed

end
