(* ===== verification/Loop_Layer.thy ===== *)
theory Loop_Layer
  imports Effects Loop_Probe
begin

text \<open>
  Loop protection (\<^verbatim>\<open>config.go\<close> and \<^verbatim>\<open>layer.go\<close> of
  \<^verbatim>\<open>src/common/sim/layer/loopprotect\<close>): the configuration with its defaults and its validation,
  and the layer: the action a returned probe applies to the port that sent it, the rule that lifts it,
  and the cadence of the probes.
\<close>

section \<open>Configuration\<close>

text \<open>The string-typed enumerations; the empty string is \<open>NoAction\<close> and \<open>NoMode\<close>.\<close>

datatype loop_action = NoAction | Block | NoLearn | Disable | OtherAction string
datatype recovery_mode = NoMode | Manual | Timer | LoopCleared | OtherRecovery string

record recovery =
  rv_Mode :: recovery_mode
  rv_Duration :: duration

record loop_port =
  gp_Action :: loop_action
  gp_Recovery :: recovery
  gp_VLANs :: "vlan_id list"

record loop_config =
  gc_Interval :: duration
  gc_Ports :: "(string, loop_port) gomap"

definition DefaultInterval :: duration where "DefaultInterval = 5 * second"

definition effectiveInterval :: "duration \<Rightarrow> duration" where
  "effectiveInterval d = (if d = 0 then DefaultInterval else d)"

definition effectiveDuration :: "duration \<Rightarrow> duration \<Rightarrow> duration" where
  "effectiveDuration d interval = (if d = 0 then 3 * interval else d)"

definition effectiveMode :: "recovery_mode \<Rightarrow> loop_action \<Rightarrow> recovery_mode" where
  "effectiveMode m action =
     (if m \<noteq> NoMode then m else if action = Disable then Manual else LoopCleared)"

definition normalize_loop_port :: "duration \<Rightarrow> loop_port \<Rightarrow> loop_port" where
  "normalize_loop_port interval p =
     p\<lparr>gp_Recovery := \<lparr>rv_Mode = effectiveMode (rv_Mode (gp_Recovery p)) (gp_Action p),
                      rv_Duration = effectiveDuration (rv_Duration (gp_Recovery p)) interval\<rparr>,
       gp_VLANs := sort_compact (gp_VLANs p)\<rparr>"

definition loop_Normalize :: "loop_config \<Rightarrow> loop_config" where
  "loop_Normalize c =
     (let interval = effectiveInterval (gc_Interval c)
      in \<lparr>gc_Interval = interval, gc_Ports = map_vals (\<lambda>_. normalize_loop_port interval) (gc_Ports c)\<rparr>)"

datatype loop_error =
    NegativeInterval duration
  | LoopNameLength string nat
  | LoopPortAbsent string
  | LoopPortMember string string
  | LoopVLAN string vlan_id
  | UnknownAction string loop_action
  | UnknownRecovery string recovery_mode
  | NegativeRecovery string duration
  | LoopClearedDisable string

text \<open>The body of the loop of \<^verbatim>\<open>Validate\<close> for one port of the configuration.\<close>

definition validate_loop_port :: "port_table \<Rightarrow> string \<Rightarrow> loop_port \<Rightarrow> loop_error option" where
  "validate_loop_port tbl name cfg =
     (if length name > maxProbePortNameLength then Some (LoopNameLength name (length name))
      else case Table_Port tbl name of
        None \<Rightarrow> Some (LoopPortAbsent name)
      | Some p \<Rightarrow>
          if pt_LagParent p \<noteq> '''' then Some (LoopPortMember name (pt_LagParent p)) else
          or_else (first_error (\<lambda>vid. if vlan_Valid vid then None else Some (LoopVLAN name vid)) (gp_VLANs cfg))
         (or_else (if gp_Action cfg \<in> {Block, NoLearn, Disable} then None
                   else Some (UnknownAction name (gp_Action cfg)))
         (or_else (if rv_Mode (gp_Recovery cfg) \<in> {NoMode, Manual, Timer, LoopCleared} then None
                   else Some (UnknownRecovery name (rv_Mode (gp_Recovery cfg))))
         (or_else (if rv_Duration (gp_Recovery cfg) < 0
                   then Some (NegativeRecovery name (rv_Duration (gp_Recovery cfg))) else None)
           (if rv_Mode (gp_Recovery cfg) = LoopCleared \<and> gp_Action cfg = Disable
            then Some (LoopClearedDisable name) else None)))))"

definition zero_loop_port :: loop_port where
  "zero_loop_port = \<lparr>gp_Action = NoAction, gp_Recovery = \<lparr>rv_Mode = NoMode, rv_Duration = 0\<rparr>, gp_VLANs = []\<rparr>"

text \<open>\<^verbatim>\<open>c.Ports[name]\<close>\<close>

definition loop_port_of :: "loop_config \<Rightarrow> string \<Rightarrow> loop_port" where
  "loop_port_of c name = (case map_of (gc_Ports c) name of Some p \<Rightarrow> p | None \<Rightarrow> zero_loop_port)"

definition loop_Validate :: "port_table \<Rightarrow> loop_config \<Rightarrow> loop_error option" where
  "loop_Validate tbl c =
     (if gc_Interval c < 0 then Some (NegativeInterval (gc_Interval c))
      else first_error (\<lambda>name. validate_loop_port tbl name (loop_port_of c name)) (sortedKeys (gc_Ports c)))"

section \<open>The layer\<close>

record loop_return =
  rt_VID :: vlan_id
  rt_SameUntaggedDomain :: bool

record loop_info =
  oi_Action :: loop_action
  oi_InterVLAN :: bool
  oi_Recurrences :: u64

record loop_state =
  os_cfg :: loop_port
  os_applied :: bool
  os_everApplied :: bool
  os_waitUntil :: time
  os_recurrences :: u64
  os_interVLAN :: bool
  os_seq :: u32

record loop_layer =
  ol_mac :: mac
  ol_interval :: duration
  ol_ports :: "(string, loop_state) gomap"
  ol_sortedNames :: "string list"
  ol_armed :: bool
  ol_nextProbeAt :: time

abbreviation os_mode :: "loop_state \<Rightarrow> recovery_mode" where
  "os_mode s \<equiv> rv_Mode (gp_Recovery (os_cfg s))"

abbreviation os_duration :: "loop_state \<Rightarrow> duration" where
  "os_duration s \<equiv> rv_Duration (gp_Recovery (os_cfg s))"

definition new_loop_state :: "loop_port \<Rightarrow> loop_state" where
  "new_loop_state cfg = \<lparr>os_cfg = cfg, os_applied = False, os_everApplied = False, os_waitUntil = 0,
     os_recurrences = 0, os_interVLAN = False, os_seq = 0\<rparr>"

definition loop_New :: "loop_config \<Rightarrow> port_table \<Rightarrow> mac \<Rightarrow> loop_error + loop_layer" where
  "loop_New c tbl mac =
     (case loop_Validate tbl c of
        Some e \<Rightarrow> Inl e
      | None \<Rightarrow>
          let normalized = loop_Normalize c in
          Inr \<lparr>ol_mac = mac, ol_interval = gc_Interval normalized,
               ol_ports = map_vals (\<lambda>_. new_loop_state) (gc_Ports normalized),
               ol_sortedNames = sortedKeys (gc_Ports normalized), ol_armed = False, ol_nextProbeAt = 0\<rparr>)"

text \<open>
  \<^verbatim>\<open>l.ports[name]\<close>: the layer looks up names it holds, or asks whether it does.
\<close>

definition loop_at :: "loop_layer \<Rightarrow> string \<Rightarrow> loop_state" where
  "loop_at l name = (case map_of (ol_ports l) name of Some s \<Rightarrow> s | None \<Rightarrow> new_loop_state zero_loop_port)"

definition tracks :: "loop_layer \<Rightarrow> string \<Rightarrow> bool" where
  "tracks l name \<longleftrightarrow> map_of (ol_ports l) name \<noteq> None"

definition upd_loop :: "string \<Rightarrow> (loop_state \<Rightarrow> loop_state) \<Rightarrow> loop_layer \<Rightarrow> loop_layer" where
  "upd_loop name f l = l\<lparr>ol_ports := upd (ol_ports l) name f\<rparr>"

section \<open>Queries\<close>

definition loop_Learns :: "loop_layer \<Rightarrow> string \<Rightarrow> vlan_id \<Rightarrow> bool" where
  "loop_Learns l name vid = (\<not> tracks l name \<or> \<not> os_applied (loop_at l name))"

definition loop_Forwards :: "loop_layer \<Rightarrow> string \<Rightarrow> vlan_id \<Rightarrow> bool" where
  "loop_Forwards l name vid =
     (if \<not> tracks l name \<or> \<not> os_applied (loop_at l name) then True
      else gp_Action (os_cfg (loop_at l name)) = NoLearn)"

definition loop_PortInfo :: "loop_layer \<Rightarrow> string \<Rightarrow> loop_info" where
  "loop_PortInfo l name =
     (if \<not> tracks l name then \<lparr>oi_Action = NoAction, oi_InterVLAN = False, oi_Recurrences = 0\<rparr>
      else let s = loop_at l name in
        \<lparr>oi_Action = (if os_applied s then gp_Action (os_cfg s) else NoAction),
         oi_InterVLAN = os_interVLAN s, oi_Recurrences = os_recurrences s\<rparr>)"

section \<open>The cadence of the probes\<close>

definition loop_arm :: "time \<Rightarrow> loop_layer \<Rightarrow> loop_layer" where
  "loop_arm now l =
     (if ol_armed l then l else l\<lparr>ol_armed := True, ol_nextProbeAt := now + ol_interval l\<rparr>)"

definition stopped :: "loop_state \<Rightarrow> bool" where
  "stopped s \<longleftrightarrow> os_applied s \<and> gp_Action (os_cfg s) = Disable"

definition emits :: "loop_layer \<Rightarrow> bool" where
  "emits l = list_ex (\<lambda>(_, s). \<not> stopped s) (ol_ports l)"

definition restartCadence :: "time \<Rightarrow> bool \<Rightarrow> loop_layer \<Rightarrow> loop_layer" where
  "restartCadence now emittedBefore l =
     (if \<not> emittedBefore \<and> emits l then l\<lparr>ol_nextProbeAt := now + ol_interval l\<rparr> else l)"

section \<open>Recovery\<close>

abbreviation timed :: "loop_state \<Rightarrow> bool" where
  "timed s \<equiv> os_mode s \<in> {Timer, LoopCleared}"

text \<open>The rule \<^verbatim>\<open>Advance\<close> and \<^verbatim>\<open>Receive\<close> share.\<close>

definition expire_wait :: "time \<Rightarrow> loop_state \<Rightarrow> loop_state" where
  "expire_wait now s =
     (if os_applied s \<and> os_waitUntil s \<noteq> 0 \<and> timed s \<and> os_waitUntil s \<le> now
      then s\<lparr>os_applied := False, os_waitUntil := 0\<rparr> else s)"

definition apply_action :: "time \<Rightarrow> loop_state \<Rightarrow> loop_state" where
  "apply_action now s =
     (case os_mode s of
        LoopCleared \<Rightarrow> s\<lparr>os_applied := True, os_waitUntil := now + os_duration s\<rparr>
      | Timer \<Rightarrow>
          if os_applied s then s
          else s\<lparr>os_recurrences := (if os_everApplied s then os_recurrences s + 1 else os_recurrences s),
                 os_applied := True, os_everApplied := True, os_waitUntil := now + os_duration s\<rparr>
      | Manual \<Rightarrow> s\<lparr>os_applied := True\<rparr>
      | _ \<Rightarrow> s)"

definition loop_Receive :: "time \<Rightarrow> loop_return \<Rightarrow> probe \<Rightarrow> loop_layer \<Rightarrow> loop_layer \<times> effects" where
  "loop_Receive now ret p l =
     (let name = pb_Port p in
      if \<not> tracks l name then (l, no_effects)
      else
        let l = loop_arm now l;
            inter = rt_VID ret \<noteq> pb_VID p \<and> \<not> rt_SameUntaggedDomain ret;
            lift = (\<lambda>s. expire_wait now (s\<lparr>os_interVLAN := inter\<rparr>));
            s = lift (loop_at l name);
            s' = apply_action now s
        in (upd_loop name (\<lambda>s. apply_action now (lift s)) l,
            if \<not> os_applied s \<and> os_applied s' \<and> gp_Action (os_cfg s') \<noteq> NoLearn
            then no_effects\<lparr>fx_Flush := [\<lparr>ft_Port = name, ft_FIDs = []\<rparr>]\<rparr> else no_effects))"

section \<open>Time\<close>

definition send_probe :: "string \<Rightarrow> vlan_id \<Rightarrow> loop_layer \<times> emission list \<Rightarrow> loop_layer \<times> emission list" where
  "send_probe name vid = (\<lambda>(l, es).
     let probe = \<lparr>pb_OriginMAC = ol_mac l, pb_VID = vid, pb_Sequence = os_seq (loop_at l name), pb_Port = name\<rparr>
     in (upd_loop name (\<lambda>s. s\<lparr>os_seq := os_seq s + 1\<rparr>) l,
         es @ [\<lparr>em_Port = name, em_VID = vid, em_Frame = encode_probe probe (ol_mac l)\<rparr>]))"

definition send_probes :: "string \<Rightarrow> loop_layer \<times> emission list \<Rightarrow> loop_layer \<times> emission list" where
  "send_probes name = (\<lambda>(l, es).
     let s = loop_at l name in
     if stopped s then (l, es)
     else fold (send_probe name) (if gp_VLANs (os_cfg s) = [] then [0] else gp_VLANs (os_cfg s)) (l, es))"

definition lift_waits :: "time \<Rightarrow> loop_layer \<Rightarrow> loop_layer" where
  "lift_waits now l = fold (\<lambda>name. upd_loop name (expire_wait now)) (ol_sortedNames l) l"

definition loop_Advance :: "time \<Rightarrow> loop_layer \<Rightarrow> loop_layer \<times> effects" where
  "loop_Advance now l =
     (let l = loop_arm now l;
          emitted = emits l;
          l = restartCadence now emitted (lift_waits now l)
      in if now < ol_nextProbeAt l then (l, no_effects)
      else let (l, es) = fold send_probes (ol_sortedNames l) (l, [])
           in (l\<lparr>ol_nextProbeAt := now + ol_interval l\<rparr>, no_effects\<lparr>fx_Emissions := es\<rparr>))"

definition earlier :: "time \<Rightarrow> time option \<Rightarrow> time option" where
  "earlier t next = (case next of None \<Rightarrow> Some t | Some n \<Rightarrow> if t < n then Some t else Some n)"

definition loop_NextWake :: "loop_layer \<Rightarrow> time option" where
  "loop_NextWake l =
     (if \<not> ol_armed l then None
      else fold (\<lambda>name next.
          let s = loop_at l name in
          if os_applied s \<and> os_waitUntil s \<noteq> 0 \<and> timed s then earlier (os_waitUntil s) next else next)
        (ol_sortedNames l) (if emits l then Some (ol_nextProbeAt l) else None))"

section \<open>Link changes and the operator\<close>

definition loop_LinkChange :: "time \<Rightarrow> string \<Rightarrow> bool \<Rightarrow> loop_layer \<Rightarrow> loop_layer \<times> effects" where
  "loop_LinkChange now name up l =
     (let l = loop_arm now l in
      if tracks l name \<and> \<not> up \<and> os_applied (loop_at l name) \<and> os_mode (loop_at l name) = Manual then
        (let emitted = emits l;
             l = upd_loop name (\<lambda>s. s\<lparr>os_applied := False, os_waitUntil := 0\<rparr>) l
         in (restartCadence now emitted l, no_effects))
      else (l, no_effects))"

definition loop_Clear :: "time \<Rightarrow> string \<Rightarrow> loop_layer \<Rightarrow> loop_layer \<times> bool" where
  "loop_Clear now name l =
     (if \<not> tracks l name \<or> \<not> os_applied (loop_at l name) then (l, False)
      else let emitted = emits l;
               l = upd_loop name (\<lambda>s. s\<lparr>os_applied := False, os_everApplied := False, os_interVLAN := False,
                     os_waitUntil := 0\<rparr>) l
           in (restartCadence now emitted l, True))"

end
