(* ===== verification/Loop_Run.thy ===== *)
theory Loop_Run
  imports Loop_Layer Transitions Port_Facts
begin

text \<open>
  Loop protection as a transition system: the timed calls a switch makes, the invariant of the port
  states, and what the deadlines of the layer bound.
\<close>

section \<open>The maps\<close>

lemma loop_at_upd:
  "loop_at (upd_loop n f l) m = (if m = n \<and> tracks l n then f (loop_at l m) else loop_at l m)"
  by (auto simp: loop_at_def upd_loop_def tracks_def split: option.splits)

lemma tracks_upd [simp]: "tracks (upd_loop n f l) m \<longleftrightarrow> tracks l m"
  by (auto simp: tracks_def upd_loop_def)

lemma upd_loop_fields [simp]:
  "ol_mac (upd_loop n f l) = ol_mac l" "ol_interval (upd_loop n f l) = ol_interval l"
  "ol_sortedNames (upd_loop n f l) = ol_sortedNames l" "ol_armed (upd_loop n f l) = ol_armed l"
  "ol_nextProbeAt (upd_loop n f l) = ol_nextProbeAt l"
  "map fst (ol_ports (upd_loop n f l)) = map fst (ol_ports l)"
  by (simp_all add: upd_loop_def)

lemma loop_at_probe [simp]:
  "loop_at (l\<lparr>ol_nextProbeAt := t\<rparr>) n = loop_at l n" "tracks (l\<lparr>ol_nextProbeAt := t\<rparr>) n = tracks l n"
  "emits (l\<lparr>ol_nextProbeAt := t\<rparr>) = emits l"
  by (simp_all add: loop_at_def tracks_def emits_def)

lemma arm_fields [simp]:
  "loop_at (loop_arm now l) n = loop_at l n" "tracks (loop_arm now l) n = tracks l n"
  "ol_mac (loop_arm now l) = ol_mac l" "ol_interval (loop_arm now l) = ol_interval l"
  "ol_sortedNames (loop_arm now l) = ol_sortedNames l" "ol_ports (loop_arm now l) = ol_ports l"
  "ol_armed (loop_arm now l)" "ol_armed l \<Longrightarrow> loop_arm now l = l"
  by (simp_all add: loop_arm_def loop_at_def tracks_def)

lemma restart_fields [simp]:
  "loop_at (restartCadence now e l) n = loop_at l n" "tracks (restartCadence now e l) n = tracks l n"
  "ol_mac (restartCadence now e l) = ol_mac l" "ol_interval (restartCadence now e l) = ol_interval l"
  "ol_sortedNames (restartCadence now e l) = ol_sortedNames l" "ol_ports (restartCadence now e l) = ol_ports l"
  "ol_armed (restartCadence now e l) = ol_armed l" "emits (restartCadence now e l) = emits l"
  by (simp_all add: restartCadence_def)

text \<open>What never changes: the configuration of the ports and the order they are visited in.\<close>

definition loop_frame :: "loop_layer \<Rightarrow> (string \<times> loop_port) list \<times> string list \<times> duration \<times> mac" where
  "loop_frame l = (map (\<lambda>(n, s). (n, os_cfg s)) (ol_ports l), ol_sortedNames l, ol_interval l, ol_mac l)"

lemma frame_upd:
  assumes "\<And>s. os_cfg (f s) = os_cfg s"
  shows "loop_frame (upd_loop n f l) = loop_frame l"
  using assms by (auto simp: loop_frame_def upd_loop_def upd_def map_vals_def comp_def case_prod_beta)

lemma frame_cfg: "loop_frame l' = loop_frame l \<Longrightarrow> os_cfg (loop_at l' n) = os_cfg (loop_at l n)"
  "loop_frame l' = loop_frame l \<Longrightarrow> tracks l' n = tracks l n"
  "loop_frame l' = loop_frame l \<Longrightarrow> ol_sortedNames l' = ol_sortedNames l"
  "loop_frame l' = loop_frame l \<Longrightarrow> ol_interval l' = ol_interval l"
  "loop_frame l' = loop_frame l \<Longrightarrow> ol_mac l' = ol_mac l"
  "loop_frame l' = loop_frame l \<Longrightarrow> map fst (ol_ports l') = map fst (ol_ports l)"
proof -
  have m: "map_option os_cfg (map_of (ol_ports l) n) = map_of (fst (loop_frame l)) n" for l
    by (simp add: loop_frame_def map_of_map)
  show "loop_frame l' = loop_frame l \<Longrightarrow> os_cfg (loop_at l' n) = os_cfg (loop_at l n)"
    "loop_frame l' = loop_frame l \<Longrightarrow> tracks l' n = tracks l n"
    using m [of l] m [of l'] by (cases "map_of (ol_ports l) n"; cases "map_of (ol_ports l') n";
      simp add: loop_at_def tracks_def; metis option.inject option.simps(3))+
  have "map fst (ol_ports l) = map fst (fst (loop_frame l))" for l
    by (simp add: loop_frame_def comp_def case_prod_beta)
  then show "loop_frame l' = loop_frame l \<Longrightarrow> map fst (ol_ports l') = map fst (ol_ports l)"
    by metis
qed (simp_all add: loop_frame_def)

lemma frame_arm [simp]: "loop_frame (loop_arm now l) = loop_frame l"
  "loop_frame (restartCadence now e l) = loop_frame l"
  "loop_frame (l\<lparr>ol_nextProbeAt := t\<rparr>) = loop_frame l"
  by (simp_all add: loop_frame_def)

section \<open>Calls\<close>

datatype loop_event = Returned loop_return probe | Woken | LinkTo string bool | Cleared string

definition loop_call :: "time \<Rightarrow> loop_event \<Rightarrow> loop_layer \<Rightarrow> loop_layer \<times> emission list" where
  "loop_call now e l =
     (case e of
        Returned ret p \<Rightarrow> (let (l, fx) = loop_Receive now ret p l in (l, fx_Emissions fx))
      | Woken \<Rightarrow> (let (l, fx) = loop_Advance now l in (l, fx_Emissions fx))
      | LinkTo name up \<Rightarrow> (let (l, fx) = loop_LinkChange now name up l in (l, fx_Emissions fx))
      | Cleared name \<Rightarrow> (fst (loop_Clear now name l), []))"

fun loop_run :: "(time \<times> loop_event) list \<Rightarrow> loop_layer \<Rightarrow> loop_layer \<times> emission list" where
  "loop_run [] l = (l, [])"
| "loop_run ((now, e) # evs) l =
     (let (l, es) = loop_call now e l; (l, es') = loop_run evs l in (l, es @ es'))"

text \<open>What the calls do to one port, its sequence numbers aside.\<close>

definition port_event :: "string \<Rightarrow> time \<Rightarrow> loop_event \<Rightarrow> loop_state \<Rightarrow> loop_state" where
  "port_event n now e s =
     (case e of
        Returned ret p \<Rightarrow>
          if pb_Port p \<noteq> n then s
          else apply_action now (expire_wait now
            (s\<lparr>os_interVLAN := rt_VID ret \<noteq> pb_VID p \<and> \<not> rt_SameUntaggedDomain ret\<rparr>))
      | Woken \<Rightarrow> expire_wait now s
      | LinkTo m up \<Rightarrow>
          if m = n \<and> \<not> up \<and> os_applied s \<and> os_mode s = Manual
          then s\<lparr>os_applied := False, os_waitUntil := 0\<rparr> else s
      | Cleared m \<Rightarrow>
          if m = n \<and> os_applied s
          then s\<lparr>os_applied := False, os_everApplied := False, os_interVLAN := False, os_waitUntil := 0\<rparr>
          else s)"

definition erase :: "loop_state \<Rightarrow> loop_state" where
  "erase s = s\<lparr>os_seq := 0\<rparr>"

lemma erase_sel [simp]:
  "os_cfg (erase s) = os_cfg s" "os_applied (erase s) = os_applied s"
  "os_everApplied (erase s) = os_everApplied s" "os_waitUntil (erase s) = os_waitUntil s"
  "os_recurrences (erase s) = os_recurrences s" "os_interVLAN (erase s) = os_interVLAN s"
  "erase (s\<lparr>os_seq := q\<rparr>) = erase s" "erase (erase s) = erase s"
  by (simp_all add: erase_def)

lemma erase_cong: "erase s = erase s' \<Longrightarrow> os_cfg s = os_cfg s' \<and> os_applied s = os_applied s' \<and>
    os_everApplied s = os_everApplied s' \<and> os_waitUntil s = os_waitUntil s' \<and>
    os_recurrences s = os_recurrences s' \<and> os_interVLAN s = os_interVLAN s'"
  by (metis erase_sel(1-6))

lemma step_cfg [simp]:
  "os_cfg (expire_wait now s) = os_cfg s" "os_cfg (apply_action now s) = os_cfg s"
  "os_cfg (port_event n now e s) = os_cfg s"
  by (auto simp: expire_wait_def apply_action_def port_event_def split: recovery_mode.splits loop_event.splits)

lemma step_erase:
  "erase (expire_wait now s) = expire_wait now (erase s)"
  "erase (apply_action now s) = apply_action now (erase s)"
  "erase (s\<lparr>os_interVLAN := b\<rparr>) = (erase s)\<lparr>os_interVLAN := b\<rparr>"
  by (simp_all add: erase_def expire_wait_def apply_action_def split: recovery_mode.split)

lemma event_erase: "erase (port_event n now e s) = port_event n now e (erase s)"
  by (cases e) (simp_all add: port_event_def step_erase, simp_all add: erase_def)

section \<open>The loops of Advance\<close>

lemma fold_upd_at:
  assumes "distinct ns"
  shows "loop_at (fold (\<lambda>n. upd_loop n f) ns l) m =
    (if m \<in> set ns \<and> tracks l m then f (loop_at l m) else loop_at l m)"
  using assms by (induction ns arbitrary: l) (auto simp: loop_at_upd)

lemma fold_upd_fields:
  assumes "\<And>s. os_cfg (f s) = os_cfg s"
  shows "loop_frame (fold (\<lambda>n. upd_loop n f) ns l) = loop_frame l"
    "ol_armed (fold (\<lambda>n. upd_loop n f) ns l) = ol_armed l"
    "ol_nextProbeAt (fold (\<lambda>n. upd_loop n f) ns l) = ol_nextProbeAt l"
  using assms by (induction ns arbitrary: l) (auto simp: frame_upd)

lemma lift_waits_fields:
  "loop_frame (lift_waits now l) = loop_frame l" "ol_armed (lift_waits now l) = ol_armed l"
  "ol_nextProbeAt (lift_waits now l) = ol_nextProbeAt l"
  unfolding lift_waits_def by (rule fold_upd_fields; simp)+

text \<open>What sending probes leaves alone, and what is sent.\<close>

definition probed :: "loop_layer \<Rightarrow> loop_layer \<Rightarrow> bool" where
  "probed l l' \<longleftrightarrow> loop_frame l' = loop_frame l \<and> ol_armed l' = ol_armed l \<and>
     ol_nextProbeAt l' = ol_nextProbeAt l \<and> (\<forall>n. erase (loop_at l' n) = erase (loop_at l n))"

definition probe_of :: "loop_layer \<Rightarrow> emission \<Rightarrow> bool" where
  "probe_of l em \<longleftrightarrow> em_Port em \<in> set (ol_sortedNames l) \<and> \<not> stopped (loop_at l (em_Port em)) \<and>
     em_VID em \<in> set (if gp_VLANs (os_cfg (loop_at l (em_Port em))) = [] then [0]
       else gp_VLANs (os_cfg (loop_at l (em_Port em)))) \<and>
     (\<exists>seq. em_Frame em = encode_probe \<lparr>pb_OriginMAC = ol_mac l, pb_VID = em_VID em, pb_Sequence = seq,
        pb_Port = em_Port em\<rparr> (ol_mac l))"

lemma probed_frame: "probed l l' \<Longrightarrow> loop_frame l' = loop_frame l"
  by (simp add: probed_def)

lemma probed_trans: "probed l l' \<Longrightarrow> probed l' l'' \<Longrightarrow> probed l l''"
  by (simp add: probed_def)

lemma probed_at:
  assumes "probed l l'"
  shows "os_cfg (loop_at l' n) = os_cfg (loop_at l n)" "stopped (loop_at l' n) = stopped (loop_at l n)"
proof -
  have "erase (loop_at l' n) = erase (loop_at l n)"
    using assms by (simp add: probed_def)
  from erase_cong [OF this]
  show "os_cfg (loop_at l' n) = os_cfg (loop_at l n)" "stopped (loop_at l' n) = stopped (loop_at l n)"
    by (simp_all add: stopped_def)
qed

lemma probe_of_probed:
  assumes "probed l l'"
  shows "probe_of l' em = probe_of l em"
proof -
  have "ol_sortedNames l' = ol_sortedNames l" "ol_mac l' = ol_mac l"
    by (rule frame_cfg(3,5) [OF probed_frame [OF assms]])+
  then show ?thesis
    unfolding probe_of_def probed_at [OF assms] by simp
qed

lemma probed_seq: "probed l (upd_loop n (\<lambda>s. s\<lparr>os_seq := g s\<rparr>) l)"
  by (simp add: probed_def frame_upd loop_at_upd)

lemma send_vids:
  assumes "n \<in> set (ol_sortedNames l0)" "\<not> stopped (loop_at l0 n)"
    and "set vids \<subseteq> set (if gp_VLANs (os_cfg (loop_at l0 n)) = [] then [0] else gp_VLANs (os_cfg (loop_at l0 n)))"
    and "probed l0 l" "list_all (probe_of l0) es"
  shows "probed l0 (fst (fold (send_probe n) vids (l, es))) \<and>
    list_all (probe_of l0) (snd (fold (send_probe n) vids (l, es)))"
  using assms(3-)
proof (induction vids arbitrary: l es)
  case (Cons v vids)
  obtain l1 es1 where s: "send_probe n v (l, es) = (l1, es1)"
    by fastforce
  have mac: "ol_mac l = ol_mac l0"
    by (rule frame_cfg(5) [OF probed_frame [OF Cons.prems(2)]])
  have l1: "l1 = upd_loop n (\<lambda>s. s\<lparr>os_seq := os_seq s + 1\<rparr>) l"
    and es1: "es1 = es @ [\<lparr>em_Port = n, em_VID = v, em_Frame = encode_probe \<lparr>pb_OriginMAC = ol_mac l0,
      pb_VID = v, pb_Sequence = os_seq (loop_at l n), pb_Port = n\<rparr> (ol_mac l0)\<rparr>]"
    using s by (simp_all add: send_probe_def Let_def mac)
  have "probed l0 l1"
    unfolding l1 by (rule probed_trans [OF Cons.prems(2) probed_seq])
  moreover have "probe_of l0 (last es1)"
    using assms(1,2) Cons.prems(1) by (auto simp: es1 probe_of_def split: if_splits)
  then have "list_all (probe_of l0) es1"
    using Cons.prems(3) by (simp add: es1)
  ultimately show ?case
    using Cons.IH [of l1 es1] Cons.prems(1) s by simp
qed simp

lemma send_names:
  assumes "set names \<subseteq> set (ol_sortedNames l0)" "probed l0 l" "list_all (probe_of l0) es"
  shows "probed l0 (fst (fold send_probes names (l, es))) \<and>
    list_all (probe_of l0) (snd (fold send_probes names (l, es)))"
  using assms
proof (induction names arbitrary: l es)
  case (Cons n names)
  have eq: "stopped (loop_at l n) = stopped (loop_at l0 n)" "os_cfg (loop_at l n) = os_cfg (loop_at l0 n)"
    using probed_at [OF Cons.prems(2)] by simp_all
  have "probed l0 (fst (send_probes n (l, es))) \<and> list_all (probe_of l0) (snd (send_probes n (l, es)))"
  proof (cases "stopped (loop_at l0 n)")
    case False
    then show ?thesis
      using send_vids [OF _ False _ Cons.prems(2,3)] Cons.prems(1) eq
      by (simp add: send_probes_def Let_def)
  qed (use Cons.prems eq in \<open>simp add: send_probes_def\<close>)
  then show ?case
    using Cons.IH [of "fst (send_probes n (l, es))" "snd (send_probes n (l, es))"] Cons.prems(1) by simp
qed simp

text \<open>Advance: the lifted waits, and then a turn of probes when one is due.\<close>

definition lifted :: "time \<Rightarrow> loop_layer \<Rightarrow> loop_layer" where
  "lifted now l = restartCadence now (emits (loop_arm now l)) (lift_waits now (loop_arm now l))"

lemma Advance_cases:
  assumes "loop_Advance now l = (l', fx)"
  obtains (wait) "now < ol_nextProbeAt (lifted now l)" "l' = lifted now l" "fx_Emissions fx = []"
  | (probe) l2 where "ol_nextProbeAt (lifted now l) \<le> now" "probed (lifted now l) l2"
      "l' = l2\<lparr>ol_nextProbeAt := now + ol_interval l\<rparr>" "list_all (probe_of (lifted now l)) (fx_Emissions fx)"
proof (cases "now < ol_nextProbeAt (lifted now l)")
  case True
  then have "loop_Advance now l = (lifted now l, no_effects)"
    by (simp add: loop_Advance_def Let_def lifted_def)
  then show ?thesis
    using assms True by (intro wait) simp_all
next
  case False
  let ?l = "lifted now l"
  obtain l2 es where f: "fold send_probes (ol_sortedNames ?l) (?l, []) = (l2, es)"
    by fastforce
  have p: "probed ?l l2" "list_all (probe_of ?l) es"
    using send_names [of "ol_sortedNames ?l" ?l ?l "[]"] f by (simp_all add: probed_def)
  from frame_cfg(4) [OF lift_waits_fields(1), of now "loop_arm now l"] frame_cfg(4) [OF probed_frame [OF p(1)]]
  have "ol_interval l2 = ol_interval l"
    by (simp add: lifted_def)
  then have "l' = l2\<lparr>ol_nextProbeAt := now + ol_interval l\<rparr>" "fx_Emissions fx = es"
    using assms False f by (auto simp: loop_Advance_def Let_def lifted_def)
  then show ?thesis
    using probe False p by simp
qed

section \<open>Every call, port by port\<close>

definition loop_wf :: "loop_layer \<Rightarrow> bool" where
  "loop_wf l \<longleftrightarrow> distinct (ol_sortedNames l) \<and> (\<forall>n. tracks l n \<longleftrightarrow> n \<in> set (ol_sortedNames l))"

lemma lifted_at:
  assumes "loop_wf l"
  shows "loop_at (lifted now l) n = (if tracks l n then expire_wait now (loop_at l n) else loop_at l n)"
    "loop_frame (lifted now l) = loop_frame l" "ol_armed (lifted now l)"
proof -
  have n: "distinct (ol_sortedNames (loop_arm now l))" "n \<in> set (ol_sortedNames (loop_arm now l)) \<longleftrightarrow> tracks l n"
    using assms by (auto simp: loop_wf_def)
  show "loop_at (lifted now l) n = (if tracks l n then expire_wait now (loop_at l n) else loop_at l n)"
    using fold_upd_at [OF n(1), of "expire_wait now" "loop_arm now l" n] n(2)
    by (simp add: lifted_def lift_waits_def)
  show "loop_frame (lifted now l) = loop_frame l" "ol_armed (lifted now l)"
    by (simp_all add: lifted_def lift_waits_fields)
qed

lemma call_frame:
  assumes "loop_wf l" "loop_call now e l = (l', es)"
  shows "loop_frame l' = loop_frame l"
proof (cases e)
  case Woken
  then obtain fx where a: "loop_Advance now l = (l', fx)"
    using assms(2) by (auto simp: loop_call_def split: prod.splits)
  from a show ?thesis
  proof (cases rule: Advance_cases)
    case (probe l2)
    then show ?thesis
      using lifted_at(2) [OF assms(1)] probed_frame [OF probe(2)] by (simp add: loop_frame_def)
  qed (simp add: lifted_at(2) [OF assms(1)])
next
  case (Returned ret p)
  then show ?thesis
    using assms(2) by (auto simp: loop_call_def loop_Receive_def Let_def frame_upd split: if_splits)
next
  case (LinkTo name up)
  then show ?thesis
    using assms(2) by (auto simp: loop_call_def loop_LinkChange_def Let_def frame_upd split: if_splits)
next
  case (Cleared name)
  then show ?thesis
    using assms(2) by (auto simp: loop_call_def loop_Clear_def Let_def frame_upd split: if_splits)
qed

lemma call_at:
  assumes "loop_wf l" "loop_call now e l = (l', es)"
  shows "erase (loop_at l' n) = (if tracks l n then port_event n now e (erase (loop_at l n)) else erase (loop_at l n))"
proof (cases e)
  case Woken
  then obtain fx where a: "loop_Advance now l = (l', fx)"
    using assms(2) by (auto simp: loop_call_def split: prod.splits)
  note at = lifted_at(1) [OF assms(1), of now n]
  from a show ?thesis
  proof (cases rule: Advance_cases)
    case (probe l2)
    then have "erase (loop_at l' n) = erase (loop_at (lifted now l) n)"
      by (simp add: probed_def)
    then show ?thesis
      using Woken by (simp add: at port_event_def step_erase)
  qed (use Woken in \<open>simp add: at port_event_def step_erase\<close>)
next
  case (Returned ret p)
  then show ?thesis
    using assms(2) by (auto simp: loop_call_def loop_Receive_def Let_def port_event_def step_erase
        loop_at_upd split: if_splits)
next
  case (LinkTo name up)
  have "l' = fst (loop_LinkChange now name up l)"
    using assms(2) LinkTo by (simp add: loop_call_def case_prod_beta)
  then show ?thesis
    using LinkTo by (cases "name = n")
      (simp_all add: loop_LinkChange_def Let_def port_event_def loop_at_upd, simp_all add: erase_def)
next
  case (Cleared name)
  then have "l' = fst (loop_Clear now name l)"
    using assms(2) by (simp add: loop_call_def)
  then show ?thesis
    using Cleared by (cases "name = n")
      (simp_all add: loop_Clear_def Let_def port_event_def loop_at_upd, simp_all add: erase_def)
qed

lemma call_wf:
  assumes "loop_wf l" "loop_call now e l = (l', es)"
  shows "loop_wf l'" "tracks l' n = tracks l n"
  using assms(1) frame_cfg(2,3) [OF call_frame [OF assms]] by (simp_all add: loop_wf_def)

end
