(* ===== verification/Loop_Reach.thy ===== *)
theory Loop_Reach
  imports Loop_Run Scans
begin

text \<open>
  The invariant of loop protection and what its deadlines promise: a recovery window that is pending
  ends, the layer asks to be woken for it, and probes keep their interval.
\<close>

lemma reach_start: "reach init step s \<Longrightarrow> \<exists>s0. init s0"
  by (induction rule: reach.induct) auto

section \<open>The invariant\<close>

definition port_fine :: "time \<Rightarrow> loop_state \<Rightarrow> bool" where
  "port_fine t s \<longleftrightarrow> os_mode s \<in> {Manual, Timer, LoopCleared} \<and> gp_Action (os_cfg s) \<in> {Block, NoLearn, Disable} \<and>
     0 < os_duration s \<and> (os_waitUntil s \<noteq> 0 \<longleftrightarrow> os_applied s \<and> timed s) \<and> os_waitUntil s \<le> t + os_duration s"

type_synonym loop_setup = "(string \<times> loop_port) list \<times> string list \<times> duration \<times> mac"

definition loop_inv :: "loop_setup \<Rightarrow> time \<times> loop_layer \<Rightarrow> bool" where
  "loop_inv F = (\<lambda>(t, l).
     0 \<le> t \<and> loop_wf l \<and> 0 < ol_interval l \<and> loop_frame l = F \<and>
     (\<forall>n. tracks l n \<longrightarrow> port_fine t (loop_at l n) \<and> (os_applied (loop_at l n) \<longrightarrow> ol_armed l)))"

lemma fine_erase: "port_fine t (erase s) = port_fine t s"
  by (simp add: port_fine_def)

lemma fine_steps:
  assumes "port_fine now s" "0 \<le> now"
  shows "port_fine now (expire_wait now s)" "port_fine now (apply_action now s)"
    "port_fine now (s\<lparr>os_interVLAN := b\<rparr>)" "port_fine now (s\<lparr>os_applied := False, os_waitUntil := 0\<rparr>)"
    "port_fine now (s\<lparr>os_applied := False, os_everApplied := False, os_interVLAN := False, os_waitUntil := 0\<rparr>)"
  by (use assms in \<open>cases "os_mode s"; cases "os_applied s";
    simp add: port_fine_def expire_wait_def apply_action_def\<close>)+

lemma event_fine:
  assumes "port_fine t s" "0 \<le> t" "t \<le> now"
  shows "port_fine now (port_event n now e s)"
proof -
  have s: "port_fine now s" "0 \<le> now"
    using assms by (auto simp: port_fine_def)
  note fine = fine_steps [OF _ s(2)]
  show ?thesis
  proof (cases e)
    case (Returned ret p)
    have "port_fine now (apply_action now (expire_wait now (s\<lparr>os_interVLAN := b\<rparr>)))" for b
      by (intro fine s)
    then show ?thesis
      using s(1) by (simp add: Returned port_event_def)
  qed (use s(1) fine [OF s(1)] in \<open>simp_all add: port_event_def\<close>)
qed

lemma returned_applies:
  assumes "os_mode s \<in> {Manual, Timer, LoopCleared}" "pb_Port p = n"
  shows "os_applied (port_event n u (Returned ret p) s)"
proof -
  have "os_applied (apply_action u s)" if "os_mode s \<in> {Manual, Timer, LoopCleared}" for s
    using that by (auto simp: apply_action_def)
  then show ?thesis
    using assms by (simp add: port_event_def)
qed

lemma call_armed:
  assumes "loop_wf l" "loop_call now e l = (l', es)"
  shows "ol_armed l \<Longrightarrow> ol_armed l'"
    and "tracks l n \<Longrightarrow> os_applied (loop_at l' n) \<Longrightarrow> os_applied (loop_at l n) \<or> ol_armed l'"
proof -
  show "ol_armed l \<Longrightarrow> ol_armed l'"
  proof (cases e)
    case Woken
    then obtain fx where "loop_Advance now l = (l', fx)"
      using assms(2) by (auto simp: loop_call_def split: prod.splits)
    then show ?thesis
      by (cases rule: Advance_cases) (simp_all add: lifted_at(3) [OF assms(1)] probed_def)
  qed (use assms in \<open>auto simp: loop_call_def loop_Receive_def loop_LinkChange_def loop_Clear_def Let_def split: if_splits\<close>)
  show "tracks l n \<Longrightarrow> os_applied (loop_at l' n) \<Longrightarrow> os_applied (loop_at l n) \<or> ol_armed l'"
  proof (cases "\<exists>ret p. e = Returned ret p \<and> pb_Port p = n")
    case True
    moreover assume "tracks l n"
    ultimately show ?thesis
      using assms(2) by (auto simp: loop_call_def loop_Receive_def Let_def split: if_splits)
  next
    case False
    assume t: "tracks l n" and a: "os_applied (loop_at l' n)"
    have "os_applied (port_event n now e (erase (loop_at l n)))"
      using call_at [OF assms, of n] t a by (metis erase_sel(2))
    then show ?thesis
      using False by (auto simp: port_event_def expire_wait_def split: loop_event.splits if_splits)
  qed
qed

lemma call_inv:
  assumes "loop_inv F (t, l)" "t \<le> now" "loop_call now e l = (l', es)"
  shows "loop_inv F (now, l')"
proof -
  have wf: "loop_wf l" and f: "loop_frame l' = loop_frame l"
    using assms call_frame by (auto simp: loop_inv_def)
  have "port_fine now (loop_at l' n) \<and> (os_applied (loop_at l' n) \<longrightarrow> ol_armed l')" if n: "tracks l' n" for n
  proof -
    have t: "tracks l n"
      using n call_wf(2) [OF wf assms(3)] by simp
    then have "port_fine t (erase (loop_at l n))"
      using assms(1) by (simp add: loop_inv_def fine_erase)
    then have "port_fine now (erase (loop_at l' n))"
      unfolding call_at [OF wf assms(3)] using t event_fine assms(1,2) by (simp add: loop_inv_def)
    moreover have "os_applied (loop_at l' n) \<longrightarrow> ol_armed l'"
      using call_armed [OF wf assms(3)] assms(1) t by (auto simp: loop_inv_def)
    ultimately show ?thesis
      by (simp add: fine_erase)
  qed
  then show ?thesis
    using assms(1,2) f call_wf(1) [OF wf assms(3)] frame_cfg(4) [OF f] by (simp add: loop_inv_def)
qed

section \<open>What New builds\<close>

lemma New_loop_at:
  assumes "loop_New c tbl mac = Inr l"
  shows "tracks l n \<longleftrightarrow> n \<in> fst ` set (gc_Ports c)"
    and "tracks l n \<Longrightarrow> loop_at l n = new_loop_state (normalize_loop_port (ol_interval l) (loop_port_of c n))"
    and "ol_sortedNames l = sortedKeys (gc_Ports c)" "ol_interval l = effectiveInterval (gc_Interval c)"
    and "\<not> ol_armed l" "loop_Validate tbl c = None" "ol_mac l = mac"
proof -
  let ?i = "effectiveInterval (gc_Interval c)"
  have l: "loop_Validate tbl c = None"
    "l = \<lparr>ol_mac = mac, ol_interval = ?i, ol_ports = map_vals (\<lambda>_ p. new_loop_state (normalize_loop_port ?i p)) (gc_Ports c),
       ol_sortedNames = sortedKeys (gc_Ports c), ol_armed = False, ol_nextProbeAt = 0\<rparr>"
    using assms by (auto simp: loop_New_def loop_Normalize_def Let_def split: option.splits)
  then show "ol_sortedNames l = sortedKeys (gc_Ports c)" "ol_interval l = ?i" "\<not> ol_armed l"
    "loop_Validate tbl c = None" "ol_mac l = mac"
    by simp_all
  have "map_of (ol_ports l) n = map_option (\<lambda>p. new_loop_state (normalize_loop_port ?i p)) (map_of (gc_Ports c) n)"
    by (simp add: l(2))
  then show "tracks l n \<longleftrightarrow> n \<in> fst ` set (gc_Ports c)"
    and "tracks l n \<Longrightarrow> loop_at l n = new_loop_state (normalize_loop_port (ol_interval l) (loop_port_of c n))"
    using map_of_eq_None_iff [of "gc_Ports c" n]
    by (cases "map_of (gc_Ports c) n"; simp add: tracks_def loop_at_def loop_port_of_def l(2); fail)+
qed

lemma New_fine:
  assumes "loop_New c tbl mac = Inr l" "tracks l n" "0 \<le> t"
  shows "port_fine t (loop_at l n)"
proof -
  let ?p = "loop_port_of c n"
  have i: "0 < ol_interval l"
    using New_loop_at(4,6) [OF assms(1)]
    by (auto simp: effectiveInterval_def DefaultInterval_def loop_Validate_def split: if_splits)
  have "validate_loop_port tbl n ?p = None"
    using New_loop_at(1,6) [OF assms(1)] assms(2) by (auto simp: loop_Validate_def split: if_splits)
  then have "gp_Action ?p \<in> {Block, NoLearn, Disable}" "rv_Mode (gp_Recovery ?p) \<in> {NoMode, Manual, Timer, LoopCleared}"
    "0 \<le> rv_Duration (gp_Recovery ?p)"
    by (auto simp: validate_loop_port_def split: if_splits option.splits)
  then show ?thesis
    using New_loop_at(2) [OF assms(1,2)] i assms(3)
    by (auto simp: port_fine_def new_loop_state_def normalize_loop_port_def effectiveMode_def effectiveDuration_def)
qed

lemma loop_New_inv:
  assumes "loop_New c tbl mac = Inr l" "0 \<le> t"
  shows "loop_inv (loop_frame l) (t, l)"
proof -
  have "0 < ol_interval l"
    using New_loop_at(4,6) [OF assms(1)]
    by (auto simp: effectiveInterval_def DefaultInterval_def loop_Validate_def split: if_splits)
  moreover have "loop_wf l"
    using New_loop_at(1,3) [OF assms(1)] by (simp add: loop_wf_def)
  moreover have "\<not> os_applied (loop_at l n)" if "tracks l n" for n
    using New_loop_at(2) [OF assms(1) that] by (simp add: new_loop_state_def)
  ultimately show ?thesis
    using New_fine [OF assms(1) _ assms(2)] assms(2) by (auto simp: loop_inv_def)
qed

section \<open>Reachable states\<close>

text \<open>The layer with the time of the last call.\<close>

definition loop_init :: "loop_config \<Rightarrow> port_table \<Rightarrow> mac \<Rightarrow> time \<times> loop_layer \<Rightarrow> bool" where
  "loop_init c tbl mac = (\<lambda>(t, l). 0 \<le> t \<and> loop_New c tbl mac = Inr l \<and> (\<exists>bd. builder_Build bd = Inr tbl))"

inductive loop_step :: "time \<times> loop_layer \<Rightarrow> time \<times> loop_layer \<Rightarrow> bool" where
  "t \<le> now \<Longrightarrow> loop_call now e l = (l', es) \<Longrightarrow> loop_step (t, l) (now, l')"

inductive_cases loop_stepE: "loop_step s s'"

definition loop_reachable :: "loop_config \<Rightarrow> port_table \<Rightarrow> mac \<Rightarrow> time \<Rightarrow> loop_layer \<Rightarrow> bool" where
  "loop_reachable c tbl mac t l \<longleftrightarrow> reach (loop_init c tbl mac) loop_step (t, l)"

definition loop_setup_of :: "loop_config \<Rightarrow> mac \<Rightarrow> loop_setup" where
  "loop_setup_of c mac = (let n = loop_Normalize c in (gc_Ports n, sortedKeys (gc_Ports n), gc_Interval n, mac))"

interpretation recovery: invariant "loop_init c tbl mac" loop_step "loop_inv (loop_setup_of c mac)" for c tbl mac
proof
  show "loop_inv (loop_setup_of c mac) s" if "loop_init c tbl mac s" for s
  proof (cases s)
    case (Pair t l)
    then have s: "s = (t, l)" "loop_New c tbl mac = Inr l" "0 \<le> t"
      using that by (auto simp: loop_init_def)
    have "loop_frame l = loop_setup_of c mac"
      using s(2) by (auto simp: loop_New_def loop_frame_def loop_setup_of_def Let_def map_vals_def new_loop_state_def
          comp_def case_prod_beta split: option.splits)
    then show ?thesis
      using loop_New_inv [OF s(2,3)] s(1) by simp
  qed
  show "loop_inv (loop_setup_of c mac) s'" if "loop_inv (loop_setup_of c mac) s" "loop_step s s'" for s s'
    using that(2,1) by cases (auto intro: call_inv)
qed

lemma loop_reachable_inv: "loop_reachable c tbl mac t l \<Longrightarrow> loop_inv (loop_setup_of c mac) (t, l)"
  unfolding loop_reachable_def by (rule recovery.reachable_inv)

text \<open>A layer that is reached was built from a valid configuration over a table the port builder made.\<close>

lemma loop_reachable_setup:
  assumes "loop_reachable c tbl mac t l"
  shows "loop_Validate tbl c = None" "wf_table tbl" "ol_mac l = mac"
    and "ol_sortedNames l = sortedKeys (gc_Ports c)" "tracks l n \<longleftrightarrow> n \<in> set (sortedKeys (gc_Ports c))"
proof -
  obtain t0 l0 where "loop_init c tbl mac (t0, l0)"
    using reach_start assms unfolding loop_reachable_def by fastforce
  then show "loop_Validate tbl c = None" "wf_table tbl"
    using builder_wf New_loop_at(6) by (auto simp: loop_init_def)
  show "ol_mac l = mac" and s: "ol_sortedNames l = sortedKeys (gc_Ports c)"
    using loop_reachable_inv [OF assms]
    by (simp_all add: loop_inv_def loop_frame_def loop_setup_of_def loop_Normalize_def Let_def)
  show "tracks l n \<longleftrightarrow> n \<in> set (sortedKeys (gc_Ports c))"
    using loop_reachable_inv [OF assms] s by (simp add: loop_inv_def loop_wf_def)
qed

lemma loop_reachable_call:
  assumes "loop_reachable c tbl mac t l" "t \<le> now" "loop_call now e l = (l', es)"
  shows "loop_reachable c tbl mac now l'"
  using assms unfolding loop_reachable_def by (metis loop_step.intros reach_step)

section \<open>The next wake-up\<close>

definition waiting :: "loop_state \<Rightarrow> bool" where
  "waiting s \<longleftrightarrow> os_applied s \<and> os_waitUntil s \<noteq> 0 \<and> timed s"

definition loop_deadlines :: "loop_layer \<Rightarrow> time list" where
  "loop_deadlines l = (if emits l then [ol_nextProbeAt l] else []) @
     map (\<lambda>n. os_waitUntil (loop_at l n)) (filter (\<lambda>n. waiting (loop_at l n)) (ol_sortedNames l))"

lemma NextWake_scan: "loop_NextWake l = (if ol_armed l then fold earlier (loop_deadlines l) None else None)"
proof -
  have "fold (\<lambda>name next. let s = loop_at l name in
      if waiting s then earlier (os_waitUntil s) next else next) ns acc =
    fold earlier (map (\<lambda>n. os_waitUntil (loop_at l n)) (filter (\<lambda>n. waiting (loop_at l n)) ns)) acc" for ns acc
    by (induction ns arbitrary: acc) (simp_all add: Let_def)
  then show ?thesis
    unfolding loop_NextWake_def waiting_def [symmetric] loop_deadlines_def by (simp add: earlier_def)
qed

interpretation loop_wake: best_scan Some "map_option (\<lambda>t. (t, t))" earlier "\<lambda>_. True" "\<lambda>_. True"
  by unfold_locales (auto simp: earlier_def split: option.splits)

lemma loop_wake_some:
  assumes "loop_NextWake l = Some w"
  shows "w \<in> set (loop_deadlines l)" "u \<in> set (loop_deadlines l) \<Longrightarrow> w \<le> u"
proof -
  have f: "map_option (\<lambda>t. (t, t)) (fold earlier (loop_deadlines l) None) = Some (w, w)"
    using assms by (simp add: NextWake_scan split: if_splits)
  show "w \<in> set (loop_deadlines l)" "u \<in> set (loop_deadlines l) \<Longrightarrow> w \<le> u"
    using loop_wake.scan_some [of None "loop_deadlines l" w w, OF _ _ _ f] by auto
qed

lemma loop_wake_none:
  assumes "loop_NextWake l = None" "ol_armed l"
  shows "loop_deadlines l = []"
proof -
  have "map_option (\<lambda>t. (t, t)) (fold earlier (loop_deadlines l) None) = None"
    using assms by (simp add: NextWake_scan)
  then show ?thesis
    using loop_wake.scan_none [of None "loop_deadlines l"] by (cases "loop_deadlines l") auto
qed

section \<open>Waking the layer\<close>

text \<open>A driver that wakes the layer when it asks, or at once when that time has passed.\<close>

fun wakes :: "nat \<Rightarrow> time \<times> loop_layer \<Rightarrow> time \<times> loop_layer" where
  "wakes 0 s = s"
| "wakes (Suc k) (t, l) =
     (case loop_NextWake l of
        None \<Rightarrow> (t, l)
      | Some w \<Rightarrow> wakes k (max t w, fst (loop_Advance (max t w) l)))"

lemma Advance_call: "loop_call now Woken l = (fst (loop_Advance now l), fx_Emissions (snd (loop_Advance now l)))"
  by (simp add: loop_call_def case_prod_beta)

text \<open>After an advance nothing that is pending is due.\<close>

lemma Advance_later:
  assumes "loop_inv F (t, l)" "t \<le> now" "u \<in> set (loop_deadlines (fst (loop_Advance now l)))"
  shows "now < u"
proof -
  have wf: "loop_wf l" and i: "0 < ol_interval l"
    using assms(1) by (auto simp: loop_inv_def)
  obtain l' fx where a: "loop_Advance now l = (l', fx)"
    by fastforce
  note at = call_at [OF wf Advance_call [of now l]]
  have "now < ol_nextProbeAt l'"
    using a by (cases rule: Advance_cases) (use i in simp_all)
  moreover have "now < os_waitUntil (loop_at l' n)" if n: "n \<in> set (ol_sortedNames l')" "waiting (loop_at l' n)" for n
  proof -
    have "tracks l n"
      using n(1) wf call_wf [OF wf Advance_call [of now l]] a by (simp add: loop_wf_def)
    then have "erase (loop_at l' n) = expire_wait now (erase (loop_at l n))"
      using at [of n] a by (simp add: port_event_def)
    then have "waiting (expire_wait now (erase (loop_at l n)))"
      "os_waitUntil (loop_at l' n) = os_waitUntil (expire_wait now (erase (loop_at l n)))"
      using n(2) by (metis erase_sel(1,2,4) waiting_def)+
    then show ?thesis
      by (auto simp: waiting_def expire_wait_def split: if_splits)
  qed
  ultimately show ?thesis
    using assms(3) a by (auto simp: loop_deadlines_def split: if_splits)
qed

lemma Advance_lifts:
  assumes "loop_inv F (t, l)" "tracks l n"
  shows "erase (loop_at (fst (loop_Advance now l)) n) = expire_wait now (erase (loop_at l n))"
  using call_at [OF _ Advance_call [of now l], of n] assms by (simp add: loop_inv_def port_event_def)

lemma expire_applied: "os_applied (expire_wait w s) \<Longrightarrow> expire_wait w s = s"
  by (auto simp: expire_wait_def split: if_splits)

lemma expire_wait_done: "waiting s \<Longrightarrow> \<not> os_applied (expire_wait (os_waitUntil s) s)"
  by (auto simp: expire_wait_def waiting_def)

lemma waiting_erase [simp]: "waiting (erase s) = waiting s"
  by (simp add: waiting_def)

text \<open>
  Every wake-up after the first is later than the one before, and none of them is later than a window
  that is still pending: so the window is over after finitely many of them.
\<close>

lemma wakes_lift:
  assumes "loop_inv F (t, l)" "tracks l n" "waiting (loop_at l n)" "t \<le> T" "os_waitUntil (loop_at l n) = T"
    and "\<forall>u \<in> set (loop_deadlines l). t < u"
  shows "\<exists>k t' l'. wakes k (t, l) = (t', l') \<and> loop_inv F (t', l') \<and> tracks l' n \<and>
    \<not> os_applied (loop_at l' n) \<and> t \<le> t' \<and> t' \<le> T"
  using assms
proof (induction "nat (T - t)" arbitrary: t l rule: less_induct)
  case less
  have armed: "ol_armed l" and wf: "loop_wf l"
    using less.prems(1-3) by (auto simp: loop_inv_def waiting_def)
  have T: "T \<in> set (loop_deadlines l)"
    using less.prems(2,3,5) wf by (auto simp: loop_deadlines_def loop_wf_def)
  then obtain w where w: "loop_NextWake l = Some w"
    using loop_wake_none [OF _ armed] by (cases "loop_NextWake l") auto
  have "w \<le> T" "t < w"
    using loop_wake_some [OF w] T less.prems(6) by auto
  let ?l = "fst (loop_Advance w l)"
  have inv: "loop_inv F (w, ?l)"
    using call_inv [OF less.prems(1) _ Advance_call [of w l]] \<open>t < w\<close> by simp
  have tr: "tracks ?l n"
    using call_wf(2) [OF wf Advance_call [of w l]] less.prems(2) by simp
  have s: "erase (loop_at ?l n) = expire_wait w (erase (loop_at l n))"
    by (rule Advance_lifts [OF less.prems(1,2)])
  show ?case
  proof (cases "w = T")
    case True
    then have "\<not> os_applied (loop_at ?l n)"
      using s less.prems(3,5) by (metis erase_sel(2,4) expire_wait_done waiting_erase)
    then show ?thesis
      using inv tr w \<open>t < w\<close> True by (intro exI [of _ "Suc 0"]) (simp add: max_def)
  next
    case False
    then have "expire_wait w (erase (loop_at l n)) = erase (loop_at l n)"
      using less.prems(5) \<open>w \<le> T\<close> by (simp add: expire_wait_def)
    then have "waiting (loop_at ?l n)" "os_waitUntil (loop_at ?l n) = T"
      using s less.prems(3,5) by (metis erase_sel(1,2,4) waiting_def)+
    then obtain k t' l' where "wakes k (w, ?l) = (t', l') \<and> loop_inv F (t', l') \<and> tracks l' n \<and>
        \<not> os_applied (loop_at l' n) \<and> w \<le> t' \<and> t' \<le> T"
      using less.hyps [of w ?l] inv tr Advance_later [OF less.prems(1), of w] \<open>t < w\<close> \<open>w \<le> T\<close> by auto
    then show ?thesis
      using w \<open>t < w\<close> by (intro exI [of _ "Suc k"]) (auto simp: max_def)
  qed
qed

text \<open>Without the assumption on what is due: the first wake-up may be at once.\<close>

lemma wakes_lift_due:
  assumes "loop_inv F (t, l)" "tracks l n" "waiting (loop_at l n)" "t \<le> os_waitUntil (loop_at l n)"
  shows "\<exists>k t' l'. wakes k (t, l) = (t', l') \<and> tracks l' n \<and> \<not> os_applied (loop_at l' n) \<and>
    t' \<le> os_waitUntil (loop_at l n)"
proof -
  let ?T = "os_waitUntil (loop_at l n)"
  have armed: "ol_armed l" and wf: "loop_wf l"
    using assms(1-3) by (auto simp: loop_inv_def waiting_def)
  have T: "?T \<in> set (loop_deadlines l)"
    using assms(2,3) wf by (auto simp: loop_deadlines_def loop_wf_def)
  then obtain w where w: "loop_NextWake l = Some w"
    using loop_wake_none [OF _ armed] by (cases "loop_NextWake l") auto
  let ?w = "max t w" and ?l = "fst (loop_Advance (max t w) l)"
  have le: "?w \<le> ?T"
    using loop_wake_some(2) [OF w T] assms(4) by simp
  have inv: "loop_inv F (?w, ?l)"
    using call_inv [OF assms(1) _ Advance_call [of ?w l]] by simp
  have tr: "tracks ?l n"
    using call_wf(2) [OF wf Advance_call [of ?w l]] assms(2) by simp
  note s = Advance_lifts [OF assms(1,2), of ?w]
  have one: "wakes (Suc k) (t, l) = wakes k (?w, ?l)" for k
    using w by simp
  show ?thesis
  proof (cases "os_applied (loop_at ?l n)")
    case True
    then have "os_applied (expire_wait ?w (erase (loop_at l n)))"
      by (metis s erase_sel(2))
    then have e: "erase (loop_at ?l n) = erase (loop_at l n)"
      using s expire_applied by simp
    have w1: "waiting (loop_at ?l n)" and w2: "os_waitUntil (loop_at ?l n) = ?T"
      using erase_cong [OF e] assms(3) by (simp_all add: waiting_def)
    have "\<forall>u \<in> set (loop_deadlines ?l). ?w < u"
      using Advance_later [OF assms(1) max.cobounded1] by blast
    from wakes_lift [OF inv tr w1 le w2 this]
    obtain k t' l' where "wakes k (?w, ?l) = (t', l')" "tracks l' n" "\<not> os_applied (loop_at l' n)" "t' \<le> ?T"
      by (elim exE conjE)
    then show ?thesis
      by (intro exI [of _ "Suc k"] exI [of _ t'] exI [of _ l'] conjI) (simp_all only: one not_False_eq_True)
  next
    case False
    then show ?thesis
      using one [of 0] tr le by (intro exI [of _ "Suc 0"] exI [of _ ?w] exI [of _ ?l] conjI) simp_all
  qed
qed

section \<open>The interval between probes\<close>

text \<open>Until \<open>T\<close> no probe is due.\<close>

definition no_probe_before :: "time \<Rightarrow> loop_layer \<Rightarrow> bool" where
  "no_probe_before T l \<longleftrightarrow> ol_armed l \<and> T \<le> ol_nextProbeAt l"

lemma restart_later:
  "no_probe_before T l \<Longrightarrow> T \<le> now + ol_interval l \<Longrightarrow> no_probe_before T (restartCadence now e l)"
  by (simp add: no_probe_before_def restartCadence_def)

lemma quiet_call:
  assumes "loop_wf l" "no_probe_before T l" "now < T" "T \<le> now + ol_interval l" "loop_call now e l = (l', es)"
  shows "es = [] \<and> no_probe_before T l'"
proof (cases e)
  case Woken
  have "ol_interval (lift_waits now l) = ol_interval l"
    by (rule frame_cfg(4) [OF lift_waits_fields(1)])
  then have p: "no_probe_before T (lifted now l)"
    using assms(2,4) by (simp add: lifted_def no_probe_before_def restartCadence_def lift_waits_fields)
  obtain fx where a: "loop_Advance now l = (l', fx)" "es = fx_Emissions fx"
    using assms(5) Woken by (auto simp: loop_call_def split: prod.splits)
  from a(1) show ?thesis
    by (cases rule: Advance_cases) (use p assms(3) a(2) in \<open>auto simp: no_probe_before_def\<close>)
qed (use assms restart_later in \<open>auto simp: loop_call_def loop_Receive_def loop_LinkChange_def loop_Clear_def
    Let_def no_probe_before_def restartCadence_def split: if_splits\<close>)

lemma quiet_run:
  assumes "loop_wf l" "no_probe_before T l" "sorted (t # map fst evs)" "\<forall>(u, e) \<in> set evs. u < T"
    and "T \<le> t + ol_interval l"
  shows "snd (loop_run evs l) = []"
  using assms
proof (induction evs arbitrary: l t)
  case (Cons a evs)
  obtain now e where a: "a = (now, e)"
    by fastforce
  obtain l' es where c: "loop_call now e l = (l', es)"
    by fastforce
  have t: "t \<le> now" "T \<le> now + ol_interval l"
    using Cons.prems(3,5) a by auto
  have "es = []" "no_probe_before T l'"
    using quiet_call [OF Cons.prems(1,2) _ t(2) c] Cons.prems(4) a by auto
  moreover have "ol_interval l' = ol_interval l"
    by (rule frame_cfg(4) [OF call_frame [OF Cons.prems(1) c]])
  ultimately show ?case
    using Cons.IH [of l' now] Cons.prems t(2) call_wf(1) [OF Cons.prems(1) c]
    by (auto simp: a c case_prod_beta)
qed simp

section \<open>An action that holds\<close>

text \<open>The action of a port stays applied up to \<open>D\<close>, or for good under manual recovery.\<close>

definition held :: "time \<Rightarrow> loop_state \<Rightarrow> bool" where
  "held D s \<longleftrightarrow> os_applied s \<and> (os_mode s = Manual \<or> D \<le> os_waitUntil s)"

definition releases :: "string \<Rightarrow> recovery_mode \<Rightarrow> time \<Rightarrow> time \<times> loop_event \<Rightarrow> bool" where
  "releases n mode D = (\<lambda>(now, e). e = Cleared n \<or> (if mode = Manual then e = LinkTo n False else D \<le> now))"

lemma event_held:
  assumes "port_fine t s" "t \<le> now" "held D s" "\<not> releases n (os_mode s) D (now, e)"
  shows "held D (port_event n now e s)"
proof -
  have keep: "expire_wait now (s\<lparr>os_interVLAN := b\<rparr>) = s\<lparr>os_interVLAN := b\<rparr>" "expire_wait now s = s" for b
    using assms(1,3,4) by (auto simp: expire_wait_def held_def releases_def port_fine_def split: if_splits)
  have "held D (apply_action now (s\<lparr>os_interVLAN := b\<rparr>))" for b
    using assms(1-3) by (cases "os_mode s") (auto simp: held_def apply_action_def port_fine_def)
  then show ?thesis
    using assms(3,4) keep by (cases e) (auto simp: port_event_def releases_def held_def)
qed

lemma run_held:
  assumes "loop_inv F (t, l)" "tracks l n" "held D (loop_at l n)" "sorted (t # map fst evs)"
    and "\<forall>x \<in> set evs. \<not> releases n (os_mode (loop_at l n)) D x"
  shows "held D (loop_at (fst (loop_run evs l)) n) \<and> tracks (fst (loop_run evs l)) n \<and>
    os_cfg (loop_at (fst (loop_run evs l)) n) = os_cfg (loop_at l n)"
  using assms
proof (induction evs arbitrary: l t)
  case (Cons a evs)
  obtain now e where a: "a = (now, e)"
    by fastforce
  obtain l' es where c: "loop_call now e l = (l', es)"
    by fastforce
  have wf: "loop_wf l" and t: "t \<le> now"
    using Cons.prems a by (auto simp: loop_inv_def)
  have "held D (port_event n now e (erase (loop_at l n)))"
    using Cons.prems a t by (intro event_held [of t]) (auto simp: loop_inv_def fine_erase held_def)
  then have "held D (erase (loop_at l' n))"
    using call_at [OF wf c, of n] Cons.prems(2) by simp
  moreover have "os_cfg (loop_at l' n) = os_cfg (loop_at l n)"
    by (rule frame_cfg(1) [OF call_frame [OF wf c]])
  moreover have "tracks l' n"
    using call_wf(2) [OF wf c] Cons.prems(2) by simp
  ultimately show ?case
    using Cons.IH [of now l'] Cons.prems call_inv [OF Cons.prems(1) t c]
    by (auto simp: a c case_prod_beta held_def)
qed simp

end
