(* ===== verification/Loop_Properties.thy ===== *)
theory Loop_Properties
  imports Loop_Reach Bridge_Properties
begin

text \<open>
  What loop protection promises, alone and as a gate of the relay, with a layer of two ports as the
  example: \<open>a\<close> blocks until the loop is gone, \<open>b\<close> is disabled until its link goes down.
\<close>

section \<open>The example\<close>

definition lq_builder :: builder where
  "lq_builder = fold (\<lambda>n. builder_Add (br_port n)) [''a'', ''b''] NewBuilder"

definition lq_table :: port_table where
  "lq_table = (case builder_Build lq_builder of Inr t \<Rightarrow> t | Inl _ \<Rightarrow> empty_table)"

definition lq_config :: loop_config where
  "lq_config = \<lparr>gc_Interval = 0,
     gc_Ports = [(''b'', zero_loop_port\<lparr>gp_Action := Disable\<rparr>), (''a'', zero_loop_port\<lparr>gp_Action := Block\<rparr>)]\<rparr>"

definition lq_mac :: mac where
  "lq_mac = MAC 2 0 0 0 0 1"

definition lq_new :: loop_layer where
  "lq_new = (case loop_New lq_config lq_table lq_mac of
     Inr l \<Rightarrow> l
   | Inl _ \<Rightarrow> \<lparr>ol_mac = lq_mac, ol_interval = 0, ol_ports = [], ol_sortedNames = [], ol_armed = False, ol_nextProbeAt = 0\<rparr>)"

definition lq_run :: loop_layer where
  "lq_run = fst (loop_run [(second, LinkTo ''a'' True), (second, LinkTo ''b'' True)] lq_new)"

definition lq_return :: loop_return where
  "lq_return = \<lparr>rt_VID = 0, rt_SameUntaggedDomain = False\<rparr>"

definition lq_probe :: probe where
  "lq_probe = \<lparr>pb_OriginMAC = lq_mac, pb_VID = 0, pb_Sequence = 0, pb_Port = ''a''\<rparr>"

lemma lq_new_reachable: "loop_reachable lq_config lq_table lq_mac 0 lq_new"
proof -
  have "\<not> isl (builder_Build lq_builder)" "\<not> isl (loop_New lq_config lq_table lq_mac)"
    by code_simp+
  then have "loop_init lq_config lq_table lq_mac (0, lq_new)"
    by (cases "builder_Build lq_builder"; cases "loop_New lq_config lq_table lq_mac")
      (auto simp: loop_init_def lq_new_def lq_table_def intro!: exI [of _ lq_builder])
  then show ?thesis
    by (simp add: loop_reachable_def reach_init)
qed

lemma loop_reachable_run:
  "loop_reachable c tbl mac t l \<Longrightarrow> sorted (t # map fst evs) \<Longrightarrow>
   loop_reachable c tbl mac (last (t # map fst evs)) (fst (loop_run evs l))"
proof (induction evs arbitrary: l t)
  case (Cons a evs)
  obtain now e l' es where a: "a = (now, e)" and c: "loop_call now e l = (l', es)"
    by (metis prod.collapse)
  have "loop_reachable c tbl mac now l'"
    using loop_reachable_call [OF Cons.prems(1) _ c] Cons.prems(2) a by simp
  then show ?case
    using Cons.IH [of now l'] Cons.prems(2) by (auto simp: a c case_prod_beta)
qed simp

lemma lq_run_reachable: "loop_reachable lq_config lq_table lq_mac second lq_run"
  using loop_reachable_run [OF lq_new_reachable, of "[(second, LinkTo ''a'' True), (second, LinkTo ''b'' True)]"]
  by (simp add: lq_run_def)

lemma lq_run_facts:
  "(tracks lq_run ''a'', os_mode (loop_at lq_run ''a''), os_duration (loop_at lq_run ''a''),
    gp_Action (os_cfg (loop_at lq_run ''a''))) = (True, LoopCleared, 15 * second, Block)"
  by code_simp

section \<open>Recovery\<close>

lemma Receive_waits:
  assumes "loop_inv F (t, l)" "t \<le> now" "tracks l (pb_Port p)" "os_mode (loop_at l (pb_Port p)) \<noteq> Manual"
    and "loop_Receive now ret p l = (l', fx)"
  shows "loop_inv F (now, l')" "tracks l' (pb_Port p)" "waiting (loop_at l' (pb_Port p))"
    "now \<le> os_waitUntil (loop_at l' (pb_Port p))"
    "os_waitUntil (loop_at l' (pb_Port p)) \<le> now + os_duration (loop_at l (pb_Port p))"
proof -
  let ?n = "pb_Port p"
  have c: "loop_call now (Returned ret p) l = (l', fx_Emissions fx)"
    using assms(5) by (simp add: loop_call_def)
  have wf: "loop_wf l"
    using assms(1) by (simp add: loop_inv_def)
  show inv: "loop_inv F (now, l')"
    by (rule call_inv [OF assms(1,2) c])
  show t: "tracks l' ?n"
    using call_wf(2) [OF wf c] assms(3) by simp
  have fine: "port_fine t (loop_at l ?n)" "port_fine now (loop_at l' ?n)"
    using assms(1,3) inv t by (auto simp: loop_inv_def)
  have cfg: "os_cfg (loop_at l' ?n) = os_cfg (loop_at l ?n)"
    by (rule frame_cfg(1) [OF call_frame [OF wf c]])
  have s: "erase (loop_at l' ?n) = port_event ?n now (Returned ret p) (erase (loop_at l ?n))"
    using call_at [OF wf c, of ?n] assms(3) by simp
  have "os_applied (port_event ?n now (Returned ret p) (erase (loop_at l ?n))) \<and>
      now \<le> os_waitUntil (port_event ?n now (Returned ret p) (erase (loop_at l ?n)))"
  proof -
    have "os_applied (apply_action now (expire_wait now s)) \<and> now \<le> os_waitUntil (apply_action now (expire_wait now s))"
      if "port_fine t s" "os_mode s \<noteq> Manual" for s
      using that by (cases "os_mode s") (auto simp: port_fine_def apply_action_def expire_wait_def)
    from this [of "(erase (loop_at l ?n))\<lparr>os_interVLAN := rt_VID ret \<noteq> pb_VID p \<and> \<not> rt_SameUntaggedDomain ret\<rparr>"]
    show ?thesis
      using fine(1) assms(4) by (simp add: port_event_def port_fine_def)
  qed
  then have "os_applied (loop_at l' ?n)" and le: "now \<le> os_waitUntil (loop_at l' ?n)"
    by (metis s erase_sel(2,4))+
  then show "waiting (loop_at l' ?n)" "now \<le> os_waitUntil (loop_at l' ?n)"
    using fine(2) assms(4) cfg by (auto simp: waiting_def port_fine_def)
  show "os_waitUntil (loop_at l' ?n) \<le> now + os_duration (loop_at l ?n)"
    using fine(2) cfg by (simp add: port_fine_def)
qed

text \<open>
  C6: an action a returned probe applied is lifted. Under Timer or LoopCleared recovery, once a probe
  of a port has returned at \<open>now\<close> and none returns after it, a driver that wakes the layer whenever
  it asks sees the port learn and forward again after finitely many wake-ups, and no later than the
  recovery duration after \<open>now\<close>.
\<close>

theorem action_lifted:
  assumes "loop_reachable c tbl mac t l" "t \<le> now" "tracks l (pb_Port p)"
    and "os_mode (loop_at l (pb_Port p)) \<noteq> Manual" "loop_Receive now ret p l = (l1, fx)"
  shows "\<exists>k t' l'. wakes k (now, l1) = (t', l') \<and> t' \<le> now + os_duration (loop_at l (pb_Port p)) \<and>
    (\<forall>vid. loop_Learns l' (pb_Port p) vid \<and> loop_Forwards l' (pb_Port p) vid)"
proof -
  note r = Receive_waits [OF loop_reachable_inv [OF assms(1)] assms(2-5)]
  from wakes_lift_due [OF r(1-4)]
  obtain k t' l' where "wakes k (now, l1) = (t', l')" "\<not> os_applied (loop_at l' (pb_Port p))"
    "t' \<le> os_waitUntil (loop_at l1 (pb_Port p))"
    by (elim exE conjE)
  then show ?thesis
    using r(5) by (intro exI [of _ k] exI [of _ t'] exI [of _ l']) (simp add: loop_Learns_def loop_Forwards_def)
qed

theorem action_lifted_witness:
  "\<not> loop_Forwards (fst (loop_Receive (2 * second) lq_return lq_probe lq_run)) ''a'' 0 \<and>
   (\<exists>k t' l'. wakes k (2 * second, fst (loop_Receive (2 * second) lq_return lq_probe lq_run)) = (t', l') \<and>
     t' \<le> 17 * second \<and> loop_Forwards l' ''a'' 0)"
proof
  show "\<not> loop_Forwards (fst (loop_Receive (2 * second) lq_return lq_probe lq_run)) ''a'' 0"
    by code_simp
qed (use action_lifted [OF lq_run_reachable, of "2 * second" lq_probe lq_return
      "fst (loop_Receive (2 * second) lq_return lq_probe lq_run)"
      "snd (loop_Receive (2 * second) lq_return lq_probe lq_run)"]
    lq_run_facts in \<open>auto simp: lq_probe_def\<close>)

section \<open>The port that loops\<close>

text \<open>
  How the switch hands the layer to the relay (\<^verbatim>\<open>SetGate\<close> in
  \<^verbatim>\<open>device/vswitch/layers.go\<close>).
\<close>

definition loop_gate :: "loop_layer \<Rightarrow> gate" where
  "loop_gate l = \<lparr>g_Learns = loop_Learns l, g_Forwards = loop_Forwards l\<rparr>"

text \<open>
  C7: a port that sees its own probe return is taken out of service at once and stays out. With action
  Block or Disable, after the return at \<open>now\<close> and whatever calls follow, short of the
  operator clearing the port, of its link going down under manual recovery and of its window running out
  otherwise, a relay with the layer as a gate sends no frame by the port and drops what arrives on it.
\<close>

theorem loop_contained:
  assumes "loop_reachable c tbl mac t l" "t \<le> now" "tracks l n" "pb_Port p = n"
    and "gp_Action (os_cfg (loop_at l n)) \<in> {Block, Disable}" "loop_Receive now ret p l = (l1, fx)"
    and "sorted (now # map fst evs)"
    and "\<forall>x \<in> set evs. \<not> releases n (os_mode (loop_at l n)) (os_waitUntil (loop_at l1 n)) x"
    and "loop_run evs l1 = (l2, es)"
    and "bridge_reachable bc tbl' b" "(Some (loop_gate l2), sc) \<in> set (br_gates b)"
  shows "(Egress b i f s = Some (r, s') \<longrightarrow>
      (\<forall>e \<in> set (res_Egress r). eg_Port e = n \<longrightarrow> eg_Dropped e \<noteq> NotDropped)) \<and>
    (pt_Name (rr_Resolved (Table_Receive (br_ports b) name)) = n \<longrightarrow>
     (\<exists>why. Ingress u name f learn commit b = (Inl why, b)))"
proof -
  have inv: "loop_inv (loop_setup_of c mac) (t, l)"
    by (rule loop_reachable_inv [OF assms(1)])
  have wf: "loop_wf l" and fine: "port_fine t (loop_at l n)"
    using inv assms(3) by (auto simp: loop_inv_def)
  have call: "loop_call now (Returned ret p) l = (l1, fx_Emissions fx)"
    using assms(6) by (simp add: loop_call_def)
  note inv1 = call_inv [OF inv assms(2) call] and cfg1 = frame_cfg(1) [OF call_frame [OF wf call]]
  have t1: "tracks l1 n"
    using call_wf(2) [OF wf call] assms(3) by simp
  have "held (os_waitUntil (loop_at l1 n)) (loop_at l1 n)"
  proof -
    have "os_applied (port_event n now (Returned ret p) (erase (loop_at l n)))"
      using fine assms(4) by (intro returned_applies) (simp_all add: port_fine_def)
    then have "os_applied (loop_at l1 n)"
      using call_at [OF wf call, of n] assms(3) by (metis erase_sel(2))
    then show ?thesis
      by (simp add: held_def)
  qed
  from run_held [OF inv1 t1 this assms(7)] assms(8,9)
  have l2: "os_applied (loop_at l2 n)" "tracks l2 n" "os_cfg (loop_at l2 n) = os_cfg (loop_at l n)"
    by (simp_all add: cfg1 held_def)
  then have gate: "\<not> g_Learns (loop_gate l2) n fid" "\<not> g_Forwards (loop_gate l2) n fid" for fid
    using assms(5) by (auto simp: loop_gate_def loop_Learns_def loop_Forwards_def)
  note closed = gated [OF assms(11)]
  have "eg_Dropped e \<noteq> NotDropped"
    if "Egress b i f s = Some (r, s')" "e \<in> set (res_Egress r)" "eg_Port e = n" for e
    using relay_sends [OF assms(10) that(1)] closed(1) [OF gate(2)] that(2,3) by (auto simp: may_send_def)
  moreover have "\<exists>why. Ingress u name f learn commit b = (Inl why, b)"
    if "pt_Name (rr_Resolved (Table_Receive (br_ports b) name)) = n"
    using that closed(2) [OF gate(1)] closed(3) [OF gate(2)]
    by (auto simp: Ingress_def Let_def case_prod_beta split: sum.split)
  ultimately show ?thesis
    by blast
qed

text \<open>The relay of the two ports, with the layer after the return and one more wake-up as its gate.\<close>

definition lq_blocked :: loop_layer where
  "lq_blocked = fst (loop_run [(6 * second, Woken)] (fst (loop_Receive (2 * second) lq_return lq_probe lq_run)))"

definition lq_relay :: "unit bridge" where
  "lq_relay = SetGate (Some (loop_gate lq_blocked)) ''loopprotect'' (new_bridge (bridge_Normalize
     \<lparr>bc_AgingTime = 0, bc_MaxEntries = 0, bc_FloodVLANs = [], bc_ProtectedPorts = [], bc_ForwardBPDU = False,
      bc_VLAN = None\<rparr>) lq_table)"

lemma lq_relay_reachable:
  "bridge_reachable \<lparr>bc_AgingTime = 0, bc_MaxEntries = 0, bc_FloodVLANs = [], bc_ProtectedPorts = [],
     bc_ForwardBPDU = False, bc_VLAN = None\<rparr> lq_table lq_relay"
proof -
  let ?c = "\<lparr>bc_AgingTime = 0, bc_MaxEntries = 0, bc_FloodVLANs = [], bc_ProtectedPorts = [],
     bc_ForwardBPDU = False, bc_VLAN = None\<rparr>"
  have "\<not> isl (builder_Build lq_builder)" "bridge_Validate ?c lq_table = None"
    by code_simp+
  then have "relay_init ?c lq_table (new_bridge (bridge_Normalize ?c) lq_table :: unit bridge, {})"
    by (cases "builder_Build lq_builder")
      (auto simp: relay_init_def lq_table_def NewBridge_def intro!: exI [of _ lq_builder])
  then show ?thesis
    using relay_step.gate unfolding bridge_reachable_def lq_relay_def by (blast intro: reach_step reach_init)
qed

theorem loop_contained_witness:
  "\<exists>why. Ingress (6 * second) ''a'' (br_frame 1 2) True True lq_relay = (Inl why, lq_relay)"
proof -
  let ?l1 = "fst (loop_Receive (2 * second) lq_return lq_probe lq_run)"
  have w: "os_waitUntil (loop_at ?l1 ''a'') = 17 * second"
    "pt_Name (rr_Resolved (Table_Receive lq_table ''a'')) = ''a''"
    by code_simp+
  have "br_ports lq_relay = lq_table" "(Some (loop_gate lq_blocked), ''loopprotect'') \<in> set (br_gates lq_relay)"
    by (simp_all add: lq_relay_def SetGate_def new_bridge_def)
  then show ?thesis
    using loop_contained [OF lq_run_reachable, of "2 * second" "''a''" lq_probe lq_return ?l1
        "snd (loop_Receive (2 * second) lq_return lq_probe lq_run)" "[(6 * second, Woken)]" lq_blocked
        "snd (loop_run [(6 * second, Woken)] ?l1)" _ _ lq_relay "''loopprotect''", OF _ _ _ _ _ _ _ _ lq_relay_reachable]
      lq_run_facts w by (auto simp: lq_probe_def lq_blocked_def releases_def)
qed

section \<open>Probes\<close>

text \<open>
  C27: a protected port never probes faster than configured. Once the layer has sent probes at
  \<open>now\<close>, no sequence of calls, returned probes, link changes, clears or wake-ups, makes it send
  another before \<open>now\<close> plus its interval.
\<close>

theorem probe_rate:
  assumes "loop_reachable c tbl mac t l" "t \<le> now" "loop_Advance now l = (l', fx)" "fx_Emissions fx \<noteq> []"
    and "sorted (now # map fst evs)" "\<forall>(u, e) \<in> set evs. u < now + ol_interval l"
  shows "snd (loop_run evs l') = []"
proof -
  have inv: "loop_inv (loop_setup_of c mac) (t, l)"
    by (rule loop_reachable_inv [OF assms(1)])
  then have wf: "loop_wf l"
    by (simp add: loop_inv_def)
  have call: "loop_call now Woken l = (l', fx_Emissions fx)"
    using assms(3) by (simp add: loop_call_def)
  have i: "ol_interval l' = ol_interval l"
    by (rule frame_cfg(4) [OF call_frame [OF wf call]])
  have "no_probe_before (now + ol_interval l) l'"
    using assms(3) by (cases rule: Advance_cases)
      (use assms(4) lifted_at(3) [OF wf] in \<open>auto simp: no_probe_before_def probed_def\<close>)
  then show ?thesis
    using quiet_run [OF call_wf(1) [OF wf call] _ assms(5), of "now + ol_interval l"] assms(6) i by simp
qed

theorem probe_rate_witness:
  "length (fx_Emissions (snd (loop_Advance (6 * second) lq_run))) = 2 \<and>
   snd (loop_run [(7 * second, Returned lq_return lq_probe), (8 * second, LinkTo ''a'' False), (10 * second, Woken)]
     (fst (loop_Advance (6 * second) lq_run))) = []"
proof -
  have e: "length (fx_Emissions (snd (loop_Advance (6 * second) lq_run))) = 2" "ol_interval lq_run = 5 * second"
    by code_simp+
  then have "fx_Emissions (snd (loop_Advance (6 * second) lq_run)) \<noteq> []"
    by fastforce
  then show ?thesis
    using probe_rate [OF lq_run_reachable, of "6 * second" "fst (loop_Advance (6 * second) lq_run)"
        "snd (loop_Advance (6 * second) lq_run)"
        "[(7 * second, Returned lq_return lq_probe), (8 * second, LinkTo ''a'' False), (10 * second, Woken)]"] e
    by simp
qed

text \<open>
  C25: the probe codec. What \<^verbatim>\<open>Encode\<close> accepts \<^verbatim>\<open>Decode\<close> reads back, with the VLAN
  \<^verbatim>\<open>SetProbeVID\<close> patched in when the switch knows it; and a frame \<^verbatim>\<open>Decode\<close> accepts is
  the encoding of the probe it answers, so there is no other way to write a probe.
\<close>

theorem probe_codec:
  "(Encode_probe p src = Inr f \<longrightarrow>
      Decode_probe f = Some (Inr p) \<and> Decode_probe (SetProbeVID f vid) = Some (Inr (p\<lparr>pb_VID := vid\<rparr>))) \<and>
   (Decode_probe f = Some (Inr p) \<longrightarrow> Encode_probe p (f_Src f) = Inr (f\<lparr>f_Tags := []\<rparr>))"
proof (intro conjI impI)
  assume e: "Encode_probe p src = Inr f"
  then have p: "0 < length (pb_Port p)" "length (pb_Port p) \<le> 255" and f: "f = encode_probe p src"
    by (auto simp: Encode_probe_def maxProbePortNameLength_def split: if_splits)
  show "Decode_probe f = Some (Inr p)"
    by (rule decode_probe_bytes [OF p]) (simp_all add: f encode_probe_bytes)
  show "Decode_probe (SetProbeVID f vid) = Some (Inr (p\<lparr>pb_VID := vid\<rparr>))"
    by (rule decode_probe_bytes)
      (use p in \<open>simp_all add: f SetProbeVID_def encode_probe_bytes SetProbeVID_bytes probeHeaderLength_def\<close>)
next
  assume "Decode_probe f = Some (Inr p)"
  note d = decoded_probe [OF this]
  have "encode_probe p (f_Src f) = f\<lparr>f_Tags := []\<rparr>"
    using d(1-3) by (intro frame.equality) (simp_all add: encode_probe_bytes)
  then show "Encode_probe p (f_Src f) = Inr (f\<lparr>f_Tags := []\<rparr>)"
    using d(4,5) by (auto simp: Encode_probe_def maxProbePortNameLength_def)
qed

theorem probe_codec_witness:
  "Decode_probe (SetProbeVID (encode_probe lq_probe lq_mac) 7) = Some (Inr (lq_probe\<lparr>pb_VID := 7\<rparr>))"
  using probe_codec [of lq_probe lq_mac "encode_probe lq_probe lq_mac" 7]
  by (simp add: Encode_probe_def lq_probe_def maxProbePortNameLength_def)

text \<open>A probe the layer sends decodes, whatever VLAN is patched in.\<close>

lemma sent_probe_decodes:
  assumes "loop_reachable c tbl mac t l" "loop_Advance now l = (l', fx)" "em \<in> set (fx_Emissions fx)"
  obtains seq where "em_Port em \<in> set (sortedKeys (gc_Ports c))"
    "Decode_probe (SetProbeVID (em_Frame em) vid) =
      Some (Inr \<lparr>pb_OriginMAC = mac, pb_VID = vid, pb_Sequence = seq, pb_Port = em_Port em\<rparr>)"
proof -
  let ?n = "em_Port em"
  have wf: "loop_wf l"
    using loop_reachable_inv [OF assms(1)] by (simp add: loop_inv_def)
  from assms(2) obtain seq where fr: "em_Frame em = encode_probe
      \<lparr>pb_OriginMAC = mac, pb_VID = em_VID em, pb_Sequence = seq, pb_Port = ?n\<rparr> mac"
    and n: "?n \<in> set (sortedKeys (gc_Ports c))"
  proof (cases rule: Advance_cases)
    case (probe l2)
    then have "probe_of (lifted now l) em"
      using assms(3) by (simp add: list_all_iff)
    moreover have "ol_mac (lifted now l) = mac" "ol_sortedNames (lifted now l) = sortedKeys (gc_Ports c)"
      using frame_cfg(3,5) [OF lifted_at(2) [OF wf]] loop_reachable_setup(3,4) [OF assms(1)] by simp_all
    ultimately show ?thesis
      using that by (auto simp: probe_of_def)
  qed (use assms(3) in simp)
  have "validate_loop_port tbl ?n (loop_port_of c ?n) = None"
    using loop_reachable_setup(1) [OF assms(1)] n by (auto simp: loop_Validate_def split: if_splits)
  then have "length ?n \<le> 255" "?n \<noteq> ''''"
    using wf_lookup(3) [OF loop_reachable_setup(2) [OF assms(1)], of ?n]
    by (auto simp: validate_loop_port_def maxProbePortNameLength_def split: if_splits option.splits)
  then have "Decode_probe (SetProbeVID (em_Frame em) vid) =
      Some (Inr \<lparr>pb_OriginMAC = mac, pb_VID = vid, pb_Sequence = seq, pb_Port = ?n\<rparr>)"
    by (intro decode_probe_bytes)
      (simp_all add: fr SetProbeVID_def encode_probe_bytes SetProbeVID_bytes probeHeaderLength_def)
  with n show thesis
    by (rule that)
qed

text \<open>
  C26: the switch recognizes its own probe. A probe the layer sends, patched to the VLAN it rides, decodes
  to a probe of this switch that names the port it left by, and should it return at any later time the
  action of that port is applied.
\<close>

theorem own_probe_recognized:
  assumes "loop_reachable c tbl mac t l" "t \<le> now" "loop_Advance now l = (l', fx)" "em \<in> set (fx_Emissions fx)"
  shows "\<exists>p. Decode_probe (SetProbeVID (em_Frame em) vid) = Some (Inr p) \<and>
    pb_OriginMAC p = mac \<and> pb_VID p = vid \<and> pb_Port p = em_Port em \<and>
    (\<forall>u ret. now \<le> u \<longrightarrow> os_applied (loop_at (fst (loop_Receive u ret p l')) (em_Port em)))"
proof -
  let ?n = "em_Port em"
  have call: "loop_call now Woken l = (l', fx_Emissions fx)"
    using assms(3) by (simp add: loop_call_def)
  have l': "loop_reachable c tbl mac now l'"
    by (rule loop_reachable_call [OF assms(1,2) call])
  have wf: "loop_wf l'"
    using loop_reachable_inv [OF l'] by (simp add: loop_inv_def)
  obtain seq where n: "?n \<in> set (sortedKeys (gc_Ports c))" and d: "Decode_probe (SetProbeVID (em_Frame em) vid) =
      Some (Inr \<lparr>pb_OriginMAC = mac, pb_VID = vid, pb_Sequence = seq, pb_Port = ?n\<rparr>)"
    using sent_probe_decodes [OF assms(1,3,4)] by blast
  let ?p = "\<lparr>pb_OriginMAC = mac, pb_VID = vid, pb_Sequence = seq, pb_Port = ?n\<rparr>"
  have "os_applied (loop_at (fst (loop_Receive u ret ?p l')) ?n)" for u ret
  proof -
    have t: "tracks l' ?n"
      using loop_reachable_setup(5) [OF l'] n by simp
    then have m: "os_mode (loop_at l' ?n) \<in> {Manual, Timer, LoopCleared}"
      using loop_reachable_inv [OF l'] by (auto simp: loop_inv_def port_fine_def)
    from call_at [OF wf, of u "Returned ret ?p" "fst (loop_Receive u ret ?p l')" _ ?n]
    have "erase (loop_at (fst (loop_Receive u ret ?p l')) ?n) =
        port_event ?n u (Returned ret ?p) (erase (loop_at l' ?n))"
      using t by (simp add: loop_call_def case_prod_beta)
    then show ?thesis
      using returned_applies [of "erase (loop_at l' ?n)" ?p ?n u ret] m
      by (metis erase_sel(1,2) probe.select_convs(4))
  qed
  then show ?thesis
    using d by (intro exI [of _ ?p]) simp
qed

theorem own_probe_recognized_witness:
  "\<exists>em p. em \<in> set (fx_Emissions (snd (loop_Advance (6 * second) lq_run))) \<and>
     Decode_probe (SetProbeVID (em_Frame em) 9) = Some (Inr p) \<and> pb_OriginMAC p = lq_mac \<and> pb_VID p = 9"
proof -
  have "length (fx_Emissions (snd (loop_Advance (6 * second) lq_run))) = 2"
    by code_simp
  then obtain em where "em \<in> set (fx_Emissions (snd (loop_Advance (6 * second) lq_run)))"
    by (cases "fx_Emissions (snd (loop_Advance (6 * second) lq_run))") auto
  then show ?thesis
    using own_probe_recognized [OF lq_run_reachable, of "6 * second" "fst (loop_Advance (6 * second) lq_run)"
        "snd (loop_Advance (6 * second) lq_run)" em 9] by auto
qed

end
