(* ===== verification/Switch_Config.thy ===== *)
theory Switch_Config
  imports Bridge_Stp Lag_Bridge Loop_Properties
begin

text \<open>
  The configuration of a switch that has no physical, multicast, routing, traffic or filter layer
  (\<^verbatim>\<open>config.go\<close> of \<^verbatim>\<open>src/common/sim/device/vswitch\<close>): its defaults, and the checks that
  need more than one layer.
\<close>

record switch_config =
  sc_MAC :: mac
  sc_Ports :: port_table
  sc_Bridge :: "bridge_config option"
  sc_LAG :: "lag_config option"
  sc_STP :: "stp_config option"
  sc_LoopProtect :: "loop_config option"

section \<open>Defaults\<close>

text \<open>
  The search for an unused local address; the fuel is one more than the addresses it has to avoid.
\<close>

fun unused_local :: "nat \<Rightarrow> u32 \<Rightarrow> mac list \<Rightarrow> mac option" where
  "unused_local 0 n explicit = None"
| "unused_local (Suc fuel) n explicit =
     (if mac_Local n \<in> set explicit then unused_local fuel (n + 1) explicit else Some (mac_Local n))"

definition assign_mac :: "switch_config \<Rightarrow> mac option" where
  "assign_mac c =
     (if sc_MAC c \<noteq> zero_mac then Some (sc_MAC c)
      else
        let explicit = (case sc_STP c of
              Some stp \<Rightarrow> if c_Address stp \<noteq> zero_mac then [c_Address stp] else [] | None \<Rightarrow> [])
        in unused_local (Suc (length explicit)) 1 explicit)"

definition has_lag_port :: "port_table \<Rightarrow> bool" where
  "has_lag_port tbl = list_ex (\<lambda>p. pt_Kind p = LAG) (tb_ports tbl)"

definition switch_Normalize :: "switch_config \<Rightarrow> switch_config option" where
  "switch_Normalize c = do {
     m \<leftarrow> assign_mac c;
     let tbl = Table_Normalize (sc_Ports c);
     Some \<lparr>sc_MAC = m, sc_Ports = tbl,
       sc_Bridge = map_option bridge_Normalize (sc_Bridge c),
       sc_LAG = (if sc_LAG c \<noteq> None \<or> has_lag_port tbl
                 then Some (lag_Normalize tbl m (case sc_LAG c of Some cfg \<Rightarrow> cfg | None \<Rightarrow> [])) else None),
       sc_STP = map_option (\<lambda>stp. config_Normalize
         (if c_Address stp = zero_mac then stp\<lparr>c_Address := m\<rparr> else stp)) (sc_STP c),
       sc_LoopProtect = map_option loop_Normalize (sc_LoopProtect c)\<rparr>
   }"

section \<open>Validation\<close>

datatype switch_error =
    PortsError port_error
  | SwitchGroupMAC mac
  | BridgeError bridge_error
  | LAGError lag_error
  | STPWithoutBridge
  | STPError config_error
  | PVSTWithoutVLANs
  | VLANWithoutTree vlan_id
  | LoopWithoutBridge
  | LoopError loop_error
  | NothingToProbe string
  | ProbeVLANNotCarried string vlan_id
  | SeedsWithoutBridge
  | SeedError seed_error

text \<open>\<^verbatim>\<open>validatePVSTCoversEveryVLAN\<close>, of a switch that has a bridge.\<close>

definition validate_pvst :: "bridge_config \<Rightarrow> stp_config \<Rightarrow> switch_error option" where
  "validate_pvst b stp =
     (case c_PVST stp of
        None \<Rightarrow> None
      | Some pv \<Rightarrow>
          case bc_VLAN b of
            None \<Rightarrow> Some PVSTWithoutVLANs
          | Some v \<Rightarrow>
              let trees = pv_Trees (pvst_Normalize (c_Priority stp) pv)
              in first_error (\<lambda>vid. if map_of trees vid = None then Some (VLANWithoutTree vid) else None)
                   (sortedKeys (vc_Table v)))"

text \<open>The VLAN a probe without one rides, as the validation computes it.\<close>

definition untagged_of :: "switchport \<Rightarrow> vlan_id option" where
  "untagged_of sw =
     (case sw_PVID sw of
        Some vid \<Rightarrow> Some vid
      | None \<Rightarrow> (case sw_Tunnel sw of Some t \<Rightarrow> Some (tn_VID t) | None \<Rightarrow> None))"

definition validate_loop_vlans :: "bridge_config \<Rightarrow> string \<Rightarrow> loop_port \<Rightarrow> switch_error option" where
  "validate_loop_vlans b name p =
     (let known = (case bc_VLAN b of Some v \<Rightarrow> map_of (vc_Switchports v) name | None \<Rightarrow> None);
          sw = (case known of Some sw \<Rightarrow> sw | None \<Rightarrow> zero_switchport) in
      if gp_VLANs p = [] then
        (if bc_VLAN b = None then None
         else case untagged_of sw of
           None \<Rightarrow> Some (NothingToProbe name)
         | Some vid \<Rightarrow> if CarriesVID sw vid then None else Some (ProbeVLANNotCarried name vid))
      else first_error (\<lambda>vid. if known = None \<or> \<not> CarriesVID sw vid
                              then Some (ProbeVLANNotCarried name vid) else None) (gp_VLANs p))"

definition validate_loop :: "switch_config \<Rightarrow> switch_error option" where
  "validate_loop c =
     (case sc_LoopProtect c of
        None \<Rightarrow> None
      | Some lp \<Rightarrow>
          case sc_Bridge c of
            None \<Rightarrow> Some LoopWithoutBridge
          | Some b \<Rightarrow>
              or_else (map_option LoopError (loop_Validate (sc_Ports c) lp))
                (first_error (\<lambda>name. validate_loop_vlans b name (loop_port_of lp name)) (sortedKeys (gc_Ports lp))))"

definition validate_stp :: "switch_config \<Rightarrow> switch_error option" where
  "validate_stp c =
     (case sc_STP c of
        None \<Rightarrow> None
      | Some stp \<Rightarrow>
          case sc_Bridge c of
            None \<Rightarrow> Some STPWithoutBridge
          | Some b \<Rightarrow> or_else (map_option STPError (config_Validate (sc_Ports c) stp)) (validate_pvst b stp))"

definition switch_Validate :: "switch_config \<Rightarrow> switch_error option" where
  "switch_Validate c =
     or_else (map_option PortsError (Table_Validate (sc_Ports c)))
    (or_else (if mac_IsGroup (sc_MAC c) then Some (SwitchGroupMAC (sc_MAC c)) else None)
    (or_else (case sc_Bridge c of
                Some b \<Rightarrow> map_option BridgeError (bridge_Validate b (sc_Ports c)) | None \<Rightarrow> None)
    (or_else (case sc_LAG c of
                Some g \<Rightarrow> map_option LAGError (lag_Validate (sc_Ports c) g) | None \<Rightarrow> None)
    (or_else (validate_stp c) (validate_loop c)))))"

lemma unused_local_Some: "unused_local fuel n explicit = Some m \<Longrightarrow> m \<notin> set explicit"
  by (induction fuel n explicit rule: unused_local.induct) (auto split: if_splits)

text \<open>The search ends: there is at most one address to avoid.\<close>

lemma assign_mac_total: "assign_mac c \<noteq> None"
proof -
  have "mac_Local 1 \<noteq> mac_Local 2"
    by (simp add: mac_Local_def)
  then show ?thesis
    by (cases "sc_STP c") (auto simp: assign_mac_def Let_def)
qed

lemma switch_Normalize_total: "switch_Normalize c \<noteq> None"
  using assign_mac_total [of c] by (auto simp: switch_Normalize_def Let_def)

end
