(* ===== verification/Switch.thy ===== *)
theory Switch
  imports Switch_Config
begin

text \<open>
  The switch as it composes its layers (\<^verbatim>\<open>switch.go\<close>, \<^verbatim>\<open>layers.go\<close>,
  \<^verbatim>\<open>timers.go\<close>, \<^verbatim>\<open>link.go\<close> and \<^verbatim>\<open>lag.go\<close> of
  \<^verbatim>\<open>src/common/sim/device/vswitch\<close>): the state, construction, how the effects of one
  layer reach the others, link changes and timers.

  An operation answers \<open>None\<close> where the code would panic or not return. The frames the layers
  emit are collected in the state, as \<^verbatim>\<open>call.emissions\<close> does during a call. The resolved speeds
  come from the physical layer and are a parameter of the switch.
\<close>

section \<open>State\<close>

datatype slot = SlotSTP | SlotLAG | SlotLoopProtect

record sw_emission =
  so_Port :: string
  so_Member :: string
  so_Frame :: frame
  so_slot :: slot

datatype point_to_point = P2PUnknown | P2PTrue | P2PFalse

datatype duplex = DuplexEmpty | DuplexUnknown | DuplexFull | DuplexHalf | DuplexOther string

record link_report =
  ln_State :: link_state
  ln_SpeedBPS :: u64
  ln_Duplex :: duplex
  ln_PeerRelays :: bool

record vswitch =
  vs_cfg :: switch_config
  vs_ports :: port_table
  vs_bridge :: "lag_layer bridge option"
  vs_speeds :: "string \<Rightarrow> u64"
  vs_stp :: "stp_layer option"
  vs_loop :: "loop_layer option"
  vs_lag :: "lag_layer option"
  vs_portP2P :: "(string \<rightharpoonup> point_to_point) option"
  vs_portSpeed :: "(string \<rightharpoonup> u64) option"
  vs_seeds :: "seed list"
  vs_emissions :: "sw_emission list"

section \<open>Construction\<close>

text \<open>
  Ports that carry traffic from the start: members of groups without LACP and without an up delay
  whose table row forwards.
\<close>

definition initial_links :: "lag_config \<Rightarrow> port_table \<Rightarrow> lag_layer \<Rightarrow> lag_layer" where
  "initial_links cfg tbl l =
     fold (\<lambda>p l.
       if pt_LagParent p \<noteq> '''' \<and> port_Forwards p then
         (let g = (case map_of cfg (pt_LagParent p) of Some g \<Rightarrow> g | None \<Rightarrow> zero_group)
          in if lp_Mode (lg_LACP g) = Off \<and> lg_UpDelay g = 0
             then fst (lag_LinkChange 0 (pt_Name p) True l) else l)
       else l) (tb_ports tbl) l"

definition new_lag_layer :: "switch_config \<Rightarrow> switch_error + lag_layer option" where
  "new_lag_layer c =
     (if \<not> has_lag_port (sc_Ports c) then Inr None
      else
        let cfg = (case sc_LAG c of Some g \<Rightarrow> g | None \<Rightarrow> [])
        in case lag_New cfg (sc_Ports c) (sc_MAC c) of
             Inl e \<Rightarrow> Inl (LAGError e)
           | Inr l \<Rightarrow> Inr (Some (initial_links cfg (sc_Ports c) l)))"

text \<open>A layer that is configured is built, and its error returned.\<close>

definition build_layer :: "('e \<Rightarrow> switch_error) \<Rightarrow> ('c \<Rightarrow> 'e + 'l) \<Rightarrow> 'c option \<Rightarrow> switch_error + 'l option" where
  "build_layer err new c =
     (case c of
        None \<Rightarrow> Inr None
      | Some cfg \<Rightarrow> (case new cfg of Inl e \<Rightarrow> Inl (err e) | Inr l \<Rightarrow> Inr (Some l)))"

definition newSwitch ::
    "(byte list \<Rightarrow> byte list \<Rightarrow> byte list) \<Rightarrow> (string \<Rightarrow> u64) \<Rightarrow> switch_config \<Rightarrow> seed list \<Rightarrow> switch_error + vswitch" where
  "newSwitch hmac_md5 speeds c seeds =
     (case build_layer BridgeError (\<lambda>b. NewBridge b (sc_Ports c)) (sc_Bridge c) of
        Inl e \<Rightarrow> Inl e
      | Inr bridge \<Rightarrow>
     case new_lag_layer c of
        Inl e \<Rightarrow> Inl e
      | Inr lag \<Rightarrow>
     case build_layer STPError (\<lambda>s. New hmac_md5 s (sc_Ports c)) (sc_STP c) of
        Inl e \<Rightarrow> Inl e
      | Inr stp \<Rightarrow>
     case build_layer LoopError (\<lambda>lp. loop_New lp (sc_Ports c) (sc_MAC c)) (sc_LoopProtect c) of
        Inl e \<Rightarrow> Inl e
      | Inr loop \<Rightarrow>
          let s = \<lparr>vs_cfg = c, vs_ports = sc_Ports c, vs_bridge = bridge, vs_speeds = speeds, vs_stp = stp,
                   vs_loop = loop, vs_lag = lag, vs_portP2P = None, vs_portSpeed = None, vs_seeds = seeds,
                   vs_emissions = []\<rparr>
          in case bridge of
               None \<Rightarrow> Inr s
             | Some b \<Rightarrow>
                 if seeds = [] then Inr s
                 else (case InstallSeeds seeds b of
                         (Some e, _) \<Rightarrow> Inl (SeedError e)
                       | (None, b) \<Rightarrow> Inr (s\<lparr>vs_bridge := Some b\<rparr>)))"

definition NewWithSpec ::
    "(byte list \<Rightarrow> byte list \<Rightarrow> byte list) \<Rightarrow> (string \<Rightarrow> u64) \<Rightarrow> switch_config \<Rightarrow> seed list \<Rightarrow>
      (switch_error + vswitch) option" where
  "NewWithSpec hmac_md5 speeds c seeds = do {
     norm \<leftarrow> switch_Normalize c;
     case switch_Validate norm of
       Some e \<Rightarrow> Some (Inl e)
     | None \<Rightarrow>
         case sc_Bridge norm of
           None \<Rightarrow> if seeds \<noteq> [] then Some (Inl SeedsWithoutBridge)
                   else Some (newSwitch hmac_md5 speeds norm seeds)
         | Some b \<Rightarrow>
             (case NormalizeSeeds b (sc_Ports norm) seeds of
                Inl e \<Rightarrow> Some (Inl (SeedError e))
              | Inr seeds \<Rightarrow> Some (newSwitch hmac_md5 speeds norm seeds))
   }"

section \<open>Bindings\<close>

text \<open>
  The relay holds pointers to the layers it was bound to; a call on it sees their present state.
\<close>

definition live_bridge :: "vswitch \<Rightarrow> lag_layer bridge \<Rightarrow> lag_layer bridge" where
  "live_bridge s b =
     (let b = (case vs_lag s of Some _ \<Rightarrow> SetSelector (Some lag_selector) b | None \<Rightarrow> b);
          b = (case vs_stp s of Some l \<Rightarrow> SetGate (Some (stp_gate l)) ''stp'' b | None \<Rightarrow> b)
      in case vs_loop s of Some l \<Rightarrow> SetGate (Some (loop_gate l)) ''loopprotect'' b | None \<Rightarrow> b)"

section \<open>Emissions\<close>

text \<open>The VLAN of the first C-tag, which the member of a group is chosen by.\<close>

definition c_tag_vid :: "frame \<Rightarrow> vlan_id" where
  "c_tag_vid f =
     (case find (\<lambda>t. tag_TPID t = EtherTypeDot1Q) (f_Tags f) of Some t \<Rightarrow> tag_VID t | None \<Rightarrow> 0)"

definition emit_frame :: "time \<Rightarrow> slot \<Rightarrow> string \<Rightarrow> frame \<Rightarrow> vswitch \<Rightarrow> vswitch option" where
  "emit_frame now slot name f s =
     (let out = (\<lambda>member s. s\<lparr>vs_emissions := vs_emissions s @
            [\<lparr>so_Port = name, so_Member = member, so_Frame = f, so_slot = slot\<rparr>]\<rparr>) in
      case Table_Port (vs_ports s) name of
        Some p \<Rightarrow>
          if pt_Kind p = LAG then
            (case vs_lag s of
               None \<Rightarrow> Some s
             | Some l \<Rightarrow> do {
                 (sel, l) \<leftarrow> lag_Select now name f (c_tag_vid f) l;
                 let s = s\<lparr>vs_lag := Some l\<rparr>;
                 Some (if se_OK sel then out (se_Member sel) s else s)
               })
          else Some (out '''' s)
      | None \<Rightarrow> Some (out '''' s))"

definition flush_bridge :: "effects \<Rightarrow> vswitch \<Rightarrow> vswitch" where
  "flush_bridge fx s =
     (if fx_Flush fx = [] then s else s\<lparr>vs_bridge := map_option (Flush (fx_Flush fx)) (vs_bridge s)\<rparr>)"

text \<open>A loop whose body may panic.\<close>

fun each :: "('a \<Rightarrow> vswitch \<Rightarrow> vswitch option) \<Rightarrow> 'a list \<Rightarrow> vswitch \<Rightarrow> vswitch option" where
  "each f [] s = Some s"
| "each f (x # xs) s = do { s \<leftarrow> f x s; each f xs s }"

definition emit_stp :: "time \<Rightarrow> emission \<Rightarrow> vswitch \<Rightarrow> vswitch option" where
  "emit_stp now em s =
     (if em_VID em = 0 then emit_frame now SlotSTP (em_Port em) (em_Frame em) s
      else do {
        b \<leftarrow> vs_bridge s;
        case OriginateFrame b (em_Port em) (em_VID em) (em_Frame em) of
          None \<Rightarrow> Some s
        | Some f \<Rightarrow> emit_frame now SlotSTP (em_Port em) f s
      })"

definition applySTPEffects :: "time \<Rightarrow> effects \<Rightarrow> vswitch \<Rightarrow> vswitch option" where
  "applySTPEffects now fx s = each (emit_stp now) (fx_Emissions fx) (flush_bridge fx s)"

definition untaggedVID :: "vswitch \<Rightarrow> string \<Rightarrow> vlan_id" where
  "untaggedVID s name =
     (case sc_Bridge (vs_cfg s) of
        None \<Rightarrow> 0
      | Some b \<Rightarrow>
          case bc_VLAN b of
            None \<Rightarrow> 0
          | Some v \<Rightarrow>
              case map_of (vc_Switchports v) name of
                None \<Rightarrow> 0
              | Some sw \<Rightarrow>
                  (case sw_PVID sw of
                     Some vid \<Rightarrow> vid
                   | None \<Rightarrow> (case sw_Tunnel sw of Some t \<Rightarrow> tn_VID t | None \<Rightarrow> 0)))"

definition emit_probe :: "time \<Rightarrow> emission \<Rightarrow> vswitch \<Rightarrow> vswitch option" where
  "emit_probe now em s =
     (case Table_Port (vs_ports s) (em_Port em) of
        None \<Rightarrow> Some s
      | Some p \<Rightarrow>
          if \<not> port_Forwards p then Some s
          else
            let vid = (if em_VID em = 0 then untaggedVID s (em_Port em) else em_VID em) in
            if (case vs_stp s of Some l \<Rightarrow> \<not> Forwards l (em_Port em) vid | None \<Rightarrow> False) then Some s
            else do {
              b \<leftarrow> vs_bridge s;
              case OriginateFrame b (em_Port em) vid (SetProbeVID (em_Frame em) vid) of
                None \<Rightarrow> Some s
              | Some f \<Rightarrow> emit_frame now SlotLoopProtect (em_Port em) f s
            })"

definition applyLoopProtectEffects :: "time \<Rightarrow> effects \<Rightarrow> vswitch \<Rightarrow> vswitch option" where
  "applyLoopProtectEffects now fx s = each (emit_probe now) (fx_Emissions fx) (flush_bridge fx s)"

section \<open>Layers of the switch\<close>

text \<open>
  A call on a layer the switch may not have, and the effects it answers: nothing is called and
  nothing applied when the layer is absent.
\<close>

definition stp_call ::
    "time \<Rightarrow> (stp_layer \<Rightarrow> effects \<times> stp_layer) \<Rightarrow> vswitch \<Rightarrow> vswitch option" where
  "stp_call now f s =
     (case vs_stp s of
        None \<Rightarrow> Some s
      | Some l \<Rightarrow> let (fx, l) = f l in applySTPEffects now fx (s\<lparr>vs_stp := Some l\<rparr>))"

definition loop_call_switch ::
    "time \<Rightarrow> (loop_layer \<Rightarrow> loop_layer \<times> effects) \<Rightarrow> vswitch \<Rightarrow> vswitch option" where
  "loop_call_switch now f s =
     (case vs_loop s of
        None \<Rightarrow> Some s
      | Some l \<Rightarrow> let (l, fx) = f l in applyLoopProtectEffects now fx (s\<lparr>vs_loop := Some l\<rparr>))"

section \<open>Link state\<close>

definition linkSpeed :: "vswitch \<Rightarrow> port \<Rightarrow> u64" where
  "linkSpeed s p =
     (if pt_Kind p \<noteq> LAG then vs_speeds s (pt_Name p)
      else fold (\<lambda>m best. max best (vs_speeds s (pt_Name m))) (Members (vs_ports s) (pt_Name p)) 0)"

definition pointToPoint :: "vswitch \<Rightarrow> string \<Rightarrow> link_report \<Rightarrow> point_to_point" where
  "pointToPoint s name link =
     (let mode = (case sc_STP (vs_cfg s) of
            None \<Rightarrow> P2PEmpty
          | Some stp \<Rightarrow> (case map_of (c_Ports stp) name of Some p \<Rightarrow> a_PointToPoint p | None \<Rightarrow> P2PEmpty)) in
      if mode = P2PForceTrue then P2PTrue
      else if mode = P2PForceFalse then P2PFalse
      else if ln_Duplex link = DuplexEmpty \<or> ln_Duplex link = DuplexUnknown then P2PUnknown
      else if ln_Duplex link = DuplexFull \<and> ln_PeerRelays link then P2PTrue
      else P2PFalse)"

definition aggregateOperStatus :: "port list \<Rightarrow> link_state" where
  "aggregateOperStatus members =
     (if list_ex (\<lambda>m. pt_AdminStatus m = Up \<and> pt_OperStatus m = Up) members then Up
      else if list_ex (\<lambda>m. pt_AdminStatus m \<noteq> Down \<and> pt_OperStatus m \<noteq> Down) members then LSUnknown
      else Down)"

definition setOperStatus :: "string \<Rightarrow> link_state \<Rightarrow> vswitch \<Rightarrow> port_error + vswitch" where
  "setOperStatus name state s =
     (case WithOperStatus (vs_ports s) name state of
        Inl e \<Rightarrow> Inl e
      | Inr tbl \<Rightarrow>
          case vs_bridge s of
            None \<Rightarrow> Inr (s\<lparr>vs_ports := tbl\<rparr>)
          | Some b \<Rightarrow>
              case SetOperStatus name state b of
                Inl e \<Rightarrow> Inl e
              | Inr b \<Rightarrow> Inr (s\<lparr>vs_bridge := Some b, vs_ports := tbl\<rparr>))"

definition enabled_members :: "vswitch \<Rightarrow> string \<Rightarrow> string list" where
  "enabled_members s lagName =
     (case vs_lag s of Some l \<Rightarrow> li_Enabled (lag_Info l lagName) | None \<Rightarrow> [])"

text \<open>The speed and the point-to-point state a group reports to the spanning tree.\<close>

definition member_speed :: "vswitch \<Rightarrow> string \<Rightarrow> u64" where
  "member_speed s name =
     (let speed = (case vs_portSpeed s of
            Some m \<Rightarrow> (case m name of Some v \<Rightarrow> v | None \<Rightarrow> 0) | None \<Rightarrow> 0)
      in if speed = 0 then vs_speeds s name else speed)"

definition group_speed :: "vswitch \<Rightarrow> string list \<Rightarrow> u64" where
  "group_speed s names = fold (\<lambda>n best. max best (member_speed s n)) names 0"

definition group_p2p :: "vswitch \<Rightarrow> string \<Rightarrow> string list \<Rightarrow> bool" where
  "group_p2p s lagName names =
     (let all = names \<noteq> [] \<and> list_all (\<lambda>n. case vs_portP2P s of
              Some m \<Rightarrow> m n = None \<or> m n = Some P2PTrue | None \<Rightarrow> True) names
      in pointToPoint s lagName \<lparr>ln_State = LSEmpty, ln_SpeedBPS = 0,
           ln_Duplex = (if all then DuplexFull else DuplexHalf), ln_PeerRelays = True\<rparr> = P2PTrue)"

definition note_group :: "string \<Rightarrow> bool \<Rightarrow> u64 \<Rightarrow> vswitch \<Rightarrow> vswitch" where
  "note_group lagName p2p speed s =
     (if vs_portP2P s = None then s
      else s\<lparr>vs_portP2P := map_option (\<lambda>m. m(lagName \<mapsto> if p2p then P2PTrue else P2PFalse)) (vs_portP2P s),
             vs_portSpeed := map_option (\<lambda>m. m(lagName \<mapsto> speed)) (vs_portSpeed s)\<rparr>)"

definition group_link :: "time \<Rightarrow> string \<Rightarrow> vswitch \<Rightarrow> vswitch option" where
  "group_link now lagName s =
     (let enabled = enabled_members s lagName; up = enabled \<noteq> [] in do {
        s \<leftarrow> (if vs_stp s = None then Some s
               else let speed = group_speed s enabled; p2p = group_p2p s lagName enabled
                    in stp_call now (LinkChange now lagName up p2p speed) (note_group lagName p2p speed s));
        loop_call_switch now (loop_LinkChange now lagName up) s
      })"

definition updateLagState :: "time \<Rightarrow> string \<Rightarrow> vswitch \<Rightarrow> (port_error option \<times> vswitch) option" where
  "updateLagState now lagName s =
     (case setOperStatus lagName (aggregateOperStatus (Members (vs_ports s) lagName)) s of
        Inl e \<Rightarrow> Some (Some e, s)
      | Inr s \<Rightarrow> map_option (\<lambda>s. (None, s)) (group_link now lagName s))"

definition applyLAGEffects :: "time \<Rightarrow> effects \<Rightarrow> vswitch \<Rightarrow> vswitch option" where
  "applyLAGEffects now fx s = do {
     s \<leftarrow> each (\<lambda>em. emit_frame now SlotLAG (em_Port em) (em_Frame em)) (fx_Emissions fx) s;
     each (\<lambda>lagName s. map_option snd (updateLagState now lagName s)) (fx_Changed fx) s
   }"

text \<open>The logical port of a name; a name that resolves to none is kept.\<close>

definition logicalIngress :: "vswitch \<Rightarrow> string \<Rightarrow> string" where
  "logicalIngress s name = (case Resolve (vs_ports s) name of Some p \<Rightarrow> pt_Name p | None \<Rightarrow> name)"

definition note_port :: "string \<Rightarrow> point_to_point \<Rightarrow> u64 \<Rightarrow> vswitch \<Rightarrow> vswitch" where
  "note_port name p2p speed s =
     s\<lparr>vs_portP2P := map_option (\<lambda>m. m(name \<mapsto> p2p)) (vs_portP2P s),
       vs_portSpeed := map_option (\<lambda>m. m(name \<mapsto> speed)) (vs_portSpeed s)\<rparr>"

definition make_link_maps :: "vswitch \<Rightarrow> vswitch" where
  "make_link_maps s =
     s\<lparr>vs_portP2P := (if vs_portP2P s = None then Some Map.empty else vs_portP2P s),
       vs_portSpeed := (if vs_portSpeed s = None then Some Map.empty else vs_portSpeed s)\<rparr>"

text \<open>The three kinds of a port: a member of a group, a group, and any other.\<close>

definition member_link :: "time \<Rightarrow> port \<Rightarrow> bool \<Rightarrow> vswitch \<Rightarrow> (port_error option \<times> vswitch) option" where
  "member_link now p up s = do {
     s \<leftarrow> (case vs_lag s of
             None \<Rightarrow> Some s
           | Some l \<Rightarrow>
               let (l, fx) = lag_LinkChange now (pt_Name p) up l
               in applyLAGEffects now fx (s\<lparr>vs_lag := Some l\<rparr>));
     updateLagState now (pt_LagParent p) s
   }"

definition port_link :: "time \<Rightarrow> string \<Rightarrow> bool \<Rightarrow> bool \<Rightarrow> u64 \<Rightarrow> vswitch \<Rightarrow> vswitch option" where
  "port_link now name up p2p speed s = do {
     s \<leftarrow> stp_call now (LinkChange now name up p2p speed) s;
     loop_call_switch now (loop_LinkChange now name up) s
   }"

definition switch_LinkChange ::
    "time \<Rightarrow> string \<Rightarrow> link_report \<Rightarrow> vswitch \<Rightarrow> (port_error option \<times> vswitch) option" where
  "switch_LinkChange now name link s =
     (case setOperStatus name (ln_State link) s of
        Inl e \<Rightarrow> Some (Some e, s)
      | Inr s \<Rightarrow>
          let s = make_link_maps s; p2p = pointToPoint s name link;
              up = (ln_State link = Up); speed = ln_SpeedBPS link;
              plain = (\<lambda>_ :: unit. map_option (\<lambda>s. (None, s))
                (port_link now (logicalIngress s name) up (p2p = P2PTrue) speed
                  (note_port (logicalIngress s name) p2p speed s))) in
          case Table_Port (vs_ports s) name of
            None \<Rightarrow> plain ()
          | Some p \<Rightarrow>
              if pt_LagParent p \<noteq> '''' then member_link now p up (note_port name p2p speed s)
              else if pt_Kind p = LAG then updateLagState now (pt_Name p) s
              else plain ())"

definition start_port :: "time \<Rightarrow> port \<Rightarrow> vswitch \<Rightarrow> vswitch option" where
  "start_port now p s =
     map_option snd (switch_LinkChange now (pt_Name p)
       \<lparr>ln_State = pt_OperStatus p, ln_SpeedBPS = linkSpeed s p, ln_Duplex = DuplexFull, ln_PeerRelays = True\<rparr> s)"

definition Start :: "time \<Rightarrow> vswitch \<Rightarrow> vswitch option" where
  "Start now s =
     (let ports = tb_ports (vs_ports s) in do {
        s \<leftarrow> each (start_port now) (filter (\<lambda>p. pt_LagParent p \<noteq> '''') ports) s;
        each (start_port now) (filter (\<lambda>p. pt_LagParent p = '''') ports) s
      })"

section \<open>Time\<close>

definition lag_advance :: "time \<Rightarrow> vswitch \<Rightarrow> vswitch option" where
  "lag_advance now s =
     (case vs_lag s of
        None \<Rightarrow> Some s
      | Some l \<Rightarrow> do { (l, fx) \<leftarrow> lag_Advance now l; applyLAGEffects now fx (s\<lparr>vs_lag := Some l\<rparr>) })"

definition advance_layers :: "time \<Rightarrow> vswitch \<Rightarrow> vswitch option" where
  "advance_layers now s = do {
     s \<leftarrow> stp_call now (Advance now) s;
     s \<leftarrow> lag_advance now s;
     s \<leftarrow> loop_call_switch now (loop_Advance now) s;
     Some (s\<lparr>vs_bridge := map_option (fdb_Advance now) (vs_bridge s)\<rparr>)
   }"

definition switch_wake :: "time \<times> bool \<Rightarrow> time option \<Rightarrow> time option" where
  "switch_wake timer earliest =
     (let (t, ok) = timer in
      if \<not> ok \<or> t = 0 then earliest
      else case earliest of None \<Rightarrow> Some t | Some e \<Rightarrow> if t < e then Some t else Some e)"

definition switch_NextWake :: "vswitch \<Rightarrow> time option" where
  "switch_NextWake s =
     (let answer = (\<lambda>w. case w of Some t \<Rightarrow> (t, True) | None \<Rightarrow> (0, False))
      in fold switch_wake
           ((case vs_stp s of Some l \<Rightarrow> [NextWake l] | None \<Rightarrow> []) @
            (case vs_lag s of Some l \<Rightarrow> [answer (lag_NextWake l)] | None \<Rightarrow> []) @
            (case vs_loop s of Some l \<Rightarrow> [answer (loop_NextWake l)] | None \<Rightarrow> [])) None)"

section \<open>The operator\<close>

definition switch_Mcheck :: "time \<Rightarrow> string \<Rightarrow> vswitch \<Rightarrow> vswitch option" where
  "switch_Mcheck now name s =
     stp_call now (Mcheck now (logicalIngress s name)) s"

definition ClearLoopProtect :: "time \<Rightarrow> string \<Rightarrow> vswitch \<Rightarrow> vswitch" where
  "ClearLoopProtect now name s =
     (case vs_loop s of
        None \<Rightarrow> s
      | Some l \<Rightarrow> s\<lparr>vs_loop := Some (fst (loop_Clear now (logicalIngress s name) l))\<rparr>)"

section \<open>Seeds\<close>

definition switch_Learn :: "seed list \<Rightarrow> vswitch \<Rightarrow> switch_error option \<times> vswitch" where
  "switch_Learn seeds s =
     (if seeds = [] then (None, s)
      else case (vs_bridge s, sc_Bridge (vs_cfg s)) of
        (Some b, Some c) \<Rightarrow>
          (case NormalizeSeeds c (vs_ports s) (vs_seeds s @ seeds) of
             Inl e \<Rightarrow> (Some (SeedError e), s)
           | Inr normalized \<Rightarrow>
               (case InstallSeeds seeds b of
                  (Some e, _) \<Rightarrow> (Some (SeedError e), s)
                | (None, b) \<Rightarrow> (None, s\<lparr>vs_bridge := Some b, vs_seeds := normalized\<rparr>)))
      | _ \<Rightarrow> (Some SeedsWithoutBridge, s))"

definition switch_Forget :: "vlan_id \<Rightarrow> mac \<Rightarrow> vswitch \<Rightarrow> bool \<times> vswitch" where
  "switch_Forget fid m s =
     (case vs_bridge s of
        None \<Rightarrow> (False, s)
      | Some b \<Rightarrow>
          let (forgot, b) = Forget fid m b
          in (forgot, s\<lparr>vs_bridge := Some b,
                vs_seeds := filter (\<lambda>e. \<not> (e_FID e = fid \<and> e_MAC e = m)) (vs_seeds s)\<rparr>))"

end
