(* ===== verification/Switch_Forward.thy ===== *)
theory Switch_Forward
  imports Switch Bpdu_Codec
begin

text \<open>
  A frame in the switch (\<^verbatim>\<open>forward.go\<close>, \<^verbatim>\<open>intercept.go\<close>, \<^verbatim>\<open>hub.go\<close>
  and \<^verbatim>\<open>output.go\<close> of \<^verbatim>\<open>src/common/sim/device/vswitch\<close>): the protocol frames the
  layers take, the relay, the hub of a switch without relay, and the calls of the device.

  The flag \<open>mutate\<close> is false for \<^verbatim>\<open>Peek\<close>. The trace steps and facts explain a decision and
  are not modelled, as in the relay.
\<close>

section \<open>Verdicts\<close>

definition verdict :: "outcome \<Rightarrow> reason \<Rightarrow> string \<Rightarrow> vlan_id \<Rightarrow> result" where
  "verdict oc why name fid = \<lparr>res_Outcome = oc, res_Reason = why, res_Ingress = name, res_FID = fid, res_Egress = []\<rparr>"

section \<open>LACP and marker\<close>

definition SubtypeLACP :: byte where "SubtypeLACP = 1"
definition SubtypeMarker :: byte where "SubtypeMarker = 2"

definition reject_lacp :: "string \<Rightarrow> bool \<Rightarrow> lag_layer \<Rightarrow> vswitch \<Rightarrow> result \<times> vswitch" where
  "reject_lacp ingress mutate l s =
     (verdict Dropped (OtherReason ''unsupported-lacpdu'') ingress 0,
      if mutate then s\<lparr>vs_lag := Some (lag_BadLACPDU ingress l)\<rparr> else s)"

definition interceptLACP ::
    "time \<Rightarrow> string \<Rightarrow> frame \<Rightarrow> bool \<Rightarrow> lag_layer \<Rightarrow> vswitch \<Rightarrow> (result \<times> vswitch) option" where
  "interceptLACP now ingress f mutate l s = do {
     subtype \<leftarrow> idx (f_Payload f) 0;
     let consumed = verdict Consumed NotDropped ingress 0;
     if subtype = SubtypeMarker then do {
       marker \<leftarrow> ReceiveMarker ingress f l;
       if fx_Emissions marker = [] then Some (reject_lacp ingress mutate l s)
       else if mutate then do { s \<leftarrow> applyLAGEffects now marker s; Some (consumed, s) }
       else Some (consumed, s)
     } else do {
       pdu \<leftarrow> lacp_Decode f;
       case pdu of
         Inl _ \<Rightarrow> Some (reject_lacp ingress mutate l s)
       | Inr pdu \<Rightarrow>
           if mutate then
             (let (l, fx) = lag_Receive now ingress pdu l in do {
                s \<leftarrow> applyLAGEffects now fx (s\<lparr>vs_lag := Some l\<rparr>);
                Some (consumed, s)
              })
           else Some (consumed, s)
     }
   }"

section \<open>BPDUs\<close>

text \<open>\<^verbatim>\<open>bpduPort\<close>: the logical port, with the drop of a port that is down.\<close>

definition bpduPort :: "string \<Rightarrow> stp_layer \<Rightarrow> vswitch \<Rightarrow> string \<times> result option" where
  "bpduPort ingress l s =
     (let receive = Table_Receive (vs_ports s) ingress; name = pt_Name (rr_Resolved receive) in
      if rr_Reason receive = NoReason \<and> PortLinked l name then (name, None)
      else (name, Some (verdict Dropped (PortReason ReasonPortDown) name 0)))"

definition badBPDU :: "string \<Rightarrow> bool \<Rightarrow> stp_layer \<Rightarrow> vswitch \<Rightarrow> result \<times> vswitch" where
  "badBPDU name mutate l s =
     (verdict Dropped (OtherReason ''unsupported-bpdu'') name 0,
      if mutate then s\<lparr>vs_stp := Some (BadBPDU name l)\<rparr> else s)"

definition interceptBPDU ::
    "time \<Rightarrow> string \<Rightarrow> frame \<Rightarrow> bool \<Rightarrow> stp_layer \<Rightarrow> vswitch \<Rightarrow> (result \<times> vswitch) option" where
  "interceptBPDU now ingress f mutate l s =
     (case bpduPort ingress l s of
        (name, Some res) \<Rightarrow> Some (res, s)
      | (name, None) \<Rightarrow> do {
          b \<leftarrow> Decode f;
          case b of
            Inl _ \<Rightarrow> Some (badBPDU name mutate l s)
          | Inr b \<Rightarrow>
              let res = verdict Consumed NotDropped name 0 in
              if mutate then
                (let (fx, l) = Receive now name b l in do {
                   s \<leftarrow> applySTPEffects now fx (s\<lparr>vs_stp := Some l\<rparr>);
                   Some (res, s)
                 })
              else Some (res, s)
        })"

definition sstpArrival :: "vswitch \<Rightarrow> string \<Rightarrow> frame \<Rightarrow> vlan_id \<times> bool" where
  "sstpArrival s name f =
     (case f_Tags f of
        outer # _ \<Rightarrow> if c_tag outer \<and> tag_VID outer \<noteq> 0 then (tag_VID outer, True) else (untaggedVID s name, False)
      | [] \<Rightarrow> (untaggedVID s name, False))"

definition sstp_admitted :: "vswitch \<Rightarrow> string \<Rightarrow> vlan_id \<Rightarrow> bool \<Rightarrow> bool option" where
  "sstp_admitted s name vid tagged = do {
     b \<leftarrow> sc_Bridge (vs_cfg s);
     Some (case bc_VLAN b of None \<Rightarrow> True | Some v \<Rightarrow> AdmitsVIDOnIngress v name vid tagged)
   }"

definition interceptSSTP ::
    "time \<Rightarrow> string \<Rightarrow> frame \<Rightarrow> bool \<Rightarrow> stp_layer \<Rightarrow> vswitch \<Rightarrow> (result \<times> vswitch) option" where
  "interceptSSTP now ingress f mutate l s =
     (case bpduPort ingress l s of
        (name, Some res) \<Rightarrow> Some (res, s)
      | (name, None) \<Rightarrow> do {
          answer \<leftarrow> DecodeSSTP f;
          case answer of
            Inl _ \<Rightarrow> Some (badBPDU name mutate l s)
          | Inr (b, tlvVID) \<Rightarrow>
              let (arrivalVID, tagged) = sstpArrival s name f in do {
              admitted \<leftarrow> sstp_admitted s name arrivalVID tagged;
              let tracked = TracksVLAN l arrivalVID;
              let why = (if \<not> admitted then OtherReason ''vlan-not-admitted''
                         else if \<not> tracked then OtherReason ''vlan-untracked'' else NotDropped);
              let res = verdict (if why = NotDropped then Consumed else Dropped) why name
                          (if why = NotDropped then arrivalVID else 0);
              if mutate then
                (let ((fx, _), l) = ReceiveSSTP now name
                       \<lparr>sa_ArrivalVID = arrivalVID, sa_TLVVID = tlvVID, sa_Admitted = admitted\<rparr> b l in do {
                   s \<leftarrow> applySTPEffects now fx (s\<lparr>vs_stp := Some l\<rparr>);
                   Some (res, s)
                 })
              else Some (res, s)
            }
        })"

section \<open>Loop probes\<close>

definition sameUntaggedDomain :: "vswitch \<Rightarrow> string \<Rightarrow> vlan_id \<Rightarrow> vlan_id \<Rightarrow> bool" where
  "sameUntaggedDomain s name sent classified =
     (case sc_Bridge (vs_cfg s) of
        None \<Rightarrow> False
      | Some b \<Rightarrow>
          case bc_VLAN b of
            None \<Rightarrow> False
          | Some v \<Rightarrow>
              case map_of (vc_Switchports v) name of
                None \<Rightarrow> False
              | Some sw \<Rightarrow> sent \<in> set (sw_Untagged sw) \<and> classified \<in> set (sw_Untagged sw))"

definition relay_ingress ::
    "time \<Rightarrow> string \<Rightarrow> frame \<Rightarrow> bool \<Rightarrow> bool \<Rightarrow> vswitch \<Rightarrow> ((result + ingress) \<times> vswitch) option" where
  "relay_ingress now ingress f learn commit s = do {
     b \<leftarrow> vs_bridge s;
     let (answer, b) = Ingress now ingress f learn commit (live_bridge s b);
     Some (answer, s\<lparr>vs_bridge := Some b\<rparr>)
   }"

text \<open>\<open>None\<close> of the inner option is a probe the switch does not take.\<close>

definition interceptLoopProtect ::
    "time \<Rightarrow> string \<Rightarrow> frame \<Rightarrow> bool \<Rightarrow> loop_layer \<Rightarrow> vswitch \<Rightarrow> ((result \<times> vswitch) option) option" where
  "interceptLoopProtect now ingress f mutate l s = do {
     answer \<leftarrow> Decode_probe f;
     case answer of
       Inl _ \<Rightarrow> Some None
     | Inr p \<Rightarrow>
         if pb_OriginMAC p \<noteq> sc_MAC (vs_cfg s) then Some None
         else do {
           (admitted, s) \<leftarrow> relay_ingress now ingress f False False s;
           case admitted of
             Inl res \<Rightarrow> Some (Some (res, s))
           | Inr i \<Rightarrow>
               let res = verdict Consumed NotDropped (in_Port i) (in_FID i) in
               if mutate then
                 (let (l, fx) = loop_Receive now
                        \<lparr>rt_VID = in_FID i,
                         rt_SameUntaggedDomain = sameUntaggedDomain s (pb_Port p) (pb_VID p) (in_FID i)\<rparr> p l
                  in do {
                    s \<leftarrow> applyLoopProtectEffects now fx (s\<lparr>vs_loop := Some l\<rparr>);
                    Some (Some (res, s))
                  })
               else Some (Some (res, s))
         }
   }"

section \<open>Interception\<close>

definition slow_protocol :: "frame \<Rightarrow> bool" where
  "slow_protocol f \<longleftrightarrow> f_EtherType f = EtherTypeSlowProtocols \<and>
     (case f_Payload f of [] \<Rightarrow> False | b # _ \<Rightarrow> b = SubtypeLACP \<or> b = SubtypeMarker)"

definition on_member :: "vswitch \<Rightarrow> string \<Rightarrow> bool" where
  "on_member s ingress \<longleftrightarrow>
     (case Table_Port (vs_ports s) ingress of Some p \<Rightarrow> pt_LagParent p \<noteq> '''' \<and> port_Forwards p | None \<Rightarrow> False)"

definition forwardIntercepts ::
    "time \<Rightarrow> string \<Rightarrow> frame \<Rightarrow> bool \<Rightarrow> vswitch \<Rightarrow> ((result \<times> vswitch) option) option" where
  "forwardIntercepts now ingress f mutate s =
     (if vs_lag s \<noteq> None \<and> slow_protocol f \<and> on_member s ingress
      then map_option Some (interceptLACP now ingress f mutate (the (vs_lag s)) s)
      else if vs_stp s \<noteq> None \<and> f_Dst f = stpGroupAddress
      then map_option Some (interceptBPDU now ingress f mutate (the (vs_stp s)) s)
      else if vs_stp s \<noteq> None \<and> f_Dst f = sstpGroupAddress
      then map_option Some (interceptSSTP now ingress f mutate (the (vs_stp s)) s)
      else if vs_loop s \<noteq> None \<and> f_Dst f = probeGroupAddress
      then interceptLoopProtect now ingress f mutate (the (vs_loop s)) s
      else Some None)"

section \<open>The relay\<close>

definition multicastControlCandidate :: "frame \<Rightarrow> bool" where
  "multicastControlCandidate f \<longleftrightarrow>
     (let p = f_Payload f in
      if f_EtherType f = EtherTypeIPv4 then
        20 \<le> length p \<and>
        (let headerLength = unat (p ! 0 AND 0x0f) * 4 in 20 \<le> headerLength \<and> headerLength \<le> length p \<and> p ! 9 = 2)
      else if f_EtherType f = EtherTypeIPv6 then 40 \<le> length p \<and> p ! 6 = 0 \<and> 40 < length p \<and> p ! 40 = 58
      else False)"

text \<open>
  A switch without groups has no selector; the relay then threads the state of the groups, an empty
  one here, without looking at it.
\<close>

definition no_groups :: lag_layer where
  "no_groups = lag_newLayer [] empty_table zero_mac"

definition relay_egress :: "ingress \<Rightarrow> frame \<Rightarrow> vswitch \<Rightarrow> (result \<times> vswitch) option" where
  "relay_egress i f s = do {
     b \<leftarrow> vs_bridge s;
     let b = live_bridge s b;
     (res, l) \<leftarrow> Egress b i f (case vs_lag s of Some l \<Rightarrow> l | None \<Rightarrow> no_groups);
     Some (res, s\<lparr>vs_lag := map_option (\<lambda>_. l) (vs_lag s)\<rparr>)
   }"

definition commitBridgeLearning :: "frame \<Rightarrow> ingress \<Rightarrow> bool \<Rightarrow> vswitch \<Rightarrow> vswitch" where
  "commitBridgeLearning f i mutate s =
     (if mutate then s\<lparr>vs_bridge := map_option (Learn i f) (vs_bridge s)\<rparr> else s)"

definition forwardBridge :: "time \<Rightarrow> string \<Rightarrow> frame \<Rightarrow> bool \<Rightarrow> vswitch \<Rightarrow> (result \<times> vswitch) option" where
  "forwardBridge now ingress f mutate s =
     (let controlCandidate = multicastControlCandidate f in do {
        (answer, s) \<leftarrow> relay_ingress now ingress f (mutate \<and> \<not> controlCandidate) mutate s;
        case answer of
          Inl res \<Rightarrow> Some (res, s)
        | Inr i \<Rightarrow> relay_egress i f (if controlCandidate then commitBridgeLearning f i mutate s else s)
      })"

section \<open>The hub\<close>

definition hubIngress :: "vswitch \<Rightarrow> string \<Rightarrow> result \<times> bool" where
  "hubIngress s ingress =
     (let down = (\<lambda>name. (verdict Dropped (PortReason ReasonPortDown) name 0, False)) in
      case Table_Port (vs_ports s) ingress of
        None \<Rightarrow> down ''''
      | Some p \<Rightarrow>
          if \<not> port_Forwards p then down (pt_Name p)
          else case Resolve (vs_ports s) ingress of
            None \<Rightarrow> down (pt_Name p)
          | Some resolved \<Rightarrow>
              if \<not> port_Forwards resolved then down (pt_Name resolved)
              else (verdict Dropped NotDropped (pt_Name resolved) 0, True))"

definition frame_pcp :: "frame \<Rightarrow> byte" where
  "frame_pcp f = (case f_Tags f of outer # _ \<Rightarrow> if c_tag outer then tag_PCP outer else 0 | [] \<Rightarrow> 0)"

definition hub_member :: "time \<Rightarrow> string \<Rightarrow> frame \<Rightarrow> bool \<Rightarrow> vswitch \<Rightarrow> (lag_selection \<times> vswitch) option" where
  "hub_member now name f mutate s =
     (case vs_lag s of
        None \<Rightarrow> Some (no_selection, s)
      | Some l \<Rightarrow> do {
          (sel, l) \<leftarrow> (if mutate then lag_Select now name f 0 l else lag_Peek now name f 0 l);
          Some (sel, s\<lparr>vs_lag := Some l\<rparr>)
        })"

definition hub_copy :: "time \<Rightarrow> frame \<Rightarrow> bool \<Rightarrow> port \<Rightarrow> vswitch \<Rightarrow> (egress \<times> vswitch) option" where
  "hub_copy now f mutate p s =
     (let out = (\<lambda>member why. \<lparr>eg_Port = pt_Name p, eg_Member = member, eg_Frame = f, eg_PCP = frame_pcp f,
                               eg_Dropped = why\<rparr>) in
      if pt_MTU p > 0 \<and> int (length (f_Payload f)) > pt_MTU p then Some (out '''' (PortReason ReasonMTUExceeded), s)
      else if pt_Kind p = LAG then do {
        (sel, s) \<leftarrow> hub_member now (pt_Name p) f mutate s;
        Some (if se_OK sel then out (se_Member sel) NotDropped else out '''' NoMember, s)
      }
      else Some (out '''' NotDropped, s))"

fun hub_copies :: "time \<Rightarrow> frame \<Rightarrow> bool \<Rightarrow> port list \<Rightarrow> vswitch \<Rightarrow> (egress list \<times> vswitch) option" where
  "hub_copies now f mutate [] s = Some ([], s)"
| "hub_copies now f mutate (p # ps) s = do {
     (e, s) \<leftarrow> hub_copy now f mutate p s;
     (es, s) \<leftarrow> hub_copies now f mutate ps s;
     Some (e # es, s)
   }"

definition hub_candidates :: "vswitch \<Rightarrow> string \<Rightarrow> port list" where
  "hub_candidates s ingress =
     filter (\<lambda>p. pt_LagParent p = '''' \<and> pt_Name p \<noteq> ingress \<and> port_Forwards p) (tb_ports (vs_ports s))"

definition forwardHub :: "time \<Rightarrow> string \<Rightarrow> frame \<Rightarrow> bool \<Rightarrow> vswitch \<Rightarrow> (result \<times> vswitch) option" where
  "forwardHub now ingress f mutate s =
     (let (res, admitted) = hubIngress s ingress in
      if \<not> admitted then Some (res, s)
      else
        let candidates = hub_candidates s (res_Ingress res) in
        if candidates = [] then Some (res\<lparr>res_Reason := NoEgress\<rparr>, s)
        else do {
          (es, s) \<leftarrow> hub_copies now f mutate candidates s;
          let res = res\<lparr>res_Egress := es\<rparr>;
          Some (if list_ex (\<lambda>e. eg_Dropped e = NotDropped) es then res\<lparr>res_Outcome := Flooded\<rparr>
                else res\<lparr>res_Outcome := Dropped,
                       res_Reason := (case es of e # _ \<Rightarrow> eg_Dropped e | [] \<Rightarrow> PortReason ReasonMTUExceeded)\<rparr>, s)
        })"

definition forward :: "time \<Rightarrow> string \<Rightarrow> frame \<Rightarrow> bool \<Rightarrow> vswitch \<Rightarrow> (result \<times> vswitch) option" where
  "forward now ingress f mutate s = do {
     taken \<leftarrow> forwardIntercepts now ingress f mutate s;
     case taken of
       Some answer \<Rightarrow> Some answer
     | None \<Rightarrow>
         if vs_bridge s \<noteq> None then forwardBridge now ingress f mutate s else forwardHub now ingress f mutate s
   }"

section \<open>The calls of the device\<close>

text \<open>Every call collects its own emissions.\<close>

definition begin_call :: "vswitch \<Rightarrow> vswitch" where
  "begin_call s = s\<lparr>vs_emissions := []\<rparr>"

definition switch_Receive :: "time \<Rightarrow> string \<Rightarrow> frame \<Rightarrow> vswitch \<Rightarrow> (result \<times> vswitch) option" where
  "switch_Receive now ingress f s = do {
     s \<leftarrow> advance_layers now (begin_call s);
     forward now ingress f True s
   }"

definition switch_Peek :: "time \<Rightarrow> string \<Rightarrow> frame \<Rightarrow> vswitch \<Rightarrow> (result \<times> vswitch) option" where
  "switch_Peek now ingress f s = forward now ingress f False (begin_call s)"

text \<open>The calls a fabric makes, with the frames that leave.\<close>

datatype switch_event =
    Arrives string frame
  | Looks string frame
  | Wakes
  | Links string link_report
  | Starts
  | Mchecks string
  | Clears string
  | Seeds "seed list"
  | Forgets vlan_id mac

definition switch_call :: "time \<Rightarrow> switch_event \<Rightarrow> vswitch \<Rightarrow> vswitch option" where
  "switch_call now e s =
     (case e of
        Arrives ingress f \<Rightarrow> map_option snd (switch_Receive now ingress f s)
      | Looks ingress f \<Rightarrow> map_option snd (switch_Peek now ingress f s)
      | Wakes \<Rightarrow> advance_layers now (begin_call s)
      | Links name link \<Rightarrow> map_option snd (switch_LinkChange now name link (begin_call s))
      | Starts \<Rightarrow> Start now (begin_call s)
      | Mchecks name \<Rightarrow> switch_Mcheck now name (begin_call s)
      | Clears name \<Rightarrow> Some (ClearLoopProtect now name (begin_call s))
      | Seeds seeds \<Rightarrow> Some (snd (switch_Learn seeds s))
      | Forgets fid m \<Rightarrow> Some (snd (switch_Forget fid m s)))"

end
