(* ===== verification/Switch_Reach.thy ===== *)
theory Switch_Reach
  imports Switch_Forward
begin

text \<open>
  What holds of a switch between two calls: every layer it runs is in a state that layer reaches on its
  own, the port tables of the switch and of the relay agree, and a frame that leaves by a group leaves
  by a port of that group. Every operation returns and keeps it.
\<close>

section \<open>Operations that return\<close>

definition runs :: "('a \<Rightarrow> bool) \<Rightarrow> 'a option \<Rightarrow> bool" where
  "runs P m \<longleftrightarrow> (\<exists>x. m = Some x \<and> P x)"

named_theorems runs \<open>the operations that return in a state they leave well\<close>

lemma runs_Some [simp]: "runs P (Some x) = P x"
  by (simp add: runs_def)

lemma runs_map [simp]: "runs P (map_option f m) = runs (\<lambda>x. P (f x)) m"
  by (auto simp: runs_def)

lemma runs_bind: "runs P m \<Longrightarrow> (\<And>x. P x \<Longrightarrow> runs Q (f x)) \<Longrightarrow> runs Q (Option.bind m f)"
  by (auto simp: runs_def)

lemma runs_mono: "runs P m \<Longrightarrow> (\<And>x. P x \<Longrightarrow> Q x) \<Longrightarrow> runs Q m"
  by (auto simp: runs_def)

lemma runs_each: "P s \<Longrightarrow> (\<And>x s. x \<in> set xs \<Longrightarrow> P s \<Longrightarrow> runs P (f x s)) \<Longrightarrow> runs P (each f xs s)"
  by (induction xs arbitrary: s) (auto intro!: runs_bind)

lemma runs_total: "m \<noteq> None \<Longrightarrow> runs (\<lambda>_. True) m"
  by (auto simp: runs_def)

section \<open>The anatomy of the port table\<close>

text \<open>What no change of link state touches.\<close>

definition anatomy :: "port_table \<Rightarrow> (string \<times> kind \<times> string) list" where
  "anatomy t = map (\<lambda>p. (pt_Name p, pt_Kind p, pt_LagParent p)) (tb_ports t)"

definition is_group :: "port_table \<Rightarrow> string \<Rightarrow> bool" where
  "is_group t n \<longleftrightarrow> (\<exists>p. Table_Port t n = Some p \<and> pt_Kind p = LAG)"

definition member_of :: "port_table \<Rightarrow> string \<Rightarrow> string \<Rightarrow> bool" where
  "member_of t n g \<longleftrightarrow> (\<exists>p. Table_Port t n = Some p \<and> pt_LagParent p = g)"

lemma WithOperStatus_anatomy:
  assumes "WithOperStatus t name state = Inr t'"
  shows "anatomy t' = anatomy t"
proof -
  have "map (\<lambda>p. (pt_Name p, pt_Kind p, pt_LagParent p)) (set_oper_status name st ps) =
      map (\<lambda>p. (pt_Name p, pt_Kind p, pt_LagParent p)) ps" for st ps
    by (induction ps) auto
  then show ?thesis
    using assms by (auto simp: WithOperStatus_def Let_def anatomy_def split: if_splits option.splits link_state.splits)
qed

lemma anatomy_lookup:
  assumes "wf_table t"
  shows "is_group t n \<longleftrightarrow> (\<exists>g. (n, LAG, g) \<in> set (anatomy t))"
    and "member_of t n g \<longleftrightarrow> (\<exists>k. (n, k, g) \<in> set (anatomy t))"
  using assms by (auto simp: wf_table_def is_group_def member_of_def anatomy_def Table_Port_def image_iff) metis+

lemma anatomy_cong:
  assumes "anatomy t = anatomy t'" "wf_table t" "wf_table t'"
  shows "is_group t n = is_group t' n" "member_of t n g = member_of t' n g"
  using assms by (simp_all add: anatomy_lookup)

section \<open>Soundness\<close>

text \<open>A frame that leaves by a group leaves by a port of the group.\<close>

definition leaves_well :: "port_table \<Rightarrow> sw_emission \<Rightarrow> bool" where
  "leaves_well t e \<longleftrightarrow>
     (if is_group t (so_Port e) then member_of t (so_Member e) (so_Port e) else so_Member e = '''')"

definition lag_cfg :: "switch_config \<Rightarrow> lag_config" where
  "lag_cfg c = (case sc_LAG c of Some g \<Rightarrow> g | None \<Rightarrow> [])"

definition sound ::
    "(byte list \<Rightarrow> byte list \<Rightarrow> byte list) \<Rightarrow> switch_config \<Rightarrow> time \<Rightarrow> vswitch \<Rightarrow> bool" where
  "sound h c t s \<longleftrightarrow>
     vs_cfg s = c \<and> wf_table (sc_Ports c) \<and> wf_table (vs_ports s) \<and> anatomy (vs_ports s) = anatomy (sc_Ports c) \<and>
     rel_option (\<lambda>bc b. br_ports b = vs_ports s \<and> bridge_reachable bc (sc_Ports c) b) (sc_Bridge c) (vs_bridge s) \<and>
     pred_option (lag_reachable (lag_cfg c) (sc_Ports c) (sc_MAC c)) (vs_lag s) \<and>
     (vs_lag s \<noteq> None \<longleftrightarrow> has_lag_port (sc_Ports c)) \<and>
     rel_option (\<lambda>sc l. stp_reachable h sc (sc_Ports c) l) (sc_STP c) (vs_stp s) \<and>
     rel_option (\<lambda>lc l. \<exists>t' \<le> t. loop_reachable lc (sc_Ports c) (sc_MAC c) t' l) (sc_LoopProtect c) (vs_loop s) \<and>
     (sc_STP c \<noteq> None \<or> sc_LoopProtect c \<noteq> None \<longrightarrow> sc_Bridge c \<noteq> None) \<and>
     (\<forall>e \<in> set (vs_emissions s). leaves_well (sc_Ports c) e)"

lemma sound_later: "sound h c t s \<Longrightarrow> t \<le> now \<Longrightarrow> sound h c now s"
  by (auto simp: sound_def elim!: option.rel_mono_strong intro: order_trans)

lemma sound_cfg: "sound h c t s \<Longrightarrow> vs_cfg s = c"
  by (simp add: sound_def)

lemma sound_lag: "sound h c t s \<Longrightarrow> vs_lag s = Some l \<Longrightarrow> lag_reachable (lag_cfg c) (sc_Ports c) (sc_MAC c) l"
  by (simp add: sound_def)

lemma sound_bridge: "sound h c t s \<Longrightarrow> sc_Bridge c \<noteq> None \<Longrightarrow> vs_bridge s \<noteq> None"
  by (auto simp: sound_def option_rel_Some1)

lemma sound_relay:
  assumes "sound h c t s" "vs_bridge s = Some b"
  obtains bc where "sc_Bridge c = Some bc" "br_ports b = vs_ports s" "bridge_reachable bc (sc_Ports c) b"
  using assms by (auto simp: sound_def option_rel_Some2)

lemma sound_needs_bridge: "sound h c t s \<Longrightarrow> vs_stp s \<noteq> None \<or> vs_loop s \<noteq> None \<Longrightarrow> sc_Bridge c \<noteq> None"
  by (auto simp: sound_def)

text \<open>Changes that touch no layer.\<close>

lemma sound_records [simp]:
  "sound h c t (s\<lparr>vs_portP2P := x\<rparr>) = sound h c t s" "sound h c t (s\<lparr>vs_portSpeed := y\<rparr>) = sound h c t s"
  "sound h c t (s\<lparr>vs_seeds := z\<rparr>) = sound h c t s"
  by (simp_all add: sound_def)

lemma sound_begin: "sound h c t s \<Longrightarrow> sound h c t (begin_call s)"
  by (simp add: sound_def begin_call_def)

lemma sound_emit:
  "sound h c t s \<Longrightarrow> leaves_well (sc_Ports c) e \<Longrightarrow> sound h c t (s\<lparr>vs_emissions := vs_emissions s @ [e]\<rparr>)"
  by (auto simp: sound_def)

text \<open>A call of one layer.\<close>

lemma sound_lag_call:
  assumes "sound h c t s" "vs_lag s = Some l" "lag_call now l es l'"
  shows "sound h c t (s\<lparr>vs_lag := Some l'\<rparr>)"
proof -
  have "lag_reachable (lag_cfg c) (sc_Ports c) (sc_MAC c) l'"
    using sound_lag [OF assms(1,2)] assms(3) reach_step unfolding lag_reachable_def lag_step_def by fast
  then show ?thesis
    using assms(1,2) by (simp add: sound_def)
qed

lemma sound_stp_call:
  assumes "sound h c t s" "vs_stp s = Some l" "perform ev l = (fx, l')"
  shows "sound h c t (s\<lparr>vs_stp := Some l'\<rparr>)"
proof -
  obtain sc where sc: "sc_STP c = Some sc" "stp_reachable h sc (sc_Ports c) l"
    using assms(1,2) by (auto simp: sound_def option_rel_Some2)
  then have "stp_reachable h sc (sc_Ports c) l'"
    using stp_step.call [OF assms(3)] reach_step by fast
  then show ?thesis
    using assms(1) sc(1) by (simp add: sound_def)
qed

lemma sound_loop_call:
  assumes "sound h c now s" "vs_loop s = Some l" "loop_call now e l = (l', es)"
  shows "sound h c now (s\<lparr>vs_loop := Some l'\<rparr>)"
proof -
  obtain lc t' where lc: "sc_LoopProtect c = Some lc" "t' \<le> now" "loop_reachable lc (sc_Ports c) (sc_MAC c) t' l"
    using assms(1,2) by (auto simp: sound_def option_rel_Some2)
  then have "loop_reachable lc (sc_Ports c) (sc_MAC c) now l'"
    using loop_reachable_call assms(3) by blast
  then show ?thesis
    using assms(1) lc(1) by (auto simp: sound_def)
qed

lemma bridge_reachable_steps:
  assumes "bridge_reachable bc tbl b" "\<And>D. \<exists>D'. relay_step\<^sup>*\<^sup>* (b, D) (b', D')"
  shows "bridge_reachable bc tbl b'"
proof -
  obtain D where D: "reach (relay_init bc tbl) relay_step (b, D)"
    using assms(1) by (auto simp: bridge_reachable_def)
  obtain D' where "relay_step\<^sup>*\<^sup>* (b, D) (b', D')"
    using assms(2) by blast
  then have "reach (relay_init bc tbl) relay_step (b', D')"
    using D by (induction rule: rtranclp_induct) (auto intro: reach_step)
  then show ?thesis
    by (auto simp: bridge_reachable_def)
qed

lemma sound_relay_step:
  assumes "sound h c t s" "vs_bridge s = Some b"
    and "\<And>D. \<exists>D'. relay_step\<^sup>*\<^sup>* (b, D) (b', D')" "br_ports b' = br_ports b"
  shows "sound h c t (s\<lparr>vs_bridge := Some b'\<rparr>)"
proof -
  obtain bc where bc: "sc_Bridge c = Some bc" "br_ports b = vs_ports s" "bridge_reachable bc (sc_Ports c) b"
    using sound_relay [OF assms(1,2)] .
  then show ?thesis
    using assms(1,4) bridge_reachable_steps [OF bc(3) assms(3)] by (simp add: sound_def)
qed

lemma sound_one_step:
  assumes "sound h c t s" "vs_bridge s = Some b" "\<And>D. relay_step (b, D) (b', D)" "br_ports b' = br_ports b"
  shows "sound h c t (s\<lparr>vs_bridge := Some b'\<rparr>)"
  using assms(3) by (intro sound_relay_step [OF assms(1,2) _ assms(4)]) blast

lemma same_bridge: "vs_bridge s = b \<Longrightarrow> s\<lparr>vs_bridge := b\<rparr> = s"
  by (cases s) simp

text \<open>A call of the relay that the code makes only when there is one.\<close>

lemma sound_map_step:
  assumes "sound h c t s" "\<And>b D. relay_step (b, D) (f b, D)" "\<And>b. br_ports (f b) = br_ports b"
  shows "sound h c t (s\<lparr>vs_bridge := map_option f (vs_bridge s)\<rparr>)"
proof (cases "vs_bridge s")
  case None
  then show ?thesis
    using assms(1) by (simp only: None option.map same_bridge [OF None])
next
  case (Some b)
  then show ?thesis
    using sound_one_step [OF assms(1) Some assms(2,3)] by simp
qed

end
