(* ===== verification/Switch_Runs.thy ===== *)
theory Switch_Runs
  imports Switch_Reach
begin

text \<open>
  Every operation of the switch returns, and leaves the switch as \<open>sound\<close> says: one lemma for each
  definition, in the order of the code.
\<close>

section \<open>Members of a group\<close>

lemma New_members:
  assumes "lag_init c tbl mac l"
  shows "set (ls_memberNames (lag_at l g)) \<subseteq> set (member_names tbl g)"
proof -
  let ?c = "lag_Normalize tbl mac c"
  let ?l = "\<lparr>ly_cfg = ?c, ly_ports = tbl, ly_systemID = mac, ly_now = 0, ly_lags = [], ly_members = []\<rparr>"
  let ?b = "fold (add_group ?c tbl) (sortedKeys ?c) ?l"
  have wf: "wf_table tbl" and l: "l = lag_newLayer ?c tbl mac"
    using assms builder_wf by (auto simp: lag_init_def lag_New_def Let_def split: option.splits)
  have "ly_lags ?b = map (\<lambda>g. (g, new_lag tbl g (group_of ?c g))) (sortedKeys ?c)"
    using built_layer [OF wf, of "[]" "sortedKeys ?c" ?l ?c] by (simp add: built_members_def)
  then have "set (ls_memberNames (lag_at ?b g)) \<subseteq> set (member_names tbl g)"
    by (auto simp: lag_at_def map_of_map_restrict new_lag_def zero_lag_def restrict_map_def split: option.splits if_splits)
  moreover have "lag_at l g = lag_at ?b g"
    using numbered_same by (simp add: l lag_newLayer_def Let_def same_members_def lag_at_def)
  ultimately show ?thesis
    by simp
qed

lemma reachable_members:
  assumes "lag_reachable c tbl mac l"
  shows "set (ls_memberNames (lag_at l g)) \<subseteq> set (member_names tbl g)"
  using assms unfolding lag_reachable_def
proof induction
  case (reach_init l)
  then show ?case
    by (rule New_members)
next
  case (reach_step l l')
  have "lag_inv {} l"
    using reach_step(1) by (rule groups.reachable_inv)
  then have "skeleton l' = skeleton l"
    using reach_step(2) lag_call_inv by (auto simp: lag_step_def)
  then show ?case
    using reach_step(3) skeleton_sel(3) by metis
qed

lemma enabled_member_of:
  assumes "sound h c t s" "vs_lag s = Some l" "n \<in> set (ls_enabledOrder (lag_at l g))" "is_group (sc_Ports c) g"
  shows "member_of (sc_Ports c) n g"
proof -
  have l: "lag_reachable (lag_cfg c) (sc_Ports c) (sc_MAC c) l"
    by (rule sound_lag [OF assms(1,2)])
  have "n \<in> set (ls_memberNames (lag_at l g))"
    using reachable_group(2) [OF l, of g] assms(3) by (auto simp: group_ok_def Let_def)
  then have "n \<in> set (member_names (sc_Ports c) g)"
    using reachable_members [OF l] by blast
  then show ?thesis
    using assms(1) by (auto simp: member_names_def Members_def member_of_def sound_def wf_table_def Table_Port_def
        split: option.splits if_splits)
qed

section \<open>Emissions\<close>

lemma chosen_call: "lag_Select now g f vid l = Some (sel, l') \<Longrightarrow> lag_call now l [] l'"
  "lag_Peek now g f vid l = Some (sel, l') \<Longrightarrow> lag_call now l [] l'"
  by (auto simp: lag_Select_def lag_Peek_def intro: lag_call.choose)

lemma select_runs:
  assumes "sound h c t s" "vs_lag s = Some l"
  shows "runs (\<lambda>(sel, l'). sound h c t (s\<lparr>vs_lag := Some l'\<rparr>) \<and>
      (se_OK sel \<longrightarrow> is_group (sc_Ports c) g \<longrightarrow> member_of (sc_Ports c) (se_Member sel) g))
    (lag_selectMember now g f vid commit l)"
proof -
  have wf: "wf_lags l"
    using reachable_group(1) [OF sound_lag [OF assms]] .
  obtain sel l' where r: "lag_selectMember now g f vid commit l = Some (sel, l')"
    using selectMember_total [OF wf, of now g f vid commit] by force
  then have "sound h c t (s\<lparr>vs_lag := Some l'\<rparr>)"
    using sound_lag_call [OF assms] lag_call.choose by blast
  then show ?thesis
    using r selectMember_chosen(2) [OF wf r] enabled_member_of [OF assms] by (simp add: runs_def)
qed

lemma group_of_port:
  assumes "sound h c t s"
  shows "is_group (sc_Ports c) n \<longleftrightarrow> (\<exists>p. Table_Port (vs_ports s) n = Some p \<and> pt_Kind p = LAG)"
  using anatomy_cong(1) [of "vs_ports s" "sc_Ports c" n] assms by (simp add: sound_def is_group_def)

lemma emit_frame_runs:
  assumes "sound h c t s"
  shows "runs (sound h c t) (emit_frame now slot name f s)"
proof (cases "is_group (sc_Ports c) name")
  case False
  then show ?thesis
    using assms sound_emit [OF assms] group_of_port [OF assms, of name]
    by (auto simp: emit_frame_def Let_def leaves_well_def split: option.splits)
next
  case True
  then obtain p where p: "Table_Port (vs_ports s) name = Some p" "pt_Kind p = LAG"
    using group_of_port [OF assms] by blast
  show ?thesis
  proof (cases "vs_lag s")
    case None
    then show ?thesis
      using assms p by (simp add: emit_frame_def)
  next
    case (Some l)
    note sel = select_runs [OF assms Some, of name now f "c_tag_vid f" True]
    have "sound h c t (s\<lparr>vs_lag := Some l', vs_emissions := vs_emissions s @
        [\<lparr>so_Port = name, so_Member = m, so_Frame = f, so_slot = slot\<rparr>]\<rparr>)"
      if "sound h c t (s\<lparr>vs_lag := Some l'\<rparr>)" "member_of (sc_Ports c) m name" for l' m
      using sound_emit [OF that(1)] that(2) True by (simp add: leaves_well_def)
    then show ?thesis
      using p Some True unfolding emit_frame_def lag_Select_def
      by (auto simp: Let_def intro!: runs_bind [OF sel])
  qed
qed

lemma flush_runs: "sound h c t s \<Longrightarrow> sound h c t (flush_bridge fx s)"
  using sound_map_step [OF _ relay_step.flush] by (simp add: flush_bridge_def)

lemma originates_runs:
  assumes "sound h c t s" "sc_Bridge c \<noteq> None"
  shows "runs (sound h c t) (Option.bind (vs_bridge s) (\<lambda>b.
     case OriginateFrame b name vid f of None \<Rightarrow> Some s | Some f \<Rightarrow> emit_frame now slot name f s))"
  using sound_bridge [OF assms] assms(1) emit_frame_runs [OF assms(1)] by (auto split: option.splits)

lemma applySTP_runs:
  assumes "sound h c t s" "sc_Bridge c \<noteq> None"
  shows "runs (sound h c t) (applySTPEffects now fx s)"
  unfolding applySTPEffects_def emit_stp_def
  using originates_runs [OF _ assms(2)] emit_frame_runs by (intro runs_each flush_runs assms(1)) auto

lemma applyLoop_runs:
  assumes "sound h c t s" "sc_Bridge c \<noteq> None"
  shows "runs (sound h c t) (applyLoopProtectEffects now fx s)"
  unfolding applyLoopProtectEffects_def emit_probe_def
  using originates_runs [OF _ assms(2)]
  by (intro runs_each flush_runs assms(1)) (auto simp: Let_def split: option.splits)

section \<open>Calls of a layer\<close>

lemma stp_call_runs:
  assumes "sound h c t s" "\<And>l. f l = perform ev l"
  shows "runs (sound h c t) (stp_call now f s)"
proof (cases "vs_stp s")
  case None
  then show ?thesis
    using assms(1) by (simp add: stp_call_def)
next
  case (Some l)
  obtain fx l' where f: "perform ev l = (fx, l')"
    by fastforce
  have "sound h c t (s\<lparr>vs_stp := Some l'\<rparr>)"
    by (rule sound_stp_call [OF assms(1) Some f])
  then show ?thesis
    using applySTP_runs sound_needs_bridge [OF assms(1)] Some by (simp add: stp_call_def assms(2) f)
qed

lemma loop_call_runs:
  assumes "sound h c now s" "\<And>l. loop_call now e l = (fst (f l), fx_Emissions (snd (f l)))"
  shows "runs (sound h c now) (loop_call_switch now f s)"
proof (cases "vs_loop s")
  case None
  then show ?thesis
    using assms(1) by (simp add: loop_call_switch_def)
next
  case (Some l)
  have "sound h c now (s\<lparr>vs_loop := Some (fst (f l))\<rparr>)"
    by (rule sound_loop_call [OF assms(1) Some assms(2)])
  then show ?thesis
    using applyLoop_runs sound_needs_bridge [OF assms(1)] Some by (simp add: loop_call_switch_def case_prod_beta)
qed

section \<open>Link state\<close>

lemma setOper_sound:
  assumes "sound h c t s" "setOperStatus name state s = Inr s'"
  shows "sound h c t s'"
proof -
  obtain tbl where tbl: "WithOperStatus (vs_ports s) name state = Inr tbl"
    using assms(2) by (auto simp: setOperStatus_def split: sum.splits)
  have wf: "wf_table (vs_ports s)"
    using assms(1) by (simp add: sound_def)
  have t: "wf_table tbl" "anatomy tbl = anatomy (vs_ports s)"
    using WithOperStatus_wf [OF wf tbl] WithOperStatus_anatomy [OF tbl] by simp_all
  show ?thesis
  proof (cases "vs_bridge s")
    case None
    then show ?thesis
      using assms t tbl by (auto simp: setOperStatus_def sound_def option_rel_Some1)
  next
    case (Some b)
    obtain bc where bc: "sc_Bridge c = Some bc" "br_ports b = vs_ports s" "bridge_reachable bc (sc_Ports c) b"
      using sound_relay [OF assms(1) Some] .
    have b': "SetOperStatus name state b = Inr (b\<lparr>br_ports := tbl\<rparr>)"
      using bc(2) tbl by (simp add: SetOperStatus_def)
    then have "bridge_reachable bc (sc_Ports c) (b\<lparr>br_ports := tbl\<rparr>)"
      using relay_step.oper by (intro bridge_reachable_steps [OF bc(3)]) blast
    then show ?thesis
      using assms t tbl Some bc b' by (auto simp: setOperStatus_def sound_def)
  qed
qed

abbreviation link_ok :: "(byte list \<Rightarrow> byte list \<Rightarrow> byte list) \<Rightarrow> switch_config \<Rightarrow> time \<Rightarrow> 'e \<times> vswitch \<Rightarrow> bool" where
  "link_ok h c t \<equiv> \<lambda>r. sound h c t (snd r)"

lemma LinkTo_call:
  "loop_call now (LinkTo name up) l = (fst (loop_LinkChange now name up l), fx_Emissions (snd (loop_LinkChange now name up l)))"
  by (simp add: loop_call_def case_prod_beta)

lemma Woken_call: "loop_call now Woken l = (fst (loop_Advance now l), fx_Emissions (snd (loop_Advance now l)))"
  by (simp add: loop_call_def case_prod_beta)

lemma tree_link: "LinkChange now port up p2p speed l = perform (EvLink now port up p2p speed) l"
  by simp

lemma note_sound: "sound h c t s \<Longrightarrow> sound h c t (note_group g p v s)"
  "sound h c t s \<Longrightarrow> sound h c t (note_port n q v s)" "sound h c t s \<Longrightarrow> sound h c t (make_link_maps s)"
  by (simp_all add: note_group_def note_port_def make_link_maps_def)

lemma group_link_runs:
  assumes "sound h c now s"
  shows "runs (sound h c now) (group_link now g s)"
  unfolding group_link_def Let_def
  by (rule runs_bind [where P = "sound h c now"])
    (auto intro!: assms note_sound stp_call_runs tree_link loop_call_runs LinkTo_call)

lemma updateLag_runs:
  assumes "sound h c now s"
  shows "runs (link_ok h c now) (updateLagState now g s)"
  using assms setOper_sound [OF assms] group_link_runs
  by (auto simp: updateLagState_def split: sum.splits)

lemma applyLAG_runs:
  assumes "sound h c now s"
  shows "runs (sound h c now) (applyLAGEffects now fx s)"
  unfolding applyLAGEffects_def
proof (rule runs_bind [where P = "sound h c now"])
  show "runs (sound h c now) (each (\<lambda>em. emit_frame now SlotLAG (em_Port em) (em_Frame em)) (fx_Emissions fx) s)"
    by (intro runs_each emit_frame_runs assms)
  show "runs (sound h c now) (each (\<lambda>g s. map_option snd (updateLagState now g s)) (fx_Changed fx) s')"
    if "sound h c now s'" for s'
    by (intro runs_each that) (auto simp: case_prod_beta dest: updateLag_runs)
qed

lemma member_link_runs:
  assumes "sound h c now s"
  shows "runs (link_ok h c now) (member_link now p up s)"
  unfolding member_link_def
proof (rule runs_bind [where P = "sound h c now"])
  show "runs (sound h c now) (case vs_lag s of None \<Rightarrow> Some s | Some l \<Rightarrow>
      let (l, fx) = lag_LinkChange now (pt_Name p) up l in applyLAGEffects now fx (s\<lparr>vs_lag := Some l\<rparr>))"
  proof (cases "vs_lag s")
    case (Some l)
    obtain l' fx where l: "lag_LinkChange now (pt_Name p) up l = (l', fx)"
      by fastforce
    then show ?thesis
      using sound_lag_call [OF assms Some lag_call.link [OF l]] applyLAG_runs Some by simp
  qed (simp add: assms)
qed (rule updateLag_runs)

lemma port_link_runs: "sound h c now s \<Longrightarrow> runs (sound h c now) (port_link now name up p2p speed s)"
  unfolding port_link_def
  by (rule runs_bind [OF stp_call_runs]) (auto intro: tree_link loop_call_runs LinkTo_call)

lemma LinkChange_runs:
  assumes "sound h c now s"
  shows "runs (link_ok h c now) (switch_LinkChange now name link s)"
proof (cases "setOperStatus name (ln_State link) s")
  case (Inl e)
  then show ?thesis
    using assms by (simp add: switch_LinkChange_def)
next
  case (Inr s1)
  have "sound h c now (make_link_maps s1)"
    using setOper_sound [OF assms Inr] note_sound by blast
  then show ?thesis
    using member_link_runs port_link_runs updateLag_runs note_sound(2)
    by (simp add: switch_LinkChange_def Inr Let_def split: option.split)
qed

lemma Start_runs:
  assumes "sound h c now s"
  shows "runs (sound h c now) (Start now s)"
proof -
  have "runs (sound h c now) (each (start_port now) ps s')" if "sound h c now s'" for ps s'
    by (intro runs_each that) (auto simp: start_port_def case_prod_beta dest: LinkChange_runs)
  then show ?thesis
    unfolding Start_def Let_def by (intro runs_bind) (use assms in blast)+
qed

section \<open>Time and the operator\<close>

lemma lag_advance_runs:
  assumes "sound h c now s"
  shows "runs (sound h c now) (lag_advance now s)"
proof (cases "vs_lag s")
  case None
  then show ?thesis
    using assms by (simp add: lag_advance_def)
next
  case (Some l)
  obtain l' fx where l: "lag_Advance now l = Some (l', fx)"
    using Advance_inv [OF lag_reachable_inv [OF sound_lag [OF assms Some]]] by blast
  then show ?thesis
    using sound_lag_call [OF assms Some lag_call.advance [OF l]] applyLAG_runs Some
    by (simp add: lag_advance_def)
qed

lemma advance_runs:
  assumes "sound h c now s"
  shows "runs (sound h c now) (advance_layers now s)"
proof -
  have tree: "Advance now l = perform (EvAdvance now) l" for l
    by simp
  have age: "sound h c now (s\<lparr>vs_bridge := map_option (fdb_Advance now) (vs_bridge s)\<rparr>)" if "sound h c now s" for s
    using that relay_step.advance by (intro sound_map_step) auto
  show ?thesis
    unfolding advance_layers_def
    by (rule runs_bind [OF stp_call_runs [OF assms tree]], rule runs_bind [OF lag_advance_runs], assumption,
        rule runs_bind [OF loop_call_runs], assumption, rule Woken_call) (simp add: age)
qed

lemma Mcheck_runs: "sound h c now s \<Longrightarrow> runs (sound h c now) (switch_Mcheck now name s)"
  unfolding switch_Mcheck_def by (rule stp_call_runs [where ev = "EvMcheck now (logicalIngress s name)"]) simp_all

lemma Clear_sound:
  assumes "sound h c now s"
  shows "sound h c now (ClearLoopProtect now name s)"
proof (cases "vs_loop s")
  case (Some l)
  have "loop_call now (Cleared (logicalIngress s name)) l = (fst (loop_Clear now (logicalIngress s name) l), [])"
    by (simp add: loop_call_def)
  then show ?thesis
    using sound_loop_call [OF assms Some] Some by (simp add: ClearLoopProtect_def)
qed (simp add: ClearLoopProtect_def assms)

lemma Learn_sound:
  assumes "sound h c t s"
  shows "sound h c t (snd (switch_Learn seeds s))"
proof -
  have "sound h c t (s\<lparr>vs_bridge := Some b', vs_seeds := n\<rparr>)"
    if "vs_bridge s = Some b" "InstallSeeds seeds b = (None, b')" for b b' n
  proof -
    have "relay_step (b, D) (b', D)" for D
      using relay_step.seed [of b D seeds] that(2) by simp
    moreover have "br_ports b' = br_ports b"
      using that(2) by (metis InstallSeeds_fields(2) snd_conv)
    ultimately have "sound h c t (s\<lparr>vs_bridge := Some b'\<rparr>)"
      using sound_one_step [OF assms that(1)] by blast
    then show ?thesis
      using sound_records(3) [where h = h and c = c and t = t and s = "s\<lparr>vs_bridge := Some b'\<rparr>"] by simp
  qed
  then show ?thesis
    using assms by (auto simp: switch_Learn_def split: option.splits sum.splits prod.splits)
qed

lemma Forget_sound:
  assumes "sound h c t s"
  shows "sound h c t (snd (switch_Forget fid m s))"
proof (cases "vs_bridge s")
  case (Some b)
  have "sound h c t (s\<lparr>vs_bridge := Some (snd (Forget fid m b))\<rparr>)"
    using relay_step.forget by (intro sound_one_step [OF assms Some]) auto
  then show ?thesis
    using Some sound_records(3) [where h = h and c = c and t = t and s = "s\<lparr>vs_bridge := Some (snd (Forget fid m b))\<rparr>"]
    by (simp add: switch_Forget_def case_prod_beta)
qed (simp add: switch_Forget_def assms)

section \<open>Frames\<close>

text \<open>A copy that is sent to a group names a port of it.\<close>

definition copies_well :: "port_table \<Rightarrow> result \<Rightarrow> bool" where
  "copies_well t r \<longleftrightarrow> (\<forall>e \<in> set (res_Egress r).
     eg_Dropped e = NotDropped \<longrightarrow> is_group t (eg_Port e) \<longrightarrow> member_of t (eg_Member e) (eg_Port e))"

definition forward_ok ::
    "(byte list \<Rightarrow> byte list \<Rightarrow> byte list) \<Rightarrow> switch_config \<Rightarrow> time \<Rightarrow> result \<times> vswitch \<Rightarrow> bool" where
  "forward_ok h c t = (\<lambda>(r, s). sound h c t s \<and> copies_well (sc_Ports c) r)"

lemma verdict_ok [simp]: "forward_ok h c t (verdict oc why n fid, s) = sound h c t s"
  by (simp add: forward_ok_def copies_well_def verdict_def)

lemma returns_verdict:
  "runs (sound h c t) m \<Longrightarrow> runs (forward_ok h c t) (Option.bind m (\<lambda>s. Some (verdict oc why n fid, s)))"
  by (auto intro: runs_bind)

lemma lacp_runs:
  assumes "sound h c now s" "vs_lag s = Some l" "f_Payload f \<noteq> []"
  shows "runs (forward_ok h c now) (interceptLACP now ingress f mutate l s)"
proof -
  have bad: "forward_ok h c now (reject_lacp ingress mutate l s)"
    using assms(1) sound_lag_call [OF assms(1,2) lag_call.bad] by (simp add: reject_lacp_def)
  have marker: "runs (\<lambda>_. True) (ReceiveMarker ingress f l)"
    unfolding ReceiveMarker_def
    by (auto intro!: runs_bind [OF runs_total [OF MarkerResponse_total]] split: option.split sum.split)
  have pdu: "runs (\<lambda>_. True) (lacp_Decode f)"
    using lacp_Decode_total by (rule runs_total)
  have heard: "runs (sound h c now) (applyLAGEffects now (snd (lag_Receive now ingress p l))
      (s\<lparr>vs_lag := Some (fst (lag_Receive now ingress p l))\<rparr>))" for p
    using sound_lag_call [OF assms(1,2) lag_call.receive] by (intro applyLAG_runs) (metis prod.collapse)
  obtain b where "idx (f_Payload f) 0 = Some b"
    using assms(3) by (auto simp: idx_def)
  then show ?thesis
    unfolding interceptLACP_def
    using assms(1) bad heard
    by (auto simp: Let_def case_prod_beta intro!: runs_bind [OF marker] runs_bind [OF pdu] returns_verdict applyLAG_runs [OF assms(1)]
        split: sum.split)
qed

lemma tree_receive: "Receive now n b l = perform (EvReceive now n b) l"
  by simp

lemma bad_bpdu_ok:
  assumes "sound h c t s" "vs_stp s = Some l"
  shows "forward_ok h c t (badBPDU n mutate l s)"
  using assms sound_stp_call [OF assms, of "EvBad n"] by (simp add: badBPDU_def)

lemma heard_runs:
  assumes "sound h c now s" "vs_stp s = Some l" "perform ev l = (fx, l')"
  shows "runs (sound h c now) (applySTPEffects now fx (s\<lparr>vs_stp := Some l'\<rparr>))"
  using applySTP_runs [OF sound_stp_call [OF assms]] sound_needs_bridge [OF assms(1)] assms(2) by simp

lemma bpdu_runs:
  assumes "sound h c now s" "vs_stp s = Some l"
  shows "runs (forward_ok h c now) (interceptBPDU now ingress f mutate l s)"
proof -
  have d: "runs (\<lambda>_. True) (Decode f)"
    using Decode_total by (rule runs_total)
  have "runs (sound h c now) (applySTPEffects now (fst (Receive now n b l)) (s\<lparr>vs_stp := Some (snd (Receive now n b l))\<rparr>))"
    for n b
    by (rule heard_runs [OF assms, of "EvReceive now n b"]) simp
  then show ?thesis
    unfolding interceptBPDU_def bpduPort_def Let_def
    using assms(1) bad_bpdu_ok [OF assms]
    by (auto simp: case_prod_beta intro!: runs_bind [OF d] returns_verdict split: sum.split)
qed

lemma sstp_runs:
  assumes "sound h c now s" "vs_stp s = Some l"
  shows "runs (forward_ok h c now) (interceptSSTP now ingress f mutate l s)"
proof -
  have d: "runs (\<lambda>_. True) (DecodeSSTP f)"
    using DecodeSSTP_total by (rule runs_total)
  have a: "runs (\<lambda>_. True) (sstp_admitted s n vid tagged)" for n vid tagged
    using sound_needs_bridge [OF assms(1)] assms by (auto simp: sstp_admitted_def sound_cfg)
  have "runs (sound h c now) (applySTPEffects now (fst (fst (ReceiveSSTP now n x b l)))
      (s\<lparr>vs_stp := Some (snd (ReceiveSSTP now n x b l))\<rparr>))" for n x b
    by (rule heard_runs [OF assms, of "EvSSTP now n x b"]) (simp add: case_prod_beta)
  then show ?thesis
    unfolding interceptSSTP_def bpduPort_def Let_def
    using assms(1) bad_bpdu_ok [OF assms]
    by (auto simp: case_prod_beta intro!: runs_bind [OF d] runs_bind [OF a] returns_verdict split: sum.split)
qed

section \<open>The relay\<close>

lemma rebind_steps:
  "relay_step\<^sup>*\<^sup>* s (b, D) \<Longrightarrow> relay_step\<^sup>*\<^sup>* s (SetGate g sc b, D)"
  "relay_step\<^sup>*\<^sup>* s (b, D) \<Longrightarrow> relay_step\<^sup>*\<^sup>* s (SetSelector sel b, D)"
  by (erule rtranclp.rtrancl_into_rtrancl, rule relay_step.gate relay_step.selector)+

lemma live_steps: "relay_step\<^sup>*\<^sup>* (b, D) (live_bridge s b, D)"
  unfolding live_bridge_def Let_def by (auto split: option.split intro!: rebind_steps)

lemma live_fields [simp]: "br_ports (live_bridge s b) = br_ports b" "br_cfg (live_bridge s b) = br_cfg b"
  by (simp_all add: live_bridge_def Let_def SetGate_def SetSelector_def split: option.split)

lemma live_selector: "vs_lag s = Some l \<Longrightarrow> br_selector (live_bridge s b) = Some lag_selector"
  by (simp add: live_bridge_def Let_def SetGate_def SetSelector_def split: option.split)

text \<open>The relay admitted the descriptor.\<close>

definition descriptor_of :: "switch_config \<Rightarrow> vswitch \<Rightarrow> ingress \<Rightarrow> bool" where
  "descriptor_of c s i \<longleftrightarrow> (\<exists>bc b D. sc_Bridge c = Some bc \<and> vs_bridge s = Some b \<and>
     reach (relay_init bc (sc_Ports c)) relay_step (b, D) \<and> i \<in> D)"

lemma relay_ingress_runs:
  assumes "sound h c t s" "vs_bridge s \<noteq> None"
  shows "runs (\<lambda>(r, s'). sound h c t s' \<and> (\<forall>res. r = Inl res \<longrightarrow> copies_well (sc_Ports c) res) \<and>
      (\<forall>i. r = Inr i \<longrightarrow> descriptor_of c s' i)) (relay_ingress now ingress f learn commit s)"
proof -
  obtain b where b: "vs_bridge s = Some b"
    using assms(2) by blast
  obtain bc where bc: "sc_Bridge c = Some bc" "br_ports b = vs_ports s" "bridge_reachable bc (sc_Ports c) b"
    using sound_relay [OF assms(1) b] .
  obtain r b' where r: "Ingress now ingress f learn commit (live_bridge s b) = (r, b')"
    by fastforce
  have step: "\<exists>D'. relay_step\<^sup>*\<^sup>* (b, D) (b', D') \<and> (\<forall>i. r = Inr i \<longrightarrow> i \<in> D')" for D
    using live_steps [of b D s] r relay_step.admit [of now ingress f learn commit "live_bridge s b"]
      relay_step.refuse [of now ingress f learn commit "live_bridge s b"]
    by (cases r) (blast intro: rtranclp.rtrancl_into_rtrancl)+
  have ports: "br_ports b' = br_ports b"
    using Ingress_fields(2) [of now ingress f learn commit "live_bridge s b"] by (simp add: r)
  have s': "sound h c t (s\<lparr>vs_bridge := Some b'\<rparr>)"
    using step by (intro sound_relay_step [OF assms(1) b _ ports]) blast
  obtain D where "reach (relay_init bc (sc_Ports c)) relay_step (b, D)"
    using bc(3) by (auto simp: bridge_reachable_def)
  moreover obtain D' where D': "relay_step\<^sup>*\<^sup>* (b, D) (b', D')" "\<forall>i. r = Inr i \<longrightarrow> i \<in> D'"
    using step by blast
  ultimately have "reach (relay_init bc (sc_Ports c)) relay_step (b', D')"
    by (induction rule: rtranclp_induct [OF D'(1)]) (auto intro: reach_step)
  then have "descriptor_of c (s\<lparr>vs_bridge := Some b'\<rparr>) i" if "r = Inr i" for i
    using that D'(2) bc(1) by (auto simp: descriptor_of_def)
  moreover have "copies_well (sc_Ports c) res" if "r = Inl res" for res
    using r that by (auto simp: Ingress_def Let_def copies_well_def dropped_result_def split: if_splits sum.splits prod.splits)
  ultimately show ?thesis
    using b r s' by (simp add: relay_ingress_def)
qed

lemma learning_sound:
  assumes "sound h c t s" "descriptor_of c s i"
  shows "sound h c t (commitBridgeLearning f i mutate s)"
proof (cases mutate)
  case True
  obtain bc b D where b: "sc_Bridge c = Some bc" "vs_bridge s = Some b" "i \<in> D"
    and D: "reach (relay_init bc (sc_Ports c)) relay_step (b, D)"
    using assms(2) by (auto simp: descriptor_of_def)
  have "reach (relay_init bc (sc_Ports c)) relay_step (Learn i f b, D)"
    using D relay_step.learn [OF b(3)] by (rule reach_step)
  then have "bridge_reachable bc (sc_Ports c) (Learn i f b)"
    by (auto simp: bridge_reachable_def)
  moreover have "br_ports (Learn i f b) = br_ports b"
    by (simp add: Learn_def)
  ultimately show ?thesis
    using assms(1) b True by (simp add: commitBridgeLearning_def sound_def)
qed (simp add: commitBridgeLearning_def assms(1))

lemma relay_egress_runs:
  assumes "sound h c t s" "vs_bridge s \<noteq> None"
  shows "runs (forward_ok h c t) (relay_egress i f s)"
proof -
  obtain b where b: "vs_bridge s = Some b"
    using assms(2) by blast
  obtain bc where bc: "br_ports b = vs_ports s" "bridge_reachable bc (sc_Ports c) b"
    using sound_relay [OF assms(1) b] by blast
  let ?b = "live_bridge s b"
  have live: "bridge_reachable bc (sc_Ports c) ?b"
    using live_steps [of b _ s] by (intro bridge_reachable_steps [OF bc(2)]) blast
  let ?l = "case vs_lag s of Some l \<Rightarrow> l | None \<Rightarrow> no_groups"
  obtain r l' where e: "Egress ?b i f ?l = Some (r, l')"
    using Egress_total by fastforce
  have lookup: "is_group (sc_Ports c) n \<longleftrightarrow> (\<exists>p. Table_Port (br_ports ?b) n = Some p \<and> pt_Kind p = LAG)" for n
    using group_of_port [OF assms(1)] bc(1) by simp
  show ?thesis
  proof (cases "vs_lag s")
    case None
    then have "\<not> is_group (sc_Ports c) n" for n
      using assms(1) by (auto simp: sound_def has_lag_port_def is_group_def list_ex_iff wf_table_def Table_Port_def)
    then show ?thesis
      using e b None assms(1) by (simp add: relay_egress_def forward_ok_def copies_well_def) (cases s, simp)
  next
    case (Some l)
    have inv: "lag_inv {} l"
      by (rule lag_reachable_inv [OF sound_lag [OF assms(1) Some]])
    have e': "Egress ?b i f l = Some (r, l')"
      using e Some by simp
    have "only_chose l l'"
      using bridge_reachable_ok(1) [OF live] by (rule Egress_state [OF _ live_selector [OF Some] inv e'])
    then have "sound h c t (s\<lparr>vs_lag := Some l'\<rparr>)"
      using assms(1) Some by (simp add: sound_def only_chose_def)
    moreover have "copies_well (sc_Ports c) r"
      using Egress_carried [OF live live_selector [OF Some] inv e'] enabled_member_of [OF assms(1) Some]
      by (fastforce simp: copies_well_def sent_well_def carried_def lookup dest: wf_lookup(2) [OF bridge_reachable_ok(1) [OF live]])
    ultimately show ?thesis
      using e' b Some by (simp add: relay_egress_def forward_ok_def)
  qed
qed

lemma forwardBridge_runs:
  assumes "sound h c t s" "vs_bridge s \<noteq> None"
  shows "runs (forward_ok h c t) (forwardBridge now ingress f mutate s)"
proof -
  let ?C = "multicastControlCandidate f"
  have "runs (forward_ok h c t) (relay_egress i f (if ?C then commitBridgeLearning f i mutate s' else s'))"
    if "sound h c t s'" "descriptor_of c s' i" for s' i
  proof -
    have "vs_bridge (commitBridgeLearning f i mutate s') \<noteq> None" "vs_bridge s' \<noteq> None"
      using that(2) by (auto simp: descriptor_of_def commitBridgeLearning_def)
    then show ?thesis
      using relay_egress_runs that learning_sound by simp
  qed
  then show ?thesis
    unfolding forwardBridge_def Let_def
    by (intro runs_bind [OF relay_ingress_runs [OF assms]]) (auto simp: forward_ok_def [symmetric] split: sum.split,
        simp add: forward_ok_def)
qed

lemma Decode_probe_total: "Decode_probe f \<noteq> None"
  unfolding Decode_probe_def Let_def
  by (intro answers) (auto simp: idx_def sub_def slice_def probeHeaderLength_def split: if_splits)

lemma loop_frame_runs:
  assumes "sound h c now s" "vs_loop s = Some l"
  shows "runs (pred_option (forward_ok h c now)) (interceptLoopProtect now ingress f mutate l s)"
proof -
  have br: "vs_bridge s \<noteq> None" "sc_Bridge c \<noteq> None"
    using sound_bridge [OF assms(1)] sound_needs_bridge [OF assms(1)] assms(2) by simp_all
  have d: "runs (\<lambda>_. True) (Decode_probe f)"
    using Decode_probe_total by (rule runs_total)
  have relay: "runs (\<lambda>(r, s'). sound h c now s' \<and> vs_loop s' = Some l \<and>
      (\<forall>res. r = Inl res \<longrightarrow> forward_ok h c now (res, s'))) (relay_ingress now ingress f False False s)"
    using relay_ingress_runs [OF assms(1) br(1), of now ingress f False False] assms(2) br(1)
    by (auto simp: runs_def forward_ok_def relay_ingress_def case_prod_beta)
  have heard: "runs (sound h c now) (applyLoopProtectEffects now (snd (loop_Receive now ret p l))
      (s'\<lparr>vs_loop := Some (fst (loop_Receive now ret p l))\<rparr>))"
    if "sound h c now s'" "vs_loop s' = Some l" for s' ret p
    using applyLoop_runs [OF sound_loop_call [OF that, of "Returned ret p"] br(2)]
    by (simp add: loop_call_def case_prod_beta)
  have "runs (pred_option (forward_ok h c now))
      (Option.bind (applyLoopProtectEffects now (snd (loop_Receive now ret p l))
        (s'\<lparr>vs_loop := Some (fst (loop_Receive now ret p l))\<rparr>)) (\<lambda>s. Some (Some (verdict oc why n fid, s))))"
    if "sound h c now s'" "vs_loop s' = Some l" for s' ret p oc why n fid
    by (rule runs_bind [OF heard [OF that]]) simp
  then show ?thesis
    unfolding interceptLoopProtect_def Let_def
    by (auto intro!: runs_bind [OF d] runs_bind [OF relay] simp: case_prod_beta split: sum.split)
qed

end
