(* ===== verification/Switch_Run.thy ===== *)
theory Switch_Run
  imports Switch_Runs
begin

text \<open>
  The switch as a transition system: a new switch is sound, every call of the device returns and keeps
  it so.
\<close>

section \<open>The hub\<close>

lemma hub_member_runs:
  assumes "sound h c t s"
  shows "runs (\<lambda>(sel, s'). sound h c t s' \<and>
      (se_OK sel \<longrightarrow> is_group (sc_Ports c) g \<longrightarrow> member_of (sc_Ports c) (se_Member sel) g)) (hub_member now g f mutate s)"
proof (cases "vs_lag s")
  case None
  then show ?thesis
    using assms by (simp add: hub_member_def no_selection_def)
next
  case (Some l)
  have "hub_member now g f mutate s =
      Option.bind (lag_selectMember now g f 0 mutate l) (\<lambda>(sel, l). Some (sel, s\<lparr>vs_lag := Some l\<rparr>))"
    using Some by (simp add: hub_member_def lag_Select_def lag_Peek_def)
  then show ?thesis
    by (auto intro!: runs_bind [OF select_runs [OF assms Some, of g now f 0 mutate]])
qed

lemma hub_copy_runs:
  assumes "sound h c t s" "is_group (sc_Ports c) (pt_Name p) \<longleftrightarrow> pt_Kind p = LAG"
  shows "runs (\<lambda>(e, s'). sound h c t s' \<and> (eg_Dropped e = NotDropped \<longrightarrow> is_group (sc_Ports c) (eg_Port e) \<longrightarrow>
      member_of (sc_Ports c) (eg_Member e) (eg_Port e))) (hub_copy now f mutate p s)"
  using assms by (auto simp: hub_copy_def Let_def intro!: runs_bind [OF hub_member_runs [OF assms(1)]])

lemma hub_copies_runs:
  assumes "sound h c t s" "\<And>p. p \<in> set ps \<Longrightarrow> is_group (sc_Ports c) (pt_Name p) \<longleftrightarrow> pt_Kind p = LAG"
  shows "runs (\<lambda>(es, s'). sound h c t s' \<and> (\<forall>e \<in> set es. eg_Dropped e = NotDropped \<longrightarrow>
      is_group (sc_Ports c) (eg_Port e) \<longrightarrow> member_of (sc_Ports c) (eg_Member e) (eg_Port e)))
    (hub_copies now f mutate ps s)"
  using assms
proof (induction ps arbitrary: s)
  case (Cons p ps)
  have p: "is_group (sc_Ports c) (pt_Name p) \<longleftrightarrow> pt_Kind p = LAG"
    by (rule Cons.prems(2)) simp
  show ?case
    using Cons.IH Cons.prems(2) by (auto intro!: runs_bind [OF hub_copy_runs [OF Cons.prems(1) p]] runs_bind [OF Cons.IH])
qed simp

lemma forwardHub_runs:
  assumes "sound h c t s"
  shows "runs (forward_ok h c t) (forwardHub now ingress f mutate s)"
proof -
  have wf: "wf_table (vs_ports s)"
    using assms by (simp add: sound_def)
  have "is_group (sc_Ports c) (pt_Name p) \<longleftrightarrow> pt_Kind p = LAG" if "p \<in> set (hub_candidates s n)" for p n
  proof -
    have "Table_Port (vs_ports s) (pt_Name p) = Some p"
      using that wf by (simp add: hub_candidates_def wf_table_def Table_Port_def)
    then show ?thesis
      using group_of_port [OF assms] by simp
  qed
  note copies = hub_copies_runs [OF assms this]
  have no_copies: "res_Egress (fst (hubIngress s ingress)) = []"
    by (simp add: hubIngress_def Let_def verdict_def split: option.split)
  show ?thesis
    unfolding forwardHub_def Let_def using assms no_copies
    by (auto simp: case_prod_beta forward_ok_def copies_well_def intro!: runs_bind [OF copies])
qed

section \<open>Every call\<close>

lemma forward_runs:
  assumes "sound h c now s"
  shows "runs (forward_ok h c now) (forward now ingress f mutate s)"
proof -
  have payload: "slow_protocol f \<Longrightarrow> f_Payload f \<noteq> []"
    by (auto simp: slow_protocol_def)
  have "runs (pred_option (forward_ok h c now)) (forwardIntercepts now ingress f mutate s)"
    unfolding forwardIntercepts_def
    using lacp_runs [OF assms _ payload] bpdu_runs [OF assms] sstp_runs [OF assms] loop_frame_runs [OF assms] by simp
  then show ?thesis
    unfolding forward_def
    by (rule runs_bind) (use forwardBridge_runs [OF assms] forwardHub_runs [OF assms] in \<open>auto split: option.split\<close>)
qed

lemma forward_sound: "runs (forward_ok h c now) m \<Longrightarrow> runs (\<lambda>r. sound h c now (snd r)) m"
  by (auto simp: forward_ok_def intro: runs_mono)

lemma receive_runs: "sound h c now s \<Longrightarrow> runs (forward_ok h c now) (switch_Receive now ingress f s)"
  unfolding switch_Receive_def by (rule runs_bind [OF advance_runs [OF sound_begin]]) (auto intro: forward_runs)

lemma peek_runs: "sound h c now s \<Longrightarrow> runs (forward_ok h c now) (switch_Peek now ingress f s)"
  unfolding switch_Peek_def by (intro forward_runs sound_begin)

lemma call_runs:
  assumes "sound h c now s"
  shows "runs (sound h c now) (switch_call now e s)"
  using assms sound_begin [OF assms] forward_sound [OF receive_runs [OF assms]] forward_sound [OF peek_runs [OF assms]]
    advance_runs LinkChange_runs Start_runs Mcheck_runs Clear_sound Learn_sound Forget_sound
  by (cases e) (simp_all add: switch_call_def)

section \<open>A new switch\<close>

lemma Normalize_built:
  assumes "builder_Build bd = Inr t"
  shows "Table_Normalize t = t"
proof (cases "bd_ports bd = []")
  case True
  then show ?thesis
    using assms by (auto simp: builder_Build_def Let_def Table_Normalize_def split: option.splits)
next
  case False
  have wf: "wf_table t" "sorted (map pt_Name (tb_ports t))"
    using builder_wf [OF assms] by simp_all
  obtain ps where ps: "ps \<noteq> []" "t = \<lparr>tb_ports = sort_key pt_Name (map port_Normalize ps), tb_byName = index_ports (map port_Normalize ps)\<rparr>"
    using assms False by (auto simp: builder_Build_def Let_def Table_Normalize_def split: option.splits)
  have "port_Normalize (port_Normalize p) = port_Normalize p" for p
    by (simp add: port_Normalize_def Let_def)
  then have n: "map port_Normalize (tb_ports t) = tb_ports t"
    by (intro map_idI) (auto simp: ps)
  have d: "distinct (map pt_Name (tb_ports t))"
    using wf(1) by (simp add: wf_table_def)
  have "index_ports (tb_ports t) k = tb_byName t k" for k
    using index_ports_iff [OF d, of k] wf(1) unfolding wf_table_def by (metis not_None_eq)
  then have "index_ports (tb_ports t) = tb_byName t"
    by (rule ext)
  moreover have "sort_key pt_Name (tb_ports t) = tb_ports t"
    using wf(2) by (rule sort_key_id_if_sorted)
  moreover have "tb_ports t \<noteq> []"
    using ps by (metis length_0_conv length_map length_sort port_table.select_convs(1))
  ultimately show ?thesis
    by (simp add: Table_Normalize_def n Let_def)
qed

lemma initial_links_reachable:
  assumes "lag_reachable lc tbl mac l"
  shows "lag_reachable lc tbl mac (initial_links cfg t l)"
proof -
  have link: "lag_reachable lc tbl mac (fst (lag_LinkChange 0 n True l))" if "lag_reachable lc tbl mac l" for n l
  proof -
    have "lag_step l (fst (lag_LinkChange 0 n True l))"
      using lag_call.link [of 0 n True l] by (auto simp: lag_step_def) (metis prod.collapse)
    then show ?thesis
      using that reach_step unfolding lag_reachable_def by fast
  qed
  show ?thesis
    unfolding initial_links_def
    by (rule fold_inv [where P = "lag_reachable lc tbl mac", OF assms]) (simp add: Let_def link)
qed

lemma new_lag_sound:
  assumes "new_lag_layer c = Inr lag" "builder_Build bd = Inr (sc_Ports c)"
  shows "pred_option (lag_reachable (lag_cfg c) (sc_Ports c) (sc_MAC c)) lag"
    and "lag \<noteq> None \<longleftrightarrow> has_lag_port (sc_Ports c)"
proof -
  have "lag_reachable (lag_cfg c) (sc_Ports c) (sc_MAC c) l"
    if "lag_New (lag_cfg c) (sc_Ports c) (sc_MAC c) = Inr l" for l
    using that assms(2) by (auto simp: lag_reachable_def lag_init_def intro!: reach_init)
  then show "pred_option (lag_reachable (lag_cfg c) (sc_Ports c) (sc_MAC c)) lag"
    and "lag \<noteq> None \<longleftrightarrow> has_lag_port (sc_Ports c)"
    using assms(1) initial_links_reachable
    by (auto simp: new_lag_layer_def Let_def lag_cfg_def split: if_splits sum.splits option.splits)
qed

lemma build_layer_rel:
  assumes "build_layer err new c = Inr l" "\<And>cfg l. new cfg = Inr l \<Longrightarrow> P cfg l"
  shows "rel_option P c l"
  using assms by (auto simp: build_layer_def split: option.splits sum.splits)

lemma newSwitch_sound:
  assumes "newSwitch h speeds c seeds = Inr s" "builder_Build bd = Inr (sc_Ports c)"
    and "switch_Validate c = None" "0 \<le> t"
  shows "sound h c t s"
proof -
  have wf: "wf_table (sc_Ports c)"
    using builder_wf [OF assms(2)] by simp
  then have noname: "Table_Port (sc_Ports c) '''' = None"
    using wf_lookup(3) by (metis option.exhaust)
  obtain bridge :: "lag_layer bridge option" and lag stp loop where
    br: "build_layer BridgeError (\<lambda>b. NewBridge b (sc_Ports c)) (sc_Bridge c) = Inr bridge" and
    lag: "new_lag_layer c = Inr lag" and
    stp: "build_layer STPError (\<lambda>s. New h s (sc_Ports c)) (sc_STP c) = Inr stp" and
    loop: "build_layer LoopError (\<lambda>lp. loop_New lp (sc_Ports c) (sc_MAC c)) (sc_LoopProtect c) = Inr loop"
    using assms(1) by (auto simp: newSwitch_def split: sum.splits)
  let ?s = "\<lparr>vs_cfg = c, vs_ports = sc_Ports c, vs_bridge = bridge, vs_speeds = speeds, vs_stp = stp,
     vs_loop = loop, vs_lag = lag, vs_portP2P = None, vs_portSpeed = None, vs_seeds = seeds, vs_emissions = []\<rparr>"
  have "rel_option (\<lambda>bc b. br_ports b = sc_Ports c \<and> bridge_reachable bc (sc_Ports c) b) (sc_Bridge c) bridge"
  proof (rule build_layer_rel [OF br])
    fix bc and b :: "lag_layer bridge"
    assume b: "NewBridge bc (sc_Ports c) = Inr b"
    then have "relay_init bc (sc_Ports c) (b, {})"
      using assms(2) by (auto simp: relay_init_def)
    then have "bridge_reachable bc (sc_Ports c) b"
      unfolding bridge_reachable_def by (blast intro: reach_init)
    then show "br_ports b = sc_Ports c \<and> bridge_reachable bc (sc_Ports c) b"
      using b by (auto simp: NewBridge_def new_bridge_def split: option.splits)
  qed
  moreover have "rel_option (\<lambda>sc l. stp_reachable h sc (sc_Ports c) l) (sc_STP c) stp"
    by (rule build_layer_rel [OF stp]) (auto intro!: reach_init simp: new_state_def noname)
  moreover have "rel_option (\<lambda>lc l. \<exists>t' \<le> t. loop_reachable lc (sc_Ports c) (sc_MAC c) t' l) (sc_LoopProtect c) loop"
    by (rule build_layer_rel [OF loop])
      (use assms(2,4) in \<open>auto simp: loop_reachable_def loop_init_def intro!: exI [of _ t] reach_init\<close>)
  moreover have "sc_STP c \<noteq> None \<or> sc_LoopProtect c \<noteq> None \<longrightarrow> sc_Bridge c \<noteq> None"
    using assms(3) by (auto simp: switch_Validate_def validate_stp_def validate_loop_def split: option.splits)
  ultimately have new: "sound h c t ?s"
    using wf new_lag_sound [OF lag assms(2)] by (simp add: sound_def)
  show ?thesis
  proof (cases "bridge = None \<or> seeds = []")
    case True
    then have "s = ?s"
      using assms(1) by (auto simp: newSwitch_def br lag stp loop Let_def split: option.splits)
    then show ?thesis
      using new by simp
  next
    case False
    then obtain b b' where b: "bridge = Some b" "InstallSeeds seeds b = (None, b')" "s = ?s\<lparr>vs_bridge := Some b'\<rparr>"
      using assms(1) by (auto simp: newSwitch_def br lag stp loop Let_def split: prod.splits option.splits)
    have "relay_step (b, D) (b', D)" for D
      using relay_step.seed [of b D seeds] b(2) by simp
    moreover have "br_ports b' = br_ports b"
      using b(2) by (metis InstallSeeds_fields(2) snd_conv)
    ultimately show ?thesis
      using sound_one_step [OF new, of b b'] b(1,3) by simp
  qed
qed

section \<open>Reachable switches\<close>

text \<open>The switch with the time of the last call.\<close>

definition switch_init ::
    "(byte list \<Rightarrow> byte list \<Rightarrow> byte list) \<Rightarrow> (string \<Rightarrow> u64) \<Rightarrow> switch_config \<Rightarrow> seed list \<Rightarrow> time \<times> vswitch \<Rightarrow> bool" where
  "switch_init h speeds c seeds = (\<lambda>(t, s). 0 \<le> t \<and> (\<exists>bd. builder_Build bd = Inr (sc_Ports c)) \<and>
     NewWithSpec h speeds c seeds = Some (Inr s))"

inductive switch_step :: "time \<times> vswitch \<Rightarrow> time \<times> vswitch \<Rightarrow> bool" where
  "t \<le> now \<Longrightarrow> switch_call now e s = Some s' \<Longrightarrow> switch_step (t, s) (now, s')"

inductive_cases switch_stepE: "switch_step s s'"

definition switch_reachable ::
    "(byte list \<Rightarrow> byte list \<Rightarrow> byte list) \<Rightarrow> (string \<Rightarrow> u64) \<Rightarrow> switch_config \<Rightarrow> seed list \<Rightarrow> time \<Rightarrow> vswitch \<Rightarrow> bool" where
  "switch_reachable h speeds c seeds t s \<longleftrightarrow> reach (switch_init h speeds c seeds) switch_step (t, s)"

lemma init_sound:
  assumes "switch_init h speeds c seeds (t, s)" "switch_Normalize c = Some norm"
  shows "sound h norm t s"
proof -
  obtain bd where bd: "builder_Build bd = Inr (sc_Ports c)" "0 \<le> t"
    and s: "NewWithSpec h speeds c seeds = Some (Inr s)"
    using assms(1) by (auto simp: switch_init_def)
  have norm: "builder_Build bd = Inr (sc_Ports norm)"
    using assms(2) bd(1) Normalize_built [OF bd(1)] by (auto simp: switch_Normalize_def Let_def split: bind_splits)
  obtain seeds' where "switch_Validate norm = None" "newSwitch h speeds norm seeds' = Inr s"
    using s assms(2) by (auto simp: NewWithSpec_def split: option.splits if_splits sum.splits)
  then show ?thesis
    using newSwitch_sound norm bd(2) by blast
qed

interpretation switching: invariant "switch_init h speeds c seeds" switch_step
  "\<lambda>(t, s). sound h (the (switch_Normalize c)) t s" for h speeds c seeds
proof
  show "case s of (t, s) \<Rightarrow> sound h (the (switch_Normalize c)) t s" if "switch_init h speeds c seeds s" for s
    using that switch_Normalize_total [of c] init_sound by (cases s) fastforce
  fix s s'
  assume s: "case s of (t, s) \<Rightarrow> sound h (the (switch_Normalize c)) t s" and "switch_step s s'"
  from this(2) show "case s' of (t, s) \<Rightarrow> sound h (the (switch_Normalize c)) t s"
  proof cases
    case (1 t now e s1 s2)
    then show ?thesis
      using call_runs [OF sound_later [of h "the (switch_Normalize c)" t s1 now], of e] s by (simp add: runs_def)
  qed
qed

lemma switch_reachable_sound:
  "switch_reachable h speeds c seeds t s \<Longrightarrow> sound h (the (switch_Normalize c)) t s"
  unfolding switch_reachable_def by (drule switching.reachable_inv) simp

end
