(* ===== verification/Switch_Quiet.thy ===== *)
theory Switch_Quiet
  imports Switch_Run
begin

text \<open>
  What a frame changes. A look at the decision changes nothing but the bindings of the relay, which every
  call renews; a decision of the relay keeps every layer but the choices of the groups.
\<close>

section \<open>Binding twice\<close>

lemma gate_found: "find (\<lambda>e. snd e = sc) (set_gate g sc gs) = Some (g, sc)"
  by (induction gs) auto

lemma gate_other: "sc \<noteq> sc' \<Longrightarrow> find (\<lambda>e. snd e = sc) (set_gate g sc' gs) = find (\<lambda>e. snd e = sc) gs"
  by (induction gs) auto

lemma gate_same: "find (\<lambda>e. snd e = sc) gs = Some (g, sc) \<Longrightarrow> set_gate g sc gs = gs"
  by (induction gs) (auto split: if_splits)

lemma live_live: "live_bridge s (live_bridge s b) = live_bridge s b"
  by (cases "vs_lag s"; cases "vs_stp s"; cases "vs_loop s")
    (simp_all add: live_bridge_def Let_def SetGate_def SetSelector_def gate_same gate_found gate_other)

lemma live_gates:
  "vs_stp s = Some l \<Longrightarrow> (Some (stp_gate l), ''stp'') \<in> set (br_gates (live_bridge s b))"
  "vs_loop s = Some p \<Longrightarrow> (Some (loop_gate p), ''loopprotect'') \<in> set (br_gates (live_bridge s b))"
proof -
  have m: "(g, sc) \<in> set (set_gate g sc gs)" "e \<in> set gs \<Longrightarrow> snd e \<noteq> sc \<Longrightarrow> e \<in> set (set_gate g sc gs)" for e g sc gs
    by (induction gs) auto
  show "vs_stp s = Some l \<Longrightarrow> (Some (stp_gate l), ''stp'') \<in> set (br_gates (live_bridge s b))"
    "vs_loop s = Some p \<Longrightarrow> (Some (loop_gate p), ''loopprotect'') \<in> set (br_gates (live_bridge s b))"
    by (auto simp: live_bridge_def Let_def SetGate_def m split: option.split)
qed

section \<open>The relay without commitment\<close>

lemma Ingress_idle: "snd (Ingress now name f False commit b) = b"
  by (auto simp: Ingress_def Let_def split: sum.split prod.split)

lemma peek_same:
  assumes "wf_lags l" "lag_selectMember now g f vid False l = Some (sel, l')"
  shows "l' = l"
proof -
  have "l' = upd_lag g (after_choice now f vid False) l"
    by (rule selectMember_chosen(1) [OF assms])
  moreover have "after_choice now f vid False = (\<lambda>lag. lag)"
    by (rule ext) simp
  ultimately show ?thesis
    by (simp add: upd_lag_def)
qed

lemma selector_same:
  assumes "wf_lags l" "br_selector b = Some lag_selector \<or> br_selector b = None" "\<not> in_Commit i"
  shows "snd (selectMember b i p f l) = l"
  using assms peek_same [OF assms(1)]
  by (auto simp: selectMember_def lag_selector_member case_prod_beta split: option.split prod.split)

lemma decide_same:
  assumes "wf_lags l" "br_selector b = Some lag_selector \<or> br_selector b = None" "\<not> in_Commit i"
  shows "snd (decideEgress b i f p l) = l"
  using selector_same [OF assms]
  by (auto simp: decideEgress_def Let_def split: option.split prod.split) (metis snd_conv)+

lemma replication_same:
  assumes "wf_lags l" "br_selector b = Some lag_selector \<or> br_selector b = None" "\<not> in_Commit i"
  shows "snd (replication_decisions b i f seen ports l) = l"
  using decide_same [OF assms]
  by (induction ports arbitrary: seen)
    (simp_all add: replication_Cons Let_def del: replication_decisions.simps(2) split: option.split)

lemma Egress_same:
  assumes "wf_lags l" "br_selector b = Some lag_selector \<or> br_selector b = None" "\<not> in_Commit i"
    and "Egress b i f l = Some (r, l')"
  shows "l' = l"
proof -
  have "l' = l" if "replicate_frame b res i f ports why l = Some (r, l')" for res ports why
    using that replication_same [OF assms(1-3)]
    by (auto simp: replicate_frame_def Let_def case_prod_beta split: if_splits list.splits)
  then show ?thesis
    using assms(4) decide_same [OF assms(1-3)]
    by (auto simp: Egress_def Let_def case_prod_beta split: if_splits option.splits)
qed

section \<open>Fields of a relayed result\<close>

lemma merged_fields:
  "res_Ingress (fold (\<lambda>d res. mergeEgressDecision res d) ds res) = res_Ingress res"
  "res_FID (fold (\<lambda>d res. mergeEgressDecision res d) ds res) = res_FID res"
  by (induction ds arbitrary: res) (simp_all add: mergeEgressDecision_def)

lemma Egress_names:
  assumes "Egress b i f s = Some (r, s')"
  shows "res_Ingress r = in_Port i" "res_FID r = in_FID i"
proof -
  have "res_Ingress r = in_Port i \<and> res_FID r = in_FID i"
    if "replicate_frame b (start_result i) i f ports why s = Some (r, s')" for ports why
    using that by (auto simp: replicate_frame_def Let_def case_prod_beta start_result_def merged_fields
        split: if_splits list.splits)
  then show "res_Ingress r = in_Port i" "res_FID r = in_FID i"
    using assms by (auto simp: Egress_def Let_def case_prod_beta start_result_def mergeEgressDecision_def
        split: if_splits option.splits)
qed

section \<open>A look at the decision\<close>

text \<open>The switch is as before, once the relay is bound to its layers again.\<close>

definition unchanged :: "vswitch \<Rightarrow> vswitch \<Rightarrow> bool" where
  "unchanged s s' \<longleftrightarrow> s' = s\<lparr>vs_bridge := vs_bridge s'\<rparr> \<and>
     map_option (live_bridge s) (vs_bridge s') = map_option (live_bridge s) (vs_bridge s)"

lemma unchanged_refl: "unchanged s s"
  by (simp add: unchanged_def)

lemma ingress_unchanged:
  assumes "relay_ingress now ingress f False commit s = Some (r, s')"
  shows "unchanged s s'" "r = Inr i \<Longrightarrow> in_Commit i = commit"
proof -
  obtain b where b: "vs_bridge s = Some b" "s' = s\<lparr>vs_bridge := Some (live_bridge s b)\<rparr>"
    "r = fst (Ingress now ingress f False commit (live_bridge s b))"
    using assms by (auto simp: relay_ingress_def case_prod_beta Ingress_idle split: bind_splits)
  then show "unchanged s s'"
    by (simp add: unchanged_def live_live)
  show "in_Commit i = commit" if "r = Inr i"
    using that b(3) by (auto simp: Ingress_def Let_def split: if_splits sum.splits prod.splits)
qed

lemma live_layers: "vs_stp s' = vs_stp s \<Longrightarrow> vs_loop s' = vs_loop s \<Longrightarrow> vs_lag s' = vs_lag s \<Longrightarrow> live_bridge s' = live_bridge s"
  by (rule ext) (simp add: live_bridge_def)

lemma egress_unchanged:
  assumes "sound h c t s" "relay_egress i f s = Some (r, s')" "\<not> in_Commit i"
  shows "s' = s"
proof (cases "vs_lag s")
  case None
  then show ?thesis
    using assms(2) by (cases s) (auto simp: relay_egress_def split: bind_splits)
next
  case (Some l)
  have wf: "wf_lags l"
    using reachable_group(1) [OF sound_lag [OF assms(1) Some]] .
  obtain b l' where e: "Egress (live_bridge s b) i f l = Some (r, l')" "s' = s\<lparr>vs_lag := Some l'\<rparr>"
    using assms(2) Some by (auto simp: relay_egress_def split: bind_splits)
  have "l' = l"
    using Egress_same [OF wf _ assms(3) e(1)] live_selector [OF Some] by simp
  then show ?thesis
    using e(2) Some by (cases s) simp
qed

lemma hub_unchanged:
  assumes "sound h c t s"
  shows "hub_copies now f False ps s = Some (es, s') \<Longrightarrow> s' = s"
proof (induction ps arbitrary: es)
  case (Cons p ps)
  have "s1 = s" if "hub_copy now f False p s = Some (e, s1)" for e s1
  proof (cases "vs_lag s")
    case None
    then show ?thesis
      using that by (auto simp: hub_copy_def hub_member_def Let_def split: if_splits)
  next
    case (Some l)
    have "wf_lags l"
      using reachable_group(1) [OF sound_lag [OF assms Some]] .
    from peek_same [OF this] show ?thesis
      using that Some
      by (cases s) (auto simp: hub_copy_def hub_member_def Let_def lag_Peek_def split: if_splits bind_splits)
  qed
  then show ?case
    using Cons by (auto split: bind_splits)
qed simp

lemma intercept_unchanged:
  assumes "forwardIntercepts now ingress f False s = Some (Some (r, s'))"
  shows "unchanged s s'"
proof -
  have "s' = s" if "interceptLACP now ingress f False l s = Some (r, s')" for l
    using that by (auto simp: interceptLACP_def reject_lacp_def Let_def split: bind_splits if_splits sum.splits)
  moreover have "s' = s" if "interceptBPDU now ingress f False l s = Some (r, s')" for l
    using that by (auto simp: interceptBPDU_def badBPDU_def Let_def split: bind_splits prod.splits option.splits sum.splits)
  moreover have "s' = s" if "interceptSSTP now ingress f False l s = Some (r, s')" for l
    using that by (auto simp: interceptSSTP_def badBPDU_def Let_def case_prod_beta split: bind_splits prod.splits option.splits sum.splits)
  moreover have "unchanged s s'" if "interceptLoopProtect now ingress f False l s = Some (Some (r, s'))" for l
    using that ingress_unchanged(1) [of now ingress f False s]
    by (auto simp: interceptLoopProtect_def Let_def split: bind_splits sum.splits if_splits)
  ultimately show ?thesis
    using assms unchanged_refl by (auto simp: forwardIntercepts_def split: if_splits)
qed

lemma forward_unchanged:
  assumes "sound h c now s" "forward now ingress f False s = Some (r, s')"
  shows "unchanged s s'"
proof -
  have "unchanged s s'" if fwd: "forwardBridge now ingress f False s = Some (r, s')"
  proof -
    have br: "vs_bridge s \<noteq> None"
      using fwd by (auto simp: forwardBridge_def relay_ingress_def Let_def split: bind_splits)
    obtain a s1 where a: "relay_ingress now ingress f False False s = Some (a, s1)"
      and s1: "sound h c now s1"
      using relay_ingress_runs [OF assms(1) br, of now ingress f False False] by (auto simp: runs_def)
    note same = ingress_unchanged(1) [OF a]
    show ?thesis
    proof (cases a)
      case (Inl res)
      then show ?thesis
        using fwd a same by (simp add: forwardBridge_def Let_def)
    next
      case (Inr i)
      then have "relay_egress i f s1 = Some (r, s')"
        using fwd a by (simp add: forwardBridge_def Let_def commitBridgeLearning_def split: if_splits)
      then have "s' = s1"
        using egress_unchanged [OF s1] ingress_unchanged(2) [OF a Inr] by simp
      then show ?thesis
        using same by simp
    qed
  qed
  moreover have "unchanged s s'" if "forwardHub now ingress f False s = Some (r, s')"
    using that unchanged_refl
    by (auto dest!: hub_unchanged [OF assms(1)] simp: forwardHub_def Let_def case_prod_beta split: if_splits bind_splits)
  ultimately show ?thesis
    using assms(2) intercept_unchanged by (auto simp: forward_def split: bind_splits option.splits if_splits)
qed

section \<open>What the relay sends\<close>

lemma refusal_empty: "Ingress now name f learn commit b = (Inl res, b') \<Longrightarrow> res_Egress res = []"
  by (auto simp: Ingress_def Let_def dropped_result_def split: if_splits sum.splits prod.splits)

lemma refused_empty: "relay_ingress now ingress f learn commit s = Some (Inl res, s') \<Longrightarrow> res_Egress res = []"
  by (auto simp: relay_ingress_def case_prod_beta split: bind_splits) (metis prod.collapse refusal_empty)

lemma taken_empty:
  assumes "forwardIntercepts now ingress f mutate s = Some (Some (r, s'))"
  shows "res_Egress r = []"
proof -
  have v [simp]: "res_Egress (verdict oc why n fid) = []" for oc why n fid
    by (simp add: verdict_def)
  have "res_Egress r = []" if "interceptLACP now ingress f mutate l s = Some (r, s')" for l
    using that by (auto simp: interceptLACP_def reject_lacp_def Let_def split: bind_splits if_splits sum.splits prod.splits)
  moreover have "res_Egress r = []" if "interceptBPDU now ingress f mutate l s = Some (r, s')" for l
    using that by (auto simp: interceptBPDU_def badBPDU_def bpduPort_def Let_def case_prod_beta split: bind_splits if_splits sum.splits)
  moreover have "res_Egress r = []" if "interceptSSTP now ingress f mutate l s = Some (r, s')" for l
    using that by (auto simp: interceptSSTP_def badBPDU_def bpduPort_def Let_def case_prod_beta split: bind_splits if_splits sum.splits)
  moreover have "res_Egress r = []" if "interceptLoopProtect now ingress f mutate l s = Some (Some (r, s'))" for l
    using that refused_empty [of now ingress f False False s]
    by (auto simp: interceptLoopProtect_def Let_def case_prod_beta split: bind_splits sum.splits if_splits)
  ultimately show ?thesis
    using assms by (auto simp: forwardIntercepts_def split: if_splits)
qed

lemma relay_sent:
  assumes "sound h c t s" "relay_egress i f s = Some (r, s')" "e \<in> set (res_Egress r)" "eg_Dropped e = NotDropped"
  shows "eg_Port e \<noteq> res_Ingress r"
    and "\<exists>p. Table_Port (vs_ports s') (eg_Port e) = Some p \<and> pt_LagParent p = '''' \<and> port_Forwards p"
    and "vs_bridge s' = Some b \<Longrightarrow> carriesVID b (eg_Port e) (res_FID r)"
    and "vs_stp s' = Some l \<Longrightarrow> Forwards l (eg_Port e) (res_FID r)"
    and "vs_loop s' = Some q \<Longrightarrow> loop_Forwards q (eg_Port e) (res_FID r)"
proof -
  obtain b0 l0 l' where b: "vs_bridge s = Some b0" "Egress (live_bridge s b0) i f l0 = Some (r, l')"
    and s': "vs_ports s' = vs_ports s" "vs_bridge s' = vs_bridge s" "vs_stp s' = vs_stp s" "vs_loop s' = vs_loop s"
    using assms(2) by (auto simp: relay_egress_def Let_def split: bind_splits)
  obtain bc where bc: "br_ports b0 = vs_ports s" "bridge_reachable bc (sc_Ports c) b0"
    using sound_relay [OF assms(1) b(1)] by blast
  have "bridge_reachable bc (sc_Ports c) (live_bridge s b0)"
    using live_steps [of b0 _ s] by (intro bridge_reachable_steps [OF bc(2)]) blast
  from relay_sends [OF this b(2)] assms(3,4) have m: "may_send (live_bridge s b0) i f (eg_Port e)"
    by blast
  note n = Egress_names [OF b(2)]
  show "eg_Port e \<noteq> res_Ingress r"
    "\<exists>p. Table_Port (vs_ports s') (eg_Port e) = Some p \<and> pt_LagParent p = '''' \<and> port_Forwards p"
    using m by (auto simp: may_send_def n s' bc(1))
  show "carriesVID b (eg_Port e) (res_FID r)" if "vs_bridge s' = Some b"
    using m that by (simp add: may_send_def carriesVID_def n s' b(1))
  have g: "g_Forwards g (eg_Port e) (res_FID r)" if "(Some g, sc) \<in> set (br_gates (live_bridge s b0))" for g sc
    using m that by (auto simp: may_send_def gates_forward_def n)
  show "Forwards l (eg_Port e) (res_FID r)" if "vs_stp s' = Some l"
    using g [OF live_gates(1)] that s'(3) by (simp add: stp_gate_def)
  show "loop_Forwards q (eg_Port e) (res_FID r)" if "vs_loop s' = Some q"
    using g [OF live_gates(2)] that s'(4) by (simp add: loop_gate_def)
qed

text \<open>A copy of a switch with a relay is one the relay sends.\<close>

lemma forward_relayed:
  assumes "sound h c now s" "vs_bridge s \<noteq> None" "forward now ingress f mutate s = Some (r, s')" "res_Egress r \<noteq> []"
  obtains i s1 where "sound h c now s1" "relay_egress i f s1 = Some (r, s')"
proof -
  have "forwardBridge now ingress f mutate s = Some (r, s')"
    using assms(2-4) taken_empty [of now ingress f mutate s]
    by (auto simp: forward_def split: bind_splits option.splits if_splits)
  then obtain a s1 where a: "relay_ingress now ingress f (mutate \<and> \<not> multicastControlCandidate f) mutate s = Some (a, s1)"
    "(case a of Inl res \<Rightarrow> Some (res, s1) | Inr i \<Rightarrow> relay_egress i f
       (if multicastControlCandidate f then commitBridgeLearning f i mutate s1 else s1)) = Some (r, s')"
    by (auto simp: forwardBridge_def Let_def split: bind_splits)
  show thesis
  proof (cases a)
    case (Inl res)
    then show ?thesis
      using a refused_empty [of now ingress f _ mutate s res s1] assms(4) by auto
  next
    case (Inr i)
    have "sound h c now s1 \<and> descriptor_of c s1 i"
      using relay_ingress_runs [OF assms(1,2), of now ingress f "mutate \<and> \<not> multicastControlCandidate f" mutate] a(1) Inr
      by (simp add: runs_def)
    then have "sound h c now (if multicastControlCandidate f then commitBridgeLearning f i mutate s1 else s1)"
      using learning_sound by simp
    then show ?thesis
      using that a(2) Inr by simp
  qed
qed

end
