(* ===== verification/Switch_Probes.thy ===== *)
theory Switch_Probes
  imports Switch_Quiet
begin

text \<open>
  The probes of loop protection on their way out of the switch: where they may leave, and that what is on
  the wire names the VLAN it rides.
\<close>

section \<open>One probe\<close>

definition probe_left :: "vswitch \<Rightarrow> emission \<Rightarrow> sw_emission \<Rightarrow> bool" where
  "probe_left s em e \<longleftrightarrow> so_slot e = SlotLoopProtect \<and> so_Port e = em_Port em \<and>
     (\<exists>p. Table_Port (vs_ports s) (em_Port em) = Some p \<and> port_Forwards p) \<and>
     (\<exists>vid. Decode_probe (so_Frame e) = Decode_probe (SetProbeVID (em_Frame em) vid) \<and>
        (\<forall>l. vs_stp s = Some l \<longrightarrow> Forwards l (em_Port em) vid) \<and>
        (\<forall>b. vs_bridge s = Some b \<longrightarrow> carriesVID b (em_Port em) vid))"

text \<open>What the emissions of probes leave as it is.\<close>

definition setting :: "vswitch \<Rightarrow> port_table \<times> stp_layer option \<times> bridge_config option" where
  "setting s = (vs_ports s, vs_stp s, map_option br_cfg (vs_bridge s))"

lemma probe_left_cong: "setting s = setting s' \<Longrightarrow> probe_left s em e = probe_left s' em e"
  by (cases "vs_bridge s"; cases "vs_bridge s'") (auto simp: setting_def probe_left_def carriesVID_def)

lemma Decode_probe_tags: "Decode_probe (f\<lparr>f_Tags := ts\<rparr>) = Decode_probe f"
  by (simp add: Decode_probe_def Let_def)

lemma originated_tags:
  assumes "OriginateFrame b name vid f = Some g"
  shows "\<exists>ts. g = f\<lparr>f_Tags := ts\<rparr>" "carriesVID b name vid"
proof -
  show "carriesVID b name vid"
    using assms build_carries [of b name vid f 0 False "[]" 0] by (auto simp: OriginateFrame_def)
  have "\<exists>ts. f = f\<lparr>f_Tags := ts\<rparr>"
    by (rule exI [of _ "f_Tags f"]) simp
  then show "\<exists>ts. g = f\<lparr>f_Tags := ts\<rparr>"
    using assms by (auto simp: OriginateFrame_def buildEgressFrame_def split: option.splits if_splits)
qed

lemma emit_frame_adds:
  assumes "emit_frame now slot name f s = Some s'"
  shows "setting s' = setting s"
    and "vs_emissions s' = vs_emissions s \<or>
      (\<exists>m. vs_emissions s' = vs_emissions s @ [\<lparr>so_Port = name, so_Member = m, so_Frame = f, so_slot = slot\<rparr>])"
  using assms by (auto simp: emit_frame_def setting_def Let_def split: option.splits if_splits bind_splits)

text \<open>\<open>adds P\<close>: the switch only gained emissions, each of them a \<open>P\<close>.\<close>

definition adds :: "(sw_emission \<Rightarrow> bool) \<Rightarrow> vswitch \<Rightarrow> vswitch \<Rightarrow> bool" where
  "adds P s s' \<longleftrightarrow> setting s' = setting s \<and> (\<exists>es. vs_emissions s' = vs_emissions s @ es \<and> list_all P es)"

lemma adds_refl: "adds P s s"
  by (simp add: adds_def)

lemma adds_trans: "adds P s s' \<Longrightarrow> adds P s' s'' \<Longrightarrow> adds P s s''"
  by (auto simp: adds_def)

lemma adds_each:
  assumes "\<And>x s1 s2. x \<in> set xs \<Longrightarrow> setting s1 = setting s \<Longrightarrow> f x s1 = Some s2 \<Longrightarrow> adds P s1 s2"
    and "each f xs s0 = Some s'" "setting s0 = setting s"
  shows "adds P s0 s'"
  using assms
proof (induction xs arbitrary: s0)
  case (Cons x xs)
  obtain s1 where s1: "f x s0 = Some s1" "each f xs s1 = Some s'"
    using Cons.prems(2) by (auto split: bind_splits)
  have a: "adds P s0 s1"
    using Cons.prems(1) [OF _ Cons.prems(3) s1(1)] by simp
  then have "setting s1 = setting s"
    using Cons.prems(3) by (simp add: adds_def)
  moreover have "adds P s1 s2" if "y \<in> set xs" "setting s1 = setting s" "f y s1 = Some s2" for y s1 s2
    using Cons.prems(1) [of y s1 s2] that by simp
  ultimately show ?case
    using adds_trans [OF a Cons.IH [OF _ s1(2)]] by blast
qed (simp add: adds_refl)

lemma emit_probe_adds:
  assumes "emit_probe now em s = Some s'"
  shows "adds (probe_left s em) s s'"
proof (cases "s' = s")
  case False
  obtain p b vid g where p: "Table_Port (vs_ports s) (em_Port em) = Some p" "port_Forwards p" "vs_bridge s = Some b"
    and vid: "\<forall>l. vs_stp s = Some l \<longrightarrow> Forwards l (em_Port em) vid"
    and g: "OriginateFrame b (em_Port em) vid (SetProbeVID (em_Frame em) vid) = Some g"
    and e: "emit_frame now SlotLoopProtect (em_Port em) g s = Some s'"
    using assms False by (auto simp: emit_probe_def Let_def split: option.splits if_splits bind_splits)
  obtain ts where ts: "g = (SetProbeVID (em_Frame em) vid)\<lparr>f_Tags := ts\<rparr>"
    using originated_tags(1) [OF g] by blast
  have "probe_left s em \<lparr>so_Port = em_Port em, so_Member = m, so_Frame = g, so_slot = SlotLoopProtect\<rparr>" for m
    using p vid originated_tags(2) [OF g] by (auto simp: probe_left_def ts Decode_probe_tags)
  then show ?thesis
    using emit_frame_adds [OF e] by (auto simp: adds_def)
qed (simp add: adds_refl)

lemma probes_left:
  assumes "applyLoopProtectEffects now fx s = Some s'"
  shows "adds (\<lambda>e. \<exists>em \<in> set (fx_Emissions fx). probe_left s em e) s s'"
proof -
  have f: "setting (flush_bridge fx s) = setting s" "vs_emissions (flush_bridge fx s) = vs_emissions s"
    by (cases "vs_bridge s"; simp add: flush_bridge_def setting_def)+
  have "adds (\<lambda>e. \<exists>em \<in> set (fx_Emissions fx). probe_left s em e) (flush_bridge fx s) s'"
  proof (rule adds_each [where s = s])
    show "adds (\<lambda>e. \<exists>em \<in> set (fx_Emissions fx). probe_left s em e) s1 s2"
      if "em \<in> set (fx_Emissions fx)" "setting s1 = setting s" "emit_probe now em s1 = Some s2" for em s1 s2
      using emit_probe_adds [OF that(3)] that(1) probe_left_cong [OF that(2)]
      by (fastforce simp: adds_def list_all_iff)
  qed (use assms f in \<open>simp_all add: applyLoopProtectEffects_def\<close>)
  then show ?thesis
    using f by (simp add: adds_def)
qed

text \<open>The loop-protection step of a timer call.\<close>

lemma loop_step_left:
  assumes "sound h c now s" "loop_call_switch now (loop_Advance now) s = Some s'"
    and "e \<in> set (drop (length (vs_emissions s)) (vs_emissions s'))"
  obtains p where "Decode_probe (so_Frame e) = Some (Inr p)" "so_slot e = SlotLoopProtect"
    "pb_OriginMAC p = sc_MAC c" "pb_Port p = so_Port e"
    "\<exists>q. Table_Port (vs_ports s') (so_Port e) = Some q \<and> port_Forwards q"
    "\<forall>l. vs_stp s' = Some l \<longrightarrow> Forwards l (so_Port e) (pb_VID p)"
    "\<forall>b. vs_bridge s' = Some b \<longrightarrow> carriesVID b (so_Port e) (pb_VID p)"
proof (cases "vs_loop s")
  case None
  then show ?thesis
    using assms(2,3) by (simp add: loop_call_switch_def)
next
  case (Some l)
  obtain lc t' where l: "loop_reachable lc (sc_Ports c) (sc_MAC c) t' l"
    using assms(1) Some by (auto simp: sound_def option_rel_Some2)
  obtain l' fx where fx: "loop_Advance now l = (l', fx)"
    by fastforce
  let ?s = "s\<lparr>vs_loop := Some l'\<rparr>"
  have "applyLoopProtectEffects now fx ?s = Some s'"
    using assms(2) Some fx by (simp add: loop_call_switch_def)
  from probes_left [OF this] obtain es where es: "vs_emissions s' = vs_emissions s @ es" "setting s' = setting ?s"
    "\<forall>e \<in> set es. \<exists>em \<in> set (fx_Emissions fx). probe_left ?s em e"
    by (auto simp: adds_def list_all_iff)
  then obtain em where em: "em \<in> set (fx_Emissions fx)" "probe_left s' em e"
    using assms(3) probe_left_cong [OF es(2)] by auto
  then obtain vid where vid: "Decode_probe (so_Frame e) = Decode_probe (SetProbeVID (em_Frame em) vid)"
    "\<forall>l. vs_stp s' = Some l \<longrightarrow> Forwards l (em_Port em) vid"
    "\<forall>b. vs_bridge s' = Some b \<longrightarrow> carriesVID b (em_Port em) vid"
    by (auto simp: probe_left_def)
  obtain seq where "Decode_probe (SetProbeVID (em_Frame em) vid) =
      Some (Inr \<lparr>pb_OriginMAC = sc_MAC c, pb_VID = vid, pb_Sequence = seq, pb_Port = em_Port em\<rparr>)"
    using sent_probe_decodes [OF l fx em(1)] by blast
  then show ?thesis
    using that vid em(2) by (simp add: probe_left_def)
qed

end
