(* ===== verification/Switch_Properties.thy ===== *)
theory Switch_Properties
  imports Switch_Probes
begin

text \<open>
  What the switch as a whole promises. The examples are a switch of two ports, both edges of a spanning
  tree, whose port \<open>c\<close> probes for loops, and a hub of a port \<open>c\<close> and a group \<open>bond\<close> of the
  one port \<open>a\<close>.
\<close>

section \<open>The examples\<close>

definition sx_builder :: builder where
  "sx_builder = fold (\<lambda>n. builder_Add (br_port n)) [''c'', ''d''] NewBuilder"

definition sx_table :: port_table where
  "sx_table = (case builder_Build sx_builder of Inr t \<Rightarrow> t | Inl _ \<Rightarrow> empty_table)"

abbreviation edge_port :: stp_port where
  "edge_port \<equiv> zero_stp_port\<lparr>a_AdminEdge := True\<rparr>"

definition sx_config :: switch_config where
  "sx_config = \<lparr>sc_MAC = MAC 2 0 0 0 0 1, sc_Ports = sx_table,
     sc_Bridge = Some \<lparr>bc_AgingTime = 0, bc_MaxEntries = 0, bc_FloodVLANs = [], bc_ProtectedPorts = [],
       bc_ForwardBPDU = False, bc_VLAN = None\<rparr>,
     sc_LAG = None,
     sc_STP = Some \<lparr>c_Priority = 4096, c_PriorityPresent = True, c_Address = zero_mac, c_HelloTime = 0,
       c_MaxAge = 0, c_ForwardDelay = 0, c_TxHoldCount = 0,
       c_Ports = [(''c'', edge_port), (''d'', edge_port)], c_MST = None, c_PVST = None\<rparr>,
     sc_LoopProtect = Some \<lparr>gc_Interval = 0, gc_Ports = [(''c'', zero_loop_port\<lparr>gp_Action := Block\<rparr>)]\<rparr>\<rparr>"

definition hx_builder :: builder where
  "hx_builder = fold builder_Add
     [(br_port ''a'')\<lparr>pt_LagParent := ''bond''\<rparr>, (br_port ''bond'')\<lparr>pt_Kind := LAG\<rparr>, br_port ''c''] NewBuilder"

definition hx_table :: port_table where
  "hx_table = (case builder_Build hx_builder of Inr t \<Rightarrow> t | Inl _ \<Rightarrow> empty_table)"

definition hx_config :: switch_config where
  "hx_config = \<lparr>sc_MAC = zero_mac, sc_Ports = hx_table, sc_Bridge = None, sc_LAG = None, sc_STP = None,
     sc_LoopProtect = None\<rparr>"

abbreviation no_speeds :: "string \<Rightarrow> u64" where
  "no_speeds \<equiv> \<lambda>_. 0"

definition new_switch :: "switch_config \<Rightarrow> vswitch" where
  "new_switch c = (case NewWithSpec no_digest no_speeds c [] of Some (Inr s) \<Rightarrow> s | _ \<Rightarrow> undefined)"

abbreviation sx_reachable :: "time \<Rightarrow> vswitch \<Rightarrow> bool" where
  "sx_reachable \<equiv> switch_reachable no_digest no_speeds sx_config []"

abbreviation hx_reachable :: "time \<Rightarrow> vswitch \<Rightarrow> bool" where
  "hx_reachable \<equiv> switch_reachable no_digest no_speeds hx_config []"

lemma new_reachable:
  assumes "\<not> isl (builder_Build bd)" "case builder_Build bd of Inr t \<Rightarrow> sc_Ports c = t | Inl _ \<Rightarrow> False"
    and "case NewWithSpec no_digest no_speeds c [] of Some (Inr s) \<Rightarrow> True | _ \<Rightarrow> False" "0 \<le> t"
  shows "switch_reachable no_digest no_speeds c [] t (new_switch c)"
proof -
  have "switch_init no_digest no_speeds c [] (t, new_switch c)"
    using assms by (auto simp: switch_init_def new_switch_def split: option.splits sum.splits)
  then show ?thesis
    unfolding switch_reachable_def by (rule reach_init)
qed

definition sx_new :: vswitch where
  "sx_new = new_switch sx_config"

definition hx_new :: vswitch where
  "hx_new = new_switch hx_config"

lemma sx_new_reachable: "sx_reachable 0 sx_new"
proof -
  have b: "\<not> isl (builder_Build sx_builder)"
    by code_simp
  have "case NewWithSpec no_digest no_speeds sx_config [] of Some (Inr s) \<Rightarrow> True | _ \<Rightarrow> False"
    by code_simp
  then show ?thesis
    unfolding sx_new_def using b
    by (intro new_reachable [of sx_builder]) (auto simp: sx_table_def sx_config_def split: sum.splits)
qed

lemma hx_new_reachable: "hx_reachable 0 hx_new"
proof -
  have b: "\<not> isl (builder_Build hx_builder)"
    by code_simp
  have "case NewWithSpec no_digest no_speeds hx_config [] of Some (Inr s) \<Rightarrow> True | _ \<Rightarrow> False"
    by code_simp
  then show ?thesis
    unfolding hx_new_def using b
    by (intro new_reachable [of hx_builder]) (auto simp: hx_table_def hx_config_def split: sum.splits)
qed

text \<open>A call on a reachable switch answers, and reaches the next.\<close>

lemma switch_reachable_call:
  assumes "switch_reachable h speeds c seeds t s" "t \<le> now"
  obtains s' where "switch_call now e s = Some s'" "switch_reachable h speeds c seeds now s'"
proof -
  obtain s' where s': "switch_call now e s = Some s'"
    using call_runs [OF sound_later [OF switch_reachable_sound [OF assms(1)] assms(2)], of e]
    by (auto simp: runs_def)
  then have "switch_reachable h speeds c seeds now s'"
    using assms unfolding switch_reachable_def by (blast intro: reach_step switch_step.intros)
  with s' show thesis
    by (rule that)
qed

definition sx_on :: vswitch where
  "sx_on = the (switch_call second Starts sx_new)"

lemma sx_on_reachable: "sx_reachable second sx_on"
proof -
  obtain s' where "switch_call second Starts sx_new = Some s'" "sx_reachable second s'"
    by (rule switch_reachable_call [OF sx_new_reachable, of second Starts]) simp_all
  then show ?thesis
    by (simp add: sx_on_def)
qed

section \<open>The composition\<close>

text \<open>
  C5: the switch is made of its layers and nothing else. Whatever calls a switch has seen, the relay, the
  link aggregation, the spanning tree and the loop protection are each in a state the layer reaches on
  its own from its part of the configuration, so what is proved of a layer alone holds of it in
  the switch; exactly the configured layers exist; and the relay's port table is the switch's, whose names,
  kinds and groups are the configured ones.
\<close>

theorem switch_layers:
  assumes "switch_reachable h speeds c seeds t s" "switch_Normalize c = Some n"
  shows "vs_cfg s = n \<and> anatomy (vs_ports s) = anatomy (sc_Ports n) \<and>
    rel_option (\<lambda>bc b. br_ports b = vs_ports s \<and> bridge_reachable bc (sc_Ports n) b) (sc_Bridge n) (vs_bridge s) \<and>
    pred_option (lag_reachable (lag_cfg n) (sc_Ports n) (sc_MAC n)) (vs_lag s) \<and>
    (vs_lag s \<noteq> None \<longleftrightarrow> has_lag_port (sc_Ports n)) \<and>
    rel_option (\<lambda>sc. stp_reachable h sc (sc_Ports n)) (sc_STP n) (vs_stp s) \<and>
    rel_option (\<lambda>lc l. \<exists>t' \<le> t. loop_reachable lc (sc_Ports n) (sc_MAC n) t' l) (sc_LoopProtect n) (vs_loop s)"
  using switch_reachable_sound [OF assms(1)] assms(2) by (simp add: sound_def)

theorem switch_layers_witness:
  "(\<exists>b. vs_bridge sx_on = Some b \<and> br_ports b = vs_ports sx_on) \<and> vs_stp sx_on \<noteq> None \<and> vs_loop sx_on \<noteq> None"
proof -
  have n: "switch_Normalize sx_config = Some (the (switch_Normalize sx_config))"
    using switch_Normalize_total [of sx_config] by simp
  have "let n = the (switch_Normalize sx_config) in sc_Bridge n \<noteq> None \<and> sc_STP n \<noteq> None \<and> sc_LoopProtect n \<noteq> None"
    by (simp add: switch_Normalize_def sx_config_def assign_mac_def Let_def)
  then show ?thesis
    using switch_layers [OF sx_on_reachable n] by (auto simp: option_rel_Some1 Let_def)
qed

text \<open>
  C3: no call of the device panics or runs forever. From every state a switch reaches and at every later
  time, a frame arriving or looked at, a timer, a link report, a start, a migration check, a cleared loop, seeds
  and a forgotten entry are answered, and the switch they leave is reached again; none of the layers' panics, the
  missing relay, the empty egress list, the endless receive timer, the slice outside a frame, can happen.
\<close>

theorem calls_answer:
  assumes "switch_reachable h speeds c seeds t s" "t \<le> now"
  shows "\<exists>s'. switch_call now e s = Some s' \<and> switch_reachable h speeds c seeds now s'"
  by (rule switch_reachable_call [OF assms, of e]) blast

theorem calls_answer_witness:
  "\<exists>s'. switch_call (2 * second) (Arrives ''c'' (br_frame 1 2)) sx_on = Some s' \<and>
     sx_reachable (2 * second) s'"
  using calls_answer [OF sx_on_reachable, of "2 * second"] by simp

text \<open>
  C16: what leaves by a group leaves by a port of that group. Of every frame a call emits, a BPDU, LACPDU, marker
  response or probe, and of every copy of an arriving frame that is sent, whether the relay or the hub made
  it, the member named is a port of the table whose parent is the group, and a frame emitted by a port that is no
  group names no member.
\<close>

theorem leaves_by_members:
  assumes "switch_reachable h speeds c seeds t s" "t \<le> now"
  shows "(switch_call now e s = Some s' \<longrightarrow> (\<forall>em \<in> set (vs_emissions s'). leaves_well (vs_ports s') em)) \<and>
    (switch_Receive now ingress f s = Some (r, s') \<longrightarrow> copies_well (vs_ports s') r)"
proof -
  let ?n = "the (switch_Normalize c)"
  have s: "sound h ?n now s"
    using sound_later [OF switch_reachable_sound [OF assms(1)] assms(2)] .
  have same: "is_group (vs_ports x) = is_group (sc_Ports ?n)" "member_of (vs_ports x) = member_of (sc_Ports ?n)"
    if "sound h ?n now x" for x
    using anatomy_cong [of "vs_ports x" "sc_Ports ?n"] that by (auto simp: sound_def fun_eq_iff)
  have "\<forall>em \<in> set (vs_emissions s'). leaves_well (vs_ports s') em" if "switch_call now e s = Some s'"
  proof -
    have x: "sound h ?n now s'"
      using call_runs [OF s, of e] that by (simp add: runs_def)
    then have "\<forall>em \<in> set (vs_emissions s'). leaves_well (sc_Ports ?n) em"
      by (simp add: sound_def)
    then show ?thesis
      by (simp add: leaves_well_def same [OF x])
  qed
  moreover have "copies_well (vs_ports s') r" if "switch_Receive now ingress f s = Some (r, s')"
  proof -
    have x: "sound h ?n now s'" "copies_well (sc_Ports ?n) r"
      using receive_runs [OF s, of ingress f] that by (simp_all add: runs_def forward_ok_def)
    then show ?thesis
      by (simp add: copies_well_def same [OF x(1)])
  qed
  ultimately show ?thesis
    by blast
qed

theorem leaves_by_members_witness:
  "\<exists>r s'. switch_Receive second ''c'' (br_frame 1 2) hx_new = Some (r, s') \<and> copies_well (vs_ports s') r \<and>
     map (\<lambda>e. (eg_Port e, eg_Member e)) (res_Egress r) = [(''bond'', ''a'')]"
proof -
  have "map_option (\<lambda>(r, s). map (\<lambda>e. (eg_Port e, eg_Member e)) (res_Egress r))
      (switch_Receive second ''c'' (br_frame 1 2) hx_new) = Some [(''bond'', ''a'')]"
    by code_simp
  then obtain r s' where r: "switch_Receive second ''c'' (br_frame 1 2) hx_new = Some (r, s')"
    "map (\<lambda>e. (eg_Port e, eg_Member e)) (res_Egress r) = [(''bond'', ''a'')]"
    by auto
  then show ?thesis
    using leaves_by_members [OF hx_new_reachable, of second Wakes s' "''c''" "br_frame 1 2" r] by auto
qed

section \<open>The gates\<close>

text \<open>
  C4: one forwarding decision obeys every layer at once. A copy that the relay of a switch sends on never
  goes back to the port the frame came from; its port is up, no member of a group, carries the frame's VLAN, is
  forwarding in the spanning tree of that VLAN and is not taken out of service by loop protection, as
  the layers stand when the call ends.
\<close>

theorem copies_gated:
  assumes "switch_reachable h speeds c seeds t s" "t \<le> now" "vs_bridge s \<noteq> None"
    and "switch_Receive now ingress f s = Some (r, s')" "e \<in> set (res_Egress r)" "eg_Dropped e = NotDropped"
  shows "eg_Port e \<noteq> res_Ingress r \<and>
    (\<exists>p. Table_Port (vs_ports s') (eg_Port e) = Some p \<and> pt_LagParent p = '''' \<and> port_Forwards p) \<and>
    (\<forall>b. vs_bridge s' = Some b \<longrightarrow> carriesVID b (eg_Port e) (res_FID r)) \<and>
    (\<forall>l. vs_stp s' = Some l \<longrightarrow> Forwards l (eg_Port e) (res_FID r)) \<and>
    (\<forall>l. vs_loop s' = Some l \<longrightarrow> loop_Forwards l (eg_Port e) (res_FID r))"
proof -
  let ?n = "the (switch_Normalize c)"
  obtain s0 where s0: "advance_layers now (begin_call s) = Some s0" "forward now ingress f True s0 = Some (r, s')"
    using assms(4) by (auto simp: switch_Receive_def split: bind_splits)
  have sound0: "sound h ?n now s" "sound h ?n now s0"
    using advance_runs [OF sound_begin [OF sound_later [OF switch_reachable_sound [OF assms(1)] assms(2)]]] s0(1)
      sound_later [OF switch_reachable_sound [OF assms(1)] assms(2)] by (simp_all add: runs_def)
  have "vs_bridge s0 \<noteq> None"
    using sound_relay [OF sound0(1)] sound_bridge [OF sound0(2)] assms(3) by (metis option.exhaust option.simps(3))
  from forward_relayed [OF sound0(2) this s0(2)] obtain i s1 where
    "sound h ?n now s1" "relay_egress i f s1 = Some (r, s')"
    using assms(5) by (metis empty_iff empty_set)
  from relay_sent [OF this assms(5,6)] show ?thesis
    by blast
qed

theorem copies_gated_witness:
  "\<exists>r s' e l. switch_Receive (2 * second) ''c'' (br_frame 1 2) sx_on = Some (r, s') \<and> e \<in> set (res_Egress r) \<and>
     eg_Port e = ''d'' \<and> vs_stp s' = Some l \<and> Forwards l ''d'' 0"
proof -
  have "map_option (\<lambda>(r, s). (res_FID r, map (\<lambda>e. (eg_Port e, eg_Dropped e = NotDropped)) (res_Egress r), vs_stp s = None))
      (switch_Receive (2 * second) ''c'' (br_frame 1 2) sx_on) = Some (0, [(''d'', True)], False)"
    by code_simp
  then obtain r s' e where r: "switch_Receive (2 * second) ''c'' (br_frame 1 2) sx_on = Some (r, s')"
    "res_Egress r = [e]" "eg_Port e = ''d''" "eg_Dropped e = NotDropped" "res_FID r = 0" "vs_stp s' \<noteq> None"
    by (auto simp: map_eq_Cons_conv)
  have "vs_bridge sx_on \<noteq> None"
    using switch_reachable_sound [OF sx_on_reachable]
    by (auto simp: sound_def switch_Normalize_def sx_config_def assign_mac_def Let_def option_rel_Some1)
  then show ?thesis
    using copies_gated [OF sx_on_reachable _ _ r(1), of e] r by auto
qed

section \<open>Looking without touching\<close>

text \<open>
  C17: \<^verbatim>\<open>Peek\<close> is a dry run. It leaves the switch as it was: configuration, port table, layers, counters,
  choices of the groups and seeds are the same, it emits no frame, and the relay, once bound to the
  layers as the next call binds it, is the relay from before.
\<close>

theorem peek_changes_nothing:
  assumes "switch_reachable h speeds c seeds t s" "t \<le> now" "switch_Peek now ingress f s = Some (r, s')"
  shows "s' = s\<lparr>vs_bridge := vs_bridge s', vs_emissions := []\<rparr> \<and>
    map_option (live_bridge s) (vs_bridge s') = map_option (live_bridge s) (vs_bridge s)"
proof -
  have "sound h (the (switch_Normalize c)) now (begin_call s)"
    using sound_begin sound_later [OF switch_reachable_sound [OF assms(1)] assms(2)] .
  from forward_unchanged [OF this] assms(3) have u: "unchanged (begin_call s) s'"
    by (simp add: switch_Peek_def)
  moreover have "live_bridge (begin_call s) = live_bridge s"
    by (rule live_layers) (simp_all add: begin_call_def)
  ultimately show ?thesis
    by (cases s; cases s') (simp add: unchanged_def begin_call_def)
qed

theorem peek_changes_nothing_witness:
  "\<exists>r s'. switch_Peek second ''c'' (br_frame 1 2) hx_new = Some (r, s') \<and> vs_lag s' = vs_lag hx_new \<and> res_Egress r \<noteq> []"
proof -
  have "map_option (\<lambda>(r, s). length (res_Egress r)) (switch_Peek second ''c'' (br_frame 1 2) hx_new) = Some 1"
    by code_simp
  then obtain r s' where r: "switch_Peek second ''c'' (br_frame 1 2) hx_new = Some (r, s')" "res_Egress r \<noteq> []"
    by (auto simp: length_Suc_conv)
  have "vs_lag (hx_new\<lparr>vs_bridge := b, vs_emissions := []\<rparr>) = vs_lag hx_new" for b
    by simp
  then show ?thesis
    using peek_changes_nothing [OF hx_new_reachable _ r(1)] r by (metis order_less_imp_le zero_less_numeral)
qed

section \<open>Probes on the wire\<close>

text \<open>
  C18: a probe on the wire is honest, and leaves only where a frame would. When a timer call of the switch
  comes to loop protection, after the spanning tree and the groups, every frame it emits decodes to a probe
  that names this switch and the port it leaves by; that port is up, carries the VLAN the probe names, and the
  spanning tree forwards that VLAN over it, so a port the tree blocks cannot report a loop the tree has broken.
\<close>

theorem probes_honest:
  assumes "switch_reachable h speeds c seeds t s" "t \<le> now"
    and "stp_call now (Advance now) (begin_call s) = Some s1" "lag_advance now s1 = Some s2"
    and "loop_call_switch now (loop_Advance now) s2 = Some s3"
    and "e \<in> set (drop (length (vs_emissions s2)) (vs_emissions s3))"
  shows "\<exists>p. Decode_probe (so_Frame e) = Some (Inr p) \<and> so_slot e = SlotLoopProtect \<and>
    pb_OriginMAC p = sc_MAC (vs_cfg s) \<and> pb_Port p = so_Port e \<and>
    (\<exists>q. Table_Port (vs_ports s3) (so_Port e) = Some q \<and> port_Forwards q) \<and>
    (\<forall>l. vs_stp s3 = Some l \<longrightarrow> Forwards l (so_Port e) (pb_VID p)) \<and>
    (\<forall>b. vs_bridge s3 = Some b \<longrightarrow> carriesVID b (so_Port e) (pb_VID p))"
proof -
  let ?n = "the (switch_Normalize c)"
  have s: "sound h ?n now s"
    by (rule sound_later [OF switch_reachable_sound [OF assms(1)] assms(2)])
  have "sound h ?n now s1"
    using stp_call_runs [OF sound_begin [OF s], of "Advance now" "EvAdvance now" now] assms(3) by (simp add: runs_def)
  then have "sound h ?n now s2"
    using lag_advance_runs assms(4) by (fastforce simp: runs_def)
  from loop_step_left [OF this assms(5,6)] show ?thesis
    unfolding sound_cfg [OF s] by metis
qed

theorem probes_honest_witness:
  "\<exists>s1 s2 s3 e p. stp_call (6 * second) (Advance (6 * second)) (begin_call sx_on) = Some s1 \<and>
     lag_advance (6 * second) s1 = Some s2 \<and> loop_call_switch (6 * second) (loop_Advance (6 * second)) s2 = Some s3 \<and>
     e \<in> set (vs_emissions s3) \<and> Decode_probe (so_Frame e) = Some (Inr p) \<and> pb_Port p = so_Port e"
proof -
  have "Option.bind (stp_call (6 * second) (Advance (6 * second)) (begin_call sx_on)) (\<lambda>s1.
      Option.bind (lag_advance (6 * second) s1) (\<lambda>s2.
      map_option (\<lambda>s3. length (drop (length (vs_emissions s2)) (vs_emissions s3)))
        (loop_call_switch (6 * second) (loop_Advance (6 * second)) s2))) = Some 1"
    by code_simp
  then obtain s1 s2 s3 where s: "stp_call (6 * second) (Advance (6 * second)) (begin_call sx_on) = Some s1"
    "lag_advance (6 * second) s1 = Some s2" "loop_call_switch (6 * second) (loop_Advance (6 * second)) s2 = Some s3"
    "length (drop (length (vs_emissions s2)) (vs_emissions s3)) = 1"
    by (auto split: bind_splits simp del: length_drop)
  then obtain e where e: "e \<in> set (drop (length (vs_emissions s2)) (vs_emissions s3))"
    by (cases "drop (length (vs_emissions s2)) (vs_emissions s3)") auto
  show ?thesis
    using probes_honest [OF sx_on_reachable _ s(1-3) e] s(1-3) in_set_dropD [OF e] by auto
qed

end
