(* ===== verification/Spec2Isabelle.thy ===== *)
theory Spec2Isabelle
  imports Stp_Properties Stp_Flush Stp_Wake Stp_Wire Bpdu_Properties Bridge_Properties Bridge_Stp
    Packet_Properties Lag_Properties Loop_Properties Switch_Properties
begin

text \<open>
  A verification library for the switch of the FlowSeer network simulator (\<^verbatim>\<open>src/common/sim\<close>) and
  the packet codecs it is built on (\<^verbatim>\<open>src/common/net\<close>): the spanning tree layer, the MAC relay, the
  link aggregation layer, loop protection, the port table they share, the codecs of the frames they
  exchange, and the switch that composes them.

  \<^bold>\<open>The program.\<close> A simulated switch (\<^verbatim>\<open>sim/device/vswitch\<close>) owns a port table and a set of
  layers. Each layer is a deterministic state machine without I/O: it is told the time and what
  happened (a link changed, a frame arrived, time passed), changes its state and answers effects,
  that is frames to emit, learned addresses to flush and groups whose membership changed. The
  spanning tree layer (\<^verbatim>\<open>sim/layer/stp\<close>) decides which ports forward in which VLAN and is installed
  in the relay as a gate; the link aggregation layer (\<^verbatim>\<open>sim/layer/lag\<close>) decides which members of a
  group carry traffic and is installed in the relay as a selector; loop protection
  (\<^verbatim>\<open>sim/layer/loopprotect\<close>) sends probes, takes a port out of service when its probe comes back, and is
  a second gate; the relay (\<^verbatim>\<open>sim/layer/bridge\<close>) learns addresses, classifies frames into VLANs and
  decides where they leave. The switch takes the protocol frames before the relay sees them, carries the
  effects of one layer to the others and drives their timers.

  \<^bold>\<open>How the model reads.\<close> A struct is a record with the fields of the code (prefixed by a
  letter or two of its name), an enumeration a datatype with a constructor for the values
  \<^verbatim>\<open>Validate\<close> refuses, a machine integer a word of its width. A function is a definition of the same
  name, with a prefix where two packages share it (\<^verbatim>\<open>lag_Receive\<close>, \<^verbatim>\<open>ip_Decode\<close>). A method that
  changes its receiver takes the state last and answers it; a map of pointers is an association
  list that is updated in place; the order in which Go ranges over a map never matters to what is
  modelled, because the code sorts the keys or the loop commutes. Instants and durations are
  integers of nanoseconds with 0 for the zero time; additions of instants do not overflow there,
  and where the code relies on the saturation of \<^verbatim>\<open>time.Sub\<close> the model has it (\<^verbatim>\<open>Bridge_Fdb\<close>). An
  error is the left side of a sum. An index or slice out of range is \<^verbatim>\<open>None\<close> of an option, so that
  panics are values and their absence is proved, not assumed. Trace steps, error texts and
  \<^verbatim>\<open>String\<close>/\<^verbatim>\<open>Canonical\<close> renderings are left out.

  \<^bold>\<open>Shared theories.\<close> \<^verbatim>\<open>Prelude\<close> (machine types, maps, octets), \<^verbatim>\<open>Net\<close> (MAC addresses, VLAN
  identifiers, frames), \<^verbatim>\<open>Bytes\<close> (slices with their panics), \<^verbatim>\<open>Ports\<close> and \<^verbatim>\<open>Port_Facts\<close> (the port table
  of \<^verbatim>\<open>sim/port\<close>, its builder and its well-formedness), \<^verbatim>\<open>Effects\<close> (\<^verbatim>\<open>sim/layer/layer.go\<close>, flush lists
  and what they cover). Two interfaces are locales: \<^verbatim>\<open>Scans.best_scan\<close>, a scan that keeps the best
  element so far, interpreted for the election of the root port, the wake-ups of two layers and the
  eviction of a database entry; and \<^verbatim>\<open>Transitions.invariant\<close> with \<^verbatim>\<open>invariant_on\<close>, a property that holds
  initially and is kept by every step, interpreted for the spanning tree layer, the relay, link
  aggregation, loop protection and the switch. Reachability is the inductive predicate \<^verbatim>\<open>reach\<close> over each component's own step
  relation (\<^verbatim>\<open>stp_reachable\<close>, \<^verbatim>\<open>bridge_reachable\<close>, \<^verbatim>\<open>lag_reachable\<close>, \<^verbatim>\<open>loop_reachable\<close>, \<^verbatim>\<open>switch_reachable\<close>),
  from what \<^verbatim>\<open>New\<close> returns over a table the port builder made; of loop protection and of the switch a
  state comes with the time of its last call, which never goes back.

  \<^bold>\<open>Spanning tree.\<close> \<^verbatim>\<open>Stp_Config\<close> is \<^verbatim>\<open>config.go\<close>, \<^verbatim>\<open>mst.go\<close> and \<^verbatim>\<open>pvst.go\<close>; \<^verbatim>\<open>Stp_Vector\<close> is
  \<^verbatim>\<open>vector.go\<close>; \<^verbatim>\<open>Stp_State\<close> and \<^verbatim>\<open>Stp_Timers\<close> are \<^verbatim>\<open>state.go\<close>, \<^verbatim>\<open>tree.go\<close>, \<^verbatim>\<open>portstate.go\<close> and the records of
  \<^verbatim>\<open>layer.go\<close>; \<^verbatim>\<open>Stp_Topology\<close>, \<^verbatim>\<open>Stp_Roles\<close>, \<^verbatim>\<open>Stp_Transmit\<close>, \<^verbatim>\<open>Stp_Link\<close>, \<^verbatim>\<open>Stp_Receive\<close> and \<^verbatim>\<open>Stp_Advance\<close>
  are the files of those names (with the accessors of \<^verbatim>\<open>info.go\<close>); \<^verbatim>\<open>Stp_New\<close> is construction in the
  three modes RSTP, MSTP and PVST. The digest of an MST configuration is a parameter of the model:
  HMAC-MD5 is library code, and all that is used of it is that it has 16 octets. \<^verbatim>\<open>Stp_Election\<close>
  shows that the election is the minimum of the candidate vectors; \<^verbatim>\<open>Stp_Settled\<close> what a
  recomputation establishes (\<^verbatim>\<open>port_ok\<close>); \<^verbatim>\<open>Stp_Reach\<close> the transition system and its invariant;
  \<^verbatim>\<open>Stp_Quiet\<close>, \<^verbatim>\<open>Stp_Wake\<close> and \<^verbatim>\<open>Stp_Wire\<close> the transmit budget, the contract of \<^verbatim>\<open>NextWake\<close> and what is
  sent; \<^verbatim>\<open>Stp_Flush\<close> flush lists. The hello loop of \<^verbatim>\<open>Advance\<close> is written as it stands, as a partial
  function: that it returns needs a positive hello time, which every valid configuration has and
  every state keeps.

  \<^bold>\<open>The relay.\<close> \<^verbatim>\<open>Bridge_Config\<close>, \<^verbatim>\<open>Bridge_Fdb\<close>, \<^verbatim>\<open>Bridge_Ingress\<close> and \<^verbatim>\<open>Bridge_Egress\<close> are the files
  of \<^verbatim>\<open>sim/layer/bridge\<close>. \<^verbatim>\<open>Bridge_Table\<close> reads the forwarding database as an abstract table from
  pairs of a VLAN and an address to entries and says what each operation does to it;
  \<^verbatim>\<open>Bridge_Forward\<close> has the specification \<^verbatim>\<open>may_send\<close> of the ports a frame may leave by and relates
  every decision to it; \<^verbatim>\<open>Bridge_Run\<close> is the transition system. \<^verbatim>\<open>Bridge_Stp\<close> puts the spanning tree
  and the relay together.

  \<^bold>\<open>Link aggregation.\<close> \<^verbatim>\<open>Lag_Config\<close> is \<^verbatim>\<open>config.go\<close>; \<^verbatim>\<open>Lag_State\<close> the records, the receive and
  periodic machines of a member (\<^verbatim>\<open>lacp.go\<close>, \<^verbatim>\<open>transmit.go\<close>); \<^verbatim>\<open>Lag_Mux\<close> the update of a group
  (\<^verbatim>\<open>updateLag\<close>: selection, attachment, collecting and distributing, the static case); \<^verbatim>\<open>Lag_Select\<close>
  is \<^verbatim>\<open>hash.go\<close> and the choice of a member; \<^verbatim>\<open>Lag_Events\<close> the calls of \<^verbatim>\<open>layer.go\<close> and \<^verbatim>\<open>marker.go\<close>. A
  group is sound (\<^verbatim>\<open>group_ok\<close>) when its list of enabled members agrees with its members, each of
  which is in order, and all selected members share a partner; \<^verbatim>\<open>Lag_Update\<close> proves that an update
  makes a group sound whatever state it was in, \<^verbatim>\<open>Lag_Settle\<close> that it leaves the other groups as
  they are, \<^verbatim>\<open>Lag_Run\<close> and \<^verbatim>\<open>Lag_Reach\<close> that every call leaves every group sound. The loop over a
  receive timer is a partial function, and returns because a running timer belongs to a member
  that is current or expired (\<^verbatim>\<open>timers_ok\<close>). \<^verbatim>\<open>Lag_Due\<close> says what \<^verbatim>\<open>Advance\<close> leaves, \<^verbatim>\<open>Lag_Choice\<close> that a
  flow keeps its member, \<^verbatim>\<open>Lag_Rate\<close> bounds the LACPDUs of a second, and \<^verbatim>\<open>Lag_Bridge\<close> puts the layer
  under the relay.

  \<^bold>\<open>Loop protection.\<close> \<^verbatim>\<open>Loop_Probe\<close> is \<^verbatim>\<open>probe.go\<close>; \<^verbatim>\<open>Loop_Layer\<close> is \<^verbatim>\<open>config.go\<close> and \<^verbatim>\<open>layer.go\<close>, whose
  calls \<^verbatim>\<open>Loop_Run\<close> puts in a transition system that it follows port by port. \<^verbatim>\<open>Loop_Reach\<close> has the
  invariant (\<^verbatim>\<open>loop_inv\<close>: a recovery window is pending exactly while a timed action is applied, and is no
  longer than its duration), the wake-ups and the cadence, and \<^verbatim>\<open>Loop_Properties\<close> has what the layer promises: a port out of service stays out
  until something releases it (\<^verbatim>\<open>loop_contained\<close>), and a driver that wakes the layer when it asks sees it
  come back (\<^verbatim>\<open>action_lifted\<close>).

  \<^bold>\<open>The switch.\<close> \<^verbatim>\<open>Switch_Config\<close> is \<^verbatim>\<open>config.go\<close> of \<^verbatim>\<open>sim/device/vswitch\<close> with the checks that need
  two layers; \<^verbatim>\<open>Switch\<close> the state, construction (\<^verbatim>\<open>switch.go\<close>, \<^verbatim>\<open>spec.go\<close>), the bindings and timers
  (\<^verbatim>\<open>layers.go\<close>, \<^verbatim>\<open>timers.go\<close>) and link changes (\<^verbatim>\<open>link.go\<close>); \<^verbatim>\<open>Switch_Forward\<close> the path of a frame
  (\<^verbatim>\<open>forward.go\<close>, \<^verbatim>\<open>intercept.go\<close>, \<^verbatim>\<open>hub.go\<close>, \<^verbatim>\<open>output.go\<close>). The relay of the code holds pointers to the
  other layers and sees their present state; here it is bound to that state before it is called
  (\<^verbatim>\<open>live_bridge\<close>). Every operation of the switch is an option whose \<^verbatim>\<open>None\<close> is a panic or a loop without
  end. \<^verbatim>\<open>Switch_Reach\<close> has the invariant \<^verbatim>\<open>sound\<close>: every layer is in a state it reaches on its own, the
  relay shares the port table, whose rows keep their names, kinds and groups (\<^verbatim>\<open>anatomy\<close>), and what is
  emitted by a group names a member of it. An operation \<^verbatim>\<open>runs\<close> when it answers and keeps a predicate;
  \<^verbatim>\<open>Switch_Runs\<close> shows it of every operation, calls of one layer that cause calls of another included,
  and \<^verbatim>\<open>Switch_Run\<close> of every call of the device. \<^verbatim>\<open>Switch_Quiet\<close> follows \<^verbatim>\<open>Peek\<close> and the path of a relayed
  frame, \<^verbatim>\<open>Switch_Probes\<close> the probes of a timer call, and \<^verbatim>\<open>Switch_Properties\<close> has what the switch
  promises. The speeds the physical layer resolves are a parameter.

  \<^bold>\<open>Codecs.\<close> \<^verbatim>\<open>Bpdu\<close> and \<^verbatim>\<open>Bpdu_Codec\<close> (\<^verbatim>\<open>net/bpdu\<close>: both wire forms), \<^verbatim>\<open>Ip\<close> and \<^verbatim>\<open>Ip_Codec\<close> (\<^verbatim>\<open>net/ip\<close>),
  \<^verbatim>\<open>Lacp\<close> (\<^verbatim>\<open>net/lacp\<close> with the marker responder). Each has a round trip in both directions where the
  code has both, up to a wire form that says what the wire cannot carry, and a proof that no input
  makes it panic.

  \<^bold>\<open>Examples.\<close> \<^verbatim>\<open>Stp_Example\<close>, \<^verbatim>\<open>Lag_Example\<close> and the first sections of \<^verbatim>\<open>Bridge_Properties\<close>,
  \<^verbatim>\<open>Bridge_Stp\<close>, \<^verbatim>\<open>Loop_Properties\<close> and \<^verbatim>\<open>Switch_Properties\<close> hold small switches the witnesses evaluate.

  \<^bold>\<open>Not modelled.\<close> The facts and diffs of the layers (\<^verbatim>\<open>fact.go\<close>, \<^verbatim>\<open>diff.go\<close>) only report.
  Copies (\<^verbatim>\<open>Clone\<close>) are the identity on values, and retention keys only say when a copy may be kept.
  The other layers (filter, multicast snooping, physical, routing, traffic with its mirrors and
  policers) are not modelled, and the switch is one that has none of them; nor are its derivation from
  another switch (\<^verbatim>\<open>derive.go\<close>, \<^verbatim>\<open>fork.go\<close>, \<^verbatim>\<open>retention.go\<close>), which copies layers whole, its reports
  (\<^verbatim>\<open>inspect.go\<close>, \<^verbatim>\<open>issues.go\<close>, \<^verbatim>\<open>compare.go\<close>) and the other codecs. The simulation engine, the edge agent, the services
  and the protocol clients are I/O and plumbing around them; the YANG and protobuf bindings are
  generated.
\<close>

end
